(* ===== verification/Prelude.thy ===== *)
theory Prelude
  imports Main "HOL-Library.Word" "HOL-Library.Multiset"
begin

unbundle bit_operations_syntax

text \<open>
  Shared vocabulary of the development: the machine integers and byte strings of the C sources
  (32-bit little-endian target, so \<open>size_t\<close> and \<open>unsigned long\<close> are 32 bits wide), bounded
  access to buffers with out-of-range access as an error value, C strings, network byte order, and
  the list and word lemmas that the component theories share. The collections are \<open>cmem\<close> for
  buffer access, \<open>netorder\<close> for the byte-order conversions and \<open>cstring\<close> for C strings.
\<close>

named_theorems cmem
named_theorems netorder
named_theorems cstring

section \<open>Machine integers, bytes and error values\<close>

type_synonym u8 = "8 word"
type_synonym u16 = "16 word"
type_synonym u32 = "32 word"
type_synonym u64 = "64 word"
type_synonym bytes = "u8 list"

text \<open>
  The two ways in which a C routine of the sources can end without a result: it returns its
  failure code, or it touches memory outside the object it was given.
\<close>

datatype cerr = Fail | OutOfBounds

type_synonym 'a res = "cerr + 'a"

text \<open>Sequencing of routines that can fail.\<close>

fun bindr :: "'a res \<Rightarrow> ('a \<Rightarrow> 'b res) \<Rightarrow> 'b res" where
  "bindr (Inl e) f = Inl e"
| "bindr (Inr x) f = f x"

lemma bindr_eq_Inr: "bindr r f = Inr y \<longleftrightarrow> (\<exists>x. r = Inr x \<and> f x = Inr y)"
  by (cases r) auto

lemma bindr_eq_Inl: "bindr r f = Inl e \<longleftrightarrow> r = Inl e \<or> (\<exists>x. r = Inr x \<and> f x = Inl e)"
  by (cases r) auto

text \<open>Routines that stay inside the memory they are given; the rules are in the collection \<open>safe\<close>.\<close>

named_theorems safe

definition in_bounds :: "'a res \<Rightarrow> bool" where
  "in_bounds r \<longleftrightarrow> r \<noteq> Inl OutOfBounds"

lemma in_bounds_Inr [safe, simp]: "in_bounds (Inr x)"
  by (simp add: in_bounds_def)

lemma in_bounds_Fail [safe, simp]: "in_bounds (Inl Fail)"
  by (simp add: in_bounds_def)

lemma in_bounds_bindr [safe]: "in_bounds r \<Longrightarrow> (\<And>x. r = Inr x \<Longrightarrow> in_bounds (f x)) \<Longrightarrow> in_bounds (bindr r f)"
  by (cases r) (auto simp: in_bounds_def)

section \<open>Buffers\<close>

text \<open>\<open>memcpy\<close> out of and into a buffer, refused when the range leaves the buffer.\<close>

definition rd :: "'a list \<Rightarrow> nat \<Rightarrow> nat \<Rightarrow> 'a list option" where
  "rd buf off n = (if off + n \<le> length buf then Some (take n (drop off buf)) else None)"

definition wr :: "'a list \<Rightarrow> nat \<Rightarrow> 'a list \<Rightarrow> 'a list option" where
  "wr buf off xs =
     (if off + length xs \<le> length buf
      then Some (take off buf @ xs @ drop (off + length xs) buf) else None)"

lemma rd_length [cmem]: "rd buf off n = Some xs \<Longrightarrow> length xs = n"
  by (auto simp: rd_def split: if_splits)

lemma rd_SomeD: "rd buf off n = Some xs \<Longrightarrow> off + n \<le> length buf \<and> xs = take n (drop off buf)"
  by (auto simp: rd_def split: if_splits)

lemma rd_ok [cmem]: "off + n \<le> length buf \<Longrightarrow> rd buf off n = Some (take n (drop off buf))"
  by (simp add: rd_def)

lemma rd_append_left [cmem]: "off + n \<le> length xs \<Longrightarrow> rd (xs @ ys) off n = rd xs off n"
  by (simp add: rd_def)

lemma rd_at [cmem]:
  "off = length xs \<Longrightarrow> n = length ys \<Longrightarrow> rd (xs @ ys @ zs) off n = Some ys"
  by (simp add: rd_def)

lemma wr_length [cmem]: "wr buf off xs = Some buf' \<Longrightarrow> length buf' = length buf"
  by (auto simp: wr_def split: if_splits)

lemma wr_SomeD:
  "wr buf off xs = Some buf' \<Longrightarrow>
     off + length xs \<le> length buf \<and> buf' = take off buf @ xs @ drop (off + length xs) buf"
  by (auto simp: wr_def split: if_splits)

lemma wr_ok [cmem]:
  "off + length xs \<le> length buf \<Longrightarrow>
     wr buf off xs = Some (take off buf @ xs @ drop (off + length xs) buf)"
  by (simp add: wr_def)

lemma wr_at [cmem]:
  "off = length xs \<Longrightarrow> length zs = length ys \<Longrightarrow> wr (xs @ ys @ ws) off zs = Some (xs @ zs @ ws)"
  by (simp add: wr_def)

text \<open>Reading back the range just written gives what was written.\<close>

lemma rd_wr [cmem]: "wr buf off xs = Some buf' \<Longrightarrow> rd buf' off (length xs) = Some xs"
  by (auto simp: wr_def rd_def split: if_splits)

text \<open>A read whose result is needed: leaving the object is an error.\<close>

definition getr :: "'a list \<Rightarrow> nat \<Rightarrow> nat \<Rightarrow> 'a list res" where
  "getr buf off n = (case rd buf off n of None \<Rightarrow> Inl OutOfBounds | Some xs \<Rightarrow> Inr xs)"

lemma getr_ok [cmem]: "off + n \<le> length buf \<Longrightarrow> getr buf off n = Inr (take n (drop off buf))"
  by (simp add: getr_def rd_def)

lemma in_bounds_getr [safe]: "off + n \<le> length buf \<Longrightarrow> in_bounds (getr buf off n)"
  by (simp add: getr_ok)

lemma getr_eq_Inr: "getr buf off n = Inr xs \<longleftrightarrow> off + n \<le> length buf \<and> xs = take n (drop off buf)"
  by (auto simp: getr_def rd_def)

lemma getr_eq_Inl: "getr buf off n = Inl e \<longleftrightarrow> length buf < off + n \<and> e = OutOfBounds"
  by (auto simp: getr_def rd_def)

text \<open>A copy into a buffer whose range is known to lie inside it.\<close>

definition blit :: "'a list \<Rightarrow> nat \<Rightarrow> 'a list \<Rightarrow> 'a list" where
  "blit buf off xs = take off buf @ xs @ drop (off + length xs) buf"

lemma length_blit [cmem]: "off + length xs \<le> length buf \<Longrightarrow> length (blit buf off xs) = length buf"
  by (simp add: blit_def)

lemma take_blit [cmem]: "off \<le> length buf \<Longrightarrow> take (off + length xs) (blit buf off xs) = take off buf @ xs"
  by (simp add: blit_def)

lemma blit_full [cmem]: "off + length xs = length buf \<Longrightarrow> blit buf off xs = take off buf @ xs"
  by (simp add: blit_def)

lemma blit_blit:
  "off + length xs \<le> length buf \<Longrightarrow> off' = off + length xs \<Longrightarrow>
     blit (blit buf off xs) off' ys = blit buf off (xs @ ys)"
  by (simp add: blit_def ac_simps)

lemma blit_wr [cmem]: "off + length xs \<le> length buf \<Longrightarrow> wr buf off xs = Some (blit buf off xs)"
  by (simp add: wr_def blit_def)

section \<open>C strings\<close>

text \<open>A C string is the content of a character array up to its first zero byte.\<close>

definition cstr :: "bytes \<Rightarrow> bytes" where
  "cstr bs = takeWhile (\<lambda>b. b \<noteq> 0) bs"

abbreviation ascii :: "string \<Rightarrow> bytes" where
  "ascii s \<equiv> map of_char s"

text \<open>Zero-free byte lists are exactly the values a C string can take.\<close>

definition zero_free :: "bytes \<Rightarrow> bool" where
  "zero_free bs \<longleftrightarrow> (\<forall>b \<in> set bs. b \<noteq> 0)"

lemma cstr_zero_free [cstring, simp]: "zero_free (cstr bs)"
  by (auto simp: cstr_def zero_free_def dest: set_takeWhileD)

lemma cstr_id [cstring]: "zero_free bs \<Longrightarrow> cstr bs = bs"
  by (simp add: cstr_def zero_free_def takeWhile_eq_all_conv)

lemma cstr_idem [cstring, simp]: "cstr (cstr bs) = cstr bs"
  by (simp add: cstr_id)

lemma cstr_terminated [cstring]: "zero_free bs \<Longrightarrow> cstr (bs @ 0 # ys) = bs"
  by (simp add: cstr_def zero_free_def takeWhile_append2)

lemma length_cstr_le [cstring]: "length (cstr bs) \<le> length bs"
  by (simp add: cstr_def length_takeWhile_le)

lemma cstr_Nil [cstring, simp]: "cstr [] = []"
  by (simp add: cstr_def)

lemma zero_free_append [cstring, simp]:
  "zero_free (xs @ ys) \<longleftrightarrow> zero_free xs \<and> zero_free ys"
  by (auto simp: zero_free_def)

lemma zero_free_Nil [cstring, simp]: "zero_free []"
  by (simp add: zero_free_def)

lemma zero_free_Cons [cstring, simp]: "zero_free (x # xs) \<longleftrightarrow> x \<noteq> 0 \<and> zero_free xs"
  by (simp add: zero_free_def)

lemma zero_free_take [cstring]: "zero_free xs \<Longrightarrow> zero_free (take n xs)"
  by (auto simp: zero_free_def dest: in_set_takeD)

section \<open>Network byte order\<close>

text \<open>
  \<open>htons\<close>, \<open>htonl\<close> and \<open>htonll\<close> followed by a copy into a packet, and the matching reads: the
  most significant byte comes first.
\<close>

definition put16 :: "u16 \<Rightarrow> bytes" where
  "put16 w = [ucast (drop_bit 8 w), ucast w]"

definition get16 :: "bytes \<Rightarrow> u16" where
  "get16 bs = push_bit 8 (ucast (bs ! 0)) OR ucast (bs ! 1)"

definition put32 :: "u32 \<Rightarrow> bytes" where
  "put32 w = [ucast (drop_bit 24 w), ucast (drop_bit 16 w), ucast (drop_bit 8 w), ucast w]"

definition get32 :: "bytes \<Rightarrow> u32" where
  "get32 bs = push_bit 24 (ucast (bs ! 0)) OR push_bit 16 (ucast (bs ! 1))
     OR push_bit 8 (ucast (bs ! 2)) OR ucast (bs ! 3)"

definition put64 :: "u64 \<Rightarrow> bytes" where
  "put64 w = put32 (ucast (drop_bit 32 w)) @ put32 (ucast w)"

definition get64 :: "bytes \<Rightarrow> u64" where
  "get64 bs = push_bit 32 (ucast (get32 (take 4 bs))) OR ucast (get32 (drop 4 bs))"

text \<open>The little-endian stores of the hash functions.\<close>

definition put32le :: "u32 \<Rightarrow> bytes" where
  "put32le w = [ucast w, ucast (drop_bit 8 w), ucast (drop_bit 16 w), ucast (drop_bit 24 w)]"

definition get32le :: "bytes \<Rightarrow> u32" where
  "get32le bs = ucast (bs ! 0) OR push_bit 8 (ucast (bs ! 1))
     OR push_bit 16 (ucast (bs ! 2)) OR push_bit 24 (ucast (bs ! 3))"

lemma bit_word_ge [simp]: "LENGTH('a::len) \<le> n \<Longrightarrow> \<not> bit (w :: 'a word) n"
  by (meson bit_imp_le_length leD)

lemma word_xor_eq_0_iff [simp]: "(a :: 'a::len word) XOR b = 0 \<longleftrightarrow> a = b"
  by (auto simp: bit_eq_iff bit_simps)

lemma word_xor_cancel [simp]:
  "(a :: 'a::len word) XOR c = b XOR c \<longleftrightarrow> a = b"
  "c XOR (a :: 'a::len word) = c XOR b \<longleftrightarrow> a = b"
  by (auto simp: bit_eq_iff bit_simps)

lemma word_xor_twice [simp]: "((a :: 'a::len word) XOR c) XOR c = a"
  by (rule bit_word_eqI) (auto simp: bit_simps)

lemma u8_bit_eqI:
  assumes "bit (a :: u8) 0 = bit b 0" "bit a (Suc 0) = bit b (Suc 0)" "bit a 2 = bit b 2" "bit a 3 = bit b 3"
    "bit a 4 = bit b 4" "bit a 5 = bit b 5" "bit a 6 = bit b 6" "bit a 7 = bit b 7"
  shows "a = b"
proof (rule bit_word_eqI)
  fix n assume "n < LENGTH(8)"
  then consider "n = 0" | "n = 1" | "n = 2" | "n = 3" | "n = 4" | "n = 5" | "n = 6" | "n = 7" by force
  then show "bit a n = bit b n" using assms by cases auto
qed

lemma unat_u8_less [simp]: "unat (b :: u8) < 256"
  using unsigned_less [of b] by simp

lemma unat_u16_less [simp]: "unat (b :: u16) < 65536"
  using unsigned_less [of b] by simp

lemma ucast_u8_inject [simp]: "(ucast (a :: u8) :: u32) = ucast b \<longleftrightarrow> a = b"
proof
  assume eq: "(ucast a :: u32) = ucast b"
  show "a = b"
  proof (rule bit_word_eqI)
    fix n assume "n < LENGTH(8)"
    with arg_cong [OF eq, of "\<lambda>w. bit w n"] show "bit a n = bit b n" by (simp add: bit_simps)
  qed
qed simp

lemma length_put16 [netorder, simp]: "length (put16 w) = 2"
  by (simp add: put16_def)

lemma length_put32 [netorder, simp]: "length (put32 w) = 4"
  by (simp add: put32_def)

lemma length_put32le [netorder, simp]: "length (put32le w) = 4"
  by (simp add: put32le_def)

lemma length_put64 [netorder, simp]: "length (put64 w) = 8"
  by (simp add: put64_def)

lemma get16_put16 [netorder, simp]: "get16 (put16 w) = w"
  by (rule bit_word_eqI) (auto simp: get16_def put16_def bit_simps)

lemma get32_put32_append [netorder, simp]: "get32 (put32 w @ xs) = w"
proof (rule bit_word_eqI)
  fix n assume "n < LENGTH(32)"
  then consider "n < 8" | "8 \<le> n" "n < 16" | "16 \<le> n" "n < 24" | "24 \<le> n" "n < 32" by force
  then show "bit (get32 (put32 w @ xs)) n = bit w n"
    by cases (auto simp: get32_def put32_def bit_simps)
qed

lemma get32_put32 [netorder, simp]: "get32 (put32 w) = w"
  using get32_put32_append [of w "[]"] by simp

lemma get64_put64 [netorder, simp]: "get64 (put64 w) = w"
  by (rule bit_word_eqI) (auto simp: get64_def put64_def bit_simps)

lemma get16_put16_append [netorder, simp]: "get16 (put16 w @ xs) = w"
  by (rule bit_word_eqI) (auto simp: get16_def put16_def bit_simps)

text \<open>Masking with \<open>2 ^ n - 1\<close> is the remainder.\<close>

lemma and_mask_u32:
  "(w :: u32) AND 0x3f = of_nat (unat w mod 64)" "w AND 0x1fffffff = of_nat (unat w mod 2 ^ 29)"
proof -
  have "w AND mask n = of_nat (unat w mod 2 ^ n)" for n
    by (simp flip: take_bit_eq_mask take_bit_eq_mod take_bit_of_nat)
  from this [of 6] this [of 29]
  show "w AND 0x3f = of_nat (unat w mod 64)" "w AND 0x1fffffff = of_nat (unat w mod 2 ^ 29)"
    by (simp_all add: mask_eq_exp_minus_1)
qed

lemma unat_and_mask6: "unat ((w :: u32) AND 0x3f) = unat w mod 64"
  by (simp add: and_mask_u32 unat_of_nat)

lemma and_ones_u32: "(w :: u32) AND 0xFFFFFFFF = w"
proof -
  have "(0xFFFFFFFF :: u32) = -1" by simp
  then show ?thesis by (metis and.right_neutral)
qed

text \<open>Rotations written with two shifts.\<close>

lemma rotl_u32:
  assumes n: "0 < n" "n < 32"
  shows "push_bit n x OR drop_bit (32 - n) x = word_rotl n (x :: u32)"
proof (rule bit_word_eqI)
  fix k assume "k < LENGTH(32)"
  then have k: "k < 32" by simp
  then have "(k + 32 - n) mod 32 = (if n \<le> k then k - n else 32 + k - n)"
    using n by (cases "n \<le> k") (simp_all add: add.commute le_mod_geq)
  moreover have "bit x (32 + k - n) \<Longrightarrow> k < n" using bit_imp_le_length [of x "32 + k - n"] by simp
  ultimately show "bit (push_bit n x OR drop_bit (32 - n) x) k = bit (word_rotl n x) k"
    using n k by (cases "n \<le> k") (auto simp: bit_simps)
qed

lemma rotr_u32:
  assumes n: "0 < n" "n < 32"
  shows "drop_bit n x OR push_bit (32 - n) x = word_rotr n (x :: u32)"
proof (rule bit_word_eqI)
  fix k assume k: "k < LENGTH(32)"
  have "(k + n) mod 32 = (if k + n < 32 then k + n else k + n - 32)"
    using n k mod_if [of "k + n" 32] by (auto simp: mod_if)
  with n k show "bit (drop_bit n x OR push_bit (32 - n) x) k = bit (word_rotr n x) k"
    by (auto simp: bit_simps add.commute)
qed

text \<open>The reads are inverse to the stores on byte lists of the right length.\<close>

lemma length_2E: "length xs = 2 \<Longrightarrow> (\<And>a b. xs = [a, b] \<Longrightarrow> P) \<Longrightarrow> P"
  by (auto simp: numeral_eq_Suc length_Suc_conv)

lemma length_4E: "length xs = 4 \<Longrightarrow> (\<And>a b c d. xs = [a, b, c, d] \<Longrightarrow> P) \<Longrightarrow> P"
  by (auto simp: numeral_eq_Suc length_Suc_conv)

lemma put16_get16 [netorder]: "length bs = 2 \<Longrightarrow> put16 (get16 bs) = bs"
  by (elim length_2E) (auto simp: put16_def get16_def bit_simps intro!: u8_bit_eqI)

lemma put32_get32 [netorder]: "length bs = 4 \<Longrightarrow> put32 (get32 bs) = bs"
  by (elim length_4E) (auto simp: put32_def get32_def bit_simps intro!: u8_bit_eqI)

lemma get32_eq_iff [netorder]: "length bs = 4 \<Longrightarrow> get32 bs = w \<longleftrightarrow> bs = put32 w"
  using put32_get32 by fastforce

end
