(* ===== verification/Const_Time.thy ===== *)
theory Const_Time
  imports Prelude
begin

text \<open>
  \<open>const_time.c\<close>: the comparison routines that look at every byte before they answer. The loop
  accumulates the differences with bitwise or, and the result is zero exactly for equal inputs.
\<close>

section \<open>The routines\<close>

definition const_time_memcmp :: "bytes \<Rightarrow> bytes \<Rightarrow> nat \<Rightarrow> u8" where
  "const_time_memcmp a b len = fold (\<lambda>i x. x OR (a ! i XOR b ! i)) [0..<len] 0"

text \<open>
  The string comparison runs until one of the strings ends. The arguments are the arrays with
  their terminator; running off an array that has none is an out-of-bounds read.
\<close>

fun const_time_strcmp_loop :: "bytes \<Rightarrow> bytes \<Rightarrow> u8 \<Rightarrow> u8 option" where
  "const_time_strcmp_loop (a # as) (b # bs) x =
     (let x' = x OR (a XOR b)
      in if a = 0 \<or> b = 0 then Some x' else const_time_strcmp_loop as bs x')"
| "const_time_strcmp_loop _ _ x = None"

definition const_time_strcmp :: "bytes \<Rightarrow> bytes \<Rightarrow> u8 option" where
  "const_time_strcmp a b = const_time_strcmp_loop a b 0"

section \<open>Correctness\<close>

lemma fold_or_eq_0_iff:
  "fold (\<lambda>i x. x OR f i) xs (x0 :: 'a::len word) = 0 \<longleftrightarrow> x0 = 0 \<and> (\<forall>i \<in> set xs. f i = 0)"
proof (induction xs arbitrary: x0)
  case (Cons i xs)
  have "x0 OR f i = 0 \<longleftrightarrow> x0 = 0 \<and> f i = 0"
    by (simp add: or_eq_0_iff)
  with Cons.IH [of "x0 OR f i"] show ?case by auto
qed simp

lemma const_time_memcmp_eq_0:
  assumes "len \<le> length a" "len \<le> length b"
  shows "const_time_memcmp a b len = 0 \<longleftrightarrow> take len a = take len b"
proof -
  have "const_time_memcmp a b len = 0 \<longleftrightarrow> (\<forall>i < len. a ! i = b ! i)"
    by (simp add: const_time_memcmp_def fold_or_eq_0_iff Ball_def)
  also have "\<dots> \<longleftrightarrow> take len a = take len b"
    using assms by (auto simp: list_eq_iff_nth_eq)
  finally show ?thesis .
qed

lemma const_time_strcmp_loop_eq:
  assumes "0 \<in> set a" "0 \<in> set b"
  shows "\<exists>y. const_time_strcmp_loop a b x = Some y \<and> (y = 0 \<longleftrightarrow> x = 0 \<and> cstr a = cstr b)"
  using assms
proof (induction a b x rule: const_time_strcmp_loop.induct)
  case (1 a as b bs x)
  have or0: "x OR (a XOR b) = 0 \<longleftrightarrow> x = 0 \<and> a = b"
    by (simp add: or_eq_0_iff)
  show ?case
  proof (cases "a = 0 \<or> b = 0")
    case True
    then show ?thesis using or0 by (auto simp: cstr_def)
  next
    case False
    with 1 obtain y where "const_time_strcmp_loop as bs (x OR (a XOR b)) = Some y"
      "y = 0 \<longleftrightarrow> x OR (a XOR b) = 0 \<and> cstr as = cstr bs" by force
    with False or0 show ?thesis by (auto simp: cstr_def)
  qed
qed auto

section \<open>Properties\<close>

text \<open>On NUL-terminated strings \<open>const_time_strcmp\<close> always returns, and the value is zero exactly
  when the two C strings are equal, although the loop stops at the end of the shorter one.\<close>

theorem const_time_strcmp_correct:
  assumes "0 \<in> set a" "0 \<in> set b"
  shows "\<exists>y. const_time_strcmp a b = Some y \<and> (y = 0 \<longleftrightarrow> cstr a = cstr b)"
  using const_time_strcmp_loop_eq [OF assms, of 0] by (simp add: const_time_strcmp_def)

theorem const_time_strcmp_correct_witness:
  "\<exists>y. const_time_strcmp [104, 105, 0] [104, 105, 0, 7] = Some y
     \<and> (y = 0 \<longleftrightarrow> cstr [104, 105, 0] = cstr [104, 105, 0, 7])"
  by (rule const_time_strcmp_correct) simp_all

end
