(* ===== verification/Crc32.thy ===== *)
theory Crc32
  imports Prelude
begin

text \<open>
  \<open>crc32.c\<close>: the table-driven CRC-32 that protects STUN messages (the FINGERPRINT attribute). The
  table is a static array that the first call fills; it is threaded here as an explicit state.
  The table-driven loop is related to the bit-serial definition of the checksum, and the checksum
  is shown to detect every change confined to one byte.
\<close>

section \<open>The routines\<close>

definition CRC32_REVERSED_POLY :: u32 where "CRC32_REVERSED_POLY = 0xEDB88320"
definition CRC32_INIT :: u32 where "CRC32_INIT = 0xFFFFFFFF"
definition CRC32_XOR :: u32 where "CRC32_XOR = 0xFFFFFFFF"

definition crc32_step :: "u32 \<Rightarrow> u32" where
  "crc32_step crc =
     (if crc AND 1 \<noteq> 0 then drop_bit 1 crc XOR CRC32_REVERSED_POLY else drop_bit 1 crc)"

definition crc32_byte :: "u32 \<Rightarrow> u32" where
  "crc32_byte crc = (crc32_step ^^ 8) crc"

definition crc32_update :: "u32 list \<Rightarrow> u32 \<Rightarrow> u8 \<Rightarrow> u32" where
  "crc32_update table crc p = table ! unat (ucast (crc AND 0xFF) XOR p) XOR drop_bit 8 crc"

definition crc32_table :: "bytes \<Rightarrow> u32 list \<Rightarrow> u32" where
  "crc32_table p table = foldl (crc32_update table) CRC32_INIT p XOR CRC32_XOR"

definition crc32_filled :: "u32 list" where
  "crc32_filled = map (\<lambda>i. crc32_byte (of_nat i)) [0..<256]"

text \<open>The static table before the first call, and one call: it returns the table it leaves.\<close>

definition crc32_static :: "u32 list" where
  "crc32_static = replicate 256 0"

definition juice_crc32 :: "u32 list \<Rightarrow> bytes \<Rightarrow> u32 list \<times> u32" where
  "juice_crc32 table data =
     (let table' = (if table ! 255 = 0 then crc32_filled else table)
      in (table', crc32_table data table'))"

text \<open>The macro \<open>CRC32\<close> as its callers see it, after any number of earlier calls.\<close>

definition CRC32 :: "bytes \<Rightarrow> u32" where
  "CRC32 data = snd (juice_crc32 crc32_static data)"

section \<open>The bit-serial reference\<close>

definition crc32_ref_byte :: "u32 \<Rightarrow> u8 \<Rightarrow> u32" where
  "crc32_ref_byte crc b = (crc32_step ^^ 8) (crc XOR ucast b)"

definition crc32_ref :: "bytes \<Rightarrow> u32" where
  "crc32_ref data = foldl crc32_ref_byte CRC32_INIT data XOR CRC32_XOR"

section \<open>Linearity of the division step\<close>

lemma and_1_neq_0: "(x :: u32) AND 1 \<noteq> 0 \<longleftrightarrow> bit x 0"
  by (simp add: and_one_eq bit_0 odd_iff_mod_2_eq_one)

lemma crc32_step_bit [simp]:
  "bit (crc32_step x) n \<longleftrightarrow> (bit x (Suc n) \<noteq> (bit x 0 \<and> bit CRC32_REVERSED_POLY n))"
  by (auto simp: crc32_step_def and_1_neq_0 bit_simps)

lemma crc32_step_xor: "crc32_step (a XOR b) = crc32_step a XOR crc32_step b"
  by (rule bit_word_eqI) (auto simp: bit_simps)

lemma crc32_step_pow_xor: "(crc32_step ^^ n) (a XOR b) = (crc32_step ^^ n) a XOR (crc32_step ^^ n) b"
  by (induction n) (simp_all add: crc32_step_xor)

lemma crc32_step_even: "\<not> bit x 0 \<Longrightarrow> crc32_step x = drop_bit 1 x"
  by (rule bit_word_eqI) (auto simp: bit_simps)

lemma crc32_step_pow_low_zero:
  "(\<And>i. i < n \<Longrightarrow> \<not> bit x i) \<Longrightarrow> (crc32_step ^^ n) x = drop_bit n x"
proof (induction n)
  case (Suc n)
  then have "(crc32_step ^^ n) x = drop_bit n x" by simp
  moreover from Suc.prems have "\<not> bit (drop_bit n x) 0" by (simp add: bit_simps)
  ultimately show ?case
    by (simp add: crc32_step_even)
qed simp

lemma low_byte_mask: "(0xFF :: u32) = mask 8"
  by (simp add: mask_eq_exp_minus_1)

lemma crc32_byte_split: "crc32_byte x = crc32_byte (x AND 0xFF) XOR drop_bit 8 x"
proof -
  have "(crc32_step ^^ 8) (x AND NOT (mask 8)) = drop_bit 8 (x AND NOT (mask 8))"
    by (intro crc32_step_pow_low_zero) (auto simp: bit_simps)
  moreover have "drop_bit 8 (x AND NOT (mask 8)) = drop_bit 8 x"
    by (rule bit_word_eqI) (auto simp: bit_simps dest: bit_imp_le_length)
  moreover have "x = (x AND mask 8) XOR (x AND NOT (mask 8))"
    by (rule bit_word_eqI) (auto simp: bit_simps)
  then have "crc32_byte x = crc32_byte (x AND mask 8) XOR crc32_byte (x AND NOT (mask 8))"
    unfolding crc32_byte_def by (metis crc32_step_pow_xor)
  ultimately show ?thesis by (simp add: crc32_byte_def low_byte_mask)
qed

lemma crc32_filled_nth: "crc32_filled ! unat (b :: u8) = crc32_byte (ucast b)"
  by (simp add: crc32_filled_def)

lemma crc32_update_filled: "crc32_update crc32_filled crc b = crc32_ref_byte crc b"
proof -
  have "ucast (ucast (crc AND 0xFF) XOR b :: u8) = (crc XOR ucast b) AND 0xFF"
    unfolding low_byte_mask by (rule bit_word_eqI) (auto simp: bit_simps)
  moreover have "drop_bit 8 (crc XOR ucast b) = drop_bit 8 crc"
    by (rule bit_word_eqI) (auto simp: bit_simps)
  ultimately show ?thesis
    using crc32_byte_split [of "crc XOR ucast b"]
    by (simp add: crc32_update_def crc32_filled_nth crc32_ref_byte_def flip: crc32_byte_def)
qed

lemma crc32_table_filled: "crc32_table data crc32_filled = crc32_ref data"
proof -
  have "crc32_update crc32_filled = crc32_ref_byte"
    by (intro ext) (rule crc32_update_filled)
  then show ?thesis by (simp add: crc32_table_def crc32_ref_def)
qed

section \<open>Error detection\<close>

lemma crc32_step_inj: "inj crc32_step"
proof (rule injI)
  fix x y assume eq: "crc32_step x = crc32_step y"
  have top: "bit (crc32_step z) 31 \<longleftrightarrow> bit z 0" for z
    by (simp add: CRC32_REVERSED_POLY_def)
  from eq have b0: "bit x 0 \<longleftrightarrow> bit y 0" using top by metis
  have "bit x (Suc n) \<longleftrightarrow> bit y (Suc n)" for n
    using eq b0 crc32_step_bit [of x n] crc32_step_bit [of y n] by auto
  with b0 show "x = y" by (intro bit_word_eqI) (metis old.nat.exhaust)
qed

lemma crc32_byte_inj: "inj crc32_byte"
  using inj_fn [OF crc32_step_inj, of 8] by (simp add: crc32_byte_def [abs_def])

lemma crc32_ref_byte_eq_iff: "crc32_ref_byte c b = crc32_ref_byte d b \<longleftrightarrow> c = d"
  by (simp add: crc32_ref_byte_def inj_eq [OF crc32_byte_inj] flip: crc32_byte_def)

lemma foldl_crc32_eq_iff:
  "foldl crc32_ref_byte c bs = foldl crc32_ref_byte d bs \<longleftrightarrow> c = d"
  by (induction bs arbitrary: c d) (simp_all add: crc32_ref_byte_eq_iff)

lemma crc32_ref_byte_byte_eq_iff: "crc32_ref_byte c b = crc32_ref_byte c b' \<longleftrightarrow> b = b'"
  by (simp add: crc32_ref_byte_def inj_eq [OF crc32_byte_inj] flip: crc32_byte_def)

section \<open>The static table\<close>

text \<open>The two states of the table: never used, or filled. Every call leaves it filled.\<close>

definition crc32_table_ok :: "u32 list \<Rightarrow> bool" where
  "crc32_table_ok t \<longleftrightarrow> t = crc32_static \<or> t = crc32_filled"

lemma crc32_filled_last: "crc32_filled ! 255 \<noteq> 0"
proof -
  have "crc32_byte 0 = 0"
    by (simp add: crc32_byte_def crc32_step_pow_low_zero)
  then have "crc32_byte 255 \<noteq> 0"
    using inj_eq [OF crc32_byte_inj, of 255 0] by simp
  then show ?thesis by (simp add: crc32_filled_def)
qed

lemma juice_crc32_ok:
  assumes "crc32_table_ok t"
  shows "juice_crc32 t data = (crc32_filled, crc32_ref data)"
  using assms crc32_filled_last
  by (auto simp: juice_crc32_def crc32_table_ok_def crc32_static_def crc32_table_filled Let_def)

lemma CRC32_eq_ref: "CRC32 data = crc32_ref data"
  by (simp add: CRC32_def juice_crc32_ok crc32_table_ok_def)

section \<open>Properties\<close>

text \<open>Whether the static table is still empty or already filled, \<open>juice_crc32\<close> returns the
  bit-serial CRC-32 of the data, and it leaves the table filled for the next call.\<close>

theorem juice_crc32_correct:
  assumes "crc32_table_ok t"
  shows "snd (juice_crc32 t data) = crc32_ref data \<and> crc32_table_ok (fst (juice_crc32 t data))"
  using juice_crc32_ok [OF assms] by (simp add: crc32_table_ok_def)

theorem juice_crc32_correct_witness:
  "snd (juice_crc32 crc32_static [1, 2]) = crc32_ref [1, 2]
     \<and> crc32_table_ok (fst (juice_crc32 crc32_static [1, 2]))"
  by (rule juice_crc32_correct) (simp add: crc32_table_ok_def)

text \<open>The checksum detects every corruption confined to a single byte: two messages that agree
  except in one byte have different checksums.\<close>

theorem CRC32_detects_byte_error:
  assumes "b \<noteq> b'"
  shows "CRC32 (xs @ b # ys) \<noteq> CRC32 (xs @ b' # ys)"
  using assms by (simp add: CRC32_eq_ref crc32_ref_def foldl_crc32_eq_iff crc32_ref_byte_byte_eq_iff)

theorem CRC32_detects_byte_error_witness:
  "CRC32 ([7] @ 1 # [9]) \<noteq> CRC32 ([7] @ 2 # [9])"
  by (rule CRC32_detects_byte_error) simp

end
