(* ===== verification/Base64.thy ===== *)
theory Base64
  imports Prelude
begin

text \<open>
  \<open>base64.c\<close>: the encoder and decoder used for the security feature bits of a STUN nonce. A C
  string argument is its content without the terminator, an output buffer is its capacity, and the
  decoder reports a write past that capacity as \<^const>\<open>OutOfBounds\<close>.
\<close>

section \<open>Encoding\<close>

definition b64_tab :: bytes where
  "b64_tab = ascii ''ABCDEFGHIJKLMNOPQRSTUVWXYZabcdefghijklmnopqrstuvwxyz0123456789+/''"

definition b64_eq :: u8 where "b64_eq = of_char (CHR ''='')"

definition tab_at :: "u8 \<Rightarrow> u8" where
  "tab_at i = b64_tab ! unat i"

fun b64_encode_loop :: "bytes \<Rightarrow> bytes" where
  "b64_encode_loop (a # b # c # rest) =
     [tab_at (drop_bit 2 a),
      tab_at (push_bit 4 (a AND 0x03) OR drop_bit 4 b),
      tab_at (push_bit 2 (b AND 0x0F) OR drop_bit 6 c),
      tab_at (c AND 0x3F)] @ b64_encode_loop rest"
| "b64_encode_loop [a, b] =
     [tab_at (drop_bit 2 a),
      tab_at (push_bit 4 (a AND 0x03) OR drop_bit 4 b),
      tab_at (push_bit 2 (b AND 0x0F)), b64_eq]"
| "b64_encode_loop [a] =
     [tab_at (drop_bit 2 a), tab_at (push_bit 4 (a AND 0x03)), b64_eq, b64_eq]"
| "b64_encode_loop [] = []"

text \<open>The result is the string written; the C function returns its length.\<close>

definition juice_base64_encode :: "bytes \<Rightarrow> nat \<Rightarrow> bytes res" where
  "juice_base64_encode data out_size =
     (if out_size < 4 * ((length data + 2) div 3) + 1 then Inl Fail
      else Inr (b64_encode_loop data))"

section \<open>Decoding\<close>

definition c_isspace :: "u8 \<Rightarrow> bool" where
  "c_isspace c \<longleftrightarrow> c = 32 \<or> (9 \<le> c \<and> c \<le> 13)"

definition b64_value :: "u8 \<Rightarrow> u8 option" where
  "b64_value c =
     (if 65 \<le> c \<and> c \<le> 90 then Some (c - 65)
      else if 97 \<le> c \<and> c \<le> 122 then Some (c + 26 - 97)
      else if 48 \<le> c \<and> c \<le> 57 then Some (c + 52 - 48)
      else if c = 43 \<or> c = 45 then Some 62
      else if c = 47 \<or> c = 95 then Some 63
      else None)"

text \<open>
  The inner loop collects up to four values; it returns them with the rest of the input.
\<close>

fun b64_group :: "bytes \<Rightarrow> u8 list \<Rightarrow> (u8 list \<times> bytes) res" where
  "b64_group [] tab = Inr (tab, [])"
| "b64_group (c # rest) tab =
     (if length tab \<ge> 4 then Inr (tab, c # rest)
      else if c_isspace c then b64_group rest tab
      else if c = b64_eq then Inr (tab, rest)
      else case b64_value c of
             None \<Rightarrow> Inl Fail
           | Some v \<Rightarrow> b64_group rest (tab @ [v]))"

lemma b64_group_shorter:
  "b64_group inp tab = Inr (vs, rest) \<Longrightarrow> length rest \<le> length inp"
  by (induction inp tab rule: b64_group.induct) (auto split: if_splits option.splits)

lemma b64_group_consumes:
  "b64_group (c # inp) [] = Inr (vs, rest) \<Longrightarrow> length rest < Suc (length inp)"
  by (auto split: if_splits option.splits dest: b64_group_shorter)

text \<open>The bytes written for a group of \<open>size\<close> values, \<open>tab\<close> padded with zeros to four.\<close>

definition b64_emit :: "u8 list \<Rightarrow> bytes" where
  "b64_emit vs =
     (let tab = vs @ replicate (4 - length vs) 0;
          b0 = push_bit 2 (tab ! 0) OR drop_bit 4 (tab ! 1);
          b1 = push_bit 4 (tab ! 1) OR drop_bit 2 (tab ! 2);
          b2 = push_bit 6 (tab ! 2) OR tab ! 3
      in if length vs > 2 then [b0, b1, b2] else if length vs > 1 then [b0, b1] else [b0])"

function b64_decode_loop :: "nat \<Rightarrow> bytes \<Rightarrow> bytes \<Rightarrow> nat \<Rightarrow> bytes res" where
  "b64_decode_loop cap inp w out_size =
     (case inp of
        [] \<Rightarrow> Inr w
      | c # _ \<Rightarrow>
         if c = b64_eq then Inr w
         else case b64_group inp [] of
                Inl e \<Rightarrow> Inl e
              | Inr (vs, rest) \<Rightarrow>
                  if vs = [] then b64_decode_loop cap rest w out_size
                  else if out_size < length vs - 1 then Inl Fail
                  else if length w + length (b64_emit vs) > cap then Inl OutOfBounds
                  else b64_decode_loop cap rest (w @ b64_emit vs) (out_size - (length vs - 1)))"
  by pat_completeness auto
termination
  by (relation "measure (\<lambda>(cap, inp, w, out_size). length inp)")
    (auto simp del: b64_group.simps dest!: b64_group_consumes)

declare b64_decode_loop.simps [simp del]

definition juice_base64_decode :: "bytes \<Rightarrow> nat \<Rightarrow> bytes res" where
  "juice_base64_decode str out_size = b64_decode_loop out_size str [] out_size"

section \<open>Lemmas\<close>

lemma b64_tab_eq:
  "b64_tab =
    [65, 66, 67, 68, 69, 70, 71, 72, 73, 74, 75, 76, 77, 78, 79, 80, 81, 82, 83, 84, 85, 86,
     87, 88, 89, 90, 97, 98, 99, 100, 101, 102, 103, 104, 105, 106, 107, 108, 109, 110, 111,
     112, 113, 114, 115, 116, 117, 118, 119, 120, 121, 122, 48, 49, 50, 51, 52, 53, 54, 55, 56,
     57, 43, 47]"
  by (simp add: b64_tab_def)

lemma b64_values:
  "map of_nat [0..<64] =
    [0, 1, 2, 3, 4, 5, 6, 7, 8, 9, 10, 11, 12, 13, 14, 15, 16, 17, 18, 19, 20, 21, 22, 23, 24,
     25, 26, 27, 28, 29, 30, 31, 32, 33, 34, 35, 36, 37, 38, 39, 40, 41, 42, 43, 44, 45, 46,
     47, 48, 49, 50, 51, 52, 53, 54, 55, 56, 57, 58, 59, 60, 61, 62, 63 :: u8]"
  by (simp add: upt_rec)

lemma b64_tab_decodes: "map b64_value b64_tab = map Some (map of_nat [0..<64])"
  unfolding b64_values b64_tab_eq by (simp add: b64_value_def)

lemma b64_tab_plain: "list_all (\<lambda>c. c \<noteq> b64_eq \<and> \<not> c_isspace c) b64_tab"
  unfolding b64_tab_eq by (simp add: b64_eq_def c_isspace_def)

lemma tab_value:
  assumes "i < 64"
  shows "b64_value (tab_at i) = Some i" "tab_at i \<noteq> b64_eq" "\<not> c_isspace (tab_at i)"
proof -
  have i: "unat i < 64" using assms by (simp add: word_less_nat_alt)
  have len: "length b64_tab = 64" by (simp add: b64_tab_def)
  from i len have "b64_value (tab_at i) = map b64_value b64_tab ! unat i"
    by (simp add: tab_at_def)
  also have "\<dots> = Some i"
    using i by (simp add: b64_tab_decodes)
  finally show "b64_value (tab_at i) = Some i" .
  from b64_tab_plain i len show "tab_at i \<noteq> b64_eq" "\<not> c_isspace (tab_at i)"
    by (simp_all add: tab_at_def list_all_length)
qed

lemma b64_eq_not_space [simp]: "\<not> c_isspace b64_eq"
  by (simp add: c_isspace_def b64_eq_def)

lemma sextet_less:
  assumes "\<not> bit (w :: u8) 6" "\<not> bit w 7"
  shows "w < 64"
proof -
  have "take_bit 6 w = w"
    by (rule u8_bit_eqI) (use assms in \<open>simp_all add: bit_simps\<close>)
  then have "unat w = take_bit 6 (unat w)"
    by (metis unsigned_take_bit_eq)
  then have "unat w < 64"
    using take_bit_nat_less_exp [of 6 "unat w"] by simp
  then show ?thesis by (simp add: word_less_nat_alt)
qed

lemma sextets:
  "drop_bit 2 (a :: u8) < 64"
  "push_bit 4 (a AND 0x03) OR drop_bit 4 (b :: u8) < 64"
  "push_bit 2 (b AND 0x0F) OR drop_bit 6 (c :: u8) < 64"
  "(c :: u8) AND 0x3F < 64"
  "push_bit 4 (a AND 0x03 :: u8) < 64"
  "push_bit 2 (b AND 0x0F :: u8) < 64"
  by (rule sextet_less; simp add: bit_simps)+

lemma b64_group_quad:
  assumes "i < 64" "j < 64" "k < 64" "l < 64"
  shows "b64_group (tab_at i # tab_at j # tab_at k # tab_at l # rest) [] = Inr ([i, j, k, l], rest)"
  using assms by (cases rest) (simp_all add: tab_value)

lemma b64_emit_quad:
  "b64_emit [drop_bit 2 a, push_bit 4 (a AND 0x03) OR drop_bit 4 b,
     push_bit 2 (b AND 0x0F) OR drop_bit 6 c, c AND 0x3F] = [a, b, c]"
proof -
  have "push_bit 2 (drop_bit 2 a) OR drop_bit 4 (push_bit 4 (a AND 0x03) OR drop_bit 4 b) = a"
    "push_bit 4 (push_bit 4 (a AND 0x03) OR drop_bit 4 b)
       OR drop_bit 2 (push_bit 2 (b AND 0x0F) OR drop_bit 6 c) = b"
    "push_bit 6 (push_bit 2 (b AND 0x0F) OR drop_bit 6 c) OR c AND 0x3F = c"
    by (rule u8_bit_eqI; simp add: bit_simps)+
  then show ?thesis by (simp add: b64_emit_def Let_def numeral_2_eq_2 numeral_3_eq_3)
qed

lemma b64_emit_pair:
  "b64_emit [drop_bit 2 a, push_bit 4 (a AND 0x03) OR drop_bit 4 b, push_bit 2 (b AND 0x0F)] = [a, b, 0]"
proof -
  have "push_bit 2 (drop_bit 2 a) OR drop_bit 4 (push_bit 4 (a AND 0x03) OR drop_bit 4 b) = a"
    "push_bit 4 (push_bit 4 (a AND 0x03) OR drop_bit 4 b) OR drop_bit 2 (push_bit 2 (b AND 0x0F)) = b"
    "push_bit 6 (push_bit 2 (b AND 0x0F)) = 0"
    by (rule u8_bit_eqI; simp add: bit_simps)+
  then show ?thesis by (simp add: b64_emit_def Let_def numeral_2_eq_2 numeral_3_eq_3)
qed

lemma b64_emit_single:
  "b64_emit [drop_bit 2 a, push_bit 4 (a AND 0x03)] = [a, 0]"
proof -
  have "push_bit 2 (drop_bit 2 a) OR drop_bit 4 (push_bit 4 (a AND 0x03)) = a"
    "push_bit 4 (push_bit 4 (a AND 0x03)) = 0"
    by (rule u8_bit_eqI; simp add: bit_simps)+
  then show ?thesis by (simp add: b64_emit_def Let_def numeral_2_eq_2 numeral_3_eq_3)
qed

lemma b64_group_triple:
  assumes "i < 64" "j < 64" "k < 64"
  shows "b64_group [tab_at i, tab_at j, tab_at k, b64_eq] [] = Inr ([i, j, k], [])"
  using assms by (simp add: tab_value)

lemma b64_group_double:
  assumes "i < 64" "j < 64"
  shows "b64_group [tab_at i, tab_at j, b64_eq, b64_eq] [] = Inr ([i, j], [b64_eq])"
  using assms by (simp add: tab_value)

text \<open>The number of zero bytes the decoder adds to an input of length \<open>n\<close>.\<close>

definition b64_excess :: "nat \<Rightarrow> nat" where
  "b64_excess n = (if n mod 3 = 0 then 0 else 1)"

lemma b64_decode_loop_Nil: "b64_decode_loop cap [] w out_size = Inr w"
  by (simp add: b64_decode_loop.simps)

lemma b64_decode_loop_eq: "b64_decode_loop cap (b64_eq # rest) w out_size = Inr w"
  by (simp add: b64_decode_loop.simps [of _ "b64_eq # rest"])

lemma b64_decode_loop_step:
  assumes "b64_group (c # cs) [] = Inr (vs, rest)" "c \<noteq> b64_eq" "vs \<noteq> []"
    "length vs - 1 \<le> out_size" "length w + length (b64_emit vs) \<le> cap"
  shows "b64_decode_loop cap (c # cs) w out_size
           = b64_decode_loop cap rest (w @ b64_emit vs) (out_size - (length vs - 1))"
  using assms by (simp add: b64_decode_loop.simps [of _ "c # cs"] del: b64_group.simps)

lemma b64_excess_add3: "b64_excess (Suc (Suc (Suc n))) = b64_excess n"
proof -
  have "Suc (Suc (Suc n)) mod 3 = n mod 3" by presburger
  then show ?thesis by (simp add: b64_excess_def)
qed

lemma b64_decode_encode_loop:
  assumes "length w + length xs + b64_excess (length xs) \<le> cap" "length xs \<le> out_size"
  shows "b64_decode_loop cap (b64_encode_loop xs) w out_size
           = Inr (w @ xs @ replicate (b64_excess (length xs)) 0)"
  using assms
proof (induction xs arbitrary: w out_size rule: b64_encode_loop.induct)
  case (1 a b c rest)
  show ?case
    unfolding b64_encode_loop.simps append.simps
    by (subst b64_decode_loop_step [OF b64_group_quad])
      (use 1 in \<open>simp_all add: tab_value sextets b64_emit_quad b64_excess_add3 del: push_bit_and\<close>)
next
  case (2 a b)
  then show ?case
    unfolding b64_encode_loop.simps
    by (subst b64_decode_loop_step [OF b64_group_triple])
      (simp_all add: tab_value sextets b64_emit_pair b64_decode_loop_Nil b64_excess_def del: push_bit_and)
next
  case (3 a)
  then show ?case
    unfolding b64_encode_loop.simps
    by (subst b64_decode_loop_step [OF b64_group_double])
      (simp_all add: tab_value sextets b64_emit_single b64_decode_loop_eq b64_excess_def
        del: push_bit_and)
next
  case 4
  then show ?case by (simp add: b64_decode_loop_Nil b64_excess_def)
qed

lemma length_b64_encode_loop: "length (b64_encode_loop xs) = 4 * ((length xs + 2) div 3)"
proof (induction xs rule: b64_encode_loop.induct)
  case (1 a b c rest)
  have "(n + 5) div 3 = Suc ((n + 2) div 3)" for n :: nat by simp
  with 1 show ?case by (simp add: add.commute)
qed simp_all

section \<open>Properties\<close>

text \<open>A short input cannot make the decoder write more bytes than it has characters.\<close>

lemma b64_group_count:
  "b64_group inp tab = Inr (vs, rest) \<Longrightarrow>
     length vs + length rest \<le> length tab + length inp
     \<and> (rest \<noteq> [] \<and> length vs < 4 \<longrightarrow> length vs + length rest < length tab + length inp)"
  by (induction inp tab rule: b64_group.induct) (auto split: if_splits option.splits)

lemma b64_group_bounds: "b64_group inp tab \<noteq> Inl OutOfBounds"
  by (induction inp tab rule: b64_group.induct) (auto split: option.splits)

lemma length_b64_emit: "vs \<noteq> [] \<Longrightarrow> length (b64_emit vs) = min 3 (length vs)"
  by (auto simp: b64_emit_def Let_def min_def simp flip: length_greater_0_conv)

text \<open>One step of the loop, for room that a group cannot exceed.\<close>

lemma b64_decode_step:
  assumes "inp \<noteq> []" and "\<And>vs rest. b64_group inp [] = Inr (vs, rest) \<Longrightarrow> length w + min 3 (length vs) \<le> cap"
    and "\<And>vs rest n'. b64_group inp [] = Inr (vs, rest) \<Longrightarrow> vs \<noteq> [] \<Longrightarrow>
      b64_decode_loop cap rest (w @ b64_emit vs) n' \<noteq> Inl OutOfBounds"
    and "\<And>rest. b64_group inp [] = Inr ([], rest) \<Longrightarrow> b64_decode_loop cap rest w n \<noteq> Inl OutOfBounds"
  shows "b64_decode_loop cap inp w n \<noteq> Inl OutOfBounds"
  using assms b64_group_bounds [of inp "[]"]
  by (subst b64_decode_loop.simps) (auto simp: length_b64_emit not_less [symmetric] simp del: b64_group.simps split: list.split sum.split)

lemma b64_decode_loop_short:
  "length w + length inp \<le> cap \<Longrightarrow> b64_decode_loop cap inp w n \<noteq> Inl OutOfBounds"
proof (induction inp arbitrary: w n rule: length_induct)
  case (1 inp)
  show ?case
  proof (cases "inp = []")
    case False
    then have shorter: "length rest < length inp" if "b64_group inp [] = Inr (vs, rest)" for vs rest
      using that b64_group_consumes by (cases inp) auto
    show ?thesis
    proof (rule b64_decode_step [OF False])
      fix vs rest n' assume g: "b64_group inp [] = Inr (vs, rest)"
      then have c: "length vs + length rest \<le> length inp" using b64_group_count by fastforce
      with 1 show "length w + min 3 (length vs) \<le> cap" by simp
      show "b64_decode_loop cap rest (w @ b64_emit vs) n' \<noteq> Inl OutOfBounds" if "vs \<noteq> []"
        using 1 c shorter [OF g] that by (simp add: length_b64_emit)
    next
      fix rest assume "b64_group inp [] = Inr ([], rest)"
      from shorter [OF this] 1 show "b64_decode_loop cap rest w n \<noteq> Inl OutOfBounds" by simp
    qed
  qed (simp add: b64_decode_loop.simps)
qed

lemma b64_decode_short:
  assumes "length s \<le> 4"
  shows "juice_base64_decode s 3 \<noteq> Inl OutOfBounds"
proof (cases "length s = 4")
  case False
  with assms show ?thesis by (simp add: juice_base64_decode_def b64_decode_loop_short)
next
  case True
  then have s: "s \<noteq> []" by auto
  show ?thesis
    unfolding juice_base64_decode_def
  proof (rule b64_decode_step [OF s])
    fix vs rest n' assume g: "b64_group s [] = Inr (vs, rest)"
    note c = b64_group_count [OF g]
    show "b64_decode_loop 3 rest ([] @ b64_emit vs) n' \<noteq> Inl OutOfBounds" if "vs \<noteq> []"
    proof (cases "rest = []")
      case False
      with c True have "length vs + length rest \<le> 3"
        by (cases "length vs < 4") (auto simp flip: length_greater_0_conv)
      with that show ?thesis by (intro b64_decode_loop_short) (simp add: length_b64_emit)
    qed (simp add: b64_decode_loop.simps)
  next
    fix rest assume "b64_group s [] = Inr ([], rest)"
    then have "length rest < length s" using s b64_group_consumes by (cases s) auto
    with True show "b64_decode_loop 3 rest [] 3 \<noteq> Inl OutOfBounds" by (intro b64_decode_loop_short) simp
  qed simp
qed

text \<open>Decoding what the encoder produced gives back the data, followed by one zero byte when the
  length of the data is not a multiple of three (the decoder emits one byte more than the final
  group encodes).\<close>

theorem juice_base64_roundtrip:
  assumes "juice_base64_encode data out_size = Inr str"
    and "length data + b64_excess (length data) \<le> cap"
  shows "juice_base64_decode str cap = Inr (data @ replicate (b64_excess (length data)) 0)"
  using assms b64_decode_encode_loop [of "[]" data cap cap]
  by (auto simp: juice_base64_encode_def juice_base64_decode_def split: if_splits)

theorem juice_base64_roundtrip_witness:
  "juice_base64_decode (ascii ''QUJD'') 3 = Inr ([65, 66, 67] @ replicate (b64_excess (length [65, 66, 67 :: u8])) 0)"
proof (rule juice_base64_roundtrip)
  show "juice_base64_encode [65, 66, 67] 5 = Inr (ascii ''QUJD'')"
    by (simp add: juice_base64_encode_def tab_at_def b64_tab_eq)
  show "length [65, 66, 67 :: u8] + b64_excess (length [65, 66, 67 :: u8]) \<le> 3"
    by (simp add: b64_excess_def)
qed

text \<open>The decoder can write past the buffer it was given: for a final group of two or three
  characters it reserves one byte less than it writes.\<close>

theorem juice_base64_decode_overflow:
  "juice_base64_decode (ascii ''QQ=='') 1 = Inl OutOfBounds"
  by (simp add: juice_base64_decode_def b64_decode_loop.simps b64_eq_def c_isspace_def b64_value_def
      b64_emit_def Let_def)

end
