(* ===== verification/Block_Hash.thy ===== *)
theory Block_Hash
  imports Prelude
begin

text \<open>
  The common frame of the three hash functions of \<open>picohash.h\<close>: data is absorbed in blocks of 64
  bytes, and what does not fill a block waits in a buffer. \<open>absorb\<close> states this for a
  compression function on whole messages; the update routines of the hash functions are shown to
  refine it. The locale \<open>streaming_hash\<close> is the interface HMAC relies on.
\<close>

section \<open>Absorbing blocks\<close>

fun foldb :: "('s \<Rightarrow> bytes \<Rightarrow> 's) \<Rightarrow> 's \<Rightarrow> bytes \<Rightarrow> 's" where
  "foldb cf st xs =
     (if length xs < 64 then st else foldb cf (cf st (take 64 xs)) (drop 64 xs))"

declare foldb.simps [simp del]

definition tailb :: "bytes \<Rightarrow> bytes" where
  "tailb xs = drop (64 * (length xs div 64)) xs"

definition absorb :: "('s \<Rightarrow> bytes \<Rightarrow> 's) \<Rightarrow> 's \<times> bytes \<Rightarrow> bytes \<Rightarrow> 's \<times> bytes" where
  "absorb cf s d = (foldb cf (fst s) (snd s @ d), tailb (snd s @ d))"

text \<open>The padding of the MD family: a one bit, zeros, and the encoded length.\<close>

definition md_pad :: "bytes \<Rightarrow> bytes \<Rightarrow> bytes" where
  "md_pad enc m = m @ [0x80] @ replicate ((119 - length m mod 64) mod 64) 0 @ enc"

lemma foldb_short [simp]: "length xs < 64 \<Longrightarrow> foldb cf st xs = st"
  by (simp add: foldb.simps)

lemma foldb_block: "length b = 64 \<Longrightarrow> foldb cf st (b @ ys) = foldb cf (cf st b) ys"
  by (simp add: foldb.simps [of cf st "b @ ys"])

lemma tailb_short [simp]: "length xs < 64 \<Longrightarrow> tailb xs = xs"
  by (simp add: tailb_def)

lemma length_tailb [simp]: "length (tailb xs) = length xs mod 64"
  by (simp add: tailb_def minus_mult_div_eq_mod)

lemma length_tailb_less [simp]: "length (tailb xs) < 64"
  by simp

lemma tailb_block: "length b = 64 \<Longrightarrow> tailb (b @ ys) = tailb ys"
  by (simp add: tailb_def div_add_self1)

lemma foldb_append: "foldb cf st (xs @ ys) = foldb cf (foldb cf st xs) (tailb xs @ ys)"
proof (induction cf st xs rule: foldb.induct)
  case (1 cf st xs)
  show ?case
  proof (cases "length xs < 64")
    case False
    define b r where "b = take 64 xs" and "r = drop 64 xs"
    with False have xs: "xs = b @ r" and b: "length b = 64" by simp_all
    from False "1.IH" have "foldb cf (cf st b) (r @ ys)
        = foldb cf (foldb cf (cf st b) r) (tailb r @ ys)"
      by (simp add: b_def r_def)
    with b show ?thesis by (simp add: xs foldb_block tailb_block)
  qed simp
qed

lemma tailb_append: "tailb (xs @ ys) = tailb (tailb xs @ ys)"
proof (induction xs rule: length_induct)
  case (1 xs)
  show ?case
  proof (cases "length xs < 64")
    case False
    define b r where "b = take 64 xs" and "r = drop 64 xs"
    with False have xs: "xs = b @ r" and b: "length b = 64" by simp_all
    from False have "length r < length xs" by (simp add: r_def)
    with 1 have "tailb (r @ ys) = tailb (tailb r @ ys)" by blast
    with b show ?thesis by (simp add: xs tailb_block)
  qed simp
qed

lemma absorb_absorb: "absorb cf (absorb cf s x) y = absorb cf s (x @ y)"
  by (simp add: absorb_def foldb_append [of cf _ "snd s @ x" y, simplified]
      tailb_append [of "snd s @ x" y, simplified])

lemma absorb_Nil: "length (snd s) < 64 \<Longrightarrow> absorb cf s [] = s"
  by (simp add: absorb_def)

lemma absorb_short:
  "length t + length d < 64 \<Longrightarrow> absorb cf (st, t) d = (st, t @ d)"
  by (simp add: absorb_def)

lemma absorb_full:
  "length t + length d = 64 \<Longrightarrow> absorb cf (st, t) d = (cf st (t @ d), [])"
  using foldb_block [of "t @ d" cf st "[]"] tailb_block [of "t @ d" "[]"] by (simp add: absorb_def)

lemma length_snd_absorb [simp]: "length (snd (absorb cf s d)) = (length (snd s) + length d) mod 64"
  by (simp add: absorb_def)

lemma md_pad_zeros:
  "(k :: nat) < 64 \<Longrightarrow> (119 - k) mod 64 = (if k < 56 then 55 - k else 119 - k)"
  by (auto simp: mod_if)

lemma length_md_pad:
  assumes "length enc = 8"
  shows "64 dvd length (md_pad enc m)"
proof -
  define q r where "q = length m div 64" and "r = length m mod 64"
  then have m: "length m = 64 * q + r" and r: "r < 64" by simp_all
  have "length (md_pad enc m) = 64 * q + (if r < 56 then 64 else 128)"
    using assms r by (simp add: md_pad_def m md_pad_zeros)
  then show ?thesis by simp
qed

lemma foldb_whole: "foldb cf st (take (64 * (length d div 64)) d) = foldb cf st d"
proof -
  let ?n = "64 * (length d div 64)"
  have "tailb (take ?n d) = []" by (simp add: tailb_def)
  then show ?thesis
    using foldb_append [of cf st "take ?n d" "drop ?n d"]
    by (simp add: minus_mult_div_eq_mod)
qed

lemma foldb_cong_inv:
  assumes "\<And>s b. P s \<Longrightarrow> length b = 64 \<Longrightarrow> cf s b = cg s b \<and> P (cf s b)"
  shows "P st \<Longrightarrow> foldb cf st xs = foldb cg st xs \<and> P (foldb cf st xs)"
proof (induction xs arbitrary: st rule: length_induct)
  case (1 xs)
  show ?case
  proof (cases "length xs < 64")
    case False
    then have "length (drop 64 xs) < length xs" and "length (take 64 xs) = 64" by simp_all
    with 1 assms have "foldb cf (cf st (take 64 xs)) (drop 64 xs) = foldb cg (cf st (take 64 xs)) (drop 64 xs)
        \<and> P (foldb cf (cf st (take 64 xs)) (drop 64 xs))" and "cf st (take 64 xs) = cg st (take 64 xs)"
      by blast+
    with False show ?thesis by (auto simp: foldb.simps [of _ st xs])
  qed (use 1 in simp)
qed

lemma mod_add_less: "(a :: nat) mod n + b < n \<Longrightarrow> (a + b) mod n = a mod n + b"
  by (metis mod_add_left_eq mod_less)

lemma absorb_start: "absorb cf (st, []) d = (foldb cf st d, tailb d)"
  by (simp add: absorb_def)

lemma drop_whole: "drop (64 * (length d div 64)) d = tailb d"
  by (simp add: tailb_def)

text \<open>Folding the padded message, in terms of what absorbing the message leaves.\<close>

lemma foldb_md_pad:
  assumes "length enc = 8" and a: "absorb cf (st0, []) m = (st, t)"
  shows "foldb cf st0 (md_pad enc m) =
    (if length t < 56 then cf st (t @ [0x80] @ replicate (55 - length t) 0 @ enc)
     else cf (cf st (t @ [0x80] @ replicate (63 - length t) 0)) (replicate 56 0 @ enc))"
proof -
  have t: "t = tailb m" "st = foldb cf st0 m" using a by (simp_all add: absorb_start)
  then have lt: "length m mod 64 = length t" "length t < 64" by simp_all
  let ?z = "replicate ((119 - length t) mod 64) (0 :: u8)"
  have *: "foldb cf st0 (md_pad enc m) = foldb cf st (t @ [0x80] @ ?z @ enc)"
    using foldb_append [of cf st0 m "[0x80] @ ?z @ enc"] by (simp add: md_pad_def t)
  show ?thesis
  proof (cases "length t < 56")
    case True
    then show ?thesis
      using foldb_block [of "t @ [0x80] @ ?z @ enc" cf st "[]"] assms(1)
      by (simp add: * md_pad_zeros)
  next
    case False
    with lt have z: "?z = replicate (63 - length t) 0 @ replicate 56 0"
      by (simp add: md_pad_zeros flip: replicate_add)
    have **: "foldb cf st0 (md_pad enc m) =
      foldb cf st (t @ [0x80] @ replicate (63 - length t) 0 @ replicate 56 0 @ enc)"
      unfolding * z by simp
    show ?thesis
      using foldb_block [of "t @ [0x80] @ replicate (63 - length t) 0" cf st "replicate 56 0 @ enc"]
        foldb_block [of "replicate 56 0 @ enc" cf _ "[]"] False lt assms(1)
      by (simp add: **)
  qed
qed

section \<open>The interface of a streaming hash\<close>

text \<open>
  \<open>repr ctx m\<close> says that the context has absorbed the message \<open>m\<close>. \<open>finish\<close> returns the context it
  leaves and the digest; only contexts with \<open>usable\<close> memory (buffers of the right size) count.
\<close>

locale streaming_hash =
  fixes reset :: "'c \<Rightarrow> 'c"
    and update :: "'c \<Rightarrow> bytes \<Rightarrow> 'c"
    and finish :: "'c \<Rightarrow> 'c \<times> bytes"
    and usable :: "'c \<Rightarrow> bool"
    and repr :: "'c \<Rightarrow> bytes \<Rightarrow> bool"
    and digest :: "bytes \<Rightarrow> bytes"
    and dlen :: nat
  assumes repr_reset: "usable c \<Longrightarrow> repr (reset c) []"
    and repr_update: "repr c m \<Longrightarrow> repr (update c d) (m @ d)"
    and finish_digest: "repr c m \<Longrightarrow> snd (finish c) = digest m"
    and finish_usable: "repr c m \<Longrightarrow> usable (fst (finish c))"
    and repr_usable: "repr c m \<Longrightarrow> usable c"
    and length_digest: "length (digest m) = dlen"
begin

lemma repr_fold: "repr c m \<Longrightarrow> repr (fold (\<lambda>d c. update c d) ds c) (m @ concat ds)"
  by (induction ds arbitrary: c m) (use repr_update in \<open>fastforce simp: append.assoc\<close>)+

text \<open>The digest does not depend on how the message is cut into updates.\<close>

lemma finish_chunks:
  assumes "usable c"
  shows "snd (finish (fold (\<lambda>d c. update c d) ds (reset c))) = digest (concat ds)"
  using finish_digest [OF repr_fold [OF repr_reset [OF assms], of ds]] by simp

lemma hash_once: "usable c \<Longrightarrow> snd (finish (update (reset c) m)) = digest m"
  using finish_chunks [of c "[m]"] by simp

text \<open>
  The nested computation of HMAC on one context: the inner digest is finished, the same context is
  reset, and the outer digest is computed in it.
\<close>

lemma nested:
  fixes c ik m ok
  assumes "usable c"
  defines "c1 \<equiv> finish (update (update (reset c) ik) m)"
  shows "snd (finish (update (update (reset (fst c1)) ok) (snd c1))) = digest (ok @ digest (ik @ m))"
proof -
  have 1: "repr (update (update (reset c) ik) m) (ik @ m)"
    using repr_update [OF repr_update [OF repr_reset [OF assms(1)]], of ik m] by simp
  have 2: "repr (update (update (reset (fst c1)) ok) (snd c1)) (ok @ snd c1)"
    using repr_update [OF repr_update [OF repr_reset [OF finish_usable [OF 1]]], of ok "snd c1"]
    by (simp add: c1_def)
  show ?thesis using finish_digest [OF 2] finish_digest [OF 1] by (simp add: c1_def)
qed

end

end
