(* ===== verification/Md5.thy ===== *)
theory Md5
  imports Block_Hash
begin

text \<open>
  The MD5 functions of \<open>picohash.h\<close>. The sixty-four \<open>STEP\<close> macros of the body are the entries of
  \<open>md5_steps\<close>; the registers rotate by one place from each step to the next, as the macro
  arguments do. \<open>uint_fast32_t\<close> is 32 bits wide on the target.
\<close>

section \<open>The routines\<close>

record md5_ctx =
  md5_lo :: u32
  md5_hi :: u32
  md5_st :: "u32 \<times> u32 \<times> u32 \<times> u32"
  md5_buffer :: bytes

definition MD5_F :: "u32 \<Rightarrow> u32 \<Rightarrow> u32 \<Rightarrow> u32" where "MD5_F x y z = z XOR (x AND (y XOR z))"
definition MD5_G :: "u32 \<Rightarrow> u32 \<Rightarrow> u32 \<Rightarrow> u32" where "MD5_G x y z = y XOR (z AND (x XOR y))"
definition MD5_H :: "u32 \<Rightarrow> u32 \<Rightarrow> u32 \<Rightarrow> u32" where "MD5_H x y z = x XOR y XOR z"
definition MD5_I :: "u32 \<Rightarrow> u32 \<Rightarrow> u32 \<Rightarrow> u32" where "MD5_I x y z = y XOR (x OR NOT z)"

definition MD5_STEP ::
  "(u32 \<Rightarrow> u32 \<Rightarrow> u32 \<Rightarrow> u32) \<Rightarrow> u32 \<Rightarrow> u32 \<Rightarrow> u32 \<Rightarrow> u32 \<Rightarrow> u32 \<Rightarrow> u32 \<Rightarrow> nat \<Rightarrow> u32" where
  "MD5_STEP f a b c d x t s =
     (let a1 = a + (f b c d + x + t);
          a2 = push_bit s a1 OR drop_bit (32 - s) (a1 AND 0xffffffff)
      in a2 + b)"

definition md5_steps :: "((u32 \<Rightarrow> u32 \<Rightarrow> u32 \<Rightarrow> u32) \<times> nat \<times> u32 \<times> nat) list" where
  "md5_steps =
    [(MD5_F, 0, 0xd76aa478, 7), (MD5_F, 1, 0xe8c7b756, 12), (MD5_F, 2, 0x242070db, 17), (MD5_F, 3, 0xc1bdceee, 22),
     (MD5_F, 4, 0xf57c0faf, 7), (MD5_F, 5, 0x4787c62a, 12), (MD5_F, 6, 0xa8304613, 17), (MD5_F, 7, 0xfd469501, 22),
     (MD5_F, 8, 0x698098d8, 7), (MD5_F, 9, 0x8b44f7af, 12), (MD5_F, 10, 0xffff5bb1, 17), (MD5_F, 11, 0x895cd7be, 22),
     (MD5_F, 12, 0x6b901122, 7), (MD5_F, 13, 0xfd987193, 12), (MD5_F, 14, 0xa679438e, 17), (MD5_F, 15, 0x49b40821, 22),
     (MD5_G, 1, 0xf61e2562, 5), (MD5_G, 6, 0xc040b340, 9), (MD5_G, 11, 0x265e5a51, 14), (MD5_G, 0, 0xe9b6c7aa, 20),
     (MD5_G, 5, 0xd62f105d, 5), (MD5_G, 10, 0x02441453, 9), (MD5_G, 15, 0xd8a1e681, 14), (MD5_G, 4, 0xe7d3fbc8, 20),
     (MD5_G, 9, 0x21e1cde6, 5), (MD5_G, 14, 0xc33707d6, 9), (MD5_G, 3, 0xf4d50d87, 14), (MD5_G, 8, 0x455a14ed, 20),
     (MD5_G, 13, 0xa9e3e905, 5), (MD5_G, 2, 0xfcefa3f8, 9), (MD5_G, 7, 0x676f02d9, 14), (MD5_G, 12, 0x8d2a4c8a, 20),
     (MD5_H, 5, 0xfffa3942, 4), (MD5_H, 8, 0x8771f681, 11), (MD5_H, 11, 0x6d9d6122, 16), (MD5_H, 14, 0xfde5380c, 23),
     (MD5_H, 1, 0xa4beea44, 4), (MD5_H, 4, 0x4bdecfa9, 11), (MD5_H, 7, 0xf6bb4b60, 16), (MD5_H, 10, 0xbebfbc70, 23),
     (MD5_H, 13, 0x289b7ec6, 4), (MD5_H, 0, 0xeaa127fa, 11), (MD5_H, 3, 0xd4ef3085, 16), (MD5_H, 6, 0x04881d05, 23),
     (MD5_H, 9, 0xd9d4d039, 4), (MD5_H, 12, 0xe6db99e5, 11), (MD5_H, 15, 0x1fa27cf8, 16), (MD5_H, 2, 0xc4ac5665, 23),
     (MD5_I, 0, 0xf4292244, 6), (MD5_I, 7, 0x432aff97, 10), (MD5_I, 14, 0xab9423a7, 15), (MD5_I, 5, 0xfc93a039, 21),
     (MD5_I, 12, 0x655b59c3, 6), (MD5_I, 3, 0x8f0ccc92, 10), (MD5_I, 10, 0xffeff47d, 15), (MD5_I, 1, 0x85845dd1, 21),
     (MD5_I, 8, 0x6fa87e4f, 6), (MD5_I, 15, 0xfe2ce6e0, 10), (MD5_I, 6, 0xa3014314, 15), (MD5_I, 13, 0x4e0811a1, 21),
     (MD5_I, 4, 0xf7537e82, 6), (MD5_I, 11, 0xbd3af235, 10), (MD5_I, 2, 0x2ad7d2bb, 15), (MD5_I, 9, 0xeb86d391, 21)]"

text \<open>
  One block: \<open>MD5_SET\<close> reads the words of the block in little-endian order. The array \<open>ctx->block\<close>
  that holds them is written in the first round before it is read, so it is local here.
\<close>

definition MD5_SET :: "bytes \<Rightarrow> u32 list" where
  "MD5_SET ptr = map (\<lambda>n. get32le (take 4 (drop (n * 4) ptr))) [0..<16]"

definition md5_block :: "u32 \<times> u32 \<times> u32 \<times> u32 \<Rightarrow> bytes \<Rightarrow> u32 \<times> u32 \<times> u32 \<times> u32" where
  "md5_block saved ptr =
     (let (a, b, c, d) =
        fold (\<lambda>(f, k, t, s) (a, b, c, d). (d, MD5_STEP f a b c d (MD5_SET ptr ! k) t s, b, c))
          md5_steps saved;
        (sa, sb, sc, sd) = saved
      in (a + sa, b + sb, c + sc, d + sd))"

text \<open>The body runs over the 64-byte blocks of its argument, whose size is a multiple of 64.\<close>

definition md5_body :: "md5_ctx \<Rightarrow> bytes \<Rightarrow> md5_ctx" where
  "md5_body ctx data = ctx\<lparr>md5_st := foldb md5_block (md5_st ctx) data\<rparr>"

definition md5_init :: "md5_ctx \<Rightarrow> md5_ctx" where
  "md5_init ctx = ctx\<lparr>md5_st := (0x67452301, 0xefcdab89, 0x98badcfe, 0x10325476),
     md5_lo := 0, md5_hi := 0\<rparr>"

definition md5_count :: "md5_ctx \<Rightarrow> nat \<Rightarrow> md5_ctx" where
  "md5_count ctx n =
     (let saved_lo = md5_lo ctx; lo = (saved_lo + of_nat n) AND 0x1fffffff
      in ctx\<lparr>md5_lo := lo,
             md5_hi := md5_hi ctx + (if lo < saved_lo then 1 else 0) + of_nat (n div 2 ^ 29)\<rparr>)"

definition md5_update :: "md5_ctx \<Rightarrow> bytes \<Rightarrow> md5_ctx" where
  "md5_update ctx0 data =
     (let ctx = md5_count ctx0 (length data);
          used = unat (md5_lo ctx0 AND 0x3f);
          free = 64 - used
      in if used \<noteq> 0 \<and> length data < free
         then ctx\<lparr>md5_buffer := blit (md5_buffer ctx) used data\<rparr>
         else
           let (ctx, data) =
             (if used \<noteq> 0
              then let buf = blit (md5_buffer ctx) used (take free data)
                   in (md5_body (ctx\<lparr>md5_buffer := buf\<rparr>) buf, drop free data)
              else (ctx, data));
             (ctx, data) =
             (if 64 \<le> length data
              then (md5_body ctx (take (64 * (length data div 64)) data),
                    drop (64 * (length data div 64)) data)
              else (ctx, data))
           in ctx\<lparr>md5_buffer := blit (md5_buffer ctx) 0 data\<rparr>)"

text \<open>The finalisation clears the context after it has written the digest.\<close>

definition md5_final :: "md5_ctx \<Rightarrow> md5_ctx \<times> bytes" where
  "md5_final ctx =
     (let used = unat (md5_lo ctx AND 0x3f);
          buf = blit (md5_buffer ctx) used [0x80];
          used = used + 1; free = 64 - used;
          (ctx, buf, used, free) =
            (if free < 8
             then let buf = blit buf used (replicate free 0) in (md5_body ctx buf, buf, 0, 64)
             else (ctx, buf, used, free));
          buf = blit buf used (replicate (free - 8) 0);
          lo = push_bit 3 (md5_lo ctx);
          buf = blit buf 56 (put32le lo @ put32le (md5_hi ctx));
          (a, b, c, d) = md5_st (md5_body ctx buf)
      in (\<lparr>md5_lo = 0, md5_hi = 0, md5_st = (0, 0, 0, 0), md5_buffer = replicate 64 0\<rparr>,
          put32le a @ put32le b @ put32le c @ put32le d))"

section \<open>The context refines the absorbed message\<close>

abbreviation md5_iv :: "u32 \<times> u32 \<times> u32 \<times> u32" where
  "md5_iv \<equiv> (0x67452301, 0xefcdab89, 0x98badcfe, 0x10325476)"

text \<open>The MD5 digest of a message: pad it with its length in bits, fold the blocks, store the state.\<close>

definition md5_digest :: "bytes \<Rightarrow> bytes" where
  "md5_digest m =
     (let enc = put32le (push_bit 3 (of_nat (length m mod 2 ^ 29)))
                @ put32le (of_nat (length m div 2 ^ 29));
          (a, b, c, d) = foldb md5_block md5_iv (md_pad enc m)
      in put32le a @ put32le b @ put32le c @ put32le d)"

definition md5_usable :: "md5_ctx \<Rightarrow> bool" where
  "md5_usable ctx \<longleftrightarrow> length (md5_buffer ctx) = 64"

definition md5_repr :: "md5_ctx \<Rightarrow> bytes \<Rightarrow> bool" where
  "md5_repr ctx m \<longleftrightarrow> md5_usable ctx
     \<and> md5_lo ctx = of_nat (length m mod 2 ^ 29) \<and> md5_hi ctx = of_nat (length m div 2 ^ 29)
     \<and> (md5_st ctx, take (length m mod 64) (md5_buffer ctx)) = absorb md5_block (md5_iv, []) m"

lemma md5_used:
  "md5_repr ctx m \<Longrightarrow> unat (md5_lo ctx AND 0x3f) = length m mod 64"
  by (simp add: md5_repr_def unat_and_mask6 unat_of_nat mod_mod_cancel)

lemma md5_count_repr:
  assumes "md5_repr ctx m"
  shows "md5_lo (md5_count ctx k) = of_nat ((length m + k) mod 536870912)"
    and "md5_hi (md5_count ctx k) = of_nat ((length m + k) div 536870912)"
proof -
  define q r q' r' where "q = length m div 536870912" and "r = length m mod 536870912"
    and "q' = k div 536870912" and "r' = k mod 536870912"
  then have m: "length m = 536870912 * q + r" "r < 536870912" and k: "k = 536870912 * q' + r'" "r' < 536870912"
    by simp_all
  have sum: "(length m + k) mod 536870912 = (r + r') mod 536870912"
    by (simp add: q_def r_def r'_def mod_simps)
  have div: "(length m + k) div 536870912 = q + q' + (if 536870912 \<le> r + r' then 1 else 0)"
    using m k by (simp add: div_nat_eqI)
  have lo: "(of_nat r + of_nat k) AND 0x1fffffff = (of_nat ((r + r') mod 536870912) :: u32)"
    by (simp add: and_mask_u32 unat_of_nat r'_def mod_mod_cancel mod_simps flip: of_nat_add)
  show "md5_lo (md5_count ctx k) = of_nat ((length m + k) mod 536870912)"
    using assms lo sum by (simp add: md5_repr_def md5_count_def Let_def r_def)
  have "(of_nat ((r + r') mod 536870912) :: u32) < of_nat r \<longleftrightarrow> (r + r') mod 536870912 < r"
    using m by (simp add: word_less_nat_alt unat_of_nat)
  also have "\<dots> \<longleftrightarrow> 536870912 \<le> r + r'"
    using m k by (auto simp: mod_if)
  finally have "(of_nat ((r + r') mod 536870912) :: u32) < of_nat r \<longleftrightarrow> 536870912 \<le> r + r'" .
  with lo assms show "md5_hi (md5_count ctx k) = of_nat ((length m + k) div 536870912)"
    by (simp add: md5_repr_def md5_count_def div Let_def flip: r_def q_def q'_def)
qed

lemma md5_count_frame [simp]:
  "md5_st (md5_count ctx k) = md5_st ctx" "md5_buffer (md5_count ctx k) = md5_buffer ctx"
  by (simp_all add: md5_count_def Let_def)

lemma md5_body_frame [simp]:
  "md5_lo (md5_body ctx d) = md5_lo ctx" "md5_hi (md5_body ctx d) = md5_hi ctx"
  "md5_buffer (md5_body ctx d) = md5_buffer ctx"
  "md5_st (md5_body ctx d) = foldb md5_block (md5_st ctx) d"
  by (simp_all add: md5_body_def)

lemma md5_init_repr: "md5_usable ctx \<Longrightarrow> md5_repr (md5_init ctx) []"
  by (simp add: md5_repr_def md5_init_def md5_usable_def absorb_def)

text \<open>The update, with its optional steps made uniform.\<close>

definition md5_rest :: "md5_ctx \<Rightarrow> bytes \<Rightarrow> md5_ctx" where
  "md5_rest ctx d = ctx\<lparr>md5_st := foldb md5_block (md5_st ctx) d,
     md5_buffer := blit (md5_buffer ctx) 0 (tailb d)\<rparr>"

lemma md5_update_cases:
  fixes ctx d
  defines "u \<equiv> unat (md5_lo ctx AND 0x3f)" and "c \<equiv> md5_count ctx (length d)"
  defines "buf \<equiv> blit (md5_buffer ctx) u (take (64 - u) d)"
  shows "u \<noteq> 0 \<Longrightarrow> length d < 64 - u \<Longrightarrow>
      md5_update ctx d = c\<lparr>md5_buffer := blit (md5_buffer ctx) u d\<rparr>"
    and "u = 0 \<Longrightarrow> md5_update ctx d = md5_rest c d"
    and "u \<noteq> 0 \<Longrightarrow> \<not> length d < 64 - u \<Longrightarrow>
      md5_update ctx d = md5_rest (md5_body (c\<lparr>md5_buffer := buf\<rparr>) buf) (drop (64 - u) d)"
  unfolding u_def c_def buf_def
  by (simp_all add: md5_update_def Let_def md5_rest_def md5_body_def foldb_whole drop_whole
      del: length_drop drop_drop)

lemma md5_rest_repr:
  assumes "absorb md5_block (md5_iv, []) (m @ d) = absorb md5_block (md5_st c, []) e"
    and "md5_usable c" "length (m @ d) mod 64 = length e mod 64"
    and "md5_lo c = of_nat (length (m @ d) mod 2 ^ 29)" "md5_hi c = of_nat (length (m @ d) div 2 ^ 29)"
  shows "md5_repr (md5_rest c e) (m @ d)"
proof -
  have "length (tailb e) \<le> length (md5_buffer c)"
    using assms(2) length_tailb_less [of e] by (simp add: md5_usable_def del: length_tailb_less)
  moreover have "take (length e mod 64) (blit (md5_buffer c) 0 (tailb e)) = tailb e"
    using take_blit [of 0 "md5_buffer c" "tailb e"] by simp
  ultimately show ?thesis
    using assms by (simp add: md5_repr_def md5_rest_def md5_usable_def absorb_start length_blit)
qed

lemma md5_update_repr:
  assumes "md5_repr ctx m"
  shows "md5_repr (md5_update ctx d) (m @ d)"
proof -
  let ?u = "length m mod 64" and ?c = "md5_count ctx (length d)"
  let ?t = "take ?u (md5_buffer ctx)"
  have u: "unat (md5_lo ctx AND 0x3f) = ?u" by (rule md5_used [OF assms])
  have buf: "length (md5_buffer ctx) = 64" and st: "absorb md5_block (md5_iv, []) m = (md5_st ctx, ?t)"
    using assms by (simp_all add: md5_repr_def md5_usable_def)
  have lt: "length ?t = ?u" "?u < 64" using buf by simp_all
  have upd: "absorb md5_block (md5_iv, []) (m @ d) = absorb md5_block (md5_st ctx, ?t) d"
    by (simp add: st flip: absorb_absorb)
  note cnt = md5_count_repr [OF assms, of "length d"]
  consider "?u \<noteq> 0" "length d < 64 - ?u" | "?u = 0" | "?u \<noteq> 0" "\<not> length d < 64 - ?u" by blast
  then show ?thesis
  proof cases
    case 1
    then have "?u + length d < 64" by simp
    with 1 buf lt cnt show ?thesis
      by (simp add: md5_update_cases(1) u absorb_short md5_usable_def md5_repr_def upd length_blit
          take_blit mod_add_less)
  next
    case 2
    have "md5_repr (md5_rest ?c d) (m @ d)"
    proof (rule md5_rest_repr)
      show "length (m @ d) mod 64 = length d mod 64" using 2 mod_add_left_eq [of "length m" 64 "length d"] by simp
    qed (use 2 upd buf cnt in \<open>simp_all add: md5_usable_def\<close>)
    with 2 show ?thesis by (simp add: md5_update_cases(2) u)
  next
    case 3
    let ?d1 = "take (64 - ?u) d" and ?d2 = "drop (64 - ?u) d"
    let ?b = "blit (md5_buffer ctx) ?u ?d1"
    let ?c' = "md5_body (?c\<lparr>md5_buffer := ?b\<rparr>) ?b"
    have b: "?b = ?t @ ?d1" "length ?b = 64" using 3 buf lt by (simp_all add: blit_full)
    have "md5_repr (md5_rest ?c' ?d2) (m @ d)"
    proof (rule md5_rest_repr)
      have "md5_st ?c' = md5_block (md5_st ctx) ?b"
        using foldb_block [OF b(2), of md5_block "md5_st ctx" "[]"] by simp
      then show "absorb md5_block (md5_iv, []) (m @ d) = absorb md5_block (md5_st ?c', []) ?d2"
        using absorb_absorb [of md5_block "(md5_st ctx, ?t)" ?d1 ?d2] 3 lt b
        by (simp add: absorb_full upd)
      have "length (m @ d) = 64 * (length m div 64) + (64 + length ?d2)" using 3 by simp
      then show "length (m @ d) mod 64 = length ?d2 mod 64" by simp
    qed (use b cnt in \<open>simp_all add: md5_usable_def\<close>)
    with 3 show ?thesis by (simp add: md5_update_cases(3) u)
  qed
qed

lemma md5_final_digest:
  assumes "md5_repr ctx m"
  shows "snd (md5_final ctx) = md5_digest m"
proof -
  let ?u = "length m mod 64"
  let ?t = "take ?u (md5_buffer ctx)"
  let ?enc = "put32le (push_bit 3 (md5_lo ctx)) @ put32le (md5_hi ctx)"
  have u: "unat (md5_lo ctx AND 0x3f) = ?u" "?u < 64" by (simp_all add: md5_used [OF assms])
  have buf: "length (md5_buffer ctx) = 64" and st: "absorb md5_block (md5_iv, []) m = (md5_st ctx, ?t)"
    and lohi: "md5_lo ctx = of_nat (length m mod 2 ^ 29)" "md5_hi ctx = of_nat (length m div 2 ^ 29)"
    using assms by (simp_all add: md5_repr_def md5_usable_def)
  have lt: "length ?t = ?u" and enc: "length ?enc = 8" using buf u by (simp_all add: put32le_def)
  let ?st = "if ?u < 56 then md5_block (md5_st ctx) (?t @ [0x80] @ replicate (55 - ?u) 0 @ ?enc)
    else md5_block (md5_block (md5_st ctx) (?t @ [0x80] @ replicate (63 - ?u) 0)) (replicate 56 0 @ ?enc)"
  have one: "foldb md5_block s xs = md5_block s xs" if "length xs = 64" for s xs
    using foldb_block [OF that, of md5_block s "[]"] by simp
  have "snd (md5_final ctx) = (case ?st of (a, b, c, d) \<Rightarrow> put32le a @ put32le b @ put32le c @ put32le d)"
  proof (cases "?u < 56")
    case True
    have *: "blit (blit (blit (md5_buffer ctx) ?u [0x80]) (Suc ?u) (replicate (55 - ?u) 0)) 56 ?enc
      = ?t @ [0x80] @ replicate (55 - ?u) 0 @ ?enc"
      using True buf enc by (simp add: blit_blit blit_full)
    moreover have "\<not> 63 - ?u < 8" using True by simp
    ultimately show ?thesis using True buf enc
      by (simp add: md5_final_def Let_def u(1) * one split: prod.split)
  next
    case False
    have 1: "blit (blit (md5_buffer ctx) ?u [0x80]) (Suc ?u) (replicate (63 - ?u) 0)
      = ?t @ [0x80] @ replicate (63 - ?u) 0" (is "?b = _")
      using False buf u by (simp add: blit_blit blit_full)
    have 2: "blit (blit xs 0 (replicate 56 0)) 56 ?enc = replicate 56 0 @ ?enc" if "length xs = 64" for xs
      using that enc by (simp add: blit_blit blit_full)
    have "63 - ?u < 8" using False u by simp
    with False buf enc u(2) show ?thesis
      by (simp add: md5_final_def Let_def u(1) 1 2 one split: prod.split)
  qed
  also have "\<dots> = md5_digest m"
    using foldb_md_pad [OF enc st] lt lohi by (simp add: md5_digest_def Let_def)
  finally show ?thesis .
qed

lemma md5_final_usable: "md5_usable (fst (md5_final ctx))"
  by (simp add: md5_final_def md5_usable_def Let_def split: prod.split)

lemma length_md5_digest: "length (md5_digest m) = 16"
  by (simp add: md5_digest_def Let_def put32le_def split: prod.split)

interpretation md5: streaming_hash md5_init md5_update md5_final md5_usable md5_repr md5_digest 16
proof
  show "md5_usable ctx" if "md5_repr ctx m" for ctx m
    using that by (simp add: md5_repr_def)
qed (simp_all add: md5_init_repr md5_update_repr md5_final_digest md5_final_usable length_md5_digest)

section \<open>The compression function of RFC 1321\<close>

text \<open>
  The standard's auxiliary functions, the word order and shift amounts of its four rounds as formulas
  in the step number, and its sine table.
\<close>

definition rfc_f :: "nat \<Rightarrow> u32 \<Rightarrow> u32 \<Rightarrow> u32 \<Rightarrow> u32" where
  "rfc_f i x y z =
     (if i < 16 then (x AND y) OR (NOT x AND z) else if i < 32 then (x AND z) OR (y AND NOT z)
      else if i < 48 then x XOR y XOR z else y XOR (x OR NOT z))"

definition rfc_k :: "nat \<Rightarrow> nat" where
  "rfc_k i = (if i < 16 then i else if i < 32 then 5 * i + 1 else if i < 48 then 3 * i + 5 else 7 * i) mod 16"

definition rfc_s :: "nat \<Rightarrow> nat" where
  "rfc_s i = [[7, 12, 17, 22], [5, 9, 14, 20], [4, 11, 16, 23], [6, 10, 15, 21]] ! (i div 16) ! (i mod 4)"

definition rfc_T :: "u32 list" where
  "rfc_T =
    [0xd76aa478, 0xe8c7b756, 0x242070db, 0xc1bdceee, 0xf57c0faf, 0x4787c62a, 0xa8304613, 0xfd469501,
     0x698098d8, 0x8b44f7af, 0xffff5bb1, 0x895cd7be, 0x6b901122, 0xfd987193, 0xa679438e, 0x49b40821,
     0xf61e2562, 0xc040b340, 0x265e5a51, 0xe9b6c7aa, 0xd62f105d, 0x02441453, 0xd8a1e681, 0xe7d3fbc8,
     0x21e1cde6, 0xc33707d6, 0xf4d50d87, 0x455a14ed, 0xa9e3e905, 0xfcefa3f8, 0x676f02d9, 0x8d2a4c8a,
     0xfffa3942, 0x8771f681, 0x6d9d6122, 0xfde5380c, 0xa4beea44, 0x4bdecfa9, 0xf6bb4b60, 0xbebfbc70,
     0x289b7ec6, 0xeaa127fa, 0xd4ef3085, 0x04881d05, 0xd9d4d039, 0xe6db99e5, 0x1fa27cf8, 0xc4ac5665,
     0xf4292244, 0x432aff97, 0xab9423a7, 0xfc93a039, 0x655b59c3, 0x8f0ccc92, 0xffeff47d, 0x85845dd1,
     0x6fa87e4f, 0xfe2ce6e0, 0xa3014314, 0x4e0811a1, 0xf7537e82, 0xbd3af235, 0x2ad7d2bb, 0xeb86d391]"

definition rfc_step :: "bytes \<Rightarrow> nat \<Rightarrow> u32 \<times> u32 \<times> u32 \<times> u32 \<Rightarrow> u32 \<times> u32 \<times> u32 \<times> u32" where
  "rfc_step blk i v = (case v of (a, b, c, d) \<Rightarrow>
     (d, b + word_rotl (rfc_s i) (a + rfc_f i b c d + get32le (take 4 (drop (4 * rfc_k i) blk)) + rfc_T ! i), b, c))"

definition rfc_compress :: "u32 \<times> u32 \<times> u32 \<times> u32 \<Rightarrow> bytes \<Rightarrow> u32 \<times> u32 \<times> u32 \<times> u32" where
  "rfc_compress H blk = (case (H, fold (rfc_step blk) [0..<64] H) of
     ((A, B, C, D), (a, b, c, d)) \<Rightarrow> (A + a, B + b, C + c, D + d))"

lemma md5_f_rfc:
  "MD5_F x y z = (x AND y) OR (NOT x AND z)" "MD5_G x y z = (x AND z) OR (y AND NOT z)"
  unfolding MD5_F_def MD5_G_def by (rule bit_word_eqI; auto simp: bit_simps)+

lemma md5_steps_rfc:
  "md5_steps = map (\<lambda>i. (if i < 16 then MD5_F else if i < 32 then MD5_G else if i < 48 then MD5_H else MD5_I,
     rfc_k i, rfc_T ! i, rfc_s i)) [0..<64]"
proof -
  have "[0..<64] = 0 # 1 # [2..<64 :: nat]"
    by (simp add: upt_conv_Cons numeral_2_eq_2 del: upt_rec_numeral)
  then show ?thesis by (simp only: list.map) (simp add: md5_steps_def rfc_k_def rfc_s_def rfc_T_def)
qed

lemma rfc_s_range: "i < 64 \<Longrightarrow> 0 < rfc_s i \<and> rfc_s i < 32"
proof -
  assume "i < 64"
  then have "i div 16 < 4" by (simp add: less_mult_imp_div_less)
  then have "i div 16 \<in> {0, 1, 2, 3}" "i mod 4 \<in> {0, 1, 2, 3}" by auto
  then show ?thesis by (auto simp: rfc_s_def)
qed

lemma md5_step_rfc:
  assumes "i < 64"
  shows "(case (if i < 16 then MD5_F else if i < 32 then MD5_G else if i < 48 then MD5_H else MD5_I,
      rfc_k i, rfc_T ! i, rfc_s i) of (f, k, t, s) \<Rightarrow>
      \<lambda>(a, b, c, d). (d, MD5_STEP f a b c d (MD5_SET blk ! k) t s, b, c)) = rfc_step blk i"
proof
  fix v :: "u32 \<times> u32 \<times> u32 \<times> u32"
  obtain a b c d where v: "v = (a, b, c, d)" by (cases v) auto
  have "MD5_SET blk ! rfc_k i = get32le (take 4 (drop (4 * rfc_k i) blk))"
    by (simp add: MD5_SET_def rfc_k_def mult.commute del: upt_rec_numeral)
  then show "(case (if i < 16 then MD5_F else if i < 32 then MD5_G else if i < 48 then MD5_H else MD5_I,
      rfc_k i, rfc_T ! i, rfc_s i) of (f, k, t, s) \<Rightarrow>
      \<lambda>(a, b, c, d). (d, MD5_STEP f a b c d (MD5_SET blk ! k) t s, b, c)) v = rfc_step blk i v"
    using rfc_s_range [OF assms]
    by (simp add: v MD5_STEP_def rfc_step_def Let_def and_ones_u32 rotl_u32 md5_f_rfc MD5_H_def MD5_I_def
        rfc_f_def ac_simps)
qed

lemma md5_block_rfc: "md5_block H blk = rfc_compress H blk"
proof -
  let ?g = "\<lambda>(f, k, t, s) (a, b, c, d). (d, MD5_STEP f a b c d (MD5_SET blk ! k) t s, b, c)"
  have "fold ?g md5_steps H = fold (rfc_step blk) [0..<64] H"
    unfolding md5_steps_rfc fold_map
    by (rule fold_cong [OF refl refl], unfold comp_def, rule md5_step_rfc) simp
  then show ?thesis
    unfolding md5_block_def rfc_compress_def Let_def
    by (cases H) (simp add: add.commute split: prod.split del: upt_rec_numeral)
qed

end
