(* ===== verification/Sha1.thy ===== *)
theory Sha1
  imports Block_Hash
begin

text \<open>
  The SHA-1 functions of \<open>picohash.h\<close>. The context keeps the current block as sixteen 32-bit words
  that are filled byte by byte through a byte pointer (little-endian memory, hence the index
  \<open>bufferOffset ^ 3\<close>), and the message schedule of eighty words is computed in place in these
  sixteen words. Both optimisations are proved against the FIPS 180-4 definition.
\<close>

section \<open>The routines\<close>

record sha1_ctx =
  sha1_buffer :: "u32 list"
  sha1_state :: "u32 list"
  sha1_byteCount :: u64
  sha1_bufferOffset :: nat

definition SHA1_K0 :: u32 where "SHA1_K0 = 0x5a827999"
definition SHA1_K20 :: u32 where "SHA1_K20 = 0x6ed9eba1"
definition SHA1_K40 :: u32 where "SHA1_K40 = 0x8f1bbcdc"
definition SHA1_K60 :: u32 where "SHA1_K60 = 0xca62c1d6"

definition sha1_rol32 :: "u32 \<Rightarrow> nat \<Rightarrow> u32" where
  "sha1_rol32 number bits = push_bit bits number OR drop_bit (32 - bits) number"

text \<open>The message schedule step: from the sixteenth round on, one word of the buffer is replaced.\<close>

definition sha1_expand :: "nat \<Rightarrow> u32 list \<Rightarrow> u32 list" where
  "sha1_expand i buf =
     (if 16 \<le> i
      then let t = buf ! ((i + 13) mod 16) XOR buf ! ((i + 8) mod 16) XOR buf ! ((i + 2) mod 16) XOR buf ! (i mod 16)
           in buf[i mod 16 := sha1_rol32 t 1]
      else buf)"

type_synonym sha1_regs = "u32 \<times> u32 \<times> u32 \<times> u32 \<times> u32"

definition sha1_round :: "nat \<Rightarrow> u32 list \<times> sha1_regs \<Rightarrow> u32 list \<times> sha1_regs" where
  "sha1_round i s =
     (let (buf, a, b, c, d, e) = s;
          buf = sha1_expand i buf;
          t = (if i < 20 then (d XOR (b AND (c XOR d))) + SHA1_K0
               else if i < 40 then (b XOR c XOR d) + SHA1_K20
               else if i < 60 then ((b AND c) OR (d AND (b OR c))) + SHA1_K40
               else (b XOR c XOR d) + SHA1_K60);
          t = t + (sha1_rol32 a 5 + e + buf ! (i mod 16))
      in (buf, t, a, sha1_rol32 b 30, c, d))"

definition sha1_hash_block :: "sha1_ctx \<Rightarrow> sha1_ctx" where
  "sha1_hash_block s =
     (let st = sha1_state s;
          (buf, a, b, c, d, e) =
            fold sha1_round [0..<80] (sha1_buffer s, st ! 0, st ! 1, st ! 2, st ! 3, st ! 4)
      in s\<lparr>sha1_buffer := buf,
           sha1_state := [st ! 0 + a, st ! 1 + b, st ! 2 + c, st ! 3 + d, st ! 4 + e]\<rparr>)"

text \<open>A byte store into an array of words in little-endian memory.\<close>

definition store_byte :: "u32 list \<Rightarrow> nat \<Rightarrow> u8 \<Rightarrow> u32 list" where
  "store_byte ws i v =
     ws[i div 4 := (ws ! (i div 4) AND NOT (push_bit (8 * (i mod 4)) 0xff))
                   OR push_bit (8 * (i mod 4)) (ucast v)]"

definition sha1_add_uncounted :: "sha1_ctx \<Rightarrow> u8 \<Rightarrow> sha1_ctx" where
  "sha1_add_uncounted s data =
     (let s = s\<lparr>sha1_buffer := store_byte (sha1_buffer s) (sha1_bufferOffset s XOR 3) data,
                sha1_bufferOffset := sha1_bufferOffset s + 1\<rparr>
      in if sha1_bufferOffset s = 64 then (sha1_hash_block s)\<lparr>sha1_bufferOffset := 0\<rparr> else s)"

definition sha1_init :: "sha1_ctx \<Rightarrow> sha1_ctx" where
  "sha1_init s = s\<lparr>sha1_state := [0x67452301, 0xefcdab89, 0x98badcfe, 0x10325476, 0xc3d2e1f0],
     sha1_byteCount := 0, sha1_bufferOffset := 0\<rparr>"

fun sha1_update :: "sha1_ctx \<Rightarrow> bytes \<Rightarrow> sha1_ctx" where
  "sha1_update s [] = s"
| "sha1_update s (b # data) =
     sha1_update (sha1_add_uncounted (s\<lparr>sha1_byteCount := sha1_byteCount s + 1\<rparr>) b) data"

text \<open>
  The padding loop of the finalisation, with fuel: the offset runs through at most sixty-four
  values before it meets 56, so a fuel of 64 is enough for every context with an offset below 64.
\<close>

fun sha1_pad :: "nat \<Rightarrow> sha1_ctx \<Rightarrow> sha1_ctx" where
  "sha1_pad 0 s = s"
| "sha1_pad (Suc fuel) s =
     (if sha1_bufferOffset s \<noteq> 56 then sha1_pad fuel (sha1_add_uncounted s 0) else s)"

definition sha1_swap :: "u32 \<Rightarrow> u32" where
  "sha1_swap w = (push_bit 24 w AND 0xff000000) OR (push_bit 8 w AND 0x00ff0000)
     OR (drop_bit 8 w AND 0x0000ff00) OR (drop_bit 24 w AND 0x000000ff)"

definition sha1_final :: "sha1_ctx \<Rightarrow> sha1_ctx \<times> bytes" where
  "sha1_final s =
     (let s = sha1_pad 64 (sha1_add_uncounted s 0x80);
          n = sha1_byteCount s;
          s = fold (\<lambda>k s. sha1_add_uncounted s (ucast (drop_bit k n))) [53, 45, 37, 29, 21, 13, 5] s;
          s = sha1_add_uncounted s (ucast (push_bit 3 n));
          s = s\<lparr>sha1_state := map sha1_swap (sha1_state s)\<rparr>
      in (s, concat (map put32le (sha1_state s))))"

section \<open>The in-place schedule computes the FIPS 180-4 schedule\<close>

fun fips1_W :: "u32 list \<Rightarrow> nat \<Rightarrow> u32" where
  "fips1_W ws t =
     (if t < 16 then ws ! t
      else word_rotl 1 (fips1_W ws (t - 3) XOR fips1_W ws (t - 8) XOR fips1_W ws (t - 14) XOR fips1_W ws (t - 16)))"

declare fips1_W.simps [simp del]

definition fips1_f :: "nat \<Rightarrow> u32 \<Rightarrow> u32 \<Rightarrow> u32 \<Rightarrow> u32" where
  "fips1_f t x y z =
     (if t < 20 then (x AND y) XOR (NOT x AND z)
      else if t < 40 then x XOR y XOR z
      else if t < 60 then (x AND y) XOR (x AND z) XOR (y AND z)
      else x XOR y XOR z)"

definition fips1_K :: "nat \<Rightarrow> u32" where
  "fips1_K t = (if t < 20 then 0x5a827999 else if t < 40 then 0x6ed9eba1
     else if t < 60 then 0x8f1bbcdc else 0xca62c1d6)"

definition fips1_round :: "u32 list \<Rightarrow> nat \<Rightarrow> sha1_regs \<Rightarrow> sha1_regs" where
  "fips1_round ws t v = (case v of (a, b, c, d, e) \<Rightarrow>
     (word_rotl 5 a + fips1_f t b c d + e + fips1_K t + fips1_W ws t, a, word_rotl 30 b, c, d))"

definition fips1_compress :: "u32 list \<Rightarrow> bytes \<Rightarrow> u32 list" where
  "fips1_compress H blk =
     (case fold (fips1_round (map (\<lambda>i. get32 (take 4 (drop (4 * i) blk))) [0..<16])) [0..<80]
             (H ! 0, H ! 1, H ! 2, H ! 3, H ! 4)
      of (a, b, c, d, e) \<Rightarrow> [H ! 0 + a, H ! 1 + b, H ! 2 + c, H ! 3 + d, H ! 4 + e])"

lemma sha1_rol32_rotl: "0 < n \<Longrightarrow> n < 32 \<Longrightarrow> sha1_rol32 x n = word_rotl n x"
  by (simp add: sha1_rol32_def rotl_u32)

text \<open>Before round \<open>i\<close> the buffer holds the last sixteen words of the schedule.\<close>

definition sha1_window :: "u32 list \<Rightarrow> nat \<Rightarrow> u32 list \<Rightarrow> bool" where
  "sha1_window ws i buf \<longleftrightarrow> length buf = 16
     \<and> (\<forall>t < max i 16. max i 16 \<le> t + 16 \<longrightarrow> buf ! (t mod 16) = fips1_W ws t)"

lemma sha1_window_start: "length ws = 16 \<Longrightarrow> sha1_window ws 0 ws"
  by (simp add: sha1_window_def fips1_W.simps)

lemma sha1_window_nth:
  "sha1_window ws i buf \<Longrightarrow> 16 \<le> i \<Longrightarrow> k \<noteq> 0 \<Longrightarrow> k \<le> 16 \<Longrightarrow> buf ! ((i + (16 - k)) mod 16) = fips1_W ws (i - k)"
proof -
  assume w: "sha1_window ws i buf" and i: "16 \<le> i" and k: "k \<noteq> 0" "k \<le> 16"
  have "(i + (16 - k)) mod 16 = (i - k + 16) mod 16" using i k by simp
  also have "\<dots> = (i - k) mod 16" by simp
  finally show ?thesis using w i k by (simp add: sha1_window_def)
qed

lemma sha1_expand_window:
  assumes w: "sha1_window ws i buf"
  shows "sha1_window ws (Suc i) (sha1_expand i buf)"
    and "sha1_expand i buf ! (i mod 16) = fips1_W ws i"
proof -
  have len: "length buf = 16" using w by (simp add: sha1_window_def)
  have "sha1_window ws (Suc i) (sha1_expand i buf) \<and> sha1_expand i buf ! (i mod 16) = fips1_W ws i"
  proof (cases "16 \<le> i")
    case True
    let ?v = "fips1_W ws i"
    have exp: "sha1_expand i buf = buf[i mod 16 := ?v]"
      using sha1_window_nth [OF w True, of 3] sha1_window_nth [OF w True, of 8]
        sha1_window_nth [OF w True, of 14] sha1_window_nth [OF w True, of 16] True
      by (simp add: sha1_expand_def Let_def sha1_rol32_rotl fips1_W.simps [of ws i])
    have "\<forall>t < i. Suc i \<le> t + 16 \<longrightarrow> t mod 16 \<noteq> i mod 16"
      by (auto simp: mod_eq_dvd_iff_nat eq_commute [of "_ mod _" "i mod 16"] dest!: dvd_imp_le)
    with w True len show ?thesis
      by (auto simp: exp sha1_window_def nth_list_update less_Suc_eq)
  next
    case False
    with w show ?thesis by (auto simp: sha1_expand_def sha1_window_def)
  qed
  then show "sha1_window ws (Suc i) (sha1_expand i buf)"
    and "sha1_expand i buf ! (i mod 16) = fips1_W ws i" by simp_all
qed

lemma sha1_choose: "d XOR (b AND (c XOR d)) = (b AND c) XOR (NOT b AND (d :: u32))"
  by (rule bit_word_eqI) (auto simp: bit_simps)

lemma sha1_majority: "(b AND c) OR (d AND (b OR c)) = (b AND c) XOR (b AND d) XOR (c AND (d :: u32))"
  by (rule bit_word_eqI) (auto simp: bit_simps)

lemma sha1_round_fips:
  assumes "sha1_window ws i buf"
  shows "\<exists>buf'. sha1_round i (buf, v) = (buf', fips1_round ws i v) \<and> sha1_window ws (Suc i) buf'"
proof -
  obtain a b c d e where v: "v = (a, b, c, d, e)" by (cases v) auto
  show ?thesis
    using sha1_expand_window [OF assms]
    by (simp add: sha1_round_def fips1_round_def v Let_def sha1_rol32_rotl fips1_f_def fips1_K_def
        SHA1_K0_def SHA1_K20_def SHA1_K40_def SHA1_K60_def sha1_choose sha1_majority algebra_simps)
qed

lemma sha1_rounds_fips:
  assumes "length ws = 16"
  shows "\<exists>buf. fold sha1_round [0..<n] (ws, v) = (buf, fold (fips1_round ws) [0..<n] v) \<and> sha1_window ws n buf"
proof (induction n)
  case 0
  then show ?case using assms by (simp add: sha1_window_start)
next
  case (Suc n)
  then obtain buf where "fold sha1_round [0..<n] (ws, v) = (buf, fold (fips1_round ws) [0..<n] v)"
    and "sha1_window ws n buf" by blast
  then show ?case using sha1_round_fips [of ws n buf] by simp
qed

section \<open>The byte pointer into the word buffer\<close>

definition be_bytes :: "u32 list \<Rightarrow> bytes" where
  "be_bytes ws = concat (map put32 ws)"

lemma length_be_bytes [simp]: "length (be_bytes ws) = 4 * length ws"
  by (induction ws) (simp_all add: be_bytes_def put32_def)

lemma xor_3: "(i XOR 3) div 4 = i div (4 :: nat)" "(i XOR 3) mod 4 = 3 - i mod (4 :: nat)"
proof -
  have "drop_bit 2 (i XOR 3) = drop_bit 2 i" by (simp add: drop_bit_xor)
  then show "(i XOR 3) div 4 = i div 4" by (simp add: drop_bit_eq_div)
  have "take_bit 2 (i XOR 3) = take_bit 2 i XOR 3" by (simp add: take_bit_xor)
  moreover have "i mod 4 \<in> {0, 1, 2, 3}" by auto
  ultimately show "(i XOR 3) mod 4 = 3 - i mod 4" by (auto simp: take_bit_eq_mod)
qed

lemma put32_store:
  assumes "p < 4"
  shows "put32 ((w AND NOT (push_bit (8 * (3 - p)) 0xff)) OR push_bit (8 * (3 - p)) (ucast v)) = (put32 w)[p := v]"
proof -
  consider "p = 0" | "p = 1" | "p = 2" | "p = 3" using assms by linarith
  then show ?thesis
    by cases (simp_all add: put32_def, auto intro!: u8_bit_eqI simp: bit_simps)
qed

lemma be_bytes_update:
  "j < length ws \<Longrightarrow> p < 4 \<Longrightarrow> put32 w = (put32 (ws ! j))[p := v] \<Longrightarrow>
     be_bytes (ws[j := w]) = (be_bytes ws)[4 * j + p := v]"
proof (induction ws arbitrary: j)
  case (Cons a ws)
  then show ?case
    by (cases j) (simp_all add: be_bytes_def list_update_append)
qed simp

lemma be_bytes_store_byte:
  assumes "i < 4 * length ws"
  shows "be_bytes (store_byte ws (i XOR 3) v) = (be_bytes ws)[i := v]"
proof -
  have "3 - (3 - i mod 4) = i mod 4" by (simp add: less_Suc_eq_le)
  then show ?thesis
    using be_bytes_update [of "i div 4" ws "i mod 4" _ v] put32_store [of "i mod 4" "ws ! (i div 4)" v] assms
    by (simp add: store_byte_def xor_3)
qed

lemma be_words: "length ws = 16 \<Longrightarrow> map (\<lambda>i. get32 (take 4 (drop (4 * i) (be_bytes ws)))) [0..<16] = ws"
proof (rule nth_equalityI)
  fix i assume "length ws = 16"
    and "i < length (map (\<lambda>i. get32 (take 4 (drop (4 * i) (be_bytes ws)))) [0..<16])"
  then have i: "i < length ws" by simp
  then have "take 4 (drop (4 * i) (be_bytes ws)) = put32 (ws ! i)"
    by (induction ws arbitrary: i) (auto simp: be_bytes_def nth_Cons split: nat.split)
  with i \<open>length ws = 16\<close> show "map (\<lambda>i. get32 (take 4 (drop (4 * i) (be_bytes ws)))) [0..<16] ! i = ws ! i"
    by (simp add: netorder del: upt_rec_numeral)
qed simp

section \<open>The context refines the absorbed message\<close>

abbreviation sha1_iv :: "u32 list" where
  "sha1_iv \<equiv> [0x67452301, 0xefcdab89, 0x98badcfe, 0x10325476, 0xc3d2e1f0]"

definition sha1_digest :: "bytes \<Rightarrow> bytes" where
  "sha1_digest m = be_bytes (foldb fips1_compress sha1_iv (md_pad (put64 (of_nat (8 * length m))) m))"

definition sha1_usable :: "sha1_ctx \<Rightarrow> bool" where
  "sha1_usable s \<longleftrightarrow> length (sha1_buffer s) = 16 \<and> length (sha1_state s) = 5"

text \<open>The part of the relation that the uncounted bytes of the padding keep too.\<close>

definition sha1_holds :: "sha1_ctx \<Rightarrow> bytes \<Rightarrow> bool" where
  "sha1_holds s m \<longleftrightarrow> sha1_usable s \<and> sha1_bufferOffset s = length m mod 64
     \<and> (sha1_state s, take (sha1_bufferOffset s) (be_bytes (sha1_buffer s))) = absorb fips1_compress (sha1_iv, []) m"

definition sha1_repr :: "sha1_ctx \<Rightarrow> bytes \<Rightarrow> bool" where
  "sha1_repr s m \<longleftrightarrow> sha1_holds s m \<and> sha1_byteCount s = of_nat (length m)"

lemma sha1_hash_block_fips:
  assumes "length (sha1_buffer s) = 16"
  shows "sha1_state (sha1_hash_block s) = fips1_compress (sha1_state s) (be_bytes (sha1_buffer s))"
    and "length (sha1_buffer (sha1_hash_block s)) = 16"
    and "sha1_byteCount (sha1_hash_block s) = sha1_byteCount s"
proof -
  let ?v = "(sha1_state s ! 0, sha1_state s ! 1, sha1_state s ! 2, sha1_state s ! 3, sha1_state s ! 4)"
  obtain buf where "fold sha1_round [0..<80] (sha1_buffer s, ?v)
      = (buf, fold (fips1_round (sha1_buffer s)) [0..<80] ?v)" and "length buf = 16"
    using sha1_rounds_fips [OF assms, of 80 ?v] by (auto simp: sha1_window_def)
  then show "sha1_state (sha1_hash_block s) = fips1_compress (sha1_state s) (be_bytes (sha1_buffer s))"
    and "length (sha1_buffer (sha1_hash_block s)) = 16"
    and "sha1_byteCount (sha1_hash_block s) = sha1_byteCount s"
    unfolding sha1_hash_block_def fips1_compress_def be_words [OF assms] Let_def
    by (simp_all only: split: prod.split) (simp_all del: upt_rec_numeral)
qed

lemma length_fips1_compress [simp]: "length (fips1_compress H b) = 5"
  by (simp add: fips1_compress_def split: prod.split)

lemma sha1_add_holds:
  assumes "sha1_holds s m"
  shows "sha1_holds (sha1_add_uncounted s b) (m @ [b])"
    and "sha1_byteCount (sha1_add_uncounted s b) = sha1_byteCount s"
proof -
  let ?k = "sha1_bufferOffset s" and ?B = "be_bytes (sha1_buffer s)"
  let ?buf = "store_byte (sha1_buffer s) (?k XOR 3) b"
  let ?s = "s\<lparr>sha1_buffer := ?buf, sha1_bufferOffset := ?k + 1\<rparr>"
  have len: "length (sha1_buffer s) = 16" "length (sha1_state s) = 5" and k: "?k = length m mod 64" "?k < 64"
    and st: "absorb fips1_compress (sha1_iv, []) m = (sha1_state s, take ?k ?B)"
    using assms unfolding sha1_holds_def sha1_usable_def by auto
  have lenb: "length ?buf = 16" using len by (simp add: store_byte_def)
  have B: "take (?k + 1) (be_bytes ?buf) = take ?k ?B @ [b]"
    using k len by (simp add: be_bytes_store_byte take_Suc_conv_app_nth)
  have ab: "absorb fips1_compress (sha1_iv, []) (m @ [b]) = absorb fips1_compress (sha1_state s, take ?k ?B) [b]"
    by (simp add: st flip: absorb_absorb)
  have "sha1_holds (sha1_add_uncounted s b) (m @ [b]) \<and>
    sha1_byteCount (sha1_add_uncounted s b) = sha1_byteCount s"
  proof (cases "?k + 1 = 64")
    case True
    then have full: "take ?k ?B @ [b] = be_bytes ?buf" using B [symmetric] lenb by simp
    have "length (m @ [b]) mod 64 = 0" using True k by (simp add: mod_Suc)
    moreover have "absorb fips1_compress (sha1_iv, []) (m @ [b])
        = (fips1_compress (sha1_state s) (be_bytes ?buf), [])"
      unfolding ab full [symmetric] by (rule absorb_full) (use True len in simp)
    ultimately show ?thesis
      using True sha1_hash_block_fips [of ?s] lenb len
      by (simp add: sha1_add_uncounted_def Let_def sha1_holds_def sha1_usable_def)
  next
    case False
    then have "length (m @ [b]) mod 64 = ?k + 1" using k by (simp add: mod_Suc)
    moreover have "absorb fips1_compress (sha1_iv, []) (m @ [b]) = (sha1_state s, take ?k ?B @ [b])"
      using False k len by (simp add: ab absorb_short)
    ultimately show ?thesis
      using False lenb len B by (simp add: sha1_add_uncounted_def Let_def sha1_holds_def sha1_usable_def)
  qed
  then show "sha1_holds (sha1_add_uncounted s b) (m @ [b])"
    and "sha1_byteCount (sha1_add_uncounted s b) = sha1_byteCount s" by simp_all
qed

lemma sha1_add_many:
  "sha1_holds s m \<Longrightarrow> sha1_holds (fold (\<lambda>b s. sha1_add_uncounted s b) bs s) (m @ bs)"
proof (induction bs arbitrary: s m)
  case (Cons b bs)
  from Cons.IH [OF sha1_add_holds(1) [OF Cons.prems]] show ?case by simp
qed simp

lemma sha1_count_holds [simp]: "sha1_holds (s\<lparr>sha1_byteCount := n\<rparr>) m = sha1_holds s m"
  by (simp add: sha1_holds_def sha1_usable_def)

lemma sha1_update_repr: "sha1_repr s m \<Longrightarrow> sha1_repr (sha1_update s d) (m @ d)"
proof (induction s d arbitrary: m rule: sha1_update.induct)
  case (2 s b data)
  then have "sha1_repr (sha1_add_uncounted (s\<lparr>sha1_byteCount := sha1_byteCount s + 1\<rparr>) b) (m @ [b])"
    using sha1_add_holds [of "s\<lparr>sha1_byteCount := sha1_byteCount s + 1\<rparr>" m b] by (simp add: sha1_repr_def)
  from "2.IH" [OF this] show ?case by simp
qed simp

text \<open>The padding loop stops at offset 56 within its fuel.\<close>

lemma sha1_pad_holds:
  "sha1_holds s m \<Longrightarrow> (length m + z) mod 64 = 56 \<Longrightarrow> \<forall>j < z. (length m + j) mod 64 \<noteq> 56 \<Longrightarrow> z \<le> fuel \<Longrightarrow>
     sha1_holds (sha1_pad fuel s) (m @ replicate z 0) \<and> sha1_byteCount (sha1_pad fuel s) = sha1_byteCount s"
proof (induction fuel s arbitrary: m z rule: sha1_pad.induct)
  case (2 fuel s)
  show ?case
  proof (cases z)
    case 0
    with 2 show ?thesis by (auto simp: sha1_holds_def)
  next
    case (Suc z')
    note add = sha1_add_holds [OF "2.prems"(1), of 0]
    have "sha1_bufferOffset s \<noteq> 56"
      using "2.prems"(1) spec [OF "2.prems"(3), of 0] Suc by (simp add: sha1_holds_def)
    moreover have "(length (m @ [0 :: u8]) + j) mod 64 \<noteq> 56" if "j < z'" for j
      using spec [OF "2.prems"(3), of "Suc j"] Suc that by simp
    ultimately have "sha1_holds (sha1_pad fuel (sha1_add_uncounted s 0)) ((m @ [0]) @ replicate z' 0)
        \<and> sha1_byteCount (sha1_pad fuel (sha1_add_uncounted s 0)) = sha1_byteCount (sha1_add_uncounted s 0)"
      using "2.IH" [OF _ add(1), of z'] "2.prems" Suc by simp
    with \<open>sha1_bufferOffset s \<noteq> 56\<close> show ?thesis using add Suc by (simp add: replicate_append_same)
  qed
qed simp

lemma sha1_bits: "[ucast (drop_bit 53 n), ucast (drop_bit 45 n), ucast (drop_bit 37 n), ucast (drop_bit 29 n),
   ucast (drop_bit 21 n), ucast (drop_bit 13 n), ucast (drop_bit 5 n), ucast (push_bit 3 n)] = put64 (8 * (n :: u64))"
proof -
  have "8 * n = push_bit 3 n" by (simp add: push_bit_eq_mult)
  then show ?thesis
    by (simp add: put64_def put32_def del: push_bit_and) (auto intro!: u8_bit_eqI simp: bit_simps)
qed

lemma sha1_swap_bytes: "put32le (sha1_swap w) = put32 w"
  by (simp add: put32_def put32le_def sha1_swap_def) (auto intro!: u8_bit_eqI simp: bit_simps)

lemma sha1_final_digest:
  assumes "sha1_repr s m"
  shows "snd (sha1_final s) = sha1_digest m" and "sha1_usable (fst (sha1_final s))"
proof -
  define z where "z = (119 - length m mod 64) mod 64"
  define s1 where "s1 = sha1_pad 64 (sha1_add_uncounted s 0x80)"
  define s2 where "s2 = sha1_add_uncounted (fold (\<lambda>k s. sha1_add_uncounted s (ucast (drop_bit k (sha1_byteCount s1))))
      [53, 45, 37, 29, 21, 13, 5] s1) (ucast (push_bit 3 (sha1_byteCount s1)))"
  have h: "sha1_holds s m" and n: "sha1_byteCount s = of_nat (length m)"
    using assms by (simp_all add: sha1_repr_def)
  have z: "(length (m @ [0x80 :: u8]) + z) mod 64 = 56" "\<forall>j < z. (length (m @ [0x80 :: u8]) + j) mod 64 \<noteq> 56"
    "z \<le> 64"
  proof -
    define q r where "q = length m div 64" and "r = length m mod 64"
    then have m: "length m = 64 * q + r" and r: "r < 64" by simp_all
    then have z: "z = (if r < 56 then 55 - r else 119 - r)" by (simp add: z_def md_pad_zeros)
    have sum: "(length (m @ [0x80 :: u8]) + j) mod 64 = (r + 1 + j) mod 64" for j
      using mod_mult_self4 [of 64 q "r + 1 + j"] by (simp add: m add.assoc)
    show "(length (m @ [0x80 :: u8]) + z) mod 64 = 56" "z \<le> 64"
      unfolding sum using r by (auto simp: z)
    show "\<forall>j < z. (length (m @ [0x80 :: u8]) + j) mod 64 \<noteq> 56"
    proof (intro allI impI)
      fix j assume "j < z"
      with r z have "r + 1 + j < 56 \<or> 56 < r + 1 + j \<and> r + 1 + j < 64 \<or> 64 \<le> r + 1 + j \<and> r + 1 + j < 120"
        by (auto split: if_splits)
      then show "(length (m @ [0x80 :: u8]) + j) mod 64 \<noteq> 56"
        unfolding sum by (elim disjE conjE) (simp_all add: le_mod_geq)
    qed
  qed
  have s1: "sha1_holds s1 ((m @ [0x80]) @ replicate z 0)" "sha1_byteCount s1 = of_nat (length m)"
    using sha1_pad_holds [OF sha1_add_holds(1) [OF h, of "0x80"] z] sha1_add_holds(2) [OF h] n
    by (simp_all add: s1_def)
  have "sha1_holds s2 (((m @ [0x80]) @ replicate z 0) @ put64 (8 * of_nat (length m)))"
    using sha1_add_many [OF s1(1), of "put64 (8 * of_nat (length m))"]
    by (simp add: s2_def s1(2) flip: sha1_bits)
  then have holds: "sha1_holds s2 (md_pad (put64 (of_nat (8 * length m))) m)"
    by (simp add: md_pad_def z_def)
  then have "sha1_state s2 = foldb fips1_compress sha1_iv (md_pad (put64 (of_nat (8 * length m))) m)"
    by (auto simp: sha1_holds_def absorb_start)
  moreover have "sha1_final s = (s2\<lparr>sha1_state := map sha1_swap (sha1_state s2)\<rparr>,
      concat (map put32le (map sha1_swap (sha1_state s2))))"
    by (simp add: sha1_final_def s1_def s2_def Let_def)
  ultimately show "snd (sha1_final s) = sha1_digest m" "sha1_usable (fst (sha1_final s))"
    using holds by (simp_all add: sha1_digest_def be_bytes_def sha1_swap_bytes comp_def sha1_holds_def sha1_usable_def)
qed

lemma sha1_init_repr: "sha1_usable s \<Longrightarrow> sha1_repr (sha1_init s) []"
  by (simp add: sha1_repr_def sha1_holds_def sha1_init_def sha1_usable_def absorb_def)

lemma length_sha1_digest: "length (sha1_digest m) = 20"
proof -
  have "length (foldb fips1_compress sha1_iv xs) = 5" for xs
    using foldb_cong_inv [of "\<lambda>s. length s = 5" fips1_compress fips1_compress sha1_iv xs] by simp
  then show ?thesis by (simp add: sha1_digest_def)
qed

interpretation sha1: streaming_hash sha1_init sha1_update sha1_final sha1_usable sha1_repr sha1_digest 20
proof
  show "sha1_usable s" if "sha1_repr s m" for s m
    using that by (simp add: sha1_repr_def sha1_holds_def)
qed (simp_all add: sha1_init_repr sha1_update_repr sha1_final_digest length_sha1_digest)


end
