(* ===== verification/Sha256.thy ===== *)
theory Sha256
  imports Block_Hash
begin

text \<open>
  The SHA-256 functions of \<open>picohash.h\<close>: the message schedule and the rounds of the compression
  function, the buffering update loop and the finalisation, and the proof that a context refines
  the message it has absorbed. The compression function is compared with its FIPS 180-4 definition.
\<close>

section \<open>The routines\<close>

text \<open>
  \<open>curlen\<close> is the fill level of the buffer; it stays below 64, so its width plays no role and it is
  a natural number. \<open>length\<close> counts bits and wraps at 64 bits.
\<close>

record sha256_ctx =
  sha256_length :: u64
  sha256_state :: "u32 list"
  sha256_curlen :: nat
  sha256_buf :: bytes

definition sha256_ch :: "u32 \<Rightarrow> u32 \<Rightarrow> u32 \<Rightarrow> u32" where "sha256_ch x y z = z XOR (x AND (y XOR z))"
definition sha256_maj :: "u32 \<Rightarrow> u32 \<Rightarrow> u32 \<Rightarrow> u32" where "sha256_maj x y z = ((x OR y) AND z) OR (x AND y)"

definition sha256_s :: "u32 \<Rightarrow> nat \<Rightarrow> u32" where
  "sha256_s x y =
     (drop_bit (y mod 32) (x AND 0xFFFFFFFF) OR push_bit (32 - y mod 32) x) AND 0xFFFFFFFF"

definition sha256_r :: "u32 \<Rightarrow> nat \<Rightarrow> u32" where "sha256_r x n = drop_bit n (x AND 0xFFFFFFFF)"

definition sha256_sigma0 :: "u32 \<Rightarrow> u32" where
  "sha256_sigma0 x = sha256_s x 2 XOR sha256_s x 13 XOR sha256_s x 22"
definition sha256_sigma1 :: "u32 \<Rightarrow> u32" where
  "sha256_sigma1 x = sha256_s x 6 XOR sha256_s x 11 XOR sha256_s x 25"
definition sha256_gamma0 :: "u32 \<Rightarrow> u32" where
  "sha256_gamma0 x = sha256_s x 7 XOR sha256_s x 18 XOR sha256_r x 3"
definition sha256_gamma1 :: "u32 \<Rightarrow> u32" where
  "sha256_gamma1 x = sha256_s x 17 XOR sha256_s x 19 XOR sha256_r x 10"

definition sha256_K :: "u32 list" where
  "sha256_K = concat
    [[0x428a2f98, 0x71374491, 0xb5c0fbcf, 0xe9b5dba5], [0x3956c25b, 0x59f111f1, 0x923f82a4, 0xab1c5ed5],
     [0xd807aa98, 0x12835b01, 0x243185be, 0x550c7dc3], [0x72be5d74, 0x80deb1fe, 0x9bdc06a7, 0xc19bf174],
     [0xe49b69c1, 0xefbe4786, 0x0fc19dc6, 0x240ca1cc], [0x2de92c6f, 0x4a7484aa, 0x5cb0a9dc, 0x76f988da],
     [0x983e5152, 0xa831c66d, 0xb00327c8, 0xbf597fc7], [0xc6e00bf3, 0xd5a79147, 0x06ca6351, 0x14292967],
     [0x27b70a85, 0x2e1b2138, 0x4d2c6dfc, 0x53380d13], [0x650a7354, 0x766a0abb, 0x81c2c92e, 0x92722c85],
     [0xa2bfe8a1, 0xa81a664b, 0xc24b8b70, 0xc76c51a3], [0xd192e819, 0xd6990624, 0xf40e3585, 0x106aa070],
     [0x19a4c116, 0x1e376c08, 0x2748774c, 0x34b0bcb5], [0x391c0cb3, 0x4ed8aa4a, 0x5b9cca4f, 0x682e6ff3],
     [0x748f82ee, 0x78a5636f, 0x84c87814, 0x8cc70208], [0x90befffa, 0xa4506ceb, 0xbef9a3f7, 0xc67178f2]]"

text \<open>The array \<open>W\<close>: sixteen words of the block in network order, then forty-eight derived ones.\<close>

definition sha256_W :: "bytes \<Rightarrow> u32 list" where
  "sha256_W buf =
     fold (\<lambda>i W. W @ [sha256_gamma1 (W ! (i - 2)) + W ! (i - 7) + sha256_gamma0 (W ! (i - 15)) + W ! (i - 16)])
       [16..<64] (map (\<lambda>i. get32 (take 4 (drop (4 * i) buf))) [0..<16])"

text \<open>One round and the rotation of the eight registers after it.\<close>

definition sha256_rnd :: "u32 list \<Rightarrow> nat \<Rightarrow> u32 list \<Rightarrow> u32 list" where
  "sha256_rnd W i S =
     (let t0 = S ! 7 + sha256_sigma1 (S ! 4) + sha256_ch (S ! 4) (S ! 5) (S ! 6) + sha256_K ! i + W ! i;
          t1 = sha256_sigma0 (S ! 0) + sha256_maj (S ! 0) (S ! 1) (S ! 2);
          S = S[3 := S ! 3 + t0];
          S = S[7 := t0 + t1]
      in [S ! 7, S ! 0, S ! 1, S ! 2, S ! 3, S ! 4, S ! 5, S ! 6])"

definition sha256_compress :: "u32 list \<Rightarrow> bytes \<Rightarrow> u32 list" where
  "sha256_compress state buf =
     (let W = sha256_W buf; S = fold (sha256_rnd W) [0..<64] state
      in map2 (+) state S)"

definition sha256_init :: "sha256_ctx \<Rightarrow> sha256_ctx" where
  "sha256_init ctx = ctx\<lparr>sha256_curlen := 0, sha256_length := 0,
     sha256_state := [0x6A09E667, 0xBB67AE85, 0x3C6EF372, 0xA54FF53A,
                      0x510E527F, 0x9B05688C, 0x1F83D9AB, 0x5BE0CD19]\<rparr>"

text \<open>
  The update loop. A full buffer (\<open>curlen = 64\<close>) never enters the loop, so a pass always consumes
  data; the test \<open>n = 0\<close> stands for the pass that would not, and \<open>sha256_update_repr\<close> shows that
  contexts in use never reach it.
\<close>

function sha256_update :: "sha256_ctx \<Rightarrow> bytes \<Rightarrow> sha256_ctx" where
  "sha256_update ctx data =
     (if data = [] then ctx
      else if sha256_curlen ctx = 0 \<and> 64 \<le> length data
      then sha256_update
             (ctx\<lparr>sha256_state := sha256_compress (sha256_state ctx) (take 64 data),
                  sha256_length := sha256_length ctx + 512\<rparr>) (drop 64 data)
      else
        let n = min (64 - sha256_curlen ctx) (length data);
            buf = blit (sha256_buf ctx) (sha256_curlen ctx) (take n data);
            curlen = sha256_curlen ctx + n;
            ctx = ctx\<lparr>sha256_buf := buf, sha256_curlen := curlen\<rparr>;
            ctx = (if curlen = 64
                   then ctx\<lparr>sha256_state := sha256_compress (sha256_state ctx) buf,
                            sha256_length := sha256_length ctx + 512, sha256_curlen := 0\<rparr>
                   else ctx)
        in if n = 0 then ctx else sha256_update ctx (drop n data))"
  by pat_completeness auto
termination by (relation "measure (\<lambda>(ctx, data). length data)") auto

declare sha256_update.simps [simp del]

definition sha256_do_final :: "sha256_ctx \<Rightarrow> nat \<Rightarrow> sha256_ctx \<times> bytes" where
  "sha256_do_final ctx len =
     (let bits = sha256_length ctx + of_nat (sha256_curlen ctx * 8);
          buf = blit (sha256_buf ctx) (sha256_curlen ctx) [0x80];
          curlen = sha256_curlen ctx + 1;
          (st, buf, curlen) =
            (if 56 < curlen
             then let buf = blit buf curlen (replicate (64 - curlen) 0)
                  in (sha256_compress (sha256_state ctx) buf, buf, 0)
             else (sha256_state ctx, buf, curlen));
          buf = blit buf curlen (replicate (56 - curlen) 0);
          buf = blit buf 56 (map (\<lambda>i. ucast (drop_bit (56 - 8 * i) bits)) [0..<8]);
          st = sha256_compress st buf
      in (ctx\<lparr>sha256_length := bits, sha256_curlen := 56, sha256_buf := buf, sha256_state := st\<rparr>,
          concat (map (\<lambda>i. [ucast (drop_bit 24 (st ! i)), ucast (drop_bit 16 (st ! i)),
                              ucast (drop_bit 8 (st ! i)), ucast (st ! i)]) [0..<len div 4])))"

definition sha256_final :: "sha256_ctx \<Rightarrow> sha256_ctx \<times> bytes" where
  "sha256_final ctx = sha256_do_final ctx 32"

definition sha224_init :: "sha256_ctx \<Rightarrow> sha256_ctx" where
  "sha224_init ctx = ctx\<lparr>sha256_curlen := 0, sha256_length := 0,
     sha256_state := [0xc1059ed8, 0x367cd507, 0x3070dd17, 0xf70e5939,
                      0xffc00b31, 0x68581511, 0x64f98fa7, 0xbefa4fa4]\<rparr>"

definition sha224_final :: "sha256_ctx \<Rightarrow> sha256_ctx \<times> bytes" where
  "sha224_final ctx = sha256_do_final ctx 28"

section \<open>The context refines the absorbed message\<close>

abbreviation sha256_iv :: "u32 list" where
  "sha256_iv \<equiv> [0x6A09E667, 0xBB67AE85, 0x3C6EF372, 0xA54FF53A,
                 0x510E527F, 0x9B05688C, 0x1F83D9AB, 0x5BE0CD19]"

abbreviation sha224_iv :: "u32 list" where
  "sha224_iv \<equiv> [0xc1059ed8, 0x367cd507, 0x3070dd17, 0xf70e5939,
                 0xffc00b31, 0x68581511, 0x64f98fa7, 0xbefa4fa4]"

text \<open>The digest of a message for an initial value and an output length in words.\<close>

definition sha2_digest :: "u32 list \<Rightarrow> nat \<Rightarrow> bytes \<Rightarrow> bytes" where
  "sha2_digest iv n m =
     concat (map put32 (take n (foldb sha256_compress iv (md_pad (put64 (of_nat (8 * length m))) m))))"

definition sha256_usable :: "sha256_ctx \<Rightarrow> bool" where
  "sha256_usable ctx \<longleftrightarrow> length (sha256_buf ctx) = 64 \<and> length (sha256_state ctx) = 8"

definition sha2_repr :: "u32 list \<Rightarrow> sha256_ctx \<Rightarrow> bytes \<Rightarrow> bool" where
  "sha2_repr iv ctx m \<longleftrightarrow> sha256_usable ctx \<and> sha256_curlen ctx = length m mod 64
     \<and> sha256_length ctx + of_nat (8 * sha256_curlen ctx) = of_nat (8 * length m)
     \<and> (sha256_state ctx, take (sha256_curlen ctx) (sha256_buf ctx)) = absorb sha256_compress (iv, []) m"

lemma length_sha256_rnd [simp]: "length (sha256_rnd W i S) = 8"
  by (simp add: sha256_rnd_def Let_def)

lemma length_fold_sha256_rnd: "length S = 8 \<Longrightarrow> length (fold (sha256_rnd W) is S) = 8"
  by (induction "is" arbitrary: S) simp_all

lemma length_sha256_compress [simp]:
  "length st = 8 \<Longrightarrow> length (sha256_compress st buf) = 8"
  by (simp add: sha256_compress_def Let_def length_fold_sha256_rnd)

text \<open>The three things a pass of the update loop can do.\<close>

lemma sha2_reprD:
  assumes "sha2_repr iv ctx m"
  shows "length (sha256_buf ctx) = 64" and "length (sha256_state ctx) = 8"
    and "sha256_curlen ctx = length m mod 64"
    and "sha256_length ctx + of_nat (8 * sha256_curlen ctx) = of_nat (8 * length m)"
    and "absorb sha256_compress (iv, []) m
      = (sha256_state ctx, take (sha256_curlen ctx) (sha256_buf ctx))"
  using assms unfolding sha2_repr_def sha256_usable_def by metis+

lemma sha2_absorb:
  "sha2_repr iv ctx m \<Longrightarrow> absorb sha256_compress (iv, []) (m @ b)
     = absorb sha256_compress (sha256_state ctx, take (sha256_curlen ctx) (sha256_buf ctx)) b"
  by (metis absorb_absorb sha2_reprD(5))

lemma sha2_step_full:
  assumes r: "sha2_repr iv ctx m" and b: "sha256_curlen ctx + length b = 64"
    and buf: "length buf = 64" "take (sha256_curlen ctx) (sha256_buf ctx) @ b = blk"
  shows "sha2_repr iv (ctx\<lparr>sha256_buf := buf, sha256_state := sha256_compress (sha256_state ctx) blk,
    sha256_length := sha256_length ctx + 512, sha256_curlen := 0\<rparr>) (m @ b)"
proof -
  let ?u = "sha256_curlen ctx"
  note u = sha2_reprD(3) [OF r] and l = sha2_reprD(4) [OF r]
  have len: "length (take ?u (sha256_buf ctx)) = ?u" using b by (simp add: sha2_reprD [OF r])
  have "absorb sha256_compress (iv, []) (m @ b) = (sha256_compress (sha256_state ctx) blk, [])"
    using b len buf(2) by (simp add: sha2_absorb [OF r] absorb_full)
  moreover have "(length m + length b) mod 64 = 0"
    using b u by (metis mod_add_left_eq mod_self)
  moreover have "sha256_length ctx + 512 = of_nat (8 * length (m @ b))"
  proof -
    have "of_nat (8 * length (m @ b)) = sha256_length ctx + of_nat (8 * (?u + length b))"
      using l by (simp add: algebra_simps)
    then show ?thesis by (simp add: b)
  qed
  ultimately show ?thesis using r buf(1) by (simp add: sha2_repr_def sha256_usable_def)
qed

lemma sha2_step_partial:
  assumes r: "sha2_repr iv ctx m" and b: "sha256_curlen ctx + length b < 64"
  shows "sha2_repr iv (ctx\<lparr>sha256_buf := blit (sha256_buf ctx) (sha256_curlen ctx) b,
    sha256_curlen := sha256_curlen ctx + length b\<rparr>) (m @ b)"
proof -
  let ?u = "sha256_curlen ctx"
  note buf = sha2_reprD(1) [OF r] and u = sha2_reprD(3) [OF r] and l = sha2_reprD(4) [OF r]
  have "absorb sha256_compress (iv, []) (m @ b) = (sha256_state ctx, take ?u (sha256_buf ctx) @ b)"
    using b buf by (simp add: sha2_absorb [OF r] absorb_short)
  moreover have "(length m + length b) mod 64 = ?u + length b" using b u by (simp add: mod_add_less)
  moreover have "sha256_length ctx + of_nat (8 * (?u + length b)) = of_nat (8 * length (m @ b))"
    using l by (simp add: algebra_simps)
  ultimately show ?thesis using r b buf by (simp add: sha2_repr_def sha256_usable_def length_blit take_blit)
qed

lemma sha256_update_repr:
  "sha2_repr iv ctx m \<Longrightarrow> sha2_repr iv (sha256_update ctx d) (m @ d)"
proof (induction ctx d arbitrary: m rule: sha256_update.induct)
  case (1 ctx data)
  let ?u = "sha256_curlen ctx"
  have u: "?u < 64" and buf: "length (sha256_buf ctx) = 64"
    using sha2_reprD [OF "1.prems"] by simp_all
  consider "data = []" | "?u = 0" "64 \<le> length data" | "data \<noteq> []" "\<not> (?u = 0 \<and> 64 \<le> length data)"
    by metis
  then show ?case
  proof cases
    case 1
    with "1.prems" show ?thesis by (simp add: sha256_update.simps)
  next
    case 2
    have "sha2_repr iv (ctx\<lparr>sha256_state := sha256_compress (sha256_state ctx) (take 64 data),
        sha256_length := sha256_length ctx + 512\<rparr>) (m @ take 64 data)"
      using sha2_step_full [OF "1.prems", of "take 64 data" "sha256_buf ctx"] 2 buf by (cases ctx) simp
    from "1.IH"(1) [OF _ _ this] 2 show ?thesis
      by (auto simp: sha256_update.simps [of ctx data])
  next
    case 3
    let ?n = "min (64 - ?u) (length data)"
    let ?b = "blit (sha256_buf ctx) ?u (take ?n data)"
    let ?c = "ctx\<lparr>sha256_buf := ?b, sha256_curlen := ?u + ?n\<rparr>"
    let ?c' = "if ?u + ?n = 64 then ?c\<lparr>sha256_state := sha256_compress (sha256_state ?c) ?b,
      sha256_length := sha256_length ?c + 512, sha256_curlen := 0\<rparr> else ?c"
    have n: "?n \<noteq> 0" using 3 u by auto
    have "sha2_repr iv ?c' (m @ take ?n data)"
    proof (cases "?u + ?n = 64")
      case True
      then show ?thesis
        using sha2_step_full [OF "1.prems", of "take ?n data" ?b ?b] buf by (simp add: blit_full)
    next
      case False
      then show ?thesis
        using sha2_step_partial [OF "1.prems", of "take ?n data"] u by auto
    qed
    moreover have "sha256_update ctx data = sha256_update ?c' (drop ?n data)"
      by (subst sha256_update.simps) (simp only: Let_def if_False 3 n)
    ultimately show ?thesis
      using "1.IH"(2) [OF 3 refl refl refl refl refl n, of "m @ take ?n data"] by simp
  qed
qed

lemma sha256_length_bytes: "map (\<lambda>i. ucast (drop_bit (56 - 8 * i) (w :: u64))) [0..<8] = put64 w"
proof -
  have "[0..<8] = [0, 1, 2, 3, 4, 5, 6, 7 :: nat]" by (simp add: upt_rec)
  then show ?thesis
    by (simp add: put64_def put32_def) (auto intro!: bit_word_eqI simp: bit_simps)
qed

lemma sha256_out:
  assumes "n \<le> length st"
  shows "concat (map (\<lambda>i. [ucast (drop_bit 24 (st ! i)), ucast (drop_bit 16 (st ! i)),
       ucast (drop_bit 8 (st ! i)), ucast (st ! i)]) [0..<n]) = concat (map put32 (take n st))"
proof -
  have "take n st = map ((!) st) [0..<n]" using assms by (intro nth_equalityI) simp_all
  then show ?thesis by (simp add: put32_def comp_def)
qed

lemma sha256_do_final_digest:
  assumes "sha2_repr iv ctx m" "n \<le> 8"
  shows "snd (sha256_do_final ctx (4 * n)) = sha2_digest iv n m"
proof -
  let ?u = "sha256_curlen ctx" and ?cf = sha256_compress
  let ?t = "take ?u (sha256_buf ctx)" and ?enc = "put64 (of_nat (8 * length m))"
  note buf = sha2_reprD(1) [OF assms(1)] and u = sha2_reprD(3) [OF assms(1)]
    and bits = sha2_reprD(4) [OF assms(1)] and st = sha2_reprD(5) [OF assms(1)]
  have lt: "length ?t = ?u" "?u < 64" and enc: "length ?enc = 8"
    using buf u by (simp_all add: put64_def put32_def)
  let ?st = "if ?u < 56 then ?cf (sha256_state ctx) (?t @ [0x80] @ replicate (55 - ?u) 0 @ ?enc)
    else ?cf (?cf (sha256_state ctx) (?t @ [0x80] @ replicate (63 - ?u) 0)) (replicate 56 0 @ ?enc)"
  have bits': "sha256_length ctx + of_nat (?u * 8) = of_nat (8 * length m)"
    using bits by (simp add: mult.commute)
  have len8: "length (sha256_state ctx) = 8" by (rule sha2_reprD(2) [OF assms(1)])
  have "snd (sha256_do_final ctx (4 * n)) = concat (map put32 (take n ?st))"
  proof (cases "?u < 56")
    case True
    have *: "blit (blit (blit (sha256_buf ctx) ?u [0x80]) (Suc ?u) (replicate (55 - ?u) 0)) 56 ?enc
      = ?t @ [0x80] @ replicate (55 - ?u) 0 @ ?enc"
      using True buf enc by (simp add: blit_blit blit_full)
    from True show ?thesis
      unfolding sha256_do_final_def Let_def bits' sha256_length_bytes
      using * len8 assms(2) by (simp add: sha256_out)
  next
    case False
    have 1: "blit (blit (sha256_buf ctx) ?u [0x80]) (Suc ?u) (replicate (63 - ?u) 0)
      = ?t @ [0x80] @ replicate (63 - ?u) 0" (is "?b = _")
      using False buf lt by (simp add: blit_blit blit_full)
    have 2: "blit (blit xs 0 (replicate 56 0)) 56 ?enc = replicate 56 0 @ ?enc" if "length xs = 64" for xs
      using that enc by (simp add: blit_blit blit_full)
    have 3: "length ?b = 64" using 1 lt False by simp
    from False show ?thesis
      unfolding sha256_do_final_def Let_def bits' sha256_length_bytes
      using 1 2 [OF 3] len8 assms(2) by (simp add: sha256_out)
  qed
  also have "\<dots> = sha2_digest iv n m"
    using foldb_md_pad [OF enc st] lt by (simp add: sha2_digest_def)
  finally show ?thesis .
qed

lemma sha256_do_final_usable:
  assumes "sha2_repr iv ctx m"
  shows "sha256_usable (fst (sha256_do_final ctx k))"
proof -
  note buf = sha2_reprD(1,2) [OF assms]
  have "sha256_curlen ctx < 64" by (simp add: sha2_reprD(3) [OF assms])
  then show ?thesis using buf
    by (simp add: sha256_do_final_def sha256_usable_def Let_def length_blit)
qed

lemma length_foldb_sha256: "length st = 8 \<Longrightarrow> length (foldb sha256_compress st xs) = 8"
  using foldb_cong_inv [of "\<lambda>s. length s = 8" sha256_compress sha256_compress st xs] by simp

lemma length_sha2_digest:
  assumes "length iv = 8" "n \<le> 8"
  shows "length (sha2_digest iv n m) = 4 * n"
proof -
  have "length (foldb sha256_compress iv xs) = 8" for xs
    using length_foldb_sha256 assms(1) by blast
  moreover have "length (concat (map put32 ws)) = 4 * length ws" for ws
    by (induction ws) (simp_all add: put32_def)
  ultimately show ?thesis using assms(2) by (simp add: sha2_digest_def)
qed

lemma sha2_init_repr:
  "sha256_usable ctx \<Longrightarrow> sha2_repr sha256_iv (sha256_init ctx) []"
  "sha256_usable ctx \<Longrightarrow> sha2_repr sha224_iv (sha224_init ctx) []"
  by (simp_all add: sha2_repr_def sha256_init_def sha224_init_def sha256_usable_def absorb_def)

lemma sha2_repr_usable: "sha2_repr iv ctx m \<Longrightarrow> sha256_usable ctx"
  by (simp add: sha2_repr_def)

lemmas sha2_laws = sha2_init_repr sha256_update_repr sha2_repr_usable sha256_do_final_usable
  sha256_do_final_digest [where n = 8, simplified] sha256_do_final_digest [where n = 7, simplified]
  length_sha2_digest

text \<open>The interface, for both initial values.\<close>

interpretation sha256: streaming_hash sha256_init sha256_update sha256_final sha256_usable
  "sha2_repr sha256_iv" "sha2_digest sha256_iv 8" 32
  by unfold_locales (simp_all add: sha2_laws sha256_final_def)

interpretation sha224: streaming_hash sha224_init sha256_update sha224_final sha256_usable
  "sha2_repr sha224_iv" "sha2_digest sha224_iv 7" 28
  by unfold_locales (simp_all add: sha2_laws sha224_final_def)

section \<open>The compression function of FIPS 180-4\<close>

text \<open>The functions of the standard, with rotations, and the schedule as a recurrence.\<close>

definition fips_ch :: "u32 \<Rightarrow> u32 \<Rightarrow> u32 \<Rightarrow> u32" where "fips_ch x y z = (x AND y) XOR (NOT x AND z)"
definition fips_maj :: "u32 \<Rightarrow> u32 \<Rightarrow> u32 \<Rightarrow> u32" where
  "fips_maj x y z = (x AND y) XOR (x AND z) XOR (y AND z)"

fun fips256_W :: "bytes \<Rightarrow> nat \<Rightarrow> u32" where
  "fips256_W blk t =
     (if t < 16 then get32 (take 4 (drop (4 * t) blk))
      else (let x = fips256_W blk (t - 2)
            in word_rotr 17 x XOR word_rotr 19 x XOR drop_bit 10 x)
         + fips256_W blk (t - 7)
         + (let x = fips256_W blk (t - 15) in word_rotr 7 x XOR word_rotr 18 x XOR drop_bit 3 x)
         + fips256_W blk (t - 16))"

declare fips256_W.simps [simp del]

definition fips256_round :: "bytes \<Rightarrow> nat \<Rightarrow> u32 list \<Rightarrow> u32 list" where
  "fips256_round blk t v = (case v of [a, b, c, d, e, f, g, h] \<Rightarrow>
     let T1 = h + (word_rotr 6 e XOR word_rotr 11 e XOR word_rotr 25 e) + fips_ch e f g
              + sha256_K ! t + fips256_W blk t;
         T2 = (word_rotr 2 a XOR word_rotr 13 a XOR word_rotr 22 a) + fips_maj a b c
     in [T1 + T2, a, b, c, d + T1, e, f, g] | _ \<Rightarrow> v)"

definition fips256_compress :: "u32 list \<Rightarrow> bytes \<Rightarrow> u32 list" where
  "fips256_compress H blk = map2 (+) H (fold (fips256_round blk) [0..<64] H)"

lemma sha256_s_rotr: "0 < n \<Longrightarrow> n < 32 \<Longrightarrow> sha256_s x n = word_rotr n x"
  by (simp add: sha256_s_def and_ones_u32 rotr_u32)

lemma sha256_ch_fips: "sha256_ch x y z = fips_ch x y z"
  unfolding sha256_ch_def fips_ch_def by (rule bit_word_eqI) (auto simp: bit_simps)

lemma sha256_maj_fips: "sha256_maj x y z = fips_maj x y z"
  unfolding sha256_maj_def fips_maj_def by (rule bit_word_eqI) (auto simp: bit_simps)

lemma sha256_W_fips: "t < 64 \<Longrightarrow> sha256_W blk ! t = fips256_W blk t"
proof -
  let ?f = "\<lambda>i W. W @ [sha256_gamma1 (W ! (i - 2)) + W ! (i - 7) + sha256_gamma0 (W ! (i - 15)) + W ! (i - 16)]"
  have A: "fold ?f [16..<n] (map (fips256_W blk) [0..<16]) = map (fips256_W blk) [0..<n]" if "16 \<le> n" for n
    using that
  proof (induction n rule: dec_induct)
    case (step n)
    then show ?case
      by (simp add: fips256_W.simps [of blk n] sha256_gamma0_def sha256_gamma1_def
          sha256_s_rotr sha256_r_def and_ones_u32 Let_def)
  qed simp
  have B: "map (\<lambda>i. get32 (take 4 (drop (4 * i) blk))) [0..<16] = map (fips256_W blk) [0..<16]"
    by (rule map_cong [OF refl]) (simp add: fips256_W.simps [of blk] del: upt_rec_numeral)
  have "sha256_W blk = map (fips256_W blk) [0..<64]"
    unfolding sha256_W_def B by (rule A) simp
  then show "t < 64 \<Longrightarrow> sha256_W blk ! t = fips256_W blk t" by simp
qed

lemma sha256_rnd_fips:
  assumes "length S = 8" "t < 64"
  shows "sha256_rnd (sha256_W blk) t S = fips256_round blk t S"
proof -
  obtain a b c d e f g h where "S = [a, b, c, d, e, f, g, h]"
    using assms(1) by (auto simp: numeral_eq_Suc length_Suc_conv)
  with assms(2) show ?thesis
    by (simp add: sha256_rnd_def fips256_round_def Let_def sha256_W_fips sha256_ch_fips sha256_maj_fips
        sha256_sigma0_def sha256_sigma1_def sha256_s_rotr)
qed

lemma sha256_compress_fips:
  assumes "length st = 8"
  shows "sha256_compress st blk = fips256_compress st blk"
proof -
  have "fold (sha256_rnd (sha256_W blk)) ts S = fold (fips256_round blk) ts S"
    if "length S = 8" "set ts \<subseteq> {..<64}" for ts S
    using that by (induction ts arbitrary: S) (simp_all flip: sha256_rnd_fips)
  from this [of st "[0..<64]"] assms show ?thesis
    by (simp add: sha256_compress_def fips256_compress_def Let_def lessThan_atLeast0)
qed

lemma foldb_sha256_fips:
  "length st = 8 \<Longrightarrow> foldb sha256_compress st xs = foldb fips256_compress st xs"
  using foldb_cong_inv [of "\<lambda>s. length s = 8" sha256_compress fips256_compress st xs]
  by (simp add: sha256_compress_fips [symmetric])

end
