(* ===== verification/Hmac.thy ===== *)
theory Hmac
  imports Md5 Sha1 Sha256
begin

text \<open>
  The generic hash context of \<open>picohash.h\<close> with its function pointers, HMAC over it, and the one-shot
  functions of \<open>hash.c\<close> and \<open>hmac.c\<close> (the build sets \<open>USE_NETTLE\<close> to 0). The digests are shown to
  be those of RFC 1321 and FIPS 180-4, and the keyed ones to be HMAC as defined by RFC 2104.
\<close>

section \<open>The generic context\<close>

text \<open>
  Function pointers are the names of the functions they can hold. The union of the three contexts
  is a record with one field for each: only the member that the function pointers belong to is ever
  read.
\<close>

datatype reset_fn = R_md5_init | R_sha1_init | R_sha224_init | R_sha256_init | R_hmac_reset
datatype update_fn = U_md5_update | U_sha1_update | U_sha256_update
datatype final_fn = F_md5_final | F_sha1_final | F_sha224_final | F_sha256_final | F_hmac_final

record picohash_ctx =
  ph_md5 :: md5_ctx
  ph_sha1 :: sha1_ctx
  ph_sha256 :: sha256_ctx
  ph_block_length :: nat
  ph_digest_length :: nat
  ph_reset :: reset_fn
  ph_update :: update_fn
  ph_final :: final_fn
  ph_hmac_key :: bytes
  ph_hash_reset :: reset_fn
  ph_hash_final :: final_fn

definition picohash_init_md5 :: "picohash_ctx \<Rightarrow> picohash_ctx" where
  "picohash_init_md5 ctx = ctx\<lparr>ph_block_length := 64, ph_digest_length := 16, ph_reset := R_md5_init,
     ph_update := U_md5_update, ph_final := F_md5_final, ph_md5 := md5_init (ph_md5 ctx)\<rparr>"

definition picohash_init_sha1 :: "picohash_ctx \<Rightarrow> picohash_ctx" where
  "picohash_init_sha1 ctx = ctx\<lparr>ph_block_length := 64, ph_digest_length := 20, ph_reset := R_sha1_init,
     ph_update := U_sha1_update, ph_final := F_sha1_final, ph_sha1 := sha1_init (ph_sha1 ctx)\<rparr>"

definition picohash_init_sha224 :: "picohash_ctx \<Rightarrow> picohash_ctx" where
  "picohash_init_sha224 ctx = ctx\<lparr>ph_block_length := 64, ph_digest_length := 28, ph_reset := R_sha224_init,
     ph_update := U_sha256_update, ph_final := F_sha224_final, ph_sha256 := sha224_init (ph_sha256 ctx)\<rparr>"

definition picohash_init_sha256 :: "picohash_ctx \<Rightarrow> picohash_ctx" where
  "picohash_init_sha256 ctx = ctx\<lparr>ph_block_length := 64, ph_digest_length := 32, ph_reset := R_sha256_init,
     ph_update := U_sha256_update, ph_final := F_sha256_final, ph_sha256 := sha256_init (ph_sha256 ctx)\<rparr>"

definition picohash_update :: "picohash_ctx \<Rightarrow> bytes \<Rightarrow> picohash_ctx" where
  "picohash_update ctx input = (case ph_update ctx of
       U_md5_update \<Rightarrow> ctx\<lparr>ph_md5 := md5_update (ph_md5 ctx) input\<rparr>
     | U_sha1_update \<Rightarrow> ctx\<lparr>ph_sha1 := sha1_update (ph_sha1 ctx) input\<rparr>
     | U_sha256_update \<Rightarrow> ctx\<lparr>ph_sha256 := sha256_update (ph_sha256 ctx) input\<rparr>)"

text \<open>
  Calls through a saved pointer. The HMAC functions are never saved there, since
  \<open>picohash_init_hmac\<close> saves what an initialiser has stored.
\<close>

definition hash_reset :: "reset_fn \<Rightarrow> picohash_ctx \<Rightarrow> picohash_ctx" where
  "hash_reset f ctx = (case f of
       R_md5_init \<Rightarrow> ctx\<lparr>ph_md5 := md5_init (ph_md5 ctx)\<rparr>
     | R_sha1_init \<Rightarrow> ctx\<lparr>ph_sha1 := sha1_init (ph_sha1 ctx)\<rparr>
     | R_sha224_init \<Rightarrow> ctx\<lparr>ph_sha256 := sha224_init (ph_sha256 ctx)\<rparr>
     | R_sha256_init \<Rightarrow> ctx\<lparr>ph_sha256 := sha256_init (ph_sha256 ctx)\<rparr>
     | R_hmac_reset \<Rightarrow> ctx)"

definition hash_final :: "final_fn \<Rightarrow> picohash_ctx \<Rightarrow> picohash_ctx \<times> bytes" where
  "hash_final f ctx = (case f of
       F_md5_final \<Rightarrow> (let (c, d) = md5_final (ph_md5 ctx) in (ctx\<lparr>ph_md5 := c\<rparr>, d))
     | F_sha1_final \<Rightarrow> (let (c, d) = sha1_final (ph_sha1 ctx) in (ctx\<lparr>ph_sha1 := c\<rparr>, d))
     | F_sha224_final \<Rightarrow> (let (c, d) = sha224_final (ph_sha256 ctx) in (ctx\<lparr>ph_sha256 := c\<rparr>, d))
     | F_sha256_final \<Rightarrow> (let (c, d) = sha256_final (ph_sha256 ctx) in (ctx\<lparr>ph_sha256 := c\<rparr>, d))
     | F_hmac_final \<Rightarrow> (ctx, []))"

text \<open>The key is masked, absorbed and unmasked in place.\<close>

definition hmac_apply_key :: "picohash_ctx \<Rightarrow> u8 \<Rightarrow> picohash_ctx" where
  "hmac_apply_key ctx delta =
     (let mask = (\<lambda>key. map (\<lambda>b. b XOR delta) (take (ph_block_length ctx) key) @ drop (ph_block_length ctx) key);
          ctx = ctx\<lparr>ph_hmac_key := mask (ph_hmac_key ctx)\<rparr>;
          ctx = picohash_update ctx (take (ph_block_length ctx) (ph_hmac_key ctx))
      in ctx\<lparr>ph_hmac_key := mask (ph_hmac_key ctx)\<rparr>)"

definition hmac_final :: "picohash_ctx \<Rightarrow> picohash_ctx \<times> bytes" where
  "hmac_final ctx =
     (let (ctx, inner_digest) = hash_final (ph_hash_final ctx) ctx;
          ctx = hash_reset (ph_hash_reset ctx) ctx;
          ctx = hmac_apply_key ctx 0x5c;
          ctx = picohash_update ctx (take (ph_digest_length ctx) inner_digest)
      in hash_final (ph_hash_final ctx) ctx)"

definition hmac_reset :: "picohash_ctx \<Rightarrow> picohash_ctx" where
  "hmac_reset ctx = hmac_apply_key (hash_reset (ph_hash_reset ctx) ctx) 0x36"

definition picohash_final :: "picohash_ctx \<Rightarrow> picohash_ctx \<times> bytes" where
  "picohash_final ctx = (if ph_final ctx = F_hmac_final then hmac_final ctx else hash_final (ph_final ctx) ctx)"

definition picohash_reset :: "picohash_ctx \<Rightarrow> picohash_ctx" where
  "picohash_reset ctx = (if ph_reset ctx = R_hmac_reset then hmac_reset ctx else hash_reset (ph_reset ctx) ctx)"

definition picohash_init_hmac :: "picohash_ctx \<Rightarrow> (picohash_ctx \<Rightarrow> picohash_ctx) \<Rightarrow> bytes \<Rightarrow> picohash_ctx" where
  "picohash_init_hmac ctx initf key =
     (let ctx = initf ctx;
          ctx = ctx\<lparr>ph_hmac_key := blit (ph_hmac_key ctx) 0 (replicate (ph_block_length ctx) 0)\<rparr>;
          ctx = (if ph_block_length ctx < length key
                 then let ctx = picohash_update ctx key;
                          (ctx, digest) = picohash_final ctx;
                          ctx = ctx\<lparr>ph_hmac_key := blit (ph_hmac_key ctx) 0 digest\<rparr>
                      in picohash_reset ctx
                 else ctx\<lparr>ph_hmac_key := blit (ph_hmac_key ctx) 0 key\<rparr>);
          ctx = ctx\<lparr>ph_hash_reset := ph_reset ctx, ph_hash_final := ph_final ctx,
                    ph_reset := R_hmac_reset, ph_final := F_hmac_final\<rparr>
      in hmac_apply_key ctx 0x36)"

section \<open>One-shot functions\<close>

text \<open>
  The first argument is the uninitialised context on the stack. \<open>ph_uninit\<close> is one such content;
  the theorems below hold for all of them, so the callers use it.
\<close>

definition ph_uninit :: picohash_ctx where
  "ph_uninit =
     \<lparr>ph_md5 = \<lparr>md5_lo = 0, md5_hi = 0, md5_st = (0, 0, 0, 0), md5_buffer = replicate 64 0\<rparr>,
      ph_sha1 = \<lparr>sha1_buffer = replicate 16 0, sha1_state = replicate 5 0, sha1_byteCount = 0, sha1_bufferOffset = 0\<rparr>,
      ph_sha256 = \<lparr>sha256_length = 0, sha256_state = replicate 8 0, sha256_curlen = 0, sha256_buf = replicate 64 0\<rparr>,
      ph_block_length = 0, ph_digest_length = 0, ph_reset = R_md5_init, ph_update = U_md5_update,
      ph_final = F_md5_final, ph_hmac_key = replicate 64 0, ph_hash_reset = R_md5_init,
      ph_hash_final = F_md5_final\<rparr>"

definition ph_usable :: "picohash_ctx \<Rightarrow> bool" where
  "ph_usable ctx \<longleftrightarrow> md5_usable (ph_md5 ctx) \<and> sha1_usable (ph_sha1 ctx) \<and> sha256_usable (ph_sha256 ctx)
     \<and> length (ph_hmac_key ctx) = 64"

definition hash_md5 :: "picohash_ctx \<Rightarrow> bytes \<Rightarrow> bytes" where
  "hash_md5 ctx message = snd (picohash_final (picohash_update (picohash_init_md5 ctx) message))"

definition hash_sha1 :: "picohash_ctx \<Rightarrow> bytes \<Rightarrow> bytes" where
  "hash_sha1 ctx message = snd (picohash_final (picohash_update (picohash_init_sha1 ctx) message))"

definition hash_sha256 :: "picohash_ctx \<Rightarrow> bytes \<Rightarrow> bytes" where
  "hash_sha256 ctx message = snd (picohash_final (picohash_update (picohash_init_sha256 ctx) message))"

definition hmac_sha1 :: "picohash_ctx \<Rightarrow> bytes \<Rightarrow> bytes \<Rightarrow> bytes" where
  "hmac_sha1 ctx message key =
     snd (picohash_final (picohash_update (picohash_init_hmac ctx picohash_init_sha1 key) message))"

definition hmac_sha256 :: "picohash_ctx \<Rightarrow> bytes \<Rightarrow> bytes \<Rightarrow> bytes" where
  "hmac_sha256 ctx message key =
     snd (picohash_final (picohash_update (picohash_init_hmac ctx picohash_init_sha256 key) message))"

section \<open>Correctness of the digests\<close>

lemma ph_usable_uninit [simp]: "ph_usable ph_uninit"
  by (simp add: ph_usable_def ph_uninit_def md5_usable_def sha1_usable_def sha256_usable_def)

lemma hash_md5_digest: "ph_usable ctx \<Longrightarrow> hash_md5 ctx m = md5_digest m"
  using md5.hash_once [of "ph_md5 ctx" m]
  by (simp add: hash_md5_def picohash_final_def picohash_update_def picohash_init_md5_def hash_final_def
      ph_usable_def split_beta)

lemma hash_sha1_digest: "ph_usable ctx \<Longrightarrow> hash_sha1 ctx m = sha1_digest m"
  using sha1.hash_once [of "ph_sha1 ctx" m]
  by (simp add: hash_sha1_def picohash_final_def picohash_update_def picohash_init_sha1_def hash_final_def
      ph_usable_def split_beta)

lemma hash_sha256_digest: "ph_usable ctx \<Longrightarrow> hash_sha256 ctx m = sha2_digest sha256_iv 8 m"
  using sha256.hash_once [of "ph_sha256 ctx" m]
  by (simp add: hash_sha256_def picohash_final_def picohash_update_def picohash_init_sha256_def hash_final_def
      ph_usable_def split_beta)

text \<open>The standards' digests.\<close>

definition MD5 :: "bytes \<Rightarrow> bytes" where
  "MD5 m = (let n = 8 * length m;
              (a, b, c, d) = foldb rfc_compress md5_iv (md_pad (put32le (of_nat n) @ put32le (of_nat (n div 2 ^ 32))) m)
            in put32le a @ put32le b @ put32le c @ put32le d)"

definition SHA1 :: "bytes \<Rightarrow> bytes" where
  "SHA1 m = concat (map put32 (foldb fips1_compress sha1_iv (md_pad (put64 (of_nat (8 * length m))) m)))"

definition SHA256 :: "bytes \<Rightarrow> bytes" where
  "SHA256 m = concat (map put32 (foldb fips256_compress sha256_iv (md_pad (put64 (of_nat (8 * length m))) m)))"

definition HMAC :: "(bytes \<Rightarrow> bytes) \<Rightarrow> bytes \<Rightarrow> bytes \<Rightarrow> bytes" where
  "HMAC H key m =
     (let k = (if 64 < length key then H key else key); k = k @ replicate (64 - length k) 0
      in H (map (\<lambda>b. b XOR 0x5c) k @ H (map (\<lambda>b. b XOR 0x36) k @ m)))"

lemma md5_digest_MD5: "md5_digest m = MD5 m"
proof -
  have "(of_nat (8 * (n mod 2 ^ 29)) :: u32) = of_nat (8 * n)" for n :: nat
  proof -
    have "8 * (n mod 2 ^ 29) = (8 * n) mod 2 ^ 32" using mult_mod_right [of 8 n "2 ^ 29"] by simp
    moreover have "(of_nat (x mod 2 ^ 32) :: u32) = of_nat x" for x
      by (simp add: word_of_nat_eq_iff take_bit_eq_mod)
    ultimately show ?thesis by (simp only:)
  qed
  moreover have "8 * n div 2 ^ 32 = n div 2 ^ 29" for n :: nat
    using div_mult_mult1 [of 8 n "2 ^ 29"] by simp
  moreover have "push_bit 3 (of_nat x :: u32) = of_nat (8 * x)" for x
    by (simp add: push_bit_eq_mult mult.commute)
  ultimately show ?thesis by (simp only: md5_digest_def MD5_def Let_def md5_block_rfc [abs_def])
qed

lemma sha1_digest_SHA1: "sha1_digest m = SHA1 m"
  by (simp add: sha1_digest_def SHA1_def be_bytes_def)

lemma sha256_digest_SHA256: "sha2_digest sha256_iv 8 m = SHA256 m"
  using length_foldb_sha256 [of sha256_iv] by (simp add: sha2_digest_def SHA256_def foldb_sha256_fips)

text \<open>\<open>hash_md5\<close> computes the MD5 digest of RFC 1321 of every message, whatever the stack
  content its context starts from.\<close>

theorem hash_md5_correct: "ph_usable ctx \<Longrightarrow> hash_md5 ctx m = MD5 m"
  by (simp add: hash_md5_digest md5_digest_MD5)

theorem hash_md5_correct_witness: "ph_usable ph_uninit \<and> hash_md5 ph_uninit [0x61, 0x62] = MD5 [0x61, 0x62]"
  using hash_md5_correct [of ph_uninit "[0x61, 0x62]"] by simp

text \<open>\<open>hash_sha1\<close> computes the SHA-1 digest of FIPS 180-4.\<close>

theorem hash_sha1_correct: "ph_usable ctx \<Longrightarrow> hash_sha1 ctx m = SHA1 m"
  by (simp add: hash_sha1_digest sha1_digest_SHA1)

theorem hash_sha1_correct_witness: "ph_usable ph_uninit \<and> hash_sha1 ph_uninit [0x61] = SHA1 [0x61]"
  using hash_sha1_correct [of ph_uninit "[0x61]"] by simp

text \<open>\<open>hash_sha256\<close> computes the SHA-256 digest of FIPS 180-4.\<close>

theorem hash_sha256_correct: "ph_usable ctx \<Longrightarrow> hash_sha256 ctx m = SHA256 m"
  by (simp add: hash_sha256_digest sha256_digest_SHA256)

theorem hash_sha256_correct_witness: "ph_usable ph_uninit \<and> hash_sha256 ph_uninit [0x61] = SHA256 [0x61]"
  using hash_sha256_correct [of ph_uninit "[0x61]"] by simp

section \<open>HMAC over any member of the union\<close>

text \<open>
  What HMAC relies on: a hash with the streaming interface that is one of the union's members, reached
  by the function pointers that its initialiser stores.
\<close>

locale ph_member = streaming_hash reset update finish usable repr digest dlen
  for reset :: "'c \<Rightarrow> 'c" and update finish usable repr digest dlen +
  fixes get :: "picohash_ctx \<Rightarrow> 'c" and put :: "'c \<Rightarrow> picohash_ctx \<Rightarrow> picohash_ctx"
    and rf :: reset_fn and uf :: update_fn and ff :: final_fn
    and initf :: "picohash_ctx \<Rightarrow> picohash_ctx"
  assumes get_put: "get (put c x) = c"
    and get_key: "get (x\<lparr>ph_hmac_key := k\<rparr>) = get x"
    and get_fns: "get (x\<lparr>ph_hash_reset := r, ph_hash_final := f, ph_reset := r', ph_final := f'\<rparr>) = get x"
    and put_frame: "ph_block_length (put c x) = ph_block_length x" "ph_digest_length (put c x) = ph_digest_length x"
      "ph_hmac_key (put c x) = ph_hmac_key x" "ph_reset (put c x) = ph_reset x" "ph_update (put c x) = ph_update x"
      "ph_final (put c x) = ph_final x" "ph_hash_reset (put c x) = ph_hash_reset x"
      "ph_hash_final (put c x) = ph_hash_final x"
    and call_reset: "hash_reset rf x = put (reset (get x)) x"
    and call_update: "ph_update x = uf \<Longrightarrow> picohash_update x d = put (update (get x) d) x"
    and call_final: "hash_final ff x = (put (fst (finish (get x))) x, snd (finish (get x)))"
    and plain: "rf \<noteq> R_hmac_reset" "ff \<noteq> F_hmac_final"
    and init: "get (initf x) = reset (get x)" "ph_block_length (initf x) = 64" "ph_digest_length (initf x) = dlen"
      "ph_reset (initf x) = rf" "ph_update (initf x) = uf" "ph_final (initf x) = ff"
      "ph_hmac_key (initf x) = ph_hmac_key x"
    and dlen: "dlen \<le> 64"
begin

lemma apply_key:
  assumes "ph_block_length x = 64" "length (ph_hmac_key x) = 64" "ph_update x = uf"
  shows "get (hmac_apply_key x delta) = update (get x) (map (\<lambda>b. b XOR delta) (ph_hmac_key x))"
    and "ph_hmac_key (hmac_apply_key x delta) = ph_hmac_key x"
    and "ph_update (hmac_apply_key x delta) = uf" and "ph_digest_length (hmac_apply_key x delta) = ph_digest_length x"
    and "ph_final (hmac_apply_key x delta) = ph_final x" and "ph_hash_final (hmac_apply_key x delta) = ph_hash_final x"
    and "ph_hash_reset (hmac_apply_key x delta) = ph_hash_reset x"
    and "ph_block_length (hmac_apply_key x delta) = 64"
  using assms by (simp_all add: hmac_apply_key_def Let_def call_update get_put get_key put_frame comp_def)

text \<open>An HMAC context in use: \<open>c\<close> is the content the hash started from and \<open>k\<close> the block key.\<close>

definition keyed :: "picohash_ctx \<Rightarrow> bytes \<Rightarrow> bool" where
  "keyed x k \<longleftrightarrow> ph_block_length x = 64 \<and> ph_digest_length x = dlen \<and> ph_update x = uf
     \<and> ph_final x = F_hmac_final \<and> ph_hash_reset x = rf \<and> ph_hash_final x = ff \<and> ph_hmac_key x = k \<and> length k = 64
     \<and> (\<exists>c. usable c \<and> get x = update (reset c) (map (\<lambda>b. b XOR 0x36) k))"

lemma init_hmac_keyed:
  assumes "usable (get x)" "length (ph_hmac_key x) = 64"
  shows "keyed (picohash_init_hmac x initf key)
    (let k = (if 64 < length key then digest key else key) in k @ replicate (64 - length k) 0)"
proof -
  define x1 where "x1 = (initf x)\<lparr>ph_hmac_key := replicate 64 0\<rparr>"
  define x2 where "x2 = (if 64 < length key
     then let (y, d) = picohash_final (picohash_update x1 key)
          in picohash_reset (y\<lparr>ph_hmac_key := blit (ph_hmac_key y) 0 d\<rparr>)
     else x1\<lparr>ph_hmac_key := blit (ph_hmac_key x1) 0 key\<rparr>)"
  define k where "k = (if 64 < length key then digest key else key)"
  have x1: "get x1 = reset (get x)" "ph_block_length x1 = 64" "ph_digest_length x1 = dlen" "ph_reset x1 = rf"
    "ph_update x1 = uf" "ph_final x1 = ff" "ph_hmac_key x1 = replicate 64 0"
    using assms(2) by (simp_all add: x1_def get_key init blit_def)
  have r: "repr (update (reset (get x)) key) key"
    using repr_update [OF repr_reset [OF assms(1)], of key] by simp
  have "length k \<le> 64" using dlen by (simp add: k_def length_digest)
  have x2: "ph_block_length x2 = 64 \<and> ph_digest_length x2 = dlen \<and> ph_reset x2 = rf \<and> ph_update x2 = uf
      \<and> ph_final x2 = ff \<and> ph_hmac_key x2 = k @ replicate (64 - length k) 0
      \<and> (\<exists>c. usable c \<and> get x2 = reset c)"
  proof (cases "64 < length key")
    case True
    then show ?thesis
      using x1 plain finish_digest [OF r] finish_usable [OF r]
      by (auto simp: x2_def k_def Let_def picohash_final_def picohash_reset_def call_update call_final call_reset
          get_put get_key put_frame blit_def)
  next
    case False
    then show ?thesis using x1 assms by (auto simp: x2_def k_def get_key blit_def)
  qed
  have eq: "picohash_init_hmac x initf key = hmac_apply_key (x2\<lparr>ph_hash_reset := ph_reset x2,
      ph_hash_final := ph_final x2, ph_reset := R_hmac_reset, ph_final := F_hmac_final\<rparr>) 0x36"
    using assms(2) by (simp add: picohash_init_hmac_def x2_def x1_def Let_def init blit_def split_beta)
  show ?thesis
    using x2 \<open>length k \<le> 64\<close> unfolding eq keyed_def Let_def k_def [symmetric]
    by (auto simp: apply_key get_fns)
qed

lemma keyed_final:
  assumes "keyed x k"
  shows "snd (picohash_final (picohash_update x m))
    = digest (map (\<lambda>b. b XOR 0x5c) k @ digest (map (\<lambda>b. b XOR 0x36) k @ m))"
proof -
  obtain c where c: "usable c" and g: "get x = update (reset c) (map (\<lambda>b. b XOR 0x36) k)"
    using assms by (auto simp: keyed_def)
  let ?f = "finish (update (get x) m)"
  have "repr (update (get x) m) (map (\<lambda>b. b XOR 0x36) k @ m)"
    using repr_update [OF repr_update [OF repr_reset [OF c]]] by (simp add: g)
  then have len: "length (snd ?f) = dlen" by (simp add: finish_digest length_digest)
  have "snd (picohash_final (picohash_update x m))
    = snd (finish (update (update (reset (fst ?f)) (map (\<lambda>b. b XOR 0x5c) k)) (snd ?f)))"
    using assms len
    by (simp add: keyed_def picohash_final_def hmac_final_def Let_def call_update call_final call_reset get_put
        put_frame apply_key split_beta)
  also have "\<dots> = digest (map (\<lambda>b. b XOR 0x5c) k @ digest (map (\<lambda>b. b XOR 0x36) k @ m))"
    unfolding g by (rule nested [OF c])
  finally show ?thesis .
qed

theorem hmac_rfc2104:
  assumes "usable (get x)" "length (ph_hmac_key x) = 64"
  shows "snd (picohash_final (picohash_update (picohash_init_hmac x initf key) m)) = HMAC digest key m"
  using keyed_final [OF init_hmac_keyed [OF assms], of key m] by (simp add: HMAC_def Let_def)

end

lemmas ph_call_defs = hash_reset_def hash_final_def picohash_update_def picohash_init_md5_def
  picohash_init_sha1_def picohash_init_sha224_def picohash_init_sha256_def

interpretation hmac_md5: ph_member md5_init md5_update md5_final md5_usable md5_repr md5_digest 16
  ph_md5 "\<lambda>c x. x\<lparr>ph_md5 := c\<rparr>" R_md5_init U_md5_update F_md5_final picohash_init_md5
  by unfold_locales (simp_all add: ph_call_defs split_beta)

interpretation hmac_sha1: ph_member sha1_init sha1_update sha1_final sha1_usable sha1_repr sha1_digest 20
  ph_sha1 "\<lambda>c x. x\<lparr>ph_sha1 := c\<rparr>" R_sha1_init U_sha1_update F_sha1_final picohash_init_sha1
  by unfold_locales (simp_all add: ph_call_defs split_beta)

interpretation hmac_sha224: ph_member sha224_init sha256_update sha224_final sha256_usable
  "sha2_repr sha224_iv" "sha2_digest sha224_iv 7" 28
  ph_sha256 "\<lambda>c x. x\<lparr>ph_sha256 := c\<rparr>" R_sha224_init U_sha256_update F_sha224_final picohash_init_sha224
  by unfold_locales (simp_all add: ph_call_defs split_beta)

interpretation hmac_sha256: ph_member sha256_init sha256_update sha256_final sha256_usable
  "sha2_repr sha256_iv" "sha2_digest sha256_iv 8" 32
  ph_sha256 "\<lambda>c x. x\<lparr>ph_sha256 := c\<rparr>" R_sha256_init U_sha256_update F_sha256_final picohash_init_sha256
  by unfold_locales (simp_all add: ph_call_defs split_beta)

lemma length_hmac:
  assumes "ph_usable ctx"
  shows "length (hmac_sha1 ctx m key) = 20" "length (hmac_sha256 ctx m key) = 32"
  using hmac_sha1.hmac_rfc2104 [of ctx key m] hmac_sha256.hmac_rfc2104 [of ctx key m] assms
    sha1.length_digest sha256.length_digest
  by (simp_all add: hmac_sha1_def hmac_sha256_def ph_usable_def HMAC_def Let_def)

lemma hmac_sha1_HMAC: "ph_usable ctx \<Longrightarrow> hmac_sha1 ctx m key = HMAC SHA1 key m"
  using hmac_sha1.hmac_rfc2104 [of ctx key m]
  by (simp add: hmac_sha1_def ph_usable_def sha1_digest_SHA1 [abs_def])

text \<open>C27: \<open>hmac_sha1\<close> is HMAC-SHA1 as RFC 2104 defines it, for keys of any length.\<close>

theorem hmac_sha1_correct: "ph_usable ctx \<Longrightarrow> hmac_sha1 ctx m key = HMAC SHA1 key m"
  by (rule hmac_sha1_HMAC)

theorem hmac_sha1_correct_witness:
  "ph_usable ph_uninit \<and> hmac_sha1 ph_uninit [1, 2] (replicate 65 7) = HMAC SHA1 (replicate 65 7) [1, 2]"
  using hmac_sha1_correct [of ph_uninit "[1, 2]" "replicate 65 7"] by simp

lemma hmac_sha256_HMAC: "ph_usable ctx \<Longrightarrow> hmac_sha256 ctx m key = HMAC SHA256 key m"
  using hmac_sha256.hmac_rfc2104 [of ctx key m]
  by (simp add: hmac_sha256_def ph_usable_def sha256_digest_SHA256 [abs_def])

text \<open>\<open>hmac_sha256\<close> is HMAC-SHA256 as RFC 2104 defines it, for keys of any length.\<close>

theorem hmac_sha256_correct: "ph_usable ctx \<Longrightarrow> hmac_sha256 ctx m key = HMAC SHA256 key m"
  by (rule hmac_sha256_HMAC)

theorem hmac_sha256_correct_witness:
  "ph_usable ph_uninit \<and> hmac_sha256 ph_uninit [1, 2] (replicate 65 7) = HMAC SHA256 (replicate 65 7) [1, 2]"
  using hmac_sha256_correct [of ph_uninit "[1, 2]" "replicate 65 7"] by simp

end
