(* ===== verification/Addr.thy ===== *)
theory Addr
  imports Prelude
begin

text \<open>
  Socket addresses (\<open>addr.c\<close>, \<open>addr.h\<close> and the IPv6 macros of \<open>socket.h\<close>). A \<open>sockaddr\<close> is one of the two
  families the library knows, with its port as stored (network byte order in a little-endian
  \<open>uint16_t\<close>) and its address bytes, or another family. The zone and flow fields of IPv6 addresses
  are never read by these routines. \<open>getnameinfo\<close> and \<open>getaddrinfo\<close> are parameters. The locale
  \<open>hash_key\<close> is the contract between \<open>addr_is_equal\<close> and \<open>addr_hash\<close> that the hash tables of the
  library rely on.
\<close>

section \<open>Addresses\<close>

datatype sockaddr = Sin (sin_port: u16) (sin_addr: bytes) | Sin6 (sin6_port: u16) (sin6_addr: bytes) | OtherFamily u16

definition AF_UNSPEC :: u16 where "AF_UNSPEC = 0"
definition AF_INET :: u16 where "AF_INET = 2"
definition AF_INET6 :: u16 where "AF_INET6 = 10"

text \<open>The sizes of \<open>struct sockaddr_in\<close> and \<open>struct sockaddr_in6\<close>.\<close>

definition sizeof_sockaddr_in :: nat where "sizeof_sockaddr_in = 16"
definition sizeof_sockaddr_in6 :: nat where "sizeof_sockaddr_in6 = 28"

fun sa_family :: "sockaddr \<Rightarrow> u16" where
  "sa_family (Sin _ _) = AF_INET"
| "sa_family (Sin6 _ _) = AF_INET6"
| "sa_family (OtherFamily f) = f"

text \<open>Addresses as the library can meet them: the arrays have their sizes.\<close>

fun addr_wf :: "sockaddr \<Rightarrow> bool" where
  "addr_wf (Sin _ a) = (length a = 4)"
| "addr_wf (Sin6 _ a) = (length a = 16)"
| "addr_wf (OtherFamily f) = (f \<noteq> AF_INET \<and> f \<noteq> AF_INET6)"

fun addr_known :: "sockaddr \<Rightarrow> bool" where
  "addr_known (OtherFamily _) = False"
| "addr_known _ = True"

text \<open>\<open>htons\<close> and \<open>ntohs\<close> on a little-endian machine.\<close>

definition htons :: "u16 \<Rightarrow> u16" where "htons w = push_bit 8 w OR drop_bit 8 w"

record addr_record =
  ar_addr :: sockaddr
  ar_len :: nat

fun addr_get_len :: "sockaddr \<Rightarrow> nat" where
  "addr_get_len (Sin _ _) = sizeof_sockaddr_in"
| "addr_get_len (Sin6 _ _) = sizeof_sockaddr_in6"
| "addr_get_len (OtherFamily _) = 0"

fun addr_get_port :: "sockaddr \<Rightarrow> u16" where
  "addr_get_port (Sin p _) = htons p"
| "addr_get_port (Sin6 p _) = htons p"
| "addr_get_port (OtherFamily _) = 0"

fun addr_set_port :: "sockaddr \<Rightarrow> u16 \<Rightarrow> sockaddr res" where
  "addr_set_port (Sin _ a) port = Inr (Sin (htons port) a)"
| "addr_set_port (Sin6 _ a) port = Inr (Sin6 (htons port) a)"
| "addr_set_port (OtherFamily _) port = Inl Fail"

text \<open>The macros of \<open>socket.h\<close>, on the words of the address in network order.\<close>

definition IN6_IS_ADDR_LOOPBACK :: "bytes \<Rightarrow> bool" where
  "IN6_IS_ADDR_LOOPBACK a \<longleftrightarrow> take 12 a = replicate 12 0 \<and> get32 (drop 12 a) = 1"

definition IN6_IS_ADDR_LINKLOCAL :: "bytes \<Rightarrow> bool" where
  "IN6_IS_ADDR_LINKLOCAL a \<longleftrightarrow> get32 a AND 0xffc00000 = 0xfe800000"

definition IN6_IS_ADDR_V4MAPPED :: "bytes \<Rightarrow> bool" where
  "IN6_IS_ADDR_V4MAPPED a \<longleftrightarrow> take 8 a = replicate 8 0 \<and> get32 (drop 8 a) = 0xFFFF"

fun addr_is_any :: "sockaddr \<Rightarrow> bool" where
  "addr_is_any (Sin _ b) = (\<forall>i \<in> set [0..<4]. b ! i = 0)"
| "addr_is_any (Sin6 _ b) =
     (if IN6_IS_ADDR_V4MAPPED b then \<forall>i \<in> set [0..<4]. b ! (12 + i) = 0
      else \<forall>i \<in> set [0..<16]. b ! i = 0)"
| "addr_is_any (OtherFamily _) = False"

definition is_local_v4 :: "bytes \<Rightarrow> bool" where
  "is_local_v4 b = (if b ! 0 = 127 then True else if b ! 0 = 169 \<and> b ! 1 = 254 then True else False)"

fun addr_is_local :: "sockaddr \<Rightarrow> bool" where
  "addr_is_local (Sin _ b) = is_local_v4 b"
| "addr_is_local (Sin6 _ b) =
     (if IN6_IS_ADDR_LOOPBACK b then True
      else if IN6_IS_ADDR_LINKLOCAL b then True
      else if IN6_IS_ADDR_V4MAPPED b then is_local_v4 (drop 12 b)
      else False)"
| "addr_is_local (OtherFamily _) = False"

text \<open>The two conversions return the new address and length, or \<open>None\<close> when they do nothing.\<close>

fun addr_unmap_inet6_v4mapped :: "sockaddr \<Rightarrow> (sockaddr \<times> nat) option" where
  "addr_unmap_inet6_v4mapped (Sin6 p b) =
     (if IN6_IS_ADDR_V4MAPPED b then Some (Sin p (take 4 (drop 12 b)), sizeof_sockaddr_in) else None)"
| "addr_unmap_inet6_v4mapped _ = None"

fun addr_map_inet6_v4mapped :: "sockaddr \<Rightarrow> (sockaddr \<times> nat) option" where
  "addr_map_inet6_v4mapped (Sin p a) =
     Some (Sin6 p (replicate 10 0 @ replicate 2 0xFF @ take 4 a), sizeof_sockaddr_in6)"
| "addr_map_inet6_v4mapped _ = None"

definition addr_is_equal :: "sockaddr \<Rightarrow> sockaddr \<Rightarrow> bool \<Rightarrow> bool" where
  "addr_is_equal a b compare_ports =
     (if sa_family a \<noteq> sa_family b then False
      else case (a, b) of
        (Sin p x, Sin q y) \<Rightarrow>
          if take 4 x \<noteq> take 4 y then False else if compare_ports \<and> p \<noteq> q then False else True
      | (Sin6 p x, Sin6 q y) \<Rightarrow>
          if take 16 x \<noteq> take 16 y then False else if compare_ports \<and> p \<noteq> q then False else True
      | _ \<Rightarrow> False)"

text \<open>
  Printing: \<open>nameinfo\<close> is \<open>getnameinfo\<close> with numeric flags, giving host and service; the result is
  the return value, if not negative, and the string left in the buffer of the given size.
\<close>

definition addr_to_string :: "(sockaddr \<Rightarrow> nat \<Rightarrow> (bytes \<times> bytes) option) \<Rightarrow> sockaddr \<Rightarrow> nat \<Rightarrow> nat option \<times> bytes" where
  "addr_to_string nameinfo sa sz =
     (let fail = (None, take (sz - 1) (ascii ''?''));
          salen = addr_get_len sa
      in if salen = 0 then fail
         else case nameinfo sa salen of
           None \<Rightarrow> fail
         | Some (host, service) \<Rightarrow>
             let s = host @ ascii '':'' @ service
             in if sz \<le> length s then fail else (Some (length s), s))"

text \<open>The hash, on \<open>unsigned long\<close> of 32 bits.\<close>

definition DJB2_INIT :: u32 where "DJB2_INIT = 5381"

definition djb2 :: "u32 \<Rightarrow> u32 \<Rightarrow> u32" where
  "djb2 hash i = (push_bit 5 hash + hash) + i"

definition addr_hash :: "sockaddr \<Rightarrow> bool \<Rightarrow> u32" where
  "addr_hash sa with_port =
     (let hash = djb2 DJB2_INIT (ucast (sa_family sa));
          ports = (\<lambda>p. if with_port then [ucast (drop_bit 8 p), ucast (p AND 0xFF)] else [])
      in case sa of
           Sin p b \<Rightarrow> fold (\<lambda>x h. djb2 h x) (map ucast (take 4 b) @ ports p) hash
         | Sin6 p b \<Rightarrow> fold (\<lambda>x h. djb2 h x) (map ucast (take 16 b) @ ports p) hash
         | OtherFamily _ \<Rightarrow> hash)"

text \<open>
  Resolution: \<open>getaddrinfo\<close> gives the list of results (family, address and length) or fails. The
  count of usable results is returned, and as many records are stored as there is room for.
\<close>

definition addr_resolve ::
  "(bytes \<Rightarrow> bytes \<Rightarrow> (sockaddr \<times> nat) list option) \<Rightarrow> bytes \<Rightarrow> bytes \<Rightarrow> nat \<Rightarrow> (nat \<times> addr_record list) res" where
  "addr_resolve getaddrinfo hostname service cnt =
     (case getaddrinfo hostname service of
        None \<Rightarrow> Inl Fail
      | Some ais \<Rightarrow>
          Inr (fold (\<lambda>(sa, len) (ret, records).
                 if sa_family sa = AF_INET \<or> sa_family sa = AF_INET6
                 then (ret + 1, if length records < cnt then records @ [\<lparr>ar_addr = sa, ar_len = len\<rparr>] else records)
                 else (ret, records)) ais (0, [])))"

definition addr_is_numeric_hostname :: "(bytes \<Rightarrow> bytes \<Rightarrow> (sockaddr \<times> nat) list option) \<Rightarrow> bytes \<Rightarrow> bool" where
  "addr_is_numeric_hostname getaddrinfo_numeric hostname =
     (case getaddrinfo_numeric hostname (ascii ''9'') of None \<Rightarrow> False | Some _ \<Rightarrow> True)"

definition addr_record_is_equal :: "addr_record \<Rightarrow> addr_record \<Rightarrow> bool \<Rightarrow> bool" where
  "addr_record_is_equal a b compare_ports = addr_is_equal (ar_addr a) (ar_addr b) compare_ports"

definition addr_record_to_string where
  "addr_record_to_string nameinfo r sz = addr_to_string nameinfo (ar_addr r) sz"

definition addr_record_hash :: "addr_record \<Rightarrow> bool \<Rightarrow> u32" where
  "addr_record_hash r with_port = addr_hash (ar_addr r) with_port"

section \<open>Properties\<close>

lemma htons_htons [simp]: "htons (htons w) = w"
  unfolding htons_def by (rule bit_word_eqI) (auto simp: bit_simps)

lemma addr_get_set_port:
  "addr_known sa \<Longrightarrow> \<exists>sa'. addr_set_port sa port = Inr sa' \<and> addr_get_port sa' = port
     \<and> addr_is_equal sa sa' False"
  by (cases sa) (simp_all add: addr_is_equal_def)

lemma v4mapped_iff:
  assumes "length b = 16"
  shows "IN6_IS_ADDR_V4MAPPED b \<longleftrightarrow> take 12 b = replicate 10 0 @ replicate 2 0xFF"
proof -
  let ?w = "take 4 (drop 8 b)"
  have "get32 (drop 8 b) = 0xFFFF \<longleftrightarrow> get32 ?w = 0xFFFF" using assms by (simp add: get32_def)
  also have "\<dots> \<longleftrightarrow> ?w = put32 0xFFFF" using assms by (intro get32_eq_iff) simp
  also have "put32 0xFFFF = [0, 0, 0xFF, 0xFF]" by (simp add: put32_def)
  finally have w: "get32 (drop 8 b) = 0xFFFF \<longleftrightarrow> ?w = [0, 0, 0xFF, 0xFF]" .
  have b: "take 12 b = take 8 b @ ?w" using take_add [of 8 4 b] by simp
  have r: "replicate 10 (0 :: u8) @ replicate 2 0xFF = replicate 8 0 @ [0, 0, 0xFF, 0xFF]"
    by (simp add: numeral_eq_Suc)
  show ?thesis unfolding IN6_IS_ADDR_V4MAPPED_def w b r by (subst append_eq_append_conv) (use assms in simp_all)
qed

text \<open>An IPv4 address survives the conversion to an IPv4-mapped IPv6 address and back, with its
  port and length, and both forms agree on being the wildcard address.\<close>

theorem addr_map_unmap:
  assumes "length a = 4"
  shows "\<exists>sa. addr_map_inet6_v4mapped (Sin p a) = Some (sa, sizeof_sockaddr_in6) \<and> addr_wf sa
    \<and> addr_get_port sa = addr_get_port (Sin p a)
    \<and> addr_unmap_inet6_v4mapped sa = Some (Sin p a, sizeof_sockaddr_in)
    \<and> addr_is_any sa = addr_is_any (Sin p a)
    \<and> addr_is_local sa = addr_is_local (Sin p a)"
proof -
  let ?b = "replicate 10 0 @ replicate 2 0xFF @ a"
  have len: "length ?b = 16" and m: "IN6_IS_ADDR_V4MAPPED ?b"
    using assms by (simp_all add: v4mapped_iff)
  have "take 12 ?b ! 10 \<noteq> replicate 12 0 ! 10" by (simp add: nth_append)
  then have "\<not> IN6_IS_ADDR_LOOPBACK ?b" unfolding IN6_IS_ADDR_LOOPBACK_def by metis
  moreover have "\<not> IN6_IS_ADDR_LINKLOCAL ?b"
    by (simp add: IN6_IS_ADDR_LINKLOCAL_def get32_def nth_append)
  moreover have "\<forall>i \<in> set [0..<4]. ?b ! (12 + i) = a ! i" by (simp add: nth_append)
  moreover have "drop 12 ?b = a" by simp
  ultimately show ?thesis
    using assms len m by (intro exI [of _ "Sin6 p ?b"]) simp
qed

theorem addr_map_unmap_witness:
  "\<exists>sa. addr_map_inet6_v4mapped (Sin 0x5000 [192, 0, 2, 1]) = Some (sa, sizeof_sockaddr_in6) \<and> addr_wf sa
    \<and> addr_get_port sa = addr_get_port (Sin 0x5000 [192, 0, 2, 1])
    \<and> addr_unmap_inet6_v4mapped sa = Some (Sin 0x5000 [192, 0, 2, 1], sizeof_sockaddr_in)
    \<and> addr_is_any sa = addr_is_any (Sin 0x5000 [192, 0, 2, 1])
    \<and> addr_is_local sa = addr_is_local (Sin 0x5000 [192, 0, 2, 1])"
  by (rule addr_map_unmap) simp

section \<open>The key contract of the hash tables\<close>

text \<open>
  A table keyed by addresses needs its equality to be an equivalence on the keys it stores and its
  hash to respect it.
\<close>

locale hash_key =
  fixes eq :: "'k \<Rightarrow> 'k \<Rightarrow> bool" and hash :: "'k \<Rightarrow> 'h" and known :: "'k \<Rightarrow> bool"
  assumes eq_refl: "known a \<Longrightarrow> eq a a"
    and eq_sym: "eq a b \<Longrightarrow> eq b a"
    and eq_trans: "eq a b \<Longrightarrow> eq b c \<Longrightarrow> eq a c"
    and eq_hash: "eq a b \<Longrightarrow> hash a = hash b"
begin

lemma eq_left: "eq a b \<Longrightarrow> eq a c = eq b c"
  using eq_sym eq_trans by blast

lemma eq_right: "eq a b \<Longrightarrow> eq c a = eq c b"
  using eq_sym eq_trans by blast

lemma hash_neq: "hash a \<noteq> hash b \<Longrightarrow> \<not> eq a b"
  using eq_hash by blast

end

lemma addr_is_equal_cases:
  "addr_is_equal a b cp \<longleftrightarrow>
     (\<exists>p x q y. a = Sin p x \<and> b = Sin q y \<and> take 4 x = take 4 y \<and> (cp \<longrightarrow> p = q))
     \<or> (\<exists>p x q y. a = Sin6 p x \<and> b = Sin6 q y \<and> take 16 x = take 16 y \<and> (cp \<longrightarrow> p = q))"
  by (cases a; cases b) (auto simp: addr_is_equal_def AF_INET_def AF_INET6_def)

lemma addr_is_equal_hash: "addr_is_equal a b cp \<Longrightarrow> addr_hash a cp = addr_hash b cp"
  by (auto simp: addr_is_equal_cases addr_hash_def Let_def)

interpretation addr_key: hash_key "\<lambda>a b. addr_is_equal a b cp" "\<lambda>a. addr_hash a cp" addr_known for cp
proof
  show "addr_is_equal a a cp" if "addr_known a" for a
    using that by (cases a) (auto simp: addr_is_equal_cases)
  show "addr_hash a cp = addr_hash b cp" if "addr_is_equal a b cp" for a b
    using that by (rule addr_is_equal_hash)
qed (auto simp: addr_is_equal_cases)

interpretation record_key: hash_key "\<lambda>a b. addr_record_is_equal a b cp" "\<lambda>a. addr_record_hash a cp"
  "\<lambda>r. addr_known (ar_addr r)" for cp
  unfolding addr_record_is_equal_def addr_record_hash_def
  by unfold_locales (auto intro: addr_key.eq_refl addr_key.eq_sym addr_key.eq_trans addr_key.eq_hash)

text \<open>\<open>addr_is_equal\<close>, with or without ports, is an equivalence on IPv4 and IPv6 addresses, and
  addresses it identifies have the same hash under the same choice of ports.\<close>

theorem addr_equal_hash_contract:
  "(addr_known a \<longrightarrow> addr_is_equal a a cp)
   \<and> (addr_is_equal a b cp \<longrightarrow> addr_is_equal b a cp \<and> addr_hash a cp = addr_hash b cp)
   \<and> (addr_is_equal a b cp \<and> addr_is_equal b c cp \<longrightarrow> addr_is_equal a c cp)
   \<and> (addr_is_equal a b True \<longrightarrow> addr_is_equal a b False)"
  by (auto intro: addr_key.eq_refl addr_key.eq_sym addr_key.eq_hash dest: addr_key.eq_trans)
    (auto simp: addr_is_equal_cases)

theorem addr_equal_hash_contract_witness:
  "addr_is_equal (Sin 1 [10, 0, 0, 1]) (Sin 2 [10, 0, 0, 1]) False
   \<and> addr_hash (Sin 1 [10, 0, 0, 1]) False = addr_hash (Sin 2 [10, 0, 0, 1]) False"
proof -
  have "addr_is_equal (Sin 1 [10, 0, 0, 1]) (Sin 2 [10, 0, 0, 1]) False" by (simp add: addr_is_equal_def)
  with addr_equal_hash_contract [of "Sin 1 [10, 0, 0, 1]" False "Sin 2 [10, 0, 0, 1]" "Sin 2 [10, 0, 0, 1]"]
  show ?thesis by blast
qed

end
