(* ===== verification/Stun.thy ===== *)
theory Stun
  imports Prelude Const_Time Crc32 Base64 Hmac Addr
begin

text \<open>
  STUN messages (\<open>stun.h\<close> and the shared routines of \<open>stun.c\<close>): constants, the message structure,
  error reasons, the XOR mask and the mapped-address value in both directions, the key derivation,
  nonce cookie and user hash, and the test that separates STUN from other datagrams.
\<close>

section \<open>Constants\<close>

definition STUN_MAGIC :: u32 where "STUN_MAGIC = 0x2112A442"
definition STUN_FINGERPRINT_XOR :: u32 where "STUN_FINGERPRINT_XOR = 0x5354554E"

abbreviation (input) STUN_HEADER_SIZE :: nat where "STUN_HEADER_SIZE \<equiv> 20"
abbreviation (input) STUN_ATTR_SIZE :: nat where "STUN_ATTR_SIZE \<equiv> 4"
abbreviation (input) HMAC_SHA1_SIZE :: nat where "HMAC_SHA1_SIZE \<equiv> 20"
abbreviation (input) HMAC_SHA256_SIZE :: nat where "HMAC_SHA256_SIZE \<equiv> 32"
abbreviation (input) USERHASH_SIZE :: nat where "USERHASH_SIZE \<equiv> 32"
abbreviation (input) STUN_MAX_USERNAME_LEN :: nat where "STUN_MAX_USERNAME_LEN \<equiv> 514"
abbreviation (input) STUN_MAX_REALM_LEN :: nat where "STUN_MAX_REALM_LEN \<equiv> 764"
abbreviation (input) STUN_MAX_NONCE_LEN :: nat where "STUN_MAX_NONCE_LEN \<equiv> 764"
abbreviation (input) STUN_MAX_SOFTWARE_LEN :: nat where "STUN_MAX_SOFTWARE_LEN \<equiv> 764"
abbreviation (input) STUN_MAX_PASSWORD_LEN :: nat where "STUN_MAX_PASSWORD_LEN \<equiv> STUN_MAX_USERNAME_LEN"
abbreviation (input) MAX_HMAC_KEY_LEN :: nat where "MAX_HMAC_KEY_LEN \<equiv> STUN_MAX_PASSWORD_LEN"
abbreviation (input) MAX_HMAC_INPUT_LEN :: nat where
  "MAX_HMAC_INPUT_LEN \<equiv> STUN_MAX_USERNAME_LEN + STUN_MAX_REALM_LEN + STUN_MAX_PASSWORD_LEN + 2"
abbreviation (input) MAX_USERHASH_INPUT_LEN :: nat where
  "MAX_USERHASH_INPUT_LEN \<equiv> STUN_MAX_USERNAME_LEN + STUN_MAX_REALM_LEN + 1"
abbreviation (input) STUN_MAX_PASSWORD_ALGORITHMS_VALUE_SIZE :: nat where
  "STUN_MAX_PASSWORD_ALGORITHMS_VALUE_SIZE \<equiv> 256"
abbreviation (input) STUN_MAX_PEER_ADDRESSES :: nat where "STUN_MAX_PEER_ADDRESSES \<equiv> 8"
abbreviation (input) STUN_NONCE_COOKIE_LEN :: nat where "STUN_NONCE_COOKIE_LEN \<equiv> 9"

abbreviation (input) STUN_CLASS_MASK :: u16 where "STUN_CLASS_MASK \<equiv> 0x0110"
abbreviation (input) STUN_CLASS_REQUEST :: u16 where "STUN_CLASS_REQUEST \<equiv> 0x0000"
abbreviation (input) STUN_CLASS_INDICATION :: u16 where "STUN_CLASS_INDICATION \<equiv> 0x0010"
abbreviation (input) STUN_CLASS_RESP_SUCCESS :: u16 where "STUN_CLASS_RESP_SUCCESS \<equiv> 0x0100"
abbreviation (input) STUN_CLASS_RESP_ERROR :: u16 where "STUN_CLASS_RESP_ERROR \<equiv> 0x0110"

abbreviation (input) STUN_METHOD_BINDING :: u16 where "STUN_METHOD_BINDING \<equiv> 0x0001"
abbreviation (input) STUN_METHOD_ALLOCATE :: u16 where "STUN_METHOD_ALLOCATE \<equiv> 0x0003"
abbreviation (input) STUN_METHOD_REFRESH :: u16 where "STUN_METHOD_REFRESH \<equiv> 0x0004"
abbreviation (input) STUN_METHOD_SEND :: u16 where "STUN_METHOD_SEND \<equiv> 0x0006"
abbreviation (input) STUN_METHOD_DATA :: u16 where "STUN_METHOD_DATA \<equiv> 0x0007"
abbreviation (input) STUN_METHOD_CREATE_PERMISSION :: u16 where "STUN_METHOD_CREATE_PERMISSION \<equiv> 0x0008"
abbreviation (input) STUN_METHOD_CHANNEL_BIND :: u16 where "STUN_METHOD_CHANNEL_BIND \<equiv> 0x0009"

definition STUN_IS_RESPONSE :: "u16 \<Rightarrow> bool" where
  "STUN_IS_RESPONSE msg_class \<longleftrightarrow> msg_class AND 0x0100 \<noteq> 0"

abbreviation (input) STUN_ATTR_MAPPED_ADDRESS :: u16 where "STUN_ATTR_MAPPED_ADDRESS \<equiv> 0x0001"
abbreviation (input) STUN_ATTR_USERNAME :: u16 where "STUN_ATTR_USERNAME \<equiv> 0x0006"
abbreviation (input) STUN_ATTR_MESSAGE_INTEGRITY :: u16 where "STUN_ATTR_MESSAGE_INTEGRITY \<equiv> 0x0008"
abbreviation (input) STUN_ATTR_ERROR_CODE :: u16 where "STUN_ATTR_ERROR_CODE \<equiv> 0x0009"
abbreviation (input) STUN_ATTR_UNKNOWN_ATTRIBUTES :: u16 where "STUN_ATTR_UNKNOWN_ATTRIBUTES \<equiv> 0x000A"
abbreviation (input) STUN_ATTR_REALM :: u16 where "STUN_ATTR_REALM \<equiv> 0x0014"
abbreviation (input) STUN_ATTR_NONCE :: u16 where "STUN_ATTR_NONCE \<equiv> 0x0015"
abbreviation (input) STUN_ATTR_MESSAGE_INTEGRITY_SHA256 :: u16 where "STUN_ATTR_MESSAGE_INTEGRITY_SHA256 \<equiv> 0x001C"
abbreviation (input) STUN_ATTR_PASSWORD_ALGORITHM :: u16 where "STUN_ATTR_PASSWORD_ALGORITHM \<equiv> 0x001D"
abbreviation (input) STUN_ATTR_USERHASH :: u16 where "STUN_ATTR_USERHASH \<equiv> 0x001E"
abbreviation (input) STUN_ATTR_XOR_MAPPED_ADDRESS :: u16 where "STUN_ATTR_XOR_MAPPED_ADDRESS \<equiv> 0x0020"
abbreviation (input) STUN_ATTR_PRIORITY :: u16 where "STUN_ATTR_PRIORITY \<equiv> 0x0024"
abbreviation (input) STUN_ATTR_USE_CANDIDATE :: u16 where "STUN_ATTR_USE_CANDIDATE \<equiv> 0x0025"
abbreviation (input) STUN_ATTR_PASSWORD_ALGORITHMS :: u16 where "STUN_ATTR_PASSWORD_ALGORITHMS \<equiv> 0x8002"
abbreviation (input) STUN_ATTR_SOFTWARE :: u16 where "STUN_ATTR_SOFTWARE \<equiv> 0x8022"
abbreviation (input) STUN_ATTR_ALTERNATE_SERVER :: u16 where "STUN_ATTR_ALTERNATE_SERVER \<equiv> 0x8023"
abbreviation (input) STUN_ATTR_FINGERPRINT :: u16 where "STUN_ATTR_FINGERPRINT \<equiv> 0x8028"
abbreviation (input) STUN_ATTR_ICE_CONTROLLED :: u16 where "STUN_ATTR_ICE_CONTROLLED \<equiv> 0x8029"
abbreviation (input) STUN_ATTR_ICE_CONTROLLING :: u16 where "STUN_ATTR_ICE_CONTROLLING \<equiv> 0x802A"
abbreviation (input) STUN_ATTR_CHANNEL_NUMBER :: u16 where "STUN_ATTR_CHANNEL_NUMBER \<equiv> 0x000C"
abbreviation (input) STUN_ATTR_LIFETIME :: u16 where "STUN_ATTR_LIFETIME \<equiv> 0x000D"
abbreviation (input) STUN_ATTR_XOR_PEER_ADDRESS :: u16 where "STUN_ATTR_XOR_PEER_ADDRESS \<equiv> 0x0012"
abbreviation (input) STUN_ATTR_DATA :: u16 where "STUN_ATTR_DATA \<equiv> 0x0013"
abbreviation (input) STUN_ATTR_XOR_RELAYED_ADDRESS :: u16 where "STUN_ATTR_XOR_RELAYED_ADDRESS \<equiv> 0x0016"
abbreviation (input) STUN_ATTR_EVEN_PORT :: u16 where "STUN_ATTR_EVEN_PORT \<equiv> 0x0018"
abbreviation (input) STUN_ATTR_REQUESTED_TRANSPORT :: u16 where "STUN_ATTR_REQUESTED_TRANSPORT \<equiv> 0x0019"
abbreviation (input) STUN_ATTR_DONT_FRAGMENT :: u16 where "STUN_ATTR_DONT_FRAGMENT \<equiv> 0x001A"
abbreviation (input) STUN_ATTR_RESERVATION_TOKEN :: u16 where "STUN_ATTR_RESERVATION_TOKEN \<equiv> 0x0022"

abbreviation (input) STUN_PASSWORD_ALGORITHM_UNSET :: u16 where "STUN_PASSWORD_ALGORITHM_UNSET \<equiv> 0"
abbreviation (input) STUN_PASSWORD_ALGORITHM_MD5 :: u16 where "STUN_PASSWORD_ALGORITHM_MD5 \<equiv> 1"
abbreviation (input) STUN_PASSWORD_ALGORITHM_SHA256 :: u16 where "STUN_PASSWORD_ALGORITHM_SHA256 \<equiv> 2"

abbreviation (input) STUN_ERROR_INTERNAL_VALIDATION_FAILED :: u32 where
  "STUN_ERROR_INTERNAL_VALIDATION_FAILED \<equiv> 599"
abbreviation (input) STUN_SECURITY_PASSWORD_ALGORITHMS_BIT :: u32 where
  "STUN_SECURITY_PASSWORD_ALGORITHMS_BIT \<equiv> 0x01"
abbreviation (input) STUN_SECURITY_USERNAME_ANONYMITY_BIT :: u32 where
  "STUN_SECURITY_USERNAME_ANONYMITY_BIT \<equiv> 0x02"

definition STUN_NONCE_COOKIE :: bytes where "STUN_NONCE_COOKIE = ascii ''obMatJos2''"

section \<open>Messages\<close>

text \<open>
  The character arrays are their C strings. The list of password algorithms and the peers are
  lists, whose lengths are the fields \<open>password_algorithms_value_size\<close> and \<open>peers_size\<close>; \<open>data\<close> is
  \<open>None\<close> for a null pointer.
\<close>

record stun_credentials =
  cr_username :: bytes
  cr_realm :: bytes
  cr_nonce :: bytes
  cr_userhash :: bytes
  cr_enable_userhash :: bool
  cr_password_algorithm :: u16
  cr_password_algorithms_value :: bytes

record stun_message =
  sm_class :: u16
  sm_method :: u16
  sm_transaction_id :: bytes
  sm_error_code :: u32
  sm_priority :: u32
  sm_ice_controlling :: u64
  sm_ice_controlled :: u64
  sm_use_candidate :: bool
  sm_mapped :: addr_record
  sm_credentials :: stun_credentials
  sm_has_integrity :: bool
  sm_has_fingerprint :: bool
  sm_peers :: "addr_record list"
  sm_relayed :: addr_record
  sm_alternate_server :: addr_record
  sm_data :: "bytes option"
  sm_lifetime :: u32
  sm_channel_number :: u16
  sm_lifetime_set :: bool
  sm_even_port :: bool
  sm_next_port :: bool
  sm_dont_fragment :: bool
  sm_requested_transport :: bool
  sm_reservation_token :: u64

text \<open>The structures after \<open>memset\<close> with zero.\<close>

definition addr_zero :: addr_record where
  "addr_zero = \<lparr>ar_addr = OtherFamily 0, ar_len = 0\<rparr>"

definition credentials_zero :: stun_credentials where
  "credentials_zero = \<lparr>cr_username = [], cr_realm = [], cr_nonce = [], cr_userhash = replicate 32 0,
     cr_enable_userhash = False, cr_password_algorithm = 0, cr_password_algorithms_value = []\<rparr>"

definition message_zero :: stun_message where
  "message_zero = \<lparr>sm_class = 0, sm_method = 0, sm_transaction_id = replicate 12 0, sm_error_code = 0,
     sm_priority = 0, sm_ice_controlling = 0, sm_ice_controlled = 0, sm_use_candidate = False,
     sm_mapped = addr_zero, sm_credentials = credentials_zero, sm_has_integrity = False,
     sm_has_fingerprint = False, sm_peers = [], sm_relayed = addr_zero, sm_alternate_server = addr_zero,
     sm_data = None, sm_lifetime = 0, sm_channel_number = 0, sm_lifetime_set = False, sm_even_port = False,
     sm_next_port = False, sm_dont_fragment = False, sm_requested_transport = False,
     sm_reservation_token = 0\<rparr>"

section \<open>Shared routines\<close>

function align32 :: "nat \<Rightarrow> nat" where
  "align32 len = (if len mod 4 \<noteq> 0 then align32 (len + 1) else len)"
  by pat_completeness auto
termination
proof (relation "measure (\<lambda>len. (4 - len mod 4) mod 4)")
  fix len :: nat assume "len mod 4 \<noteq> 0"
  moreover have "len mod 4 < 4" by simp
  ultimately have "len mod 4 \<in> {1, 2, 3}" by auto
  then show "(len + 1, len) \<in> measure (\<lambda>len. (4 - len mod 4) mod 4)"
    by (auto simp: mod_Suc)
qed simp

declare align32.simps [simp del]

definition generate_mask :: "bytes \<Rightarrow> bytes" where
  "generate_mask transaction_id = put32 STUN_MAGIC @ take 12 transaction_id"

text \<open>\<open>snprintf\<close> into a buffer of \<open>n\<close> bytes, and the length that is used of it.\<close>

definition snprintf_str :: "nat \<Rightarrow> bytes \<Rightarrow> bytes" where
  "snprintf_str n s = take (n - 1) s"

definition generate_hmac_key :: "stun_message \<Rightarrow> bytes option \<Rightarrow> bytes" where
  "generate_hmac_key msg password =
     (let c = sm_credentials msg; pw = (case password of Some p \<Rightarrow> p | None \<Rightarrow> [])
      in if cr_realm c \<noteq> []
         then let input = snprintf_str MAX_HMAC_INPUT_LEN
                (cr_username c @ ascii '':'' @ cr_realm c @ ascii '':'' @ pw)
              in if cr_password_algorithm c = STUN_PASSWORD_ALGORITHM_SHA256
                 then hash_sha256 ph_uninit input else hash_md5 ph_uninit input
         else snprintf_str MAX_HMAC_KEY_LEN pw)"

definition generate_password_algorithms_attr :: bytes where
  "generate_password_algorithms_attr =
     put16 STUN_PASSWORD_ALGORITHM_SHA256 @ put16 0 @ put16 STUN_PASSWORD_ALGORITHM_MD5 @ put16 0"

definition stun_get_error_reason :: "u32 \<Rightarrow> bytes" where
  "stun_get_error_reason code = ascii
     (if code = 0 then '''' else if code = 300 then ''Try Alternate''
      else if code = 400 then ''Bad Request'' else if code = 401 then ''Unauthenticated''
      else if code = 403 then ''Forbidden'' else if code = 420 then ''Unknown Attribute''
      else if code = 437 then ''Allocation Mismatch'' else if code = 438 then ''Stale Nonce''
      else if code = 440 then ''Address Family not Supported'' else if code = 441 then ''Wrong credentials''
      else if code = 442 then ''Unsupported Transport Protocol''
      else if code = 443 then ''Peer Address Family Mismatch''
      else if code = 486 then ''Allocation Quota Reached'' else if code = 500 then ''Server Error''
      else if code = 508 then ''Insufficient Capacity'' else ''Error'')"

text \<open>
  The mapped-address value. A 16-bit field is copied without byte swap, so its memory image is
  little-endian; the port is masked with the first two bytes of the mask.
\<close>

definition raw16 :: "u16 \<Rightarrow> bytes" where "raw16 w = [ucast w, ucast (drop_bit 8 w)]"
definition unraw16 :: "bytes \<Rightarrow> u16" where "unraw16 bs = ucast (bs ! 0) OR push_bit 8 (ucast (bs ! 1))"

definition stun_write_value_mapped_address :: "nat \<Rightarrow> sockaddr \<Rightarrow> nat \<Rightarrow> bytes \<Rightarrow> bytes res" where
  "stun_write_value_mapped_address sz addr addrlen msk =
     (if sz < 4 then Inl Fail
      else case addr of
        Sin port bs \<Rightarrow>
          if sz < 4 + 4 then Inl Fail
          else if addrlen < sizeof_sockaddr_in then Inl Fail
          else Inr ([0, 1] @ raw16 (port XOR unraw16 msk) @ map (\<lambda>i. bs ! i XOR msk ! i) [0..<4])
      | Sin6 port bs \<Rightarrow>
          if sz < 4 + 16 then Inl Fail
          else if addrlen < sizeof_sockaddr_in6 then Inl Fail
          else Inr ([0, 2] @ raw16 (port XOR unraw16 msk) @ map (\<lambda>i. bs ! i XOR msk ! i) [0..<16])
      | OtherFamily _ \<Rightarrow> Inl Fail)"

definition stun_read_value_mapped_address :: "bytes \<Rightarrow> addr_record \<Rightarrow> bytes \<Rightarrow> (nat \<times> addr_record) res" where
  "stun_read_value_mapped_address val m msk =
     (if length val < 4 then Inl Fail
      else bindr (getr val 0 4) (\<lambda>h.
        if h ! 1 = 1 then
          if length val < 4 + 4 then Inl Fail
          else bindr (getr val 4 4) (\<lambda>bs.
            Inr (8, \<lparr>ar_addr = Sin (unraw16 (drop 2 h) XOR unraw16 msk) (map (\<lambda>i. bs ! i XOR msk ! i) [0..<4]),
                     ar_len = sizeof_sockaddr_in\<rparr>))
        else if h ! 1 = 2 then
          if length val < 4 + 16 then Inl Fail
          else bindr (getr val 4 16) (\<lambda>bs.
            Inr (20, \<lparr>ar_addr = Sin6 (unraw16 (drop 2 h) XOR unraw16 msk) (map (\<lambda>i. bs ! i XOR msk ! i) [0..<16]),
                      ar_len = sizeof_sockaddr_in6\<rparr>))
        else Inr (length val, m)))"

text \<open>The length field of the header at the start of a buffer: the previous value and the new buffer.\<close>

definition stun_update_header_length :: "bytes \<Rightarrow> nat \<Rightarrow> (nat \<times> bytes) res" where
  "stun_update_header_length buf len =
     bindr (getr buf 2 2) (\<lambda>old.
       case wr buf 2 (put16 (of_nat len)) of None \<Rightarrow> Inl OutOfBounds
       | Some buf' \<Rightarrow> Inr (unat (get16 old), buf'))"

definition is_stun_datagram :: "bytes \<Rightarrow> bool" where
  "is_stun_datagram data =
     (if data = [] \<or> hd data AND 0xC0 \<noteq> 0 then False
      else if length data < STUN_HEADER_SIZE then False
      else if get32 (take 4 (drop 4 data)) \<noteq> STUN_MAGIC then False
      else let len = unat (get16 (take 2 (drop 2 data)))
           in if len mod 4 \<noteq> 0 then False
              else if length data \<noteq> STUN_HEADER_SIZE + len then False else True)"

text \<open>
  The nonce cookie. The argument is the nonce; the encoder gets the three low bytes of the security
  bits in network order. A failing encoder leaves its buffer alone, which the code does not test.
\<close>

definition stun_prepend_nonce_cookie :: "bytes \<Rightarrow> bytes" where
  "stun_prepend_nonce_cookie nonce =
     (let security_bits = put32 (STUN_SECURITY_PASSWORD_ALGORITHMS_BIT OR STUN_SECURITY_USERNAME_ANONYMITY_BIT);
          encoded = (case juice_base64_encode (drop 1 security_bits) 5 of Inr s \<Rightarrow> s | Inl _ \<Rightarrow> [])
      in snprintf_str STUN_MAX_NONCE_LEN
           (STUN_NONCE_COOKIE @ encoded @ take (STUN_MAX_NONCE_LEN - (STUN_NONCE_COOKIE_LEN + 5)) nonce))"

definition stun_compute_userhash :: "bytes \<Rightarrow> bytes \<Rightarrow> bytes" where
  "stun_compute_userhash username realm =
     hash_sha256 ph_uninit (snprintf_str MAX_USERHASH_INPUT_LEN (username @ ascii '':'' @ realm))"

definition stun_process_credentials :: "stun_credentials \<Rightarrow> stun_credentials \<Rightarrow> stun_credentials" where
  "stun_process_credentials credentials dst =
     (let username = cr_username dst; dst = credentials\<lparr>cr_username := username\<rparr>
      in if cr_enable_userhash credentials
         then dst\<lparr>cr_userhash := stun_compute_userhash username (cr_realm credentials)\<rparr> else dst)"

section \<open>Lemmas\<close>

lemma align32_eq: "align32 n = n + (4 - n mod 4) mod 4"
proof (induction n rule: align32.induct)
  case (1 n)
  have "n mod 4 < 4" by simp
  then consider "n mod 4 = 0" | "n mod 4 = 1" | "n mod 4 = 2" | "n mod 4 = 3" by linarith
  then show ?case
    using 1 by cases (simp_all add: align32.simps [of n] mod_Suc)
qed

lemma align32_ge: "n \<le> align32 n" and align32_mod [simp]: "align32 n mod 4 = 0"
  and align32_le: "align32 n \<le> n + 3"
proof -
  have "n mod 4 < 4" by simp
  then have "n mod 4 \<in> {0, 1, 2, 3}" by auto
  then show "n \<le> align32 n" "align32 n mod 4 = 0" "align32 n \<le> n + 3"
    by (auto simp: align32_eq mod_add_eq [symmetric, of n])
qed

lemma raw16_unraw16 [simp]: "unraw16 (raw16 w) = w"
  unfolding raw16_def unraw16_def by (rule bit_word_eqI) (auto simp: bit_simps)

lemma length_raw16 [simp]: "length (raw16 w) = 2"
  by (simp add: raw16_def)

lemma length_generate_mask [simp]: "length tid = 12 \<Longrightarrow> length (generate_mask tid) = 16"
  by (simp add: generate_mask_def)

lemma xor_mask_twice:
  "length bs = n \<Longrightarrow> map (\<lambda>i. map (\<lambda>i. bs ! i XOR msk ! i) [0..<n] ! i XOR msk ! i) [0..<n] = (bs :: bytes)"
  by (rule nth_equalityI) simp_all

text \<open>The value written for an address, and what reading it gives back.\<close>

definition mapped_value :: "sockaddr \<Rightarrow> bytes \<Rightarrow> bytes" where
  "mapped_value addr msk = (case addr of
     Sin port bs \<Rightarrow> [0, 1] @ raw16 (port XOR unraw16 msk) @ map (\<lambda>i. bs ! i XOR msk ! i) [0..<4]
   | Sin6 port bs \<Rightarrow> [0, 2] @ raw16 (port XOR unraw16 msk) @ map (\<lambda>i. bs ! i XOR msk ! i) [0..<16]
   | OtherFamily _ \<Rightarrow> [])"

lemma write_mapped_value:
  "addr_known addr \<Longrightarrow>
     stun_write_value_mapped_address 32 addr (addr_get_len addr) msk = Inr (mapped_value addr msk)"
  by (cases addr) (simp_all add: stun_write_value_mapped_address_def mapped_value_def
      sizeof_sockaddr_in_def sizeof_sockaddr_in6_def)

lemma unraw16_raw16_drop: "unraw16 (drop 2 ([a, b] @ raw16 w)) = w"
  by simp

lemma read_mapped_value:
  assumes "addr_known addr" "addr_wf addr"
  shows "stun_read_value_mapped_address (mapped_value addr msk) m msk =
    Inr (length (mapped_value addr msk), \<lparr>ar_addr = addr, ar_len = addr_get_len addr\<rparr>)"
proof (cases addr)
  case (Sin port bs)
  then have v: "mapped_value addr msk = ([0, 1] @ raw16 (port XOR unraw16 msk)) @ map (\<lambda>i. bs ! i XOR msk ! i) [0..<4]"
    (is "_ = ?h @ ?b") by (simp add: mapped_value_def)
  have "getr (?h @ ?b) 0 4 = Inr ?h" "getr (?h @ ?b) 4 4 = Inr ?b"
    by (simp_all add: getr_ok)
  then show ?thesis
    unfolding stun_read_value_mapped_address_def v
    using assms Sin xor_mask_twice [of bs 4 msk] by simp
next
  case (Sin6 port bs)
  then have v: "mapped_value addr msk = ([0, 2] @ raw16 (port XOR unraw16 msk)) @ map (\<lambda>i. bs ! i XOR msk ! i) [0..<16]"
    (is "_ = ?h @ ?b") by (simp add: mapped_value_def)
  have "getr (?h @ ?b) 0 4 = Inr ?h" "getr (?h @ ?b) 4 16 = Inr ?b"
    by (simp_all add: getr_ok)
  then show ?thesis
    unfolding stun_read_value_mapped_address_def v
    using assms Sin6 xor_mask_twice [of bs 16 msk] by simp
qed (use assms in simp)

end
