(* ===== verification/Stun_Write.thy ===== *)
theory Stun_Write
  imports Stun
begin

text \<open>
  Writing STUN messages (\<open>stun_write\<close>, \<open>stun_write_header\<close> and \<open>stun_write_attr\<close> of \<open>stun.c\<close>) into a
  buffer of the caller. The position is kept as an integer because the code moves it by the return
  value of the attribute writer, converted to \<open>size_t\<close>. The pure encoder \<open>stun_encode\<close> says what the
  message looks like on the wire; \<open>stun_write\<close> is proved to produce it whenever it fits.
\<close>

section \<open>The routines\<close>

definition stun_header :: "u16 \<Rightarrow> u16 \<Rightarrow> u16 \<Rightarrow> bytes \<Rightarrow> bytes" where
  "stun_header cls meth len tid = put16 (cls OR meth) @ put16 len @ put32 STUN_MAGIC @ take 12 tid"

definition stun_write_header :: "bytes \<Rightarrow> u16 \<Rightarrow> u16 \<Rightarrow> bytes \<Rightarrow> bytes \<times> int" where
  "stun_write_header buf cls meth tid =
     (if length buf < STUN_HEADER_SIZE then (buf, -1)
      else (blit buf 0 (stun_header cls meth 0 tid), 20))"

text \<open>
  The attribute writer at position \<open>pos\<close> of the buffer: the room is checked for the value without
  its padding, and the padding bytes are stored regardless.
\<close>

definition stun_write_attr :: "bytes \<Rightarrow> int \<Rightarrow> u16 \<Rightarrow> bytes \<Rightarrow> (bytes \<times> int) res" where
  "stun_write_attr buf pos type val =
     (if int (length buf) - pos < 4 + int (length val) then Inr (buf, -1)
      else if pos < 0 then Inl OutOfBounds
      else case wr buf (nat pos)
                  (put16 type @ put16 (of_nat (length val)) @ val @ replicate (align32 (length val) - length val) 0)
           of None \<Rightarrow> Inl OutOfBounds
            | Some buf' \<Rightarrow> Inr (buf', 4 + int (align32 (length val))))"

text \<open>
  The pattern around each call: \<open>size_t len = stun_write_attr(...); if (len <= 0) goto overflow;
  pos += len\<close>. The return value \<open>-1\<close> becomes the largest \<open>size_t\<close>, so the test does not see it, and
  adding it to the pointer moves the position back by one.
\<close>

fun stun_put :: "u16 \<times> bytes \<Rightarrow> bytes \<times> int \<Rightarrow> (bytes \<times> int) res" where
  "stun_put (type, val) (buf, pos) =
     bindr (stun_write_attr buf pos type val) (\<lambda>(buf', ret).
       let len = (word_of_int ret :: u32)
       in if len \<le> 0 then Inl Fail else Inr (buf', pos + sint len))"

fun stun_puts :: "(u16 \<times> bytes) list \<Rightarrow> bytes \<times> int \<Rightarrow> (bytes \<times> int) res" where
  "stun_puts [] s = Inr s"
| "stun_puts (a # as) s = bindr (stun_put a s) (stun_puts as)"

text \<open>The attributes of a message, in the order of the code.\<close>

definition attrs_error :: "stun_message \<Rightarrow> (u16 \<times> bytes) list" where
  "attrs_error msg =
     (if sm_error_code msg \<noteq> 0
      then [(STUN_ATTR_ERROR_CODE,
             [0, 0, ucast ((sm_error_code msg div 100) AND 0x07), ucast (sm_error_code msg mod 100)]
             @ stun_get_error_reason (sm_error_code msg))]
      else [])"

definition attrs_xor_address :: "stun_message \<Rightarrow> u16 \<Rightarrow> addr_record \<Rightarrow> (u16 \<times> bytes) list" where
  "attrs_xor_address msg type rec =
     (if ar_len rec \<noteq> 0
      then case stun_write_value_mapped_address 32 (ar_addr rec) (ar_len rec) (generate_mask (sm_transaction_id msg))
           of Inr val \<Rightarrow> [(type, val)] | Inl _ \<Rightarrow> []
      else [])"

definition attrs_mapped :: "stun_message \<Rightarrow> (u16 \<times> bytes) list" where
  "attrs_mapped msg = attrs_xor_address msg STUN_ATTR_XOR_MAPPED_ADDRESS (sm_mapped msg)"

definition attrs_priority :: "stun_message \<Rightarrow> (u16 \<times> bytes) list" where
  "attrs_priority msg = (if sm_priority msg \<noteq> 0 then [(STUN_ATTR_PRIORITY, put32 (sm_priority msg))] else [])"

definition attrs_use_candidate :: "stun_message \<Rightarrow> (u16 \<times> bytes) list" where
  "attrs_use_candidate msg = (if sm_use_candidate msg then [(STUN_ATTR_USE_CANDIDATE, [])] else [])"

definition attrs_controlling :: "stun_message \<Rightarrow> (u16 \<times> bytes) list" where
  "attrs_controlling msg =
     (if sm_ice_controlling msg \<noteq> 0 then [(STUN_ATTR_ICE_CONTROLLING, put64 (sm_ice_controlling msg))] else [])"

definition attrs_controlled :: "stun_message \<Rightarrow> (u16 \<times> bytes) list" where
  "attrs_controlled msg =
     (if sm_ice_controlled msg \<noteq> 0 then [(STUN_ATTR_ICE_CONTROLLED, put64 (sm_ice_controlled msg))] else [])"

definition attrs_channel :: "stun_message \<Rightarrow> (u16 \<times> bytes) list" where
  "attrs_channel msg =
     (if sm_channel_number msg \<noteq> 0
      then [(STUN_ATTR_CHANNEL_NUMBER, put16 (sm_channel_number msg) @ [0, 0])] else [])"

definition attrs_lifetime :: "stun_message \<Rightarrow> (u16 \<times> bytes) list" where
  "attrs_lifetime msg =
     (if sm_lifetime_set msg \<or> sm_lifetime msg \<noteq> 0 then [(STUN_ATTR_LIFETIME, put32 (sm_lifetime msg))] else [])"

definition attrs_peers :: "stun_message \<Rightarrow> (u16 \<times> bytes) list" where
  "attrs_peers msg = concat (map (attrs_xor_address msg STUN_ATTR_XOR_PEER_ADDRESS) (sm_peers msg))"

definition attrs_relayed :: "stun_message \<Rightarrow> (u16 \<times> bytes) list" where
  "attrs_relayed msg = attrs_xor_address msg STUN_ATTR_XOR_RELAYED_ADDRESS (sm_relayed msg)"

definition attrs_data :: "stun_message \<Rightarrow> (u16 \<times> bytes) list" where
  "attrs_data msg = (case sm_data msg of None \<Rightarrow> [] | Some d \<Rightarrow> [(STUN_ATTR_DATA, d)])"

definition attrs_even_port :: "stun_message \<Rightarrow> (u16 \<times> bytes) list" where
  "attrs_even_port msg =
     (if sm_even_port msg then [(STUN_ATTR_CHANNEL_NUMBER, [if sm_next_port msg then 0x80 else 0])] else [])"

definition attrs_transport :: "stun_message \<Rightarrow> (u16 \<times> bytes) list" where
  "attrs_transport msg =
     (if sm_requested_transport msg then [(STUN_ATTR_REQUESTED_TRANSPORT, [17, 0, 0, 0])] else [])"

definition attrs_dont_fragment :: "stun_message \<Rightarrow> (u16 \<times> bytes) list" where
  "attrs_dont_fragment msg = (if sm_dont_fragment msg then [(STUN_ATTR_DONT_FRAGMENT, [])] else [])"

definition attrs_reservation :: "stun_message \<Rightarrow> (u16 \<times> bytes) list" where
  "attrs_reservation msg =
     (if sm_reservation_token msg \<noteq> 0
      then [(STUN_ATTR_RESERVATION_TOKEN, put64 (sm_reservation_token msg))] else [])"

definition attrs_software :: "(u16 \<times> bytes) list" where
  "attrs_software = [(STUN_ATTR_SOFTWARE, ascii ''libjuice'')]"

definition attrs_user :: "stun_message \<Rightarrow> (u16 \<times> bytes) list" where
  "attrs_user msg =
     (let c = sm_credentials msg
      in if sm_class msg = STUN_CLASS_REQUEST
         then if cr_enable_userhash c then [(STUN_ATTR_USERHASH, take USERHASH_SIZE (cr_userhash c))]
              else if cr_username c \<noteq> [] then [(STUN_ATTR_USERNAME, cr_username c)] else []
         else [])"

text \<open>
  The member \<open>parameters_length\<close> of the password algorithm is never set: \<open>junk\<close> is the content of the
  stack there.
\<close>

definition attrs_realm :: "stun_message \<Rightarrow> bytes \<Rightarrow> (u16 \<times> bytes) list" where
  "attrs_realm msg junk =
     (let c = sm_credentials msg
      in if sm_class msg = STUN_CLASS_REQUEST
            \<or> (sm_class msg = STUN_CLASS_RESP_ERROR \<and> (sm_error_code msg = 401 \<or> sm_error_code msg = 438))
         then (if cr_realm c \<noteq> [] then [(STUN_ATTR_REALM, cr_realm c)] else [])
              @ (if cr_nonce c \<noteq> []
                 then [(STUN_ATTR_NONCE, cr_nonce c)]
                      @ (if 0 < cr_password_algorithm c
                         then [(STUN_ATTR_PASSWORD_ALGORITHMS, cr_password_algorithms_value c)]
                         else if sm_class msg \<noteq> STUN_CLASS_REQUEST
                         then [(STUN_ATTR_PASSWORD_ALGORITHMS, generate_password_algorithms_attr)] else [])
                      @ (if sm_class msg = STUN_CLASS_REQUEST
                            \<and> cr_password_algorithm c \<noteq> STUN_PASSWORD_ALGORITHM_UNSET
                         then [(STUN_ATTR_PASSWORD_ALGORITHM, put16 (cr_password_algorithm c) @ take 2 junk)] else [])
                 else [])
         else [])"

definition stun_attrs :: "stun_message \<Rightarrow> bytes \<Rightarrow> (u16 \<times> bytes) list" where
  "stun_attrs msg junk =
     attrs_error msg @ attrs_mapped msg @ attrs_priority msg @ attrs_use_candidate msg @ attrs_controlling msg
     @ attrs_controlled msg @ attrs_channel msg @ attrs_lifetime msg @ attrs_peers msg @ attrs_relayed msg
     @ attrs_data msg @ attrs_even_port msg @ attrs_transport msg @ attrs_dont_fragment msg
     @ attrs_reservation msg @ attrs_software @ attrs_user msg @ attrs_realm msg junk"

text \<open>The bytes from the start of the buffer to the position; a position before the buffer is a huge size.\<close>

definition prefix_at :: "bytes \<Rightarrow> int \<Rightarrow> bytes res" where
  "prefix_at buf pos = (if pos < 0 then Inl OutOfBounds else getr buf 0 (nat pos))"

text \<open>One integrity attribute: set the header length as if it were there, authenticate, append.\<close>

definition stun_put_integrity ::
  "u16 \<Rightarrow> (bytes \<Rightarrow> bytes) \<Rightarrow> nat \<Rightarrow> int \<Rightarrow> bytes \<times> int \<Rightarrow> (bytes \<times> int) res" where
  "stun_put_integrity type mac mac_size attr_begin s =
     (let (buf, pos) = s
      in bindr (stun_update_header_length buf (nat ((pos - attr_begin + 4 + int mac_size) mod 2 ^ 32))) (\<lambda>(prev, buf).
         bindr (prefix_at buf pos) (\<lambda>m. stun_put (type, take mac_size (mac m)) (buf, pos))))"

definition stun_write_integrity :: "stun_message \<Rightarrow> bytes option \<Rightarrow> int \<Rightarrow> bytes \<times> int \<Rightarrow> (bytes \<times> int) res" where
  "stun_write_integrity msg password attr_begin s =
     (if sm_class msg \<noteq> STUN_CLASS_INDICATION \<and> password \<noteq> None
      then let key = generate_hmac_key msg password
           in bindr (stun_put_integrity STUN_ATTR_MESSAGE_INTEGRITY (\<lambda>m. hmac_sha1 ph_uninit m key)
                       HMAC_SHA1_SIZE attr_begin s) (\<lambda>s.
              if cr_password_algorithm (sm_credentials msg) \<noteq> STUN_PASSWORD_ALGORITHM_UNSET
              then stun_put_integrity STUN_ATTR_MESSAGE_INTEGRITY_SHA256 (\<lambda>m. hmac_sha256 ph_uninit m key)
                     HMAC_SHA256_SIZE attr_begin s
              else Inr s)
      else Inr s)"

definition stun_write_fingerprint :: "int \<Rightarrow> bytes \<times> int \<Rightarrow> (bytes \<times> int) res" where
  "stun_write_fingerprint attr_begin s =
     (let (buf, pos) = s; len = pos - attr_begin + 4 + 4
      in if len mod 4 \<noteq> 0 then Inl Fail
         else bindr (stun_update_header_length buf (nat (len mod 2 ^ 32))) (\<lambda>(prev, buf).
              bindr (prefix_at buf pos) (\<lambda>m.
              stun_put (STUN_ATTR_FINGERPRINT, put32 (CRC32 m XOR STUN_FINGERPRINT_XOR)) (buf, pos))))"

text \<open>The whole message: the new content of the buffer and the return value.\<close>

definition stun_write :: "bytes \<Rightarrow> stun_message \<Rightarrow> bytes option \<Rightarrow> bytes \<Rightarrow> (bytes \<times> int) res" where
  "stun_write buf msg password junk =
     (let (buf, ret) = stun_write_header buf (sm_class msg) (sm_method msg) (sm_transaction_id msg);
          len = (word_of_int ret :: u32)
      in if len \<le> 0 then Inl Fail
         else let attr_begin = sint len
              in bindr (stun_puts (stun_attrs msg junk) (buf, sint len)) (\<lambda>s.
                 bindr (stun_write_integrity msg password attr_begin s) (\<lambda>s.
                 stun_write_fingerprint attr_begin s)))"

section \<open>The encoder\<close>

text \<open>The wire format: attributes padded to four bytes, the header, the trailing attributes.\<close>

fun enc_attr :: "u16 \<times> bytes \<Rightarrow> bytes" where
  "enc_attr (type, val) = put16 type @ put16 (of_nat (length val)) @ val @ replicate (align32 (length val) - length val) 0"

abbreviation enc_attrs :: "(u16 \<times> bytes) list \<Rightarrow> bytes" where
  "enc_attrs as \<equiv> concat (map enc_attr as)"

abbreviation msg_header :: "stun_message \<Rightarrow> nat \<Rightarrow> bytes" where
  "msg_header msg n \<equiv> stun_header (sm_class msg) (sm_method msg) (of_nat n) (sm_transaction_id msg)"

text \<open>The integrity attributes for a message whose attributes so far are \<open>as\<close>.\<close>

definition attrs_integrity :: "stun_message \<Rightarrow> bytes option \<Rightarrow> (u16 \<times> bytes) list \<Rightarrow> (u16 \<times> bytes) list" where
  "attrs_integrity msg password as =
     (if sm_class msg \<noteq> STUN_CLASS_INDICATION \<and> password \<noteq> None
      then let key = generate_hmac_key msg password; A = enc_attrs as;
               mi = (STUN_ATTR_MESSAGE_INTEGRITY, take 20 (hmac_sha1 ph_uninit (msg_header msg (length A + 24) @ A) key));
               B = A @ enc_attr mi;
               mi256 = (STUN_ATTR_MESSAGE_INTEGRITY_SHA256,
                        take 32 (hmac_sha256 ph_uninit (msg_header msg (length B + 36) @ B) key))
           in if cr_password_algorithm (sm_credentials msg) \<noteq> STUN_PASSWORD_ALGORITHM_UNSET then [mi, mi256] else [mi]
      else [])"

definition stun_full_attrs :: "stun_message \<Rightarrow> bytes option \<Rightarrow> bytes \<Rightarrow> (u16 \<times> bytes) list" where
  "stun_full_attrs msg password junk =
     stun_attrs msg junk @ attrs_integrity msg password (stun_attrs msg junk)"

definition fingerprint_attr :: "bytes \<Rightarrow> u16 \<times> bytes" where
  "fingerprint_attr m = (STUN_ATTR_FINGERPRINT, put32 (CRC32 m XOR STUN_FINGERPRINT_XOR))"

definition stun_encode :: "stun_message \<Rightarrow> bytes option \<Rightarrow> bytes \<Rightarrow> bytes" where
  "stun_encode msg password junk =
     (let A = enc_attrs (stun_full_attrs msg password junk); H = msg_header msg (length A + 8)
      in H @ A @ enc_attr (fingerprint_attr (H @ A)))"

lemma length_enc_attr: "length (enc_attr a) = 4 + align32 (length (snd a))"
  using align32_ge [of "length (snd a)"] by (cases a) simp

lemma length_enc_attr_mod [simp]: "length (enc_attr a) mod 4 = 0"
  by (simp add: length_enc_attr mod_add_eq [symmetric, of 4])

lemma length_enc_attrs_mod: "length (enc_attrs as) mod 4 = 0"
  by (induction as) (simp_all add: mod_add_eq [symmetric, of "length (enc_attr _)"])

lemma length_stun_header [simp]: "length tid = 12 \<Longrightarrow> length (stun_header c m l tid) = 20"
  by (simp add: stun_header_def)

lemma u32_of_int: "0 < (n :: int) \<Longrightarrow> n < 2 ^ 31 \<Longrightarrow> \<not> (word_of_int n :: u32) \<le> 0 \<and> sint (word_of_int n :: u32) = n"
  by (simp add: word_le_def uint_word_of_int sint_sbintrunc' signed_take_bit_int_eq_self)

lemma stun_put_ok:
  assumes "length (enc_attr a) \<le> length post" "length (pre @ post) < 2 ^ 31"
  shows "stun_put a (pre @ post, int (length pre)) =
    Inr ((pre @ enc_attr a) @ drop (length (enc_attr a)) post, int (length (pre @ enc_attr a)))"
proof -
  obtain t v where a: "a = (t, v)" by (cases a)
  have e: "put16 t @ put16 (of_nat (length v)) @ v @ replicate (align32 (length v) - length v) 0 = enc_attr a"
    by (simp add: a)
  have n: "length (enc_attr a) = 4 + align32 (length v)" "length v \<le> align32 (length v)"
    by (simp_all add: length_enc_attr align32_ge a del: enc_attr.simps)
  have "stun_write_attr (pre @ post) (int (length pre)) t v =
    Inr ((pre @ enc_attr a) @ drop (length (enc_attr a)) post, int (length (enc_attr a)))"
    using assms n by (simp add: stun_write_attr_def wr_def e)
  moreover have "0 < int (length (enc_attr a))" "int (length (enc_attr a)) < 2 ^ 31"
    using assms by (simp_all add: length_enc_attr)
  note u32_of_int [OF this]
  ultimately show ?thesis by (simp add: a Let_def)
qed

lemma stun_puts_ok:
  assumes "length (enc_attrs as) \<le> length post" "length (pre @ post) < 2 ^ 31"
  shows "stun_puts as (pre @ post, int (length pre)) =
    Inr ((pre @ enc_attrs as) @ drop (length (enc_attrs as)) post, int (length (pre @ enc_attrs as)))"
  using assms
proof (induction as arbitrary: pre post)
  case (Cons a as)
  let ?post = "drop (length (enc_attr a)) post"
  have "stun_put a (pre @ post, int (length pre)) =
    Inr ((pre @ enc_attr a) @ ?post, int (length (pre @ enc_attr a)))"
    using Cons.prems by (intro stun_put_ok) simp_all
  moreover have "stun_puts as ((pre @ enc_attr a) @ ?post, int (length (pre @ enc_attr a))) =
    Inr (((pre @ enc_attr a) @ enc_attrs as) @ drop (length (enc_attrs as)) ?post,
      int (length ((pre @ enc_attr a) @ enc_attrs as)))"
    using Cons.prems by (intro Cons.IH) simp_all
  ultimately show ?case by (simp add: add.commute)
qed simp

lemma update_header_length:
  assumes "length tid = 12"
  shows "stun_update_header_length (stun_header c m l tid @ rest) n = Inr (unat l, stun_header c m (of_nat n) tid @ rest)"
proof -
  have "getr (stun_header c m l tid @ rest) 2 2 = Inr (put16 l)"
    by (simp add: getr_ok stun_header_def)
  moreover have "wr (stun_header c m l tid @ rest) 2 (put16 (of_nat n)) = Some (stun_header c m (of_nat n) tid @ rest)"
    using assms by (simp add: wr_def stun_header_def)
  ultimately show ?thesis by (simp add: stun_update_header_length_def)
qed

lemma prefix_at_ok: "prefix_at (pre @ post) (int (length pre)) = Inr pre"
  by (simp add: prefix_at_def getr_ok)

lemma stun_put_integrity_ok:
  fixes c m l tid A post type mac k
  defines "H \<equiv> stun_header c m (of_nat (length A + (4 + k))) tid"
  defines "a \<equiv> (type, take k (mac (H @ A)))"
  assumes tid: "length tid = 12" and fit: "length (enc_attr a) \<le> length post"
    and small: "20 + length A + length post < 2 ^ 31" "k < 1000"
  shows "stun_put_integrity type mac k 20 (stun_header c m l tid @ A @ post, int (20 + length A)) =
    Inr (H @ (A @ enc_attr a) @ drop (length (enc_attr a)) post, int (20 + length (A @ enc_attr a)))"
proof -
  have n: "nat ((int (20 + length A) - 20 + 4 + int k) mod 2 ^ 32) = length A + (4 + k)"
    using small by (simp add: nat_mod_distrib)
  have "stun_put a ((H @ A) @ post, int (length (H @ A))) =
    Inr (((H @ A) @ enc_attr a) @ drop (length (enc_attr a)) post, int (length ((H @ A) @ enc_attr a)))"
    using tid fit small by (intro stun_put_ok) (simp_all add: H_def)
  moreover have "prefix_at ((H @ A) @ post) (int (20 + length A)) = Inr (H @ A)"
    using prefix_at_ok [of "H @ A" post] tid by (simp add: H_def)
  ultimately show ?thesis
    using tid unfolding stun_put_integrity_def Let_def split n update_header_length [OF tid]
    by (simp add: H_def a_def)
qed

abbreviation any_header :: "stun_message \<Rightarrow> u16 \<Rightarrow> bytes" where
  "any_header msg l \<equiv> stun_header (sm_class msg) (sm_method msg) l (sm_transaction_id msg)"

lemma stun_write_integrity_ok:
  fixes msg password as post l
  defines "A \<equiv> enc_attrs as" and "T \<equiv> enc_attrs (attrs_integrity msg password as)"
  assumes tid: "length (sm_transaction_id msg) = 12" and fit: "length T \<le> length post"
    and small: "20 + length A + length post < 2 ^ 31"
  shows "\<exists>l'. stun_write_integrity msg password 20 (any_header msg l @ A @ post, int (20 + length A)) =
    Inr (any_header msg l' @ (A @ T) @ drop (length T) post, int (20 + length (A @ T)))"
proof (cases "sm_class msg \<noteq> STUN_CLASS_INDICATION \<and> password \<noteq> None")
  case False
  then show ?thesis by (auto simp: stun_write_integrity_def attrs_integrity_def T_def)
next
  case True
  let ?c = "sm_class msg" and ?m = "sm_method msg" and ?tid = "sm_transaction_id msg"
  define key where "key = generate_hmac_key msg password"
  define mac where "mac = (\<lambda>m. hmac_sha1 ph_uninit m key)"
  define mac' where "mac' = (\<lambda>m. hmac_sha256 ph_uninit m key)"
  define mi where "mi = (STUN_ATTR_MESSAGE_INTEGRITY, take 20 (mac (msg_header msg (length A + (4 + 20)) @ A)))"
  define B where "B = A @ enc_attr mi"
  define mi' where "mi' = (STUN_ATTR_MESSAGE_INTEGRITY_SHA256, take 32 (mac' (msg_header msg (length B + (4 + 32)) @ B)))"
  let ?two = "cr_password_algorithm (sm_credentials msg) \<noteq> STUN_PASSWORD_ALGORITHM_UNSET"
  have T: "T = enc_attr mi @ (if ?two then enc_attr mi' else [])"
    using True by (simp add: T_def attrs_integrity_def Let_def mi_def mi'_def B_def key_def mac_def mac'_def A_def)
  have one: "stun_put_integrity STUN_ATTR_MESSAGE_INTEGRITY mac 20 20 (any_header msg l @ A @ post, int (20 + length A)) =
    Inr (msg_header msg (length A + (4 + 20)) @ B @ drop (length (enc_attr mi)) post, int (20 + length B))"
    unfolding B_def mi_def using fit T small
    by (intro stun_put_integrity_ok [OF tid]) (simp_all add: mi_def split: if_splits)
  have two: "stun_put_integrity STUN_ATTR_MESSAGE_INTEGRITY_SHA256 mac' 32 20
      (msg_header msg (length A + (4 + 20)) @ B @ drop (length (enc_attr mi)) post, int (20 + length B)) =
    Inr (msg_header msg (length B + (4 + 32)) @ (B @ enc_attr mi') @ drop (length (enc_attr mi')) (drop (length (enc_attr mi)) post),
      int (20 + length (B @ enc_attr mi')))" if ?two
    unfolding mi'_def using fit T small that
    by (intro stun_put_integrity_ok [OF tid]) (simp_all add: mi'_def B_def)
  show ?thesis
    using True one two
    by (cases ?two) (auto simp: stun_write_integrity_def Let_def T B_def add.commute simp flip: key_def mac_def mac'_def)
qed

lemma stun_write_ok:
  assumes "length (sm_transaction_id msg) = 12" and "length (stun_encode msg password junk) \<le> length buf"
    and "length buf < 2 ^ 31"
  shows "stun_write buf msg password junk =
    Inr (stun_encode msg password junk @ drop (length (stun_encode msg password junk)) buf,
         int (length (stun_encode msg password junk)))"
proof -
  define A where "A = enc_attrs (stun_attrs msg junk)"
  define T where "T = enc_attrs (attrs_integrity msg password (stun_attrs msg junk))"
  define H where "H = msg_header msg (length (A @ T) + 8)"
  define fp where "fp = fingerprint_attr (H @ A @ T)"
  define post where "post = drop 20 buf"
  note tid = assms(1)
  have enc: "stun_encode msg password junk = H @ (A @ T) @ enc_attr fp"
    by (simp add: stun_encode_def stun_full_attrs_def A_def T_def H_def fp_def Let_def)
  have H: "length H = 20" using tid by (simp add: H_def)
  have len: "length A + length T + length (enc_attr fp) \<le> length post" "length buf = 20 + length post"
    using assms(2) H by (simp_all add: enc post_def)
  have hdr: "stun_write_header buf (sm_class msg) (sm_method msg) (sm_transaction_id msg) = (any_header msg 0 @ post, 20)"
    using len(2) tid by (simp add: stun_write_header_def blit_def post_def)
  have puts: "stun_puts (stun_attrs msg junk) (any_header msg 0 @ post, 20) =
      Inr (any_header msg 0 @ A @ drop (length A) post, int (20 + length A))"
    using stun_puts_ok [of "stun_attrs msg junk" post "any_header msg 0", folded A_def] tid len assms(3) by simp
  have p: "length T \<le> length (drop (length A) post)" "20 + length A + length (drop (length A) post) < 2 ^ 31"
    using len assms(3) by simp_all
  have "\<exists>l. stun_write_integrity msg password 20
      (any_header msg 0 @ A @ drop (length A) post, int (20 + length A)) =
      Inr (any_header msg l @ (A @ T) @ drop (length T) (drop (length A) post), int (20 + length (A @ T)))"
    using stun_write_integrity_ok [OF tid p(1) [unfolded T_def A_def] p(2) [unfolded A_def], folded A_def T_def] .
  then obtain l where integ: "stun_write_integrity msg password 20
      (any_header msg 0 @ A @ drop (length A) post, int (20 + length A)) =
      Inr (any_header msg l @ (A @ T) @ drop (length T) (drop (length A) post), int (20 + length (A @ T)))"
    by blast
  define rest where "rest = drop (length T) (drop (length A) post)"
  have small: "length (A @ T) < 2 ^ 31" using len assms(3) by simp
  have fin: "stun_write_fingerprint 20 (any_header msg l @ (A @ T) @ rest, int (20 + length (A @ T))) =
    Inr (((H @ A @ T) @ enc_attr fp) @ drop (length (enc_attr fp)) rest, int (length ((H @ A @ T) @ enc_attr fp)))"
    (is "_ = ?r")
  proof -
    have "length (A @ T) mod 4 = 0"
      using length_enc_attrs_mod [of "stun_attrs msg junk @ attrs_integrity msg password (stun_attrs msg junk)"]
      by (simp add: A_def T_def)
    then have m: "(int (20 + length (A @ T)) - 20 + 4 + 4) mod 4 = 0" by presburger
    have n: "nat ((int (20 + length (A @ T)) - 20 + 4 + 4) mod 2 ^ 32) = length (A @ T) + 8"
      using small by (simp add: nat_mod_distrib)
    have "stun_put fp ((H @ A @ T) @ rest, int (length (H @ A @ T))) = ?r"
      using len assms(3) H by (intro stun_put_ok) (simp_all add: rest_def)
    moreover have "prefix_at ((H @ A @ T) @ rest) (int (length (H @ A @ T))) = Inr (H @ A @ T)"
      by (rule prefix_at_ok)
    ultimately show ?thesis
      using H m unfolding stun_write_fingerprint_def Let_def split n update_header_length [OF tid] H_def [symmetric]
        fp_def fingerprint_attr_def by (simp del: stun_put.simps enc_attr.simps)
  qed
  have "\<not> (word_of_int 20 :: u32) \<le> 0" "sint (word_of_int 20 :: u32) = 20" using u32_of_int [of 20] by simp_all
  then have "stun_write buf msg password junk = stun_write_fingerprint 20 (any_header msg l @ (A @ T) @ rest, int (20 + length (A @ T)))"
    unfolding stun_write_def hdr Let_def split using puts integ by (simp add: rest_def)
  also have "\<dots> = Inr (stun_encode msg password junk @ drop (length (stun_encode msg password junk)) buf,
         int (length (stun_encode msg password junk)))"
    unfolding fin enc using H by (simp add: rest_def post_def ac_simps)
  finally show ?thesis .
qed


lemma length_enc_fixed [simp]: "length (enc_attr (fingerprint_attr m)) = 8"
  by (simp add: length_enc_attr fingerprint_attr_def align32_eq del: enc_attr.simps)

lemmas attrs_defs = stun_attrs_def attrs_error_def attrs_mapped_def attrs_xor_address_def
  attrs_priority_def attrs_use_candidate_def attrs_controlling_def attrs_controlled_def attrs_channel_def
  attrs_lifetime_def attrs_peers_def attrs_relayed_def attrs_data_def attrs_even_port_def attrs_transport_def
  attrs_dont_fragment_def attrs_reservation_def attrs_software_def attrs_user_def attrs_realm_def
  message_zero_def addr_zero_def credentials_zero_def


text \<open>The room check of the attribute writer does not count the padding: a one-byte value in a
  buffer of exactly five bytes is accepted and its padding is stored past the end.\<close>

theorem stun_write_attr_overrun: "stun_write_attr (replicate 5 0) 0 STUN_ATTR_DATA [x] = Inl OutOfBounds"
  by (simp add: stun_write_attr_def wr_def align32_eq)

lemma stun_put_nofit:
  "int (length buf) - pos < 4 + int (length v) \<Longrightarrow> stun_put (t, v) (buf, pos) = Inr (buf, pos - 1)"
  by (simp add: stun_write_attr_def)

text \<open>The overflow test of \<open>stun_write\<close> does not work: with room for the header only, a message with
  four attributes is not refused; the position moves back by one for each attribute that does not
  fit, and a length of 15 is returned.\<close>

theorem stun_write_overflow_unnoticed:
  "\<exists>buf'. stun_write (replicate 20 0)
     (message_zero\<lparr>sm_priority := 1, sm_ice_controlling := 1, sm_lifetime := 1\<rparr>) None [] = Inr (buf', 15)"
proof -
  let ?m = "message_zero\<lparr>sm_priority := 1, sm_ice_controlling := 1, sm_lifetime := 1\<rparr>"
  let ?h = "stun_header 0 0 0 (replicate 12 0)"
  have attrs: "stun_attrs ?m [] = [(STUN_ATTR_PRIORITY, put32 1), (STUN_ATTR_ICE_CONTROLLING, put64 1),
      (STUN_ATTR_LIFETIME, put32 1), (STUN_ATTR_SOFTWARE, ascii ''libjuice'')]"
    by (simp add: attrs_defs)
  have hdr: "stun_write_header (replicate 20 0) 0 0 (replicate 12 0) = (?h, 20)"
    by (simp add: stun_write_header_def blit_def)
  have puts: "stun_puts (stun_attrs ?m []) (?h, 20) = Inr (?h, 16)"
    unfolding attrs by (simp add: stun_put_nofit del: stun_put.simps)
  have "stun_update_header_length ?h 4 = Inr (0, stun_header 0 0 4 (replicate 12 0))"
    using update_header_length [of "replicate 12 0" 0 0 0 "[]" 4] by simp
  then have "\<exists>buf'. stun_write_fingerprint 20 (?h, 16) = Inr (buf', 15)"
    by (simp add: stun_write_fingerprint_def Let_def prefix_at_def getr_ok stun_put_nofit del: stun_put.simps)
  moreover have "stun_write (replicate 20 0) ?m None [] = stun_write_fingerprint 20 (?h, 16)"
    using puts u32_of_int [of 20] unfolding stun_write_def by (simp add: hdr message_zero_def stun_write_integrity_def)
  ultimately show ?thesis by simp
qed

end
