(* ===== verification/Stun_Read.thy ===== *)
theory Stun_Read
  imports Stun_Write
begin

text \<open>
  Reading STUN messages (\<open>stun_read\<close>, \<open>stun_read_attr\<close>) and checking their integrity
  (\<open>stun_check_integrity\<close>). Every access to the packet goes through a bounds-checked read whose failure
  is the error \<open>OutOfBounds\<close>, and the theorems show that it does not occur, whatever the packet.
\<close>

section \<open>The cases of the attribute switch\<close>

abbreviation upd_cred :: "(stun_credentials \<Rightarrow> stun_credentials) \<Rightarrow> stun_message \<Rightarrow> stun_message" where
  "upd_cred f msg \<equiv> msg\<lparr>sm_credentials := f (sm_credentials msg)\<rparr>"

definition read_mapped :: "bytes \<Rightarrow> bytes \<Rightarrow> stun_message \<Rightarrow> stun_message res" where
  "read_mapped msk val msg =
     bindr (stun_read_value_mapped_address val (sm_mapped msg) msk) (\<lambda>(_, r). Inr (msg\<lparr>sm_mapped := r\<rparr>))"

definition read_alternate_server :: "bytes \<Rightarrow> stun_message \<Rightarrow> stun_message res" where
  "read_alternate_server val msg =
     bindr (stun_read_value_mapped_address val (sm_alternate_server msg) (replicate 16 0))
       (\<lambda>(_, r). Inr (msg\<lparr>sm_alternate_server := r\<rparr>))"

definition read_error_code :: "bytes \<Rightarrow> stun_message \<Rightarrow> stun_message res" where
  "read_error_code val msg =
     (if length val < 4 then Inl Fail
      else bindr (getr val 0 4) (\<lambda>h.
        Inr (msg\<lparr>sm_error_code := (ucast (h ! 2) AND 0x07) * 100 + ucast (h ! 3)\<rparr>)))"

definition read_unknown_attributes :: "bytes \<Rightarrow> stun_message \<Rightarrow> stun_message res" where
  "read_unknown_attributes val msg = bindr (getr val 0 (2 * (length val div 2))) (\<lambda>_. Inr msg)"

definition read_username :: "bytes \<Rightarrow> stun_message \<Rightarrow> stun_message res" where
  "read_username val msg =
     (if STUN_MAX_USERNAME_LEN < length val + 1 then Inl Fail
      else Inr (upd_cred (\<lambda>c. c\<lparr>cr_username := cstr val\<rparr>) msg))"

definition read_integrity :: "nat \<Rightarrow> bytes \<Rightarrow> stun_message \<Rightarrow> stun_message res" where
  "read_integrity n val msg = (if length val \<noteq> n then Inl Fail else Inr (msg\<lparr>sm_has_integrity := True\<rparr>))"

text \<open>
  The header length is set for the checksum and put back; \<open>update_header_restored\<close> below shows that
  the packet is unchanged afterwards.
\<close>

definition read_fingerprint :: "bytes \<Rightarrow> nat \<Rightarrow> bytes \<Rightarrow> stun_message \<Rightarrow> stun_message res" where
  "read_fingerprint buf pos val msg =
     (if length val \<noteq> 4 then Inl Fail
      else bindr (stun_update_header_length buf (pos - 20 + STUN_ATTR_SIZE + 4)) (\<lambda>(prev_length, buf').
           bindr (getr buf' 0 pos) (\<lambda>m.
           bindr (getr val 0 4) (\<lambda>fp.
             if get32 fp \<noteq> (CRC32 m XOR STUN_FINGERPRINT_XOR) then Inl Fail
             else Inr (msg\<lparr>sm_has_fingerprint := True\<rparr>)))))"

definition read_realm :: "bytes \<Rightarrow> stun_message \<Rightarrow> stun_message res" where
  "read_realm val msg =
     (if STUN_MAX_REALM_LEN < length val + 1 then Inl Fail
      else Inr (upd_cred (\<lambda>c. c\<lparr>cr_realm := cstr val\<rparr>) msg))"

text \<open>
  The nonce, and the security bits behind a nonce cookie. When the bits cannot be decoded the code
  clears the pointer instead of the bits, so they keep their value.
\<close>

definition read_nonce :: "bytes \<Rightarrow> stun_message \<Rightarrow> u32 \<Rightarrow> (stun_message \<times> u32) res" where
  "read_nonce val msg security_bits =
     (if STUN_MAX_NONCE_LEN < length val + 1 then Inl Fail
      else let nonce = cstr val; msg = upd_cred (\<lambda>c. c\<lparr>cr_nonce := nonce\<rparr>) msg
           in if STUN_IS_RESPONSE (sm_class msg) \<and> STUN_NONCE_COOKIE_LEN + 4 < length nonce
                 \<and> take STUN_NONCE_COOKIE_LEN nonce = STUN_NONCE_COOKIE
              then case juice_base64_decode (take 4 (drop STUN_NONCE_COOKIE_LEN nonce)) 3 of
                     Inr bs \<Rightarrow> if length bs = 3 then Inr (msg, get32 (0 # bs)) else Inr (msg, security_bits)
                   | Inl Fail \<Rightarrow> Inr (msg, security_bits)
                   | Inl OutOfBounds \<Rightarrow> Inl OutOfBounds
              else Inr (msg, security_bits))"

definition known_algorithm :: "u16 \<Rightarrow> bool" where
  "known_algorithm a \<longleftrightarrow> a = STUN_PASSWORD_ALGORITHM_MD5 \<or> a = STUN_PASSWORD_ALGORITHM_SHA256"

definition read_password_algorithm :: "bytes \<Rightarrow> stun_message \<Rightarrow> stun_message res" where
  "read_password_algorithm val msg =
     (if length val < 4 then Inl Fail
      else if \<not> STUN_IS_RESPONSE (sm_class msg)
      then bindr (getr val 0 4) (\<lambda>h.
        if known_algorithm (get16 h) then Inr (upd_cred (\<lambda>c. c\<lparr>cr_password_algorithm := get16 h\<rparr>) msg)
        else Inr msg)
      else Inr msg)"

function pa_loop :: "bytes \<Rightarrow> stun_message \<Rightarrow> stun_message res" where
  "pa_loop rest msg =
     (if rest = [] then Inr msg
      else if length rest < 4 then Inl Fail
      else let algorithm = get16 (take 2 rest); padded = align32 (unat (get16 (take 2 (drop 2 rest))));
               rest = drop 4 rest
           in if length rest < padded then Inl Fail
              else if known_algorithm algorithm
              then Inr (upd_cred (\<lambda>c. c\<lparr>cr_password_algorithm := algorithm\<rparr>) msg)
              else pa_loop (drop padded rest) msg)"
  by pat_completeness auto
termination by (relation "measure (\<lambda>(rest, msg). length rest)") auto

declare pa_loop.simps [simp del]

definition read_password_algorithms :: "bytes \<Rightarrow> stun_message \<Rightarrow> stun_message res" where
  "read_password_algorithms val msg =
     (if length val < 4 then Inl Fail
      else if STUN_MAX_PASSWORD_ALGORITHMS_VALUE_SIZE < length val then Inl Fail
      else let msg = upd_cred (\<lambda>c. c\<lparr>cr_password_algorithms_value := val\<rparr>) msg
           in if \<not> STUN_IS_RESPONSE (sm_class msg) then pa_loop val msg else Inr msg)"

definition read_userhash :: "bytes \<Rightarrow> stun_message \<Rightarrow> stun_message res" where
  "read_userhash val msg =
     (if length val \<noteq> USERHASH_SIZE then Inl Fail
      else Inr (upd_cred (\<lambda>c. c\<lparr>cr_userhash := val, cr_enable_userhash := True\<rparr>) msg))"

definition read_software :: "bytes \<Rightarrow> stun_message \<Rightarrow> stun_message res" where
  "read_software val msg = (if STUN_MAX_SOFTWARE_LEN < length val + 1 then Inl Fail else Inr msg)"

definition read_priority :: "bytes \<Rightarrow> stun_message \<Rightarrow> stun_message res" where
  "read_priority val msg =
     (if length val \<noteq> 4 then Inl Fail else bindr (getr val 0 4) (\<lambda>b. Inr (msg\<lparr>sm_priority := get32 b\<rparr>)))"

definition read_ice_controlling :: "bytes \<Rightarrow> stun_message \<Rightarrow> stun_message res" where
  "read_ice_controlling val msg =
     (if length val \<noteq> 8 then Inl Fail else bindr (getr val 0 8) (\<lambda>b. Inr (msg\<lparr>sm_ice_controlling := get64 b\<rparr>)))"

definition read_ice_controlled :: "bytes \<Rightarrow> stun_message \<Rightarrow> stun_message res" where
  "read_ice_controlled val msg =
     (if length val \<noteq> 8 then Inl Fail else bindr (getr val 0 8) (\<lambda>b. Inr (msg\<lparr>sm_ice_controlled := get64 b\<rparr>)))"

definition read_channel_number :: "bytes \<Rightarrow> stun_message \<Rightarrow> stun_message res" where
  "read_channel_number val msg =
     (if length val < 4 then Inl Fail else bindr (getr val 0 4) (\<lambda>b. Inr (msg\<lparr>sm_channel_number := get16 b\<rparr>)))"

definition read_lifetime :: "bytes \<Rightarrow> stun_message \<Rightarrow> stun_message res" where
  "read_lifetime val msg =
     (if length val \<noteq> 4 then Inl Fail
      else bindr (getr val 0 4) (\<lambda>b. Inr (msg\<lparr>sm_lifetime := get32 b, sm_lifetime_set := True\<rparr>)))"

definition read_xor_peer :: "bytes \<Rightarrow> stun_message \<Rightarrow> stun_message res" where
  "read_xor_peer val msg =
     (if length (sm_peers msg) < STUN_MAX_PEER_ADDRESSES
      then bindr (stun_read_value_mapped_address val addr_zero (generate_mask (sm_transaction_id msg))) (\<lambda>(_, peer).
           if ar_len peer \<noteq> 0 then Inr (msg\<lparr>sm_peers := sm_peers msg @ [peer]\<rparr>) else Inr msg)
      else Inr msg)"

definition read_xor_relayed :: "bytes \<Rightarrow> stun_message \<Rightarrow> stun_message res" where
  "read_xor_relayed val msg =
     bindr (stun_read_value_mapped_address val (sm_relayed msg) (generate_mask (sm_transaction_id msg)))
       (\<lambda>(_, r). Inr (msg\<lparr>sm_relayed := r\<rparr>))"

definition read_even_port :: "bytes \<Rightarrow> stun_message \<Rightarrow> stun_message res" where
  "read_even_port val msg =
     (if length val < 1 then Inl Fail
      else bindr (getr val 0 1) (\<lambda>b. Inr (msg\<lparr>sm_even_port := True, sm_next_port := (b ! 0 AND 0x80 \<noteq> 0)\<rparr>)))"

definition read_requested_transport :: "bytes \<Rightarrow> stun_message \<Rightarrow> stun_message res" where
  "read_requested_transport val msg =
     (if length val < 4 then Inl Fail
      else bindr (getr val 0 4) (\<lambda>b.
        if b ! 0 \<noteq> 17 then Inl Fail else Inr (msg\<lparr>sm_requested_transport := True\<rparr>)))"

definition read_reservation_token :: "bytes \<Rightarrow> stun_message \<Rightarrow> stun_message res" where
  "read_reservation_token val msg =
     (if length val \<noteq> 8 then Inl Fail
      else bindr (getr val 0 8) (\<lambda>b. Inr (msg\<lparr>sm_reservation_token := get64 b\<rparr>)))"

text \<open>The switch itself; attributes of unknown type are ignored.\<close>

definition stun_read_value :: "bytes \<Rightarrow> nat \<Rightarrow> u16 \<Rightarrow> bytes \<Rightarrow> stun_message \<Rightarrow> u32 \<Rightarrow> (stun_message \<times> u32) res" where
  "stun_read_value buf pos type val msg bits =
     (let keep = (\<lambda>r. bindr r (\<lambda>msg. Inr (msg, bits)))
      in if type = STUN_ATTR_MAPPED_ADDRESS then keep (read_mapped (replicate 16 0) val msg)
         else if type = STUN_ATTR_XOR_MAPPED_ADDRESS
         then keep (read_mapped (generate_mask (sm_transaction_id msg)) val msg)
         else if type = STUN_ATTR_ALTERNATE_SERVER then keep (read_alternate_server val msg)
         else if type = STUN_ATTR_ERROR_CODE then keep (read_error_code val msg)
         else if type = STUN_ATTR_UNKNOWN_ATTRIBUTES then keep (read_unknown_attributes val msg)
         else if type = STUN_ATTR_USERNAME then keep (read_username val msg)
         else if type = STUN_ATTR_MESSAGE_INTEGRITY then keep (read_integrity HMAC_SHA1_SIZE val msg)
         else if type = STUN_ATTR_MESSAGE_INTEGRITY_SHA256 then keep (read_integrity HMAC_SHA256_SIZE val msg)
         else if type = STUN_ATTR_FINGERPRINT then keep (read_fingerprint buf pos val msg)
         else if type = STUN_ATTR_REALM then keep (read_realm val msg)
         else if type = STUN_ATTR_NONCE then read_nonce val msg bits
         else if type = STUN_ATTR_PASSWORD_ALGORITHM then keep (read_password_algorithm val msg)
         else if type = STUN_ATTR_PASSWORD_ALGORITHMS then keep (read_password_algorithms val msg)
         else if type = STUN_ATTR_USERHASH then keep (read_userhash val msg)
         else if type = STUN_ATTR_SOFTWARE then keep (read_software val msg)
         else if type = STUN_ATTR_PRIORITY then keep (read_priority val msg)
         else if type = STUN_ATTR_USE_CANDIDATE then keep (Inr (msg\<lparr>sm_use_candidate := True\<rparr>))
         else if type = STUN_ATTR_ICE_CONTROLLING then keep (read_ice_controlling val msg)
         else if type = STUN_ATTR_ICE_CONTROLLED then keep (read_ice_controlled val msg)
         else if type = STUN_ATTR_CHANNEL_NUMBER then keep (read_channel_number val msg)
         else if type = STUN_ATTR_LIFETIME then keep (read_lifetime val msg)
         else if type = STUN_ATTR_XOR_PEER_ADDRESS then keep (read_xor_peer val msg)
         else if type = STUN_ATTR_XOR_RELAYED_ADDRESS then keep (read_xor_relayed val msg)
         else if type = STUN_ATTR_DATA then keep (Inr (msg\<lparr>sm_data := Some val\<rparr>))
         else if type = STUN_ATTR_EVEN_PORT then keep (read_even_port val msg)
         else if type = STUN_ATTR_REQUESTED_TRANSPORT then keep (read_requested_transport val msg)
         else if type = STUN_ATTR_DONT_FRAGMENT then keep (Inr (msg\<lparr>sm_dont_fragment := True\<rparr>))
         else if type = STUN_ATTR_RESERVATION_TOKEN then keep (read_reservation_token val msg)
         else keep (Inr msg))"

section \<open>Reading\<close>

text \<open>One attribute at position \<open>pos\<close>, of which \<open>sz\<close> bytes are left in the message.\<close>

definition stun_read_attr ::
  "bytes \<Rightarrow> nat \<Rightarrow> nat \<Rightarrow> stun_message \<Rightarrow> u32 \<Rightarrow> (nat \<times> stun_message \<times> u32) res" where
  "stun_read_attr buf pos sz msg bits =
     (if sm_has_fingerprint msg then Inl Fail
      else if sz < STUN_ATTR_SIZE then Inl Fail
      else bindr (getr buf pos 4) (\<lambda>h.
        let len = unat (get16 (drop 2 h)); type = get16 h
        in if sz < STUN_ATTR_SIZE + len then Inl Fail
           else if sm_has_integrity msg \<and> type \<noteq> STUN_ATTR_MESSAGE_INTEGRITY
                   \<and> type \<noteq> STUN_ATTR_MESSAGE_INTEGRITY_SHA256 \<and> type \<noteq> STUN_ATTR_FINGERPRINT
           then Inr (STUN_ATTR_SIZE + align32 len, msg, bits)
           else bindr (getr buf (pos + 4) len) (\<lambda>val.
                bindr (stun_read_value buf pos type val msg bits) (\<lambda>(msg, bits).
                Inr (STUN_ATTR_SIZE + align32 len, msg, bits)))))"

function stun_read_loop :: "bytes \<Rightarrow> nat \<Rightarrow> nat \<Rightarrow> stun_message \<Rightarrow> u32 \<Rightarrow> (stun_message \<times> u32) res" where
  "stun_read_loop buf pos en msg bits =
     (if pos < en
      then case stun_read_attr buf pos (en - pos) msg bits of
             Inl e \<Rightarrow> Inl e
           | Inr (ret, msg', bits') \<Rightarrow>
               if ret = 0 then Inl Fail else stun_read_loop buf (pos + ret) en msg' bits'
      else Inr (msg, bits))"
  by pat_completeness auto
termination by (relation "measure (\<lambda>(buf, pos, en, msg, bits). en - pos)") auto

declare stun_read_loop.simps [simp del]

text \<open>What follows the loop: the checks on nonce cookie and password algorithms.\<close>

definition stun_read_finish :: "stun_message \<Rightarrow> u32 \<Rightarrow> stun_message" where
  "stun_read_finish msg bits =
     (let c = sm_credentials msg;
          msg = (if sm_class msg = STUN_CLASS_RESP_ERROR \<and> (sm_error_code msg = 401 \<or> sm_error_code msg = 438)
                    \<and> bits AND STUN_SECURITY_PASSWORD_ALGORITHMS_BIT \<noteq> 0 \<and> cr_password_algorithms_value c = []
                 then msg\<lparr>sm_error_code := STUN_ERROR_INTERNAL_VALIDATION_FAILED\<rparr> else msg);
          msg = (if \<not> STUN_IS_RESPONSE (sm_class msg)
                 then if cr_password_algorithms_value c = [] \<and> cr_password_algorithm c = STUN_PASSWORD_ALGORITHM_UNSET
                      then upd_cred (\<lambda>c. c\<lparr>cr_password_algorithm := STUN_PASSWORD_ALGORITHM_MD5\<rparr>) msg
                      else if cr_password_algorithm c = STUN_PASSWORD_ALGORITHM_UNSET
                      then msg\<lparr>sm_error_code := STUN_ERROR_INTERNAL_VALIDATION_FAILED\<rparr>
                      else if cr_password_algorithms_value c = []
                      then msg\<lparr>sm_error_code := STUN_ERROR_INTERNAL_VALIDATION_FAILED\<rparr>
                      else if generate_password_algorithms_attr \<noteq> cr_password_algorithms_value c
                      then msg\<lparr>sm_error_code := STUN_ERROR_INTERNAL_VALIDATION_FAILED\<rparr>
                      else msg
                 else msg)
      in if bits AND STUN_SECURITY_USERNAME_ANONYMITY_BIT \<noteq> 0
         then upd_cred (\<lambda>c. c\<lparr>cr_enable_userhash := True\<rparr>) msg else msg)"

definition stun_read :: "bytes \<Rightarrow> (nat \<times> stun_message) res" where
  "stun_read buf =
     (if length buf < STUN_HEADER_SIZE then Inl Fail
      else bindr (getr buf 0 20) (\<lambda>h.
        let len = unat (get16 (drop 2 h))
        in if length buf < STUN_HEADER_SIZE + len then Inl Fail
           else let type = get16 h;
                    msg = message_zero\<lparr>sm_class := type AND STUN_CLASS_MASK, sm_method := type AND NOT STUN_CLASS_MASK,
                            sm_transaction_id := drop 8 h\<rparr>
                in bindr (stun_read_loop buf 20 (20 + len) msg 0) (\<lambda>(msg, bits).
                   Inr (STUN_HEADER_SIZE + len, stun_read_finish msg bits))))"

section \<open>Integrity\<close>

text \<open>Comparison of one integrity attribute at position \<open>pos\<close>.\<close>

definition check_mac :: "bytes \<Rightarrow> nat \<Rightarrow> (bytes \<Rightarrow> bytes) \<Rightarrow> nat \<Rightarrow> bool res" where
  "check_mac buf pos mac n =
     bindr (stun_update_header_length buf (pos - 20 + STUN_ATTR_SIZE + n)) (\<lambda>(prev_length, buf').
     bindr (getr buf' 0 pos) (\<lambda>m.
     bindr (getr buf (pos + 4) n) (\<lambda>expected_hmac.
       Inr (const_time_memcmp (mac m) expected_hmac n = 0))))"

text \<open>
  The loop over the attributes, with the verdict so far. \<open>sz\<close> is the size of the whole buffer, which
  the code compares each attribute's length with.
\<close>

function check_loop :: "bytes \<Rightarrow> bytes \<Rightarrow> nat \<Rightarrow> nat \<Rightarrow> bool \<Rightarrow> bool res" where
  "check_loop buf key pos en success =
     (if pos < en
      then bindr (getr buf pos 4) (\<lambda>h.
        let attr_length = unat (get16 (drop 2 h)); type = get16 h; next = pos + (STUN_ATTR_SIZE + align32 attr_length)
        in if length buf < STUN_ATTR_SIZE + attr_length then Inr False
           else if type = STUN_ATTR_MESSAGE_INTEGRITY
           then if attr_length \<noteq> HMAC_SHA1_SIZE then Inr False
                else bindr (check_mac buf pos (\<lambda>m. hmac_sha1 ph_uninit m key) HMAC_SHA1_SIZE) (\<lambda>ok.
                     if ok then check_loop buf key next en True else Inr False)
           else if type = STUN_ATTR_MESSAGE_INTEGRITY_SHA256
           then if attr_length \<noteq> HMAC_SHA256_SIZE then Inr False
                else bindr (check_mac buf pos (\<lambda>m. hmac_sha256 ph_uninit m key) HMAC_SHA256_SIZE) (\<lambda>ok.
                     if ok then check_loop buf key next en True else Inr False)
           else check_loop buf key next en success)
      else Inr success)"
  by pat_completeness auto
termination by (relation "measure (\<lambda>(buf, key, pos, en, success). en - pos)") auto

declare check_loop.simps [simp del]

definition stun_check_integrity :: "bytes \<Rightarrow> stun_message \<Rightarrow> bytes option \<Rightarrow> bool res" where
  "stun_check_integrity buf msg password =
     (if \<not> sm_has_integrity msg then Inr False
      else bindr (getr buf 2 2) (\<lambda>b.
        let len = unat (get16 b)
        in if length buf < STUN_HEADER_SIZE + len then Inr False
           else check_loop buf (generate_hmac_key msg password) 20 (20 + len) False))"

section \<open>Reading stays inside the packet\<close>

lemma update_header_bounds [safe]: "4 \<le> length buf \<Longrightarrow> in_bounds (stun_update_header_length buf n)"
  by (simp add: stun_update_header_length_def getr_ok wr_def)

lemma update_header_Inr:
  "stun_update_header_length buf n = Inr (prev, buf') \<Longrightarrow> length buf' = length buf \<and> 4 \<le> length buf"
  by (auto simp: stun_update_header_length_def bindr_eq_Inr getr_eq_Inr wr_def split: if_splits)

text \<open>Setting the length and setting it back gives the packet that was there.\<close>

lemma update_header_restored:
  assumes "stun_update_header_length buf n = Inr (prev, buf')"
  shows "stun_update_header_length buf' prev = Inr (n mod 65536, buf)"
proof -
  let ?old = "take 2 (drop 2 buf)"
  have len: "4 \<le> length buf" and prev: "prev = unat (get16 ?old)"
    and buf': "buf' = take 2 buf @ put16 (of_nat n) @ drop 4 buf"
    using assms by (auto simp: stun_update_header_length_def bindr_eq_Inr getr_eq_Inr wr_def split: if_splits)
  have old: "put16 (of_nat prev) = ?old" using len by (simp add: prev put16_get16)
  have "getr buf' 2 2 = Inr (put16 (of_nat n))" using len by (simp add: buf' getr_ok)
  moreover have "wr buf' 2 ?old = Some (take 2 buf @ ?old @ drop 4 buf)" using len by (simp add: buf' wr_def)
  moreover have "take 2 buf @ ?old @ drop 4 buf = buf"
    using append_take_drop_id [of 2 buf] append_take_drop_id [of 2 "drop 2 buf"] by simp
  ultimately show ?thesis by (simp add: stun_update_header_length_def old unat_of_nat)
qed

lemma mapped_address_bounds [safe]: "in_bounds (stun_read_value_mapped_address val m msk)"
  by (auto simp: stun_read_value_mapped_address_def getr_ok)

lemma pa_loop_bounds [safe]: "in_bounds (pa_loop rest msg)"
  by (induction rest msg rule: pa_loop.induct) (subst pa_loop.simps, simp add: Let_def)

lemma base64_bounds_3: "length s \<le> 4 \<Longrightarrow> in_bounds (juice_base64_decode s 3)"
  by (simp add: in_bounds_def b64_decode_short)

lemma read_nonce_bounds [safe]: "in_bounds (read_nonce val msg bits)"
  using base64_bounds_3 [of "take 4 (drop 9 (cstr val))"]
  by (auto simp: read_nonce_def Let_def in_bounds_def split: sum.splits cerr.splits)

lemmas read_value_defs = read_mapped_def read_alternate_server_def read_error_code_def
  read_unknown_attributes_def read_username_def read_integrity_def read_realm_def
  read_password_algorithm_def read_password_algorithms_def read_userhash_def read_software_def
  read_priority_def read_ice_controlling_def read_ice_controlled_def read_channel_number_def read_lifetime_def
  read_xor_peer_def read_xor_relayed_def read_even_port_def read_requested_transport_def
  read_reservation_token_def

lemma read_fingerprint_bounds [safe]:
  assumes "pos \<le> length buf" "4 \<le> length buf"
  shows "in_bounds (read_fingerprint buf pos val msg)"
  using assms by (auto simp: read_fingerprint_def intro!: safe dest: update_header_Inr)

lemma read_handlers_bounds [simp]:
  "in_bounds (read_mapped msk val msg)" "in_bounds (read_alternate_server val msg)"
  "in_bounds (read_error_code val msg)" "in_bounds (read_unknown_attributes val msg)"
  "in_bounds (read_username val msg)" "in_bounds (read_integrity n val msg)" "in_bounds (read_realm val msg)"
  "in_bounds (read_password_algorithm val msg)" "in_bounds (read_password_algorithms val msg)"
  "in_bounds (read_userhash val msg)" "in_bounds (read_software val msg)" "in_bounds (read_priority val msg)"
  "in_bounds (read_ice_controlling val msg)" "in_bounds (read_ice_controlled val msg)"
  "in_bounds (read_channel_number val msg)" "in_bounds (read_lifetime val msg)" "in_bounds (read_xor_peer val msg)"
  "in_bounds (read_xor_relayed val msg)" "in_bounds (read_even_port val msg)"
  "in_bounds (read_requested_transport val msg)" "in_bounds (read_reservation_token val msg)"
  unfolding read_value_defs Let_def by (auto intro!: safe simp: Suc_le_eq)

lemma stun_read_value_bounds:
  assumes "pos \<le> length buf" "4 \<le> length buf"
  shows "in_bounds (stun_read_value buf pos type val msg bits)"
proof -
  have "in_bounds (bindr r (\<lambda>msg. Inr (msg, bits))) = in_bounds r" for r :: "stun_message res"
    by (cases r) (simp_all add: in_bounds_def)
  then show ?thesis
    unfolding stun_read_value_def Let_def
    by (simp add: read_fingerprint_bounds [OF assms] read_nonce_bounds split del: if_split split: if_split)
qed

lemma stun_read_attr_bounds:
  assumes "pos + sz \<le> length buf" "4 \<le> length buf"
  shows "in_bounds (stun_read_attr buf pos sz msg bits)"
  using assms by (auto simp: stun_read_attr_def Let_def intro!: safe stun_read_value_bounds)

lemma stun_read_loop_bounds:
  "en \<le> length buf \<Longrightarrow> 4 \<le> length buf \<Longrightarrow> in_bounds (stun_read_loop buf pos en msg bits)"
proof (induction buf pos en msg bits rule: stun_read_loop.induct)
  case (1 buf pos en msg bits)
  have "in_bounds (stun_read_attr buf pos (en - pos) msg bits)" if "pos < en"
    using "1.prems" that by (intro stun_read_attr_bounds) simp_all
  then show ?case
    using 1 by (subst stun_read_loop.simps) (auto split: sum.splits simp: in_bounds_def)
qed

text \<open>C23: \<open>stun_read\<close> never reads outside the packet it is given, whatever the packet contains.\<close>

theorem stun_read_in_bounds: "stun_read buf \<noteq> Inl OutOfBounds"
proof -
  have "in_bounds (stun_read buf)"
    by (auto simp: stun_read_def Let_def intro!: safe stun_read_loop_bounds)
  then show ?thesis by (simp add: in_bounds_def)
qed

section \<open>The data of a message\<close>

text \<open>The data attribute of a message is a proper part of the packet, so that unpacking nested packets ends.\<close>

lemma pa_loop_data: "pa_loop rest msg = Inr m \<Longrightarrow> sm_data m = sm_data msg"
  by (induction rest msg arbitrary: m rule: pa_loop.induct)
    (subst (asm) (2) pa_loop.simps, auto simp: Let_def split: if_splits)

lemmas read_one_defs = read_mapped_def read_alternate_server_def read_error_code_def read_unknown_attributes_def
  read_username_def read_integrity_def read_fingerprint_def read_realm_def read_password_algorithm_def
  read_userhash_def read_software_def read_priority_def read_ice_controlling_def read_ice_controlled_def
  read_channel_number_def read_lifetime_def read_xor_peer_def read_xor_relayed_def read_even_port_def
  read_requested_transport_def read_reservation_token_def

lemma read_nonce_data: "read_nonce val msg bits = Inr (m, b) \<Longrightarrow> sm_data m = sm_data msg"
  by (auto simp: read_nonce_def Let_def split: if_splits sum.splits cerr.splits)

lemma read_password_algorithms_data: "read_password_algorithms val msg = Inr m \<Longrightarrow> sm_data m = sm_data msg"
  by (auto simp: read_password_algorithms_def Let_def split: if_splits dest: pa_loop_data)

lemma stun_read_value_data:
  assumes "stun_read_value buf pos type val msg bits = Inr (m, b)"
  shows "sm_data m = sm_data msg \<or> sm_data m = Some val"
proof -
  have keep: "bindr r (\<lambda>msg. Inr (msg, bits)) = Inr (m, b) \<longleftrightarrow> r = Inr m \<and> b = bits" for r :: "stun_message res"
    by (cases r) auto
  show ?thesis
    using assms unfolding stun_read_value_def Let_def keep
    by (simp split: if_splits add: bindr_eq_Inr read_nonce_data read_password_algorithms_data;
       (auto simp: read_one_defs bindr_eq_Inr dest: read_password_algorithms_data split: if_splits)?)
qed

lemma stun_read_attr_data:
  assumes "stun_read_attr buf pos sz msg bits = Inr (ret, m, b)" "sm_data m = Some d"
  shows "sm_data msg = Some d \<or> length d < length buf"
proof (cases "m = msg")
  case False
  with assms(1) obtain val type b' where "getr buf (pos + 4) (unat (get16 (drop 2 (take 4 (drop pos buf))))) = Inr val"
    "stun_read_value buf pos type val msg bits = Inr (m, b')"
    by (auto simp: stun_read_attr_def Let_def bindr_eq_Inr getr_ok getr_def [of _ pos 4] rd_def [of _ pos 4]
        split: if_splits)
  with stun_read_value_data [OF this(2)] assms(2) show ?thesis
    by (auto simp: getr_def rd_def split: if_splits)
qed (use assms in simp)

lemma stun_read_loop_data:
  assumes "stun_read_loop buf pos en msg bits = Inr (m, b)" "sm_data m = Some d"
    "\<And>d. sm_data msg = Some d \<Longrightarrow> length d < length buf"
  shows "length d < length buf"
  using assms
proof (induction buf pos en msg bits rule: stun_read_loop.induct)
  case (1 buf pos en msg bits)
  show ?case
  proof (cases "pos < en")
    case True
    with 1 obtain ret msg' bits' where r: "stun_read_attr buf pos (en - pos) msg bits = Inr (ret, msg', bits')"
      and rest: "ret \<noteq> 0" "stun_read_loop buf (pos + ret) en msg' bits' = Inr (m, b)"
      by (auto simp: stun_read_loop.simps [of buf pos] split: sum.splits if_splits prod.splits)
    have "length d < length buf" if "sm_data msg' = Some d" for d
      using stun_read_attr_data [OF r that] 1(4) by blast
    then show ?thesis using 1(1) [OF True r refl refl rest] 1(3) by blast
  next
    case False
    with 1 show ?thesis by (simp add: stun_read_loop.simps)
  qed
qed

lemma stun_read_data_shorter:
  assumes "stun_read buf = Inr (n, m)" "sm_data m = Some d"
  shows "length d < length buf"
proof -
  have fin: "sm_data (stun_read_finish msg bits) = sm_data msg" for msg bits
    by (simp add: stun_read_finish_def Let_def)
  from assms fin show ?thesis
    by (auto simp: stun_read_def Let_def bindr_eq_Inr message_zero_def split: if_splits intro: stun_read_loop_data)
qed

end
