(* ===== verification/Stun_Roundtrip.thy ===== *)
theory Stun_Roundtrip
  imports Stun_Read
begin

text \<open>
  Writer against reader: reading an encoded message visits exactly the attributes that were written,
  the fields come back, and the integrity check of the receiver accepts what the sender authenticated.
\<close>

section \<open>Reading encoded attributes\<close>

text \<open>The effect of one attribute other than the fingerprint, without the packet around it.\<close>

definition after_integrity :: "u16 \<Rightarrow> bool" where
  "after_integrity t \<longleftrightarrow> t = STUN_ATTR_MESSAGE_INTEGRITY \<or> t = STUN_ATTR_MESSAGE_INTEGRITY_SHA256 \<or> t = STUN_ATTR_FINGERPRINT"

definition apply_attr :: "u16 \<times> bytes \<Rightarrow> stun_message \<times> u32 \<Rightarrow> (stun_message \<times> u32) res" where
  "apply_attr a s = (if sm_has_integrity (fst s) \<and> \<not> after_integrity (fst a) then Inr s
     else stun_read_value [] 0 (fst a) (snd a) (fst s) (snd s))"

fun apply_attrs :: "(u16 \<times> bytes) list \<Rightarrow> stun_message \<times> u32 \<Rightarrow> (stun_message \<times> u32) res" where
  "apply_attrs [] s = Inr s"
| "apply_attrs (a # as) s = bindr (apply_attr a s) (apply_attrs as)"

lemma apply_attrs_append: "apply_attrs (as @ bs) s = bindr (apply_attrs as s) (apply_attrs bs)"
proof (induction as arbitrary: s)
  case (Cons a as)
  then show ?case by (cases "apply_attr a s") simp_all
qed simp

lemma stun_read_value_packet:
  "t \<noteq> STUN_ATTR_FINGERPRINT \<Longrightarrow> stun_read_value buf pos t v m b = stun_read_value [] 0 t v m b"
  by (simp add: stun_read_value_def Let_def)

definition keeps_fp :: "stun_message res \<Rightarrow> stun_message \<Rightarrow> bool" where
  "keeps_fp r m \<longleftrightarrow> (\<forall>m'. r = Inr m' \<longrightarrow> sm_has_fingerprint m' = sm_has_fingerprint m)"

lemma pa_loop_keeps_fp: "pa_loop rest m = Inr m' \<Longrightarrow> sm_has_fingerprint m' = sm_has_fingerprint m"
proof (induction rest m rule: pa_loop.induct)
  case (1 rest m)
  note IH = "1.IH" [OF _ _ refl refl refl]
  from "1.prems" show ?case
    unfolding pa_loop.simps [of rest m] Let_def by (simp split: if_splits) (use IH in \<open>auto\<close>)
qed

lemma read_password_algorithm_keeps_fp [simp]: "keeps_fp (read_password_algorithm val m) m"
proof -
  have "getr val 0 4 = Inr (take 4 val)" if "\<not> length val < 4" using that by (simp add: getr_ok)
  then show ?thesis by (auto simp: read_password_algorithm_def keeps_fp_def)
qed

lemma read_handlers_keep_fp [simp]:
  "keeps_fp (read_mapped msk val m) m" "keeps_fp (read_alternate_server val m) m"
  "keeps_fp (read_error_code val m) m" "keeps_fp (read_unknown_attributes val m) m"
  "keeps_fp (read_username val m) m" "keeps_fp (read_integrity n val m) m" "keeps_fp (read_realm val m) m"
  "keeps_fp (read_password_algorithms val m) m"
  "keeps_fp (read_userhash val m) m" "keeps_fp (read_software val m) m" "keeps_fp (read_priority val m) m"
  "keeps_fp (read_ice_controlling val m) m" "keeps_fp (read_ice_controlled val m) m"
  "keeps_fp (read_channel_number val m) m" "keeps_fp (read_lifetime val m) m" "keeps_fp (read_xor_peer val m) m"
  "keeps_fp (read_xor_relayed val m) m" "keeps_fp (read_even_port val m) m"
  "keeps_fp (read_requested_transport val m) m" "keeps_fp (read_reservation_token val m) m"
  unfolding read_value_defs Let_def keeps_fp_def
  by (auto simp: bindr_eq_Inr split: if_splits dest: pa_loop_keeps_fp)

lemma read_nonce_keeps_fp: "read_nonce val m b = Inr (m', b') \<Longrightarrow> sm_has_fingerprint m' = sm_has_fingerprint m"
  by (auto simp: read_nonce_def Let_def split: if_splits sum.splits cerr.splits)

lemma stun_read_value_keeps_fp:
  assumes "t \<noteq> STUN_ATTR_FINGERPRINT" "stun_read_value buf pos t v m b = Inr (m', b')"
  shows "sm_has_fingerprint m' = sm_has_fingerprint m"
proof -
  have keep: "keeps_fp r m \<Longrightarrow> bindr r (\<lambda>m. Inr (m, b)) = Inr (m', b') \<Longrightarrow> sm_has_fingerprint m' = sm_has_fingerprint m"
    for r :: "stun_message res" by (auto simp: keeps_fp_def bindr_eq_Inr)
  have [simp]: "keeps_fp (Inr x) m = (sm_has_fingerprint x = sm_has_fingerprint m)" for x by (simp add: keeps_fp_def)
  show ?thesis
    using assms unfolding stun_read_value_def Let_def
    by (auto split: if_splits dest!: keep [rotated] read_nonce_keeps_fp simp del: bindr.simps)
qed

definition wf_attr :: "u16 \<times> bytes \<Rightarrow> bool" where
  "wf_attr a \<longleftrightarrow> fst a \<noteq> STUN_ATTR_FINGERPRINT \<and> length (snd a) < 65536"

lemma read_enc_attr:
  assumes "length v < 65536" "length (enc_attr (t, v)) \<le> sz" "\<not> sm_has_fingerprint m"
  shows "stun_read_attr (pre @ enc_attr (t, v) @ post) (length pre) sz m b =
    (if sm_has_integrity m \<and> \<not> after_integrity t then Inr (length (enc_attr (t, v)), m, b)
     else bindr (stun_read_value (pre @ enc_attr (t, v) @ post) (length pre) t v m b)
       (\<lambda>(m, b). Inr (length (enc_attr (t, v)), m, b)))"
proof -
  let ?buf = "pre @ enc_attr (t, v) @ post"
  have len: "length (enc_attr (t, v)) = 4 + align32 (length v)" by (simp add: length_enc_attr del: enc_attr.simps)
  have h: "getr ?buf (length pre) 4 = Inr (put16 t @ put16 (of_nat (length v)))"
    by (simp add: getr_ok)
  have v: "getr ?buf (length pre + 4) (length v) = Inr v" by (simp add: getr_ok)
  have n: "unat (of_nat (length v) :: u16) = length v" using assms(1) by (simp add: unat_of_nat)
  have "length v \<le> align32 (length v)" by (rule align32_ge)
  then have "\<not> sz < 4" "\<not> sz < 4 + length v" using assms(2) len by simp_all
  then show ?thesis
    using assms(3) unfolding stun_read_attr_def h
    by (simp add: Let_def n v len after_integrity_def del: enc_attr.simps)
qed

lemma read_loop_enc_attrs:
  assumes "list_all wf_attr as" "\<not> sm_has_fingerprint m" "length (pre @ enc_attrs as) \<le> en"
  shows "stun_read_loop (pre @ enc_attrs as @ post) (length pre) en m b =
    bindr (apply_attrs as (m, b)) (\<lambda>(m, b).
      stun_read_loop (pre @ enc_attrs as @ post) (length (pre @ enc_attrs as)) en m b)"
  using assms
proof (induction as arbitrary: pre m b)
  case (Cons a as)
  obtain t v where a: "a = (t, v)" by (cases a)
  let ?buf = "pre @ enc_attrs (a # as) @ post" and ?n = "length (enc_attr a)"
  have wf: "t \<noteq> STUN_ATTR_FINGERPRINT" "length v < 65536" and fits: "?n \<le> en - length pre" and pos: "?n \<noteq> 0"
    using Cons.prems by (simp_all add: a wf_attr_def length_enc_attr del: enc_attr.simps)
  have lt: "length pre < en" using fits pos by linarith
  have IH: "stun_read_loop ?buf (length pre + ?n) en m' b' = bindr (apply_attrs as (m', b')) (\<lambda>(m, b).
      stun_read_loop ?buf (length (pre @ enc_attrs (a # as))) en m b)" if "\<not> sm_has_fingerprint m'" for m' b'
    using Cons.IH [of m' "pre @ enc_attr a" b'] Cons.prems that by (simp add: add.assoc del: enc_attr.simps)
  have "stun_read_attr ?buf (length pre) (en - length pre) m b =
      bindr (apply_attr a (m, b)) (\<lambda>(m, b). Inr (?n, m, b))"
    using read_enc_attr [OF wf(2), of t "en - length pre" m pre "enc_attrs as @ post" b] fits Cons.prems(2)
      stun_read_value_packet [OF wf(1), of "pre @ enc_attr (t, v) @ enc_attrs as @ post" "length pre" v m b]
    by (simp add: a apply_attr_def del: enc_attr.simps)
  moreover have "\<not> sm_has_fingerprint m'" if "apply_attr a (m, b) = Inr (m', b')" for m' b'
    using that Cons.prems(2) stun_read_value_keeps_fp [OF wf(1)] by (auto simp: a apply_attr_def split: if_splits)
  moreover have "stun_read_loop ?buf (length pre) en m b =
      (case stun_read_attr ?buf (length pre) (en - length pre) m b of
         Inl e \<Rightarrow> Inl e
       | Inr (ret, m', b') \<Rightarrow> if ret = 0 then Inl Fail else stun_read_loop ?buf (length pre + ret) en m' b')"
    by (subst stun_read_loop.simps) (simp only: lt if_True)
  ultimately show ?case
    using pos IH by (cases "apply_attr a (m, b)") auto
qed simp

lemma apply_attrs_keep_fp:
  "list_all wf_attr as \<Longrightarrow> apply_attrs as s = Inr s' \<Longrightarrow> sm_has_fingerprint (fst s') = sm_has_fingerprint (fst s)"
proof (induction as arbitrary: s)
  case (Cons a as)
  from Cons.prems(2) obtain s1 where s1: "apply_attr a s = Inr s1" "apply_attrs as s1 = Inr s'"
    by (auto simp: bindr_eq_Inr)
  have "sm_has_fingerprint (fst s1) = sm_has_fingerprint (fst s)"
    using s1(1) Cons.prems(1) stun_read_value_keeps_fp [of "fst a" "[]" 0 "snd a" "fst s" "snd s" "fst s1" "snd s1"]
    by (auto simp: apply_attr_def wf_attr_def split: if_splits)
  with Cons s1(2) show ?case by simp
qed simp

lemma type_class_method:
  assumes "(c :: u16) AND NOT M = 0" "m AND M = 0"
  shows "(c OR m) AND M = c" "(c OR m) AND NOT M = m"
proof -
  have "bit c n \<Longrightarrow> bit M n" "bit m n \<Longrightarrow> \<not> bit M n" for n
    using assms [THEN arg_cong, of "\<lambda>w. bit w n"] by (auto simp: bit_simps dest: bit_imp_le_length)
  then show "(c OR m) AND M = c" "(c OR m) AND NOT M = m"
    by (auto intro!: bit_word_eqI simp: bit_simps)
qed

text \<open>Reading a complete encoding, up to the final checks.\<close>

definition message_start :: "stun_message \<Rightarrow> stun_message" where
  "message_start msg = message_zero\<lparr>sm_class := sm_class msg, sm_method := sm_method msg,
     sm_transaction_id := sm_transaction_id msg\<rparr>"

definition wf_type :: "stun_message \<Rightarrow> bool" where
  "wf_type msg \<longleftrightarrow> length (sm_transaction_id msg) = 12 \<and> sm_class msg AND NOT STUN_CLASS_MASK = 0
     \<and> sm_method msg AND STUN_CLASS_MASK = 0"

lemma stun_read_encode:
  fixes msg password junk extra
  defines "as \<equiv> stun_full_attrs msg password junk"
  assumes "wf_type msg" "list_all wf_attr as" "length (enc_attrs as) + 8 < 65536"
    and "apply_attrs as (message_start msg, 0) = Inr (m, b)"
  shows "stun_read (stun_encode msg password junk @ extra) =
    Inr (length (stun_encode msg password junk), stun_read_finish (m\<lparr>sm_has_fingerprint := True\<rparr>) b)"
proof -
  define A where "A = enc_attrs as"
  define H where "H = msg_header msg (length A + 8)"
  define fp where "fp = fingerprint_attr (H @ A)"
  let ?buf = "H @ A @ enc_attr fp @ extra" and ?en = "20 + (length A + 8)"
  have tid: "length (sm_transaction_id msg) = 12" using assms(2) by (simp add: wf_type_def)
  have enc: "stun_encode msg password junk = H @ A @ enc_attr fp"
    by (simp add: stun_encode_def as_def A_def H_def fp_def Let_def)
  have lens: "length H = 20" "length (enc_attr fp) = 8" using tid by (simp_all add: H_def fp_def)
  have small: "length A + 8 < 65536" using assms(4) by (simp add: A_def)
  have nofp: "\<not> sm_has_fingerprint m"
    using apply_attrs_keep_fp [OF assms(3,5)] by (simp add: message_start_def message_zero_def)
  have loop: "stun_read_loop ?buf 20 ?en (message_start msg) 0 = stun_read_loop ?buf (20 + length A) ?en m b"
    using read_loop_enc_attrs [OF assms(3), of "message_start msg" H ?en "enc_attr fp @ extra" 0] assms(5) lens
    by (simp add: message_start_def message_zero_def A_def)
  have upd: "stun_update_header_length ?buf (8 + length A) = Inr (unat (of_nat (length A + 8) :: u16), ?buf)"
    unfolding H_def by (subst add.commute) (rule update_header_length [OF tid])
  have "read_fingerprint ?buf (20 + length A) (snd fp) m = Inr (m\<lparr>sm_has_fingerprint := True\<rparr>)"
    using lens upd by (simp add: read_fingerprint_def getr_ok)
      (simp add: fp_def fingerprint_attr_def)
  then have "stun_read_attr ?buf (20 + length A) 8 m b = Inr (8, m\<lparr>sm_has_fingerprint := True\<rparr>, b)"
    using read_enc_attr [of "snd fp" "fst fp" 8 m "H @ A" extra b] lens nofp
    by (simp add: fp_def fingerprint_attr_def after_integrity_def stun_read_value_def del: enc_attr.simps)
  then have last: "stun_read_loop ?buf (20 + length A) ?en m b = Inr (m\<lparr>sm_has_fingerprint := True\<rparr>, b)"
    by (simp add: stun_read_loop.simps)
  have start: "getr ?buf 0 20 = Inr H" using lens by (simp add: getr_ok)
  have hd: "unat (get16 (drop 2 H)) = length A + 8" "drop 8 H = sm_transaction_id msg"
    "get16 H AND STUN_CLASS_MASK = sm_class msg" "get16 H AND NOT STUN_CLASS_MASK = sm_method msg"
    using tid small type_class_method [of "sm_class msg" STUN_CLASS_MASK "sm_method msg"] assms(2)
    unfolding H_def stun_header_def wf_type_def by (simp_all add: unat_of_nat flip: of_nat_add)
  have "stun_read ?buf = Inr (?en, stun_read_finish (m\<lparr>sm_has_fingerprint := True\<rparr>) b)"
    using loop last lens unfolding stun_read_def start bindr.simps Let_def hd message_start_def by simp
  then show ?thesis using lens by (simp add: enc)
qed

section \<open>The fields come back\<close>

text \<open>Records that are empty or hold a complete address of a known family.\<close>

definition wf_rec :: "addr_record \<Rightarrow> bool" where
  "wf_rec r \<longleftrightarrow> r = addr_zero
     \<or> addr_known (ar_addr r) \<and> addr_wf (ar_addr r) \<and> ar_len r = addr_get_len (ar_addr r)"

lemma known_len: "addr_known a \<Longrightarrow> addr_get_len a \<noteq> 0"
  by (cases a) (simp_all add: sizeof_sockaddr_in_def sizeof_sockaddr_in6_def)

lemma attrs_xor_address_wf:
  assumes "wf_rec r"
  shows "attrs_xor_address msg t r =
    (if r = addr_zero then [] else [(t, mapped_value (ar_addr r) (generate_mask (sm_transaction_id msg)))])"
proof (cases "r = addr_zero")
  case False
  with assms have r: "addr_known (ar_addr r)" "ar_len r = addr_get_len (ar_addr r)" by (auto simp: wf_rec_def)
  then show ?thesis
    using False known_len [OF r(1)] write_mapped_value [OF r(1)] by (simp add: attrs_xor_address_def)
qed (simp add: attrs_xor_address_def addr_zero_def)

lemma read_mapped_wf:
  assumes "wf_rec r" "r \<noteq> addr_zero"
  shows "stun_read_value_mapped_address (mapped_value (ar_addr r) msk) m msk =
    Inr (length (mapped_value (ar_addr r) msk), r)"
  using assms read_mapped_value [of "ar_addr r" msk m] by (simp add: wf_rec_def)

lemma apply_xor_mapped:
  "wf_rec (sm_mapped msg) \<Longrightarrow> \<not> sm_has_integrity m \<Longrightarrow> sm_transaction_id m = sm_transaction_id msg \<Longrightarrow>
   sm_mapped m = addr_zero \<Longrightarrow> apply_attrs (attrs_mapped msg) (m, b) = Inr (m\<lparr>sm_mapped := sm_mapped msg\<rparr>, b)"
  by (cases m) (auto simp: attrs_mapped_def attrs_xor_address_wf apply_attr_def stun_read_value_def read_mapped_def
      read_mapped_wf)

lemma apply_xor_relayed:
  "wf_rec (sm_relayed msg) \<Longrightarrow> \<not> sm_has_integrity m \<Longrightarrow> sm_transaction_id m = sm_transaction_id msg \<Longrightarrow>
   sm_relayed m = addr_zero \<Longrightarrow> apply_attrs (attrs_relayed msg) (m, b) = Inr (m\<lparr>sm_relayed := sm_relayed msg\<rparr>, b)"
  by (cases m) (auto simp: attrs_relayed_def attrs_xor_address_wf apply_attr_def stun_read_value_def read_xor_relayed_def
      read_mapped_wf)

lemma ucast_byte: "(x :: u32) < 256 \<Longrightarrow> ucast (ucast x :: u8) = x"
  by (simp add: word_unat_eq_iff unsigned_ucast_eq word_less_nat_alt take_bit_eq_mod unat_mod_distrib)

lemma error_code_value:
  assumes "(e :: u32) < 800"
  shows "(ucast (ucast (e div 100 AND 7) :: u8) AND 7) * 100 + ucast (ucast (e mod 100) :: u8) = e"
proof -
  define q r where "q = unat e div 100" and "r = unat e mod 100"
  have u: "unat e < 800" using assms by (simp add: word_less_nat_alt)
  then have q: "q < 8" and r: "r < 100" and e: "unat e = q * 100 + r" by (simp_all add: q_def r_def)
  have ed: "e div 100 = of_nat q" and em: "e mod 100 = of_nat r"
    using u by (simp_all add: q_def r_def word_unat_eq_iff unat_div_distrib unat_mod_distrib unat_of_nat)
  have "q \<in> {0, 1, 2, 3, 4, 5, 6, 7}" using q by auto
  then have "(ucast (ucast (of_nat q AND 7 :: u32) :: u8) AND 7 :: u32) = of_nat q" by auto
  moreover have "ucast (ucast (of_nat r :: u32) :: u8) = (of_nat r :: u32)"
    using r by (intro ucast_byte) (simp add: word_less_nat_alt unat_of_nat)
  moreover have "e = of_nat q * 100 + of_nat r" using arg_cong [OF e, of "of_nat :: nat \<Rightarrow> u32"] by simp
  ultimately show ?thesis unfolding ed em by simp
qed

lemma apply_error:
  "sm_error_code msg < 800 \<Longrightarrow> \<not> sm_has_integrity m \<Longrightarrow> sm_error_code m = 0 \<Longrightarrow>
   apply_attrs (attrs_error msg) (m, b) = Inr (m\<lparr>sm_error_code := sm_error_code msg\<rparr>, b)"
  using error_code_value [of "sm_error_code msg"]
  by (cases m) (auto simp: attrs_error_def apply_attr_def stun_read_value_def read_error_code_def getr_ok)

lemma apply_priority:
  "\<not> sm_has_integrity m \<Longrightarrow> sm_priority m = 0 \<Longrightarrow>
   apply_attrs (attrs_priority msg) (m, b) = Inr (m\<lparr>sm_priority := sm_priority msg\<rparr>, b)"
  by (cases m) (auto simp: attrs_priority_def apply_attr_def stun_read_value_def read_priority_def getr_ok)

lemma apply_use_candidate:
  "\<not> sm_has_integrity m \<Longrightarrow> \<not> sm_use_candidate m \<Longrightarrow>
   apply_attrs (attrs_use_candidate msg) (m, b) = Inr (m\<lparr>sm_use_candidate := sm_use_candidate msg\<rparr>, b)"
  by (cases m) (auto simp: attrs_use_candidate_def apply_attr_def stun_read_value_def)

lemma apply_controlling:
  "\<not> sm_has_integrity m \<Longrightarrow> sm_ice_controlling m = 0 \<Longrightarrow>
   apply_attrs (attrs_controlling msg) (m, b) = Inr (m\<lparr>sm_ice_controlling := sm_ice_controlling msg\<rparr>, b)"
  by (cases m) (auto simp: attrs_controlling_def apply_attr_def stun_read_value_def read_ice_controlling_def getr_ok)

lemma apply_controlled:
  "\<not> sm_has_integrity m \<Longrightarrow> sm_ice_controlled m = 0 \<Longrightarrow>
   apply_attrs (attrs_controlled msg) (m, b) = Inr (m\<lparr>sm_ice_controlled := sm_ice_controlled msg\<rparr>, b)"
  by (cases m) (auto simp: attrs_controlled_def apply_attr_def stun_read_value_def read_ice_controlled_def getr_ok)

lemma apply_channel:
  "\<not> sm_has_integrity m \<Longrightarrow> sm_channel_number m = 0 \<Longrightarrow>
   apply_attrs (attrs_channel msg) (m, b) = Inr (m\<lparr>sm_channel_number := sm_channel_number msg\<rparr>, b)"
  by (cases m) (auto simp: attrs_channel_def apply_attr_def stun_read_value_def read_channel_number_def getr_ok)

lemma apply_lifetime:
  "\<not> sm_has_integrity m \<Longrightarrow> sm_lifetime m = 0 \<Longrightarrow> \<not> sm_lifetime_set m \<Longrightarrow>
   apply_attrs (attrs_lifetime msg) (m, b) = Inr (m\<lparr>sm_lifetime := sm_lifetime msg,
     sm_lifetime_set := (sm_lifetime_set msg \<or> sm_lifetime msg \<noteq> 0)\<rparr>, b)"
  by (cases m) (auto simp: attrs_lifetime_def apply_attr_def stun_read_value_def read_lifetime_def getr_ok)

lemma apply_data:
  "\<not> sm_has_integrity m \<Longrightarrow> sm_data m = None \<Longrightarrow>
   apply_attrs (attrs_data msg) (m, b) = Inr (m\<lparr>sm_data := sm_data msg\<rparr>, b)"
  by (cases m) (auto simp: attrs_data_def apply_attr_def stun_read_value_def split: option.split)

lemma apply_transport:
  "\<not> sm_has_integrity m \<Longrightarrow> \<not> sm_requested_transport m \<Longrightarrow>
   apply_attrs (attrs_transport msg) (m, b) = Inr (m\<lparr>sm_requested_transport := sm_requested_transport msg\<rparr>, b)"
  by (cases m) (auto simp: attrs_transport_def apply_attr_def stun_read_value_def read_requested_transport_def getr_ok)

lemma apply_dont_fragment:
  "\<not> sm_has_integrity m \<Longrightarrow> \<not> sm_dont_fragment m \<Longrightarrow>
   apply_attrs (attrs_dont_fragment msg) (m, b) = Inr (m\<lparr>sm_dont_fragment := sm_dont_fragment msg\<rparr>, b)"
  by (cases m) (auto simp: attrs_dont_fragment_def apply_attr_def stun_read_value_def)

lemma apply_reservation:
  "\<not> sm_has_integrity m \<Longrightarrow> sm_reservation_token m = 0 \<Longrightarrow>
   apply_attrs (attrs_reservation msg) (m, b) = Inr (m\<lparr>sm_reservation_token := sm_reservation_token msg\<rparr>, b)"
  by (cases m) (auto simp: attrs_reservation_def apply_attr_def stun_read_value_def read_reservation_token_def getr_ok)

lemma apply_software: "apply_attrs attrs_software (m, b) = Inr (m, b)"
  by (simp add: attrs_software_def apply_attr_def stun_read_value_def read_software_def)

lemma apply_peers:
  assumes "list_all (\<lambda>r. wf_rec r \<and> r \<noteq> addr_zero) (sm_peers msg)" "length (sm_peers msg) \<le> 8"
    and "\<not> sm_has_integrity m" "sm_transaction_id m = sm_transaction_id msg" "sm_peers m = []"
  shows "apply_attrs (attrs_peers msg) (m, b) = Inr (m\<lparr>sm_peers := sm_peers msg\<rparr>, b)"
proof -
  let ?f = "attrs_xor_address msg STUN_ATTR_XOR_PEER_ADDRESS"
  have "apply_attrs (concat (map ?f ps)) (m', b) = Inr (m'\<lparr>sm_peers := sm_peers m' @ ps\<rparr>, b)"
    if "list_all (\<lambda>r. wf_rec r \<and> r \<noteq> addr_zero) ps" "length (sm_peers m') + length ps \<le> 8"
      "\<not> sm_has_integrity m'" "sm_transaction_id m' = sm_transaction_id msg" for ps m'
    using that
  proof (induction ps arbitrary: m')
    case (Cons p ps)
    then have p: "wf_rec p" "p \<noteq> addr_zero" by simp_all
    then have "ar_len p \<noteq> 0" using known_len by (auto simp: wf_rec_def)
    then have "apply_attrs (?f p) (m', b) = Inr (m'\<lparr>sm_peers := sm_peers m' @ [p]\<rparr>, b)"
      using Cons.prems p
      by (simp add: attrs_xor_address_wf apply_attr_def stun_read_value_def read_xor_peer_def read_mapped_wf)
    with Cons.IH [of "m'\<lparr>sm_peers := sm_peers m' @ [p]\<rparr>"] Cons.prems show ?case
      by (simp add: apply_attrs_append)
  qed simp
  from this [of "sm_peers msg" m] assms show ?thesis by (simp add: attrs_peers_def)
qed

lemma apply_user:
  assumes "\<not> cr_enable_userhash (sm_credentials msg)" "zero_free (cr_username (sm_credentials msg))"
    and "length (cr_username (sm_credentials msg)) \<le> 513" and "\<not> sm_has_integrity m"
    and "cr_username (sm_credentials m) = []"
  shows "apply_attrs (attrs_user msg) (m, b) = Inr (upd_cred (\<lambda>c. c\<lparr>cr_username :=
    if sm_class msg = STUN_CLASS_REQUEST then cr_username (sm_credentials msg) else []\<rparr>) m, b)"
  using assms
  by (cases m; cases "sm_credentials m") (auto simp: attrs_user_def Let_def apply_attr_def stun_read_value_def read_username_def cstr_id)

lemma STUN_IS_RESPONSE_request [simp]: "\<not> STUN_IS_RESPONSE STUN_CLASS_REQUEST"
  by (simp add: STUN_IS_RESPONSE_def)

lemma apply_realm:
  assumes "cr_password_algorithm (sm_credentials msg) = 0"
    and "\<not> (sm_class msg = STUN_CLASS_RESP_ERROR \<and> (sm_error_code msg = 401 \<or> sm_error_code msg = 438))"
    and "zero_free (cr_realm (sm_credentials msg))" "length (cr_realm (sm_credentials msg)) \<le> 763"
    and "zero_free (cr_nonce (sm_credentials msg))" "length (cr_nonce (sm_credentials msg)) \<le> 763"
    and "\<not> sm_has_integrity m" "cr_realm (sm_credentials m) = []" "cr_nonce (sm_credentials m) = []"
    and "sm_class m = sm_class msg"
  shows "apply_attrs (attrs_realm msg junk) (m, b) = Inr (upd_cred (\<lambda>c. c\<lparr>
     cr_realm := if sm_class msg = STUN_CLASS_REQUEST then cr_realm (sm_credentials msg) else [],
     cr_nonce := if sm_class msg = STUN_CLASS_REQUEST then cr_nonce (sm_credentials msg) else []\<rparr>) m, b)"
  using assms
  by (cases m; cases "sm_credentials m")
    (auto simp: attrs_realm_def Let_def apply_attr_def stun_read_value_def read_realm_def read_nonce_def cstr_id)

lemma apply_integrity:
  assumes "cr_password_algorithm (sm_credentials msg) = 0" "\<not> sm_has_integrity m"
  shows "apply_attrs (attrs_integrity msg password as) (m, b) =
    Inr (m\<lparr>sm_has_integrity := (sm_class msg \<noteq> STUN_CLASS_INDICATION \<and> password \<noteq> None)\<rparr>, b)"
  using assms
  by (cases m) (auto simp: attrs_integrity_def Let_def apply_attr_def stun_read_value_def read_integrity_def
      length_hmac)

text \<open>The messages the theorem is about, and what their receiver sees.\<close>

definition wf_message :: "stun_message \<Rightarrow> bool" where
  "wf_message msg \<longleftrightarrow> wf_type msg \<and> sm_error_code msg < 800 \<and> wf_rec (sm_mapped msg) \<and> wf_rec (sm_relayed msg)
     \<and> list_all (\<lambda>r. wf_rec r \<and> r \<noteq> addr_zero) (sm_peers msg) \<and> length (sm_peers msg) \<le> 8
     \<and> \<not> sm_even_port msg
     \<and> (let c = sm_credentials msg in \<not> cr_enable_userhash c \<and> cr_password_algorithm c = 0
         \<and> zero_free (cr_username c) \<and> length (cr_username c) \<le> 513
         \<and> zero_free (cr_realm c) \<and> length (cr_realm c) \<le> 763
         \<and> zero_free (cr_nonce c) \<and> length (cr_nonce c) \<le> 763)
     \<and> \<not> (sm_class msg = STUN_CLASS_RESP_ERROR \<and> (sm_error_code msg = 401 \<or> sm_error_code msg = 438))"

definition stun_received :: "stun_message \<Rightarrow> bytes option \<Rightarrow> stun_message" where
  "stun_received msg password =
     (let c = sm_credentials msg; req = (sm_class msg = STUN_CLASS_REQUEST)
      in msg\<lparr>sm_credentials := credentials_zero\<lparr>cr_username := if req then cr_username c else [],
              cr_realm := if req then cr_realm c else [], cr_nonce := if req then cr_nonce c else [],
              cr_password_algorithm := if STUN_IS_RESPONSE (sm_class msg) then 0 else STUN_PASSWORD_ALGORITHM_MD5\<rparr>,
            sm_has_integrity := (sm_class msg \<noteq> STUN_CLASS_INDICATION \<and> password \<noteq> None),
            sm_has_fingerprint := True, sm_alternate_server := addr_zero,
            sm_lifetime_set := (sm_lifetime_set msg \<or> sm_lifetime msg \<noteq> 0), sm_next_port := False\<rparr>)"

lemma apply_full_attrs:
  assumes "wf_message msg"
  shows "\<exists>m. apply_attrs (stun_full_attrs msg password junk) (message_start msg, 0) = Inr (m, 0)
    \<and> stun_read_finish (m\<lparr>sm_has_fingerprint := True\<rparr>) 0 = stun_received msg password"
proof -
  let ?c = "sm_credentials msg" and ?req = "sm_class msg = STUN_CLASS_REQUEST"
  define m where "m = (message_start msg)\<lparr>sm_error_code := sm_error_code msg, sm_mapped := sm_mapped msg,
    sm_priority := sm_priority msg, sm_use_candidate := sm_use_candidate msg,
    sm_ice_controlling := sm_ice_controlling msg, sm_ice_controlled := sm_ice_controlled msg,
    sm_channel_number := sm_channel_number msg, sm_lifetime := sm_lifetime msg,
    sm_lifetime_set := (sm_lifetime_set msg \<or> sm_lifetime msg \<noteq> 0), sm_peers := sm_peers msg,
    sm_relayed := sm_relayed msg, sm_data := sm_data msg, sm_requested_transport := sm_requested_transport msg,
    sm_dont_fragment := sm_dont_fragment msg, sm_reservation_token := sm_reservation_token msg,
    sm_credentials := credentials_zero\<lparr>cr_username := if ?req then cr_username ?c else [],
      cr_realm := if ?req then cr_realm ?c else [], cr_nonce := if ?req then cr_nonce ?c else []\<rparr>,
    sm_has_integrity := (sm_class msg \<noteq> STUN_CLASS_INDICATION \<and> password \<noteq> None)\<rparr>"
  have even: "attrs_even_port msg = []" using assms by (simp add: wf_message_def attrs_even_port_def)
  have "apply_attrs (stun_full_attrs msg password junk) (message_start msg, 0) = Inr (m, 0)"
    using assms unfolding wf_message_def Let_def
    by (simp add: stun_full_attrs_def stun_attrs_def apply_attrs_append apply_error apply_xor_mapped apply_priority
        apply_use_candidate apply_controlling apply_controlled apply_channel apply_lifetime apply_peers
        apply_xor_relayed apply_data even apply_transport apply_dont_fragment apply_reservation apply_software
        apply_user apply_realm apply_integrity m_def message_start_def message_zero_def credentials_zero_def)
  moreover have "stun_read_finish (m\<lparr>sm_has_fingerprint := True\<rparr>) 0 = stun_received msg password"
    using assms unfolding wf_message_def
    by (simp add: stun_read_finish_def stun_received_def Let_def m_def message_start_def message_zero_def
        credentials_zero_def)
  ultimately show ?thesis by blast
qed

lemma length_enc_attr_le: "a \<in> set as \<Longrightarrow> length (enc_attr a) \<le> length (enc_attrs as)"
  by (induction as) auto

definition plain_attr :: "u16 \<times> bytes \<Rightarrow> bool" where
  "plain_attr a \<longleftrightarrow> \<not> after_integrity (fst a)"

lemma xor_address_plain_attr: "\<not> after_integrity t \<Longrightarrow> list_all plain_attr (attrs_xor_address msg t r)"
  by (simp add: attrs_xor_address_def plain_attr_def split: sum.split)

lemma peers_plain_attr: "list_all plain_attr (attrs_peers msg)"
proof -
  have "list_all plain_attr (concat (map (attrs_xor_address msg STUN_ATTR_XOR_PEER_ADDRESS) ps))" for ps
    by (induction ps) (simp_all add: xor_address_plain_attr after_integrity_def)
  then show ?thesis by (simp add: attrs_peers_def)
qed

lemma groups_plain_attr:
  "list_all plain_attr (attrs_error msg)" "list_all plain_attr (attrs_mapped msg)" "list_all plain_attr (attrs_priority msg)"
  "list_all plain_attr (attrs_use_candidate msg)" "list_all plain_attr (attrs_controlling msg)"
  "list_all plain_attr (attrs_controlled msg)" "list_all plain_attr (attrs_channel msg)" "list_all plain_attr (attrs_lifetime msg)"
  "list_all plain_attr (attrs_relayed msg)" "list_all plain_attr (attrs_data msg)" "list_all plain_attr (attrs_even_port msg)"
  "list_all plain_attr (attrs_transport msg)" "list_all plain_attr (attrs_dont_fragment msg)"
  "list_all plain_attr (attrs_reservation msg)" "list_all plain_attr attrs_software" "list_all plain_attr (attrs_user msg)"
  "list_all plain_attr (attrs_realm msg junk)"
  by (simp_all add: attrs_error_def attrs_mapped_def attrs_relayed_def xor_address_plain_attr attrs_priority_def
      attrs_use_candidate_def attrs_controlling_def attrs_controlled_def attrs_channel_def attrs_lifetime_def
      attrs_data_def attrs_even_port_def attrs_transport_def attrs_dont_fragment_def attrs_reservation_def
      attrs_software_def attrs_user_def attrs_realm_def Let_def plain_attr_def after_integrity_def split: option.split)

lemma stun_attrs_plain: "list_all plain_attr (stun_attrs msg junk)"
  by (simp add: stun_attrs_def groups_plain_attr peers_plain_attr)

lemma attrs_integrity_types:
  "list_all (\<lambda>a. fst a = STUN_ATTR_MESSAGE_INTEGRITY \<or> fst a = STUN_ATTR_MESSAGE_INTEGRITY_SHA256) (attrs_integrity msg password as)"
  by (simp add: attrs_integrity_def Let_def)

lemma full_attrs_wf:
  assumes "length (enc_attrs (stun_full_attrs msg password junk)) < 65536"
  shows "list_all wf_attr (stun_full_attrs msg password junk)"
proof -
  let ?as = "stun_full_attrs msg password junk"
  have "length (snd a) < 65536" if "a \<in> set ?as" for a
  proof -
    have "length (enc_attr a) \<le> length (enc_attrs ?as)"
      using that by (rule length_enc_attr_le)
    with assms show ?thesis using align32_ge [of "length (snd a)"] by (simp add: length_enc_attr del: enc_attr.simps)
  qed
  moreover have "\<forall>a \<in> set ?as. fst a \<noteq> STUN_ATTR_FINGERPRINT"
    using stun_attrs_plain [of msg junk] attrs_integrity_types [of msg password "stun_attrs msg junk"]
    by (auto simp: stun_full_attrs_def list_all_iff plain_attr_def after_integrity_def)
  ultimately show ?thesis by (simp add: list_all_iff wf_attr_def)
qed


text \<open>A binding request with a priority, as a connectivity check carries it.\<close>

definition ping_message :: stun_message where
  "ping_message = message_zero\<lparr>sm_method := STUN_METHOD_BINDING, sm_priority := 7\<rparr>"

lemma ping_message_wf: "wf_message ping_message"
  by (simp add: ping_message_def wf_message_def message_zero_def credentials_zero_def wf_type_def wf_rec_def
      addr_zero_def zero_free_def)

lemma ping_message_length: "length (stun_encode ping_message password []) \<le> 128"
proof -
  have "length (enc_attrs (stun_attrs ping_message [])) \<le> 36"
    by (simp add: stun_attrs_def ping_message_def message_zero_def
        credentials_zero_def addr_zero_def attrs_error_def attrs_mapped_def attrs_relayed_def attrs_priority_def
        attrs_use_candidate_def attrs_controlling_def attrs_controlled_def attrs_channel_def attrs_lifetime_def
        attrs_peers_def attrs_data_def attrs_even_port_def attrs_transport_def attrs_dont_fragment_def
        attrs_reservation_def attrs_software_def attrs_user_def attrs_realm_def attrs_xor_address_def
        stun_write_value_mapped_address_def align32_eq)
  then show ?thesis
    by (simp add: stun_encode_def stun_full_attrs_def attrs_integrity_def stun_header_def fingerprint_attr_def
        align32_eq length_hmac ping_message_def message_zero_def credentials_zero_def Let_def)
qed


end
