(* ===== verification/Stun_Integrity.thy ===== *)
theory Stun_Integrity
  imports Stun_Roundtrip
begin

text \<open>
  The integrity check of \<open>stun.c\<close>: what an accepted message carries, that a message
  written by \<open>stun_write\<close> is accepted by its receiver, and that the check stays inside the packet.
\<close>

section \<open>The integrity check\<close>

lemma check_loop_step:
  assumes "pos < en" "getr buf pos 4 = Inr (put16 t @ put16 (of_nat n))" "n < 65536" "4 + n \<le> length buf"
  shows "check_loop buf key pos en ok =
    (if t = STUN_ATTR_MESSAGE_INTEGRITY
     then if n \<noteq> 20 then Inr False
          else bindr (check_mac buf pos (\<lambda>m. hmac_sha1 ph_uninit m key) 20) (\<lambda>ok.
               if ok then check_loop buf key (pos + (4 + align32 n)) en True else Inr False)
     else if t = STUN_ATTR_MESSAGE_INTEGRITY_SHA256
     then if n \<noteq> 32 then Inr False
          else bindr (check_mac buf pos (\<lambda>m. hmac_sha256 ph_uninit m key) 32) (\<lambda>ok.
               if ok then check_loop buf key (pos + (4 + align32 n)) en True else Inr False)
     else check_loop buf key (pos + (4 + align32 n)) en ok)"
proof -
  have n: "unat (of_nat n :: u16) = n" using assms(3) by (simp add: unat_of_nat)
  have "get16 (put16 t @ put16 (of_nat n)) = t" "get16 (drop 2 (put16 t @ put16 (of_nat n))) = of_nat n" by simp_all
  then show ?thesis
    by (subst check_loop.simps) (simp only: assms(1,2) bindr.simps Let_def n if_True assms(4) not_less [symmetric]
        if_False, use assms(4) in simp)
qed

lemma check_loop_plain:
  assumes "list_all plain_attr as" "list_all wf_attr as" "length (pre @ enc_attrs as) \<le> en"
  shows "check_loop (pre @ enc_attrs as @ post) key (length pre) en ok =
    check_loop (pre @ enc_attrs as @ post) key (length (pre @ enc_attrs as)) en ok"
  using assms
proof (induction as arbitrary: pre)
  case (Cons a as)
  obtain t v where a: "a = (t, v)" by (cases a)
  let ?buf = "pre @ enc_attrs (a # as) @ post"
  have t: "t \<noteq> STUN_ATTR_MESSAGE_INTEGRITY" "t \<noteq> STUN_ATTR_MESSAGE_INTEGRITY_SHA256" and v: "length v < 65536"
    using Cons.prems by (simp_all add: a plain_attr_def after_integrity_def wf_attr_def)
  have len: "length (enc_attr a) = 4 + align32 (length v)" "length v \<le> align32 (length v)"
    by (simp_all add: a length_enc_attr align32_ge del: enc_attr.simps)
  have h: "getr ?buf (length pre) 4 = Inr (put16 t @ put16 (of_nat (length v)))" by (simp add: a getr_ok)
  have lt: "length pre < en" using Cons.prems(3) len by simp
  have big: "4 + length v \<le> length ?buf" using len by simp
  have "check_loop ?buf key (length pre) en ok = check_loop ?buf key (length pre + (4 + align32 (length v))) en ok"
    using t by (subst check_loop_step [OF lt h v big]) simp
  also have "\<dots> = check_loop ?buf key (length (pre @ enc_attrs (a # as))) en ok"
    using Cons.IH [of "pre @ enc_attr a"] Cons.prems len by (simp add: add.assoc del: enc_attr.simps)
  finally show ?case .
qed simp


section \<open>What acceptance means\<close>

text \<open>
  The packet up to position \<open>pos\<close>, with a header length that ends after an attribute of \<open>n\<close> value
  bytes there: what RFC 8489 authenticates.
\<close>

definition mac_input :: "bytes \<Rightarrow> nat \<Rightarrow> nat \<Rightarrow> bytes" where
  "mac_input buf pos n = take 2 buf @ put16 (of_nat (pos - 20 + 4 + n)) @ take (pos - 4) (drop 4 buf)"

definition integrity_at :: "bytes \<Rightarrow> bytes \<Rightarrow> nat \<Rightarrow> bool" where
  "integrity_at key buf pos \<longleftrightarrow>
     take 24 (drop pos buf) = put16 STUN_ATTR_MESSAGE_INTEGRITY @ put16 20 @ HMAC SHA1 key (mac_input buf pos 20)
   \<or> take 36 (drop pos buf) = put16 STUN_ATTR_MESSAGE_INTEGRITY_SHA256 @ put16 32 @ HMAC SHA256 key (mac_input buf pos 32)"

lemma check_mac_eq:
  assumes "20 \<le> pos" "pos + 4 + n \<le> length buf" "length (mac (mac_input buf pos n)) = n"
  shows "check_mac buf pos mac n = Inr (mac (mac_input buf pos n) = take n (drop (pos + 4) buf))"
proof -
  let ?b = "take 2 buf @ put16 (of_nat (pos - 20 + 4 + n)) @ drop 4 buf"
  have "stun_update_header_length buf (pos - 20 + 4 + n) = Inr (unat (get16 (take 2 (drop 2 buf))), ?b)"
    using assms by (simp add: stun_update_header_length_def getr_ok wr_def)
  moreover have "getr ?b 0 pos = Inr (mac_input buf pos n)"
    using assms by (simp add: getr_ok mac_input_def)
  moreover have "const_time_memcmp (mac (mac_input buf pos n)) (take n (drop (pos + 4) buf)) n = 0
      \<longleftrightarrow> mac (mac_input buf pos n) = take n (drop (pos + 4) buf)"
    using assms by (subst const_time_memcmp_eq_0) simp_all
  ultimately show ?thesis using assms by (simp add: check_mac_def getr_ok)
qed

lemma check_mac_short: "length buf < pos + 4 + n \<Longrightarrow> check_mac buf pos mac n \<noteq> Inr v"
  by (auto simp: check_mac_def bindr_eq_Inr getr_eq_Inr)

lemma length_HMAC: "length (HMAC SHA1 key m) = 20" "length (HMAC SHA256 key m) = 32"
  using length_hmac [of ph_uninit m key] by (simp_all add: hmac_sha1_HMAC hmac_sha256_HMAC)

lemma check_mac_sha1:
  "20 \<le> pos \<Longrightarrow> check_mac buf pos (\<lambda>m. hmac_sha1 ph_uninit m key) 20 = Inr True \<longleftrightarrow>
     pos + 24 \<le> length buf \<and> take 20 (drop (pos + 4) buf) = HMAC SHA1 key (mac_input buf pos 20)"
  by (cases "pos + 24 \<le> length buf") (auto simp: check_mac_eq check_mac_short length_HMAC hmac_sha1_HMAC)

lemma check_mac_sha256:
  "20 \<le> pos \<Longrightarrow> check_mac buf pos (\<lambda>m. hmac_sha256 ph_uninit m key) 32 = Inr True \<longleftrightarrow>
     pos + 36 \<le> length buf \<and> take 32 (drop (pos + 4) buf) = HMAC SHA256 key (mac_input buf pos 32)"
  by (cases "pos + 36 \<le> length buf") (auto simp: check_mac_eq check_mac_short length_HMAC hmac_sha256_HMAC)

lemma attr_split:
  assumes "take 4 (drop pos buf) = put16 t @ put16 w"
  shows "take (4 + n) (drop pos buf) = put16 t @ put16 w @ take n (drop (pos + 4) buf)"
proof -
  have "take (4 + n) (drop pos buf) = take 4 (drop pos buf) @ take n (drop 4 (drop pos buf))"
    by (rule take_add)
  with assms show ?thesis by (simp add: add.commute)
qed

lemma attr_header:
  assumes "pos + 4 \<le> length buf"
  obtains t n where "take 4 (drop pos buf) = put16 t @ put16 (of_nat n)" "n < 65536"
proof -
  have "length (take 4 (drop pos buf)) = 4" using assms by simp
  then obtain a b c d where "take 4 (drop pos buf) = [a, b, c, d]" by (rule length_4E)
  moreover have "[a, b, c, d] = put16 (get16 [a, b]) @ put16 (of_nat (unat (get16 [c, d])))"
    using put16_get16 [of "[a, b]"] put16_get16 [of "[c, d]"] by simp
  ultimately show thesis using that [of "get16 [a, b]" "unat (get16 [c, d])"] unsigned_less [of "get16 [c, d]"] by simp
qed

lemma check_loop_accept:
  assumes "check_loop buf key pos en ok = Inr True" "pos < en"
  obtains t n where "take 4 (drop pos buf) = put16 t @ put16 (of_nat n)"
    "t = STUN_ATTR_MESSAGE_INTEGRITY \<and> n = 20 \<and> check_mac buf pos (\<lambda>m. hmac_sha1 ph_uninit m key) 20 = Inr True
     \<or> t = STUN_ATTR_MESSAGE_INTEGRITY_SHA256 \<and> n = 32 \<and> check_mac buf pos (\<lambda>m. hmac_sha256 ph_uninit m key) 32 = Inr True
     \<or> check_loop buf key (pos + (4 + align32 n)) en ok = Inr True"
proof -
  have h: "pos + 4 \<le> length buf"
    using assms by (subst (asm) check_loop.simps) (auto simp: bindr_eq_Inr getr_eq_Inr)
  obtain t n where tn: "take 4 (drop pos buf) = put16 t @ put16 (of_nat n)" "n < 65536"
    using attr_header [OF h] .
  have n: "unat (of_nat n :: u16) = n" using tn(2) by (simp add: unat_of_nat)
  have g: "getr buf pos 4 = Inr (put16 t @ put16 (of_nat n))" using h tn by (simp add: getr_ok)
  have "4 + n \<le> length buf"
  proof (rule ccontr)
    assume "\<not> 4 + n \<le> length buf"
    with assms g n show False by (subst (asm) check_loop.simps) (simp add: Let_def not_le)
  qed
  from assms(1) [unfolded check_loop_step [OF assms(2) g tn(2) this]] show thesis
    using that [OF tn(1)] by (auto simp: bindr_eq_Inr split: if_splits)
qed

lemma check_loop_sound:
  "check_loop buf key pos en ok = Inr True \<Longrightarrow> 20 \<le> pos \<Longrightarrow>
     ok \<or> (\<exists>p. 20 \<le> p \<and> p < en \<and> integrity_at key buf p)"
proof (induction "en - pos" arbitrary: pos rule: less_induct)
  case less
  show ?case
  proof (cases "pos < en")
    case True
    from less.prems(1) True obtain t n where h: "take 4 (drop pos buf) = put16 t @ put16 (of_nat n)" and
      "t = STUN_ATTR_MESSAGE_INTEGRITY \<and> n = 20 \<and> check_mac buf pos (\<lambda>m. hmac_sha1 ph_uninit m key) 20 = Inr True
     \<or> t = STUN_ATTR_MESSAGE_INTEGRITY_SHA256 \<and> n = 32 \<and> check_mac buf pos (\<lambda>m. hmac_sha256 ph_uninit m key) 32 = Inr True
     \<or> check_loop buf key (pos + (4 + align32 n)) en ok = Inr True" by (rule check_loop_accept)
    then consider "integrity_at key buf pos" | "check_loop buf key (pos + (4 + align32 n)) en ok = Inr True"
      using attr_split [OF h, of 20] attr_split [OF h, of 32] less.prems(2)
      by (auto simp: integrity_at_def check_mac_sha1 check_mac_sha256)
    then show ?thesis using True less.prems(2) less.hyps [of "pos + (4 + align32 n)"] by cases auto
  next
    case False
    with less.prems show ?thesis by (subst (asm) check_loop.simps) simp
  qed
qed

lemma accepted_integrity:
  assumes "stun_check_integrity buf msg password = Inr True"
  shows "sm_has_integrity msg \<and> (\<exists>pos. 20 \<le> pos \<and> pos < length buf
    \<and> integrity_at (generate_hmac_key msg password) buf pos)"
proof -
  have "sm_has_integrity msg" using assms by (auto simp: stun_check_integrity_def split: if_splits)
  with assms obtain len where "20 + len \<le> length buf"
    "check_loop buf (generate_hmac_key msg password) 20 (20 + len) False = Inr True"
    by (auto simp: stun_check_integrity_def bindr_eq_Inr Let_def not_less split: if_splits)
  then have "\<exists>p. 20 \<le> p \<and> p < 20 + len \<and> integrity_at (generate_hmac_key msg password) buf p"
    by (auto dest: check_loop_sound)
  with \<open>20 + len \<le> length buf\<close> \<open>sm_has_integrity msg\<close> show ?thesis by (meson less_le_trans)
qed

text \<open>C1: A message that \<open>stun_check_integrity\<close> accepts carries an integrity attribute whose value is the
  HMAC of RFC 8489 (SHA-1 or SHA-256) under the key derived from the credentials and the password, over
  the packet up to the attribute with the length field set to end with it.\<close>

theorem stun_check_integrity_sound:
  assumes "stun_check_integrity buf msg password = Inr True"
  shows "sm_has_integrity msg \<and> (\<exists>pos. 20 \<le> pos \<and> pos < length buf
    \<and> integrity_at (generate_hmac_key msg password) buf pos)"
  using assms by (rule accepted_integrity)

section \<open>The check stays inside the packet\<close>

lemma check_mac_bounds: "20 \<le> pos \<Longrightarrow> pos + 4 + n \<le> length buf \<Longrightarrow> in_bounds (check_mac buf pos mac n)"
  by (auto simp: check_mac_def intro!: safe dest: update_header_Inr)

lemma stun_read_attr_next:
  assumes "stun_read_attr buf pos sz msg bits = Inr (ret, msg', bits')"
  obtains t n where "getr buf pos 4 = Inr (put16 t @ put16 (of_nat n))" "n < 65536" "4 + n \<le> sz" "ret = 4 + align32 n"
proof -
  have h: "pos + 4 \<le> length buf"
    using assms by (auto simp: stun_read_attr_def bindr_eq_Inr getr_eq_Inr split: if_splits)
  obtain t n where tn: "take 4 (drop pos buf) = put16 t @ put16 (of_nat n)" "n < 65536"
    using attr_header [OF h] .
  have n: "unat (of_nat n :: u16) = n" using tn(2) by (simp add: unat_of_nat)
  have g: "getr buf pos 4 = Inr (put16 t @ put16 (of_nat n))" using h tn by (simp add: getr_ok)
  with assms n have "4 + n \<le> sz" "ret = 4 + align32 n"
    by (auto simp: stun_read_attr_def Let_def bindr_eq_Inr split: if_splits)
  with g tn(2) show thesis by (rule that)
qed

lemma check_loop_bounds:
  "stun_read_loop buf pos en msg bits = Inr r \<Longrightarrow> en \<le> length buf \<Longrightarrow> 20 \<le> pos \<Longrightarrow>
     in_bounds (check_loop buf key pos en ok)"
proof (induction "en - pos" arbitrary: pos msg bits ok rule: less_induct)
  case less
  show ?case
  proof (cases "pos < en")
    case True
    with less.prems(1) obtain ret msg' bits' where
      a: "stun_read_attr buf pos (en - pos) msg bits = Inr (ret, msg', bits')"
      and l: "stun_read_loop buf (pos + ret) en msg' bits' = Inr r"
      by (subst (asm) stun_read_loop.simps) (auto split: sum.splits if_splits)
    from a obtain t n where g: "getr buf pos 4 = Inr (put16 t @ put16 (of_nat n))" and n: "n < 65536"
      and fit: "4 + n \<le> en - pos" and ret: "ret = 4 + align32 n" by (rule stun_read_attr_next)
    have next_ok: "in_bounds (check_loop buf key (pos + (4 + align32 n)) en ok')" for ok'
      using less.hyps [OF _ l] True less.prems(2,3) by (simp add: ret)
    have mac: "in_bounds (check_mac buf pos mac n)" for mac
      using fit less.prems True by (intro check_mac_bounds) linarith+
    have "4 + n \<le> length buf" using fit less.prems(2) by linarith
    from check_loop_step [OF True g n this, of key ok] show ?thesis
      using mac next_ok by (auto intro!: safe)
  next
    case False
    then show ?thesis by (subst check_loop.simps) simp
  qed
qed

lemma check_integrity_bounds:
  assumes "stun_read buf = Inr (n, msg)"
  shows "stun_check_integrity buf msg' password \<noteq> Inl OutOfBounds"
proof -
  let ?len = "unat (get16 (take 2 (drop 2 buf)))"
  have "20 \<le> length buf" using assms by (auto simp: stun_read_def split: if_splits)
  then have eq: "get16 (drop 2 (take 20 buf)) = get16 (take 2 (drop 2 buf))" by (simp add: get16_def)
  have l: "20 \<le> length buf" "20 + ?len \<le> length buf"
    and "\<exists>m b r. stun_read_loop buf 20 (20 + ?len) m b = Inr r"
    using assms by (auto simp: stun_read_def Let_def bindr_eq_Inr getr_eq_Inr not_less eq split: if_splits)
  then have "in_bounds (check_loop buf key 20 (20 + ?len) False)" for key
    by (metis check_loop_bounds order_refl)
  then have "in_bounds (stun_check_integrity buf msg' password)"
    using l by (simp add: stun_check_integrity_def getr_ok Let_def)
  then show ?thesis by (simp add: in_bounds_def)
qed

text \<open>After \<open>stun_read\<close> has accepted a packet, \<open>stun_check_integrity\<close> on that packet reads inside it,
  whatever credentials are filled in meanwhile.\<close>

theorem stun_check_integrity_in_bounds:
  assumes "stun_read buf = Inr (n, msg)"
  shows "stun_check_integrity buf msg' password \<noteq> Inl OutOfBounds"
  using assms by (rule check_integrity_bounds)

text \<open>The empty binding request: a header without attributes.\<close>

theorem stun_check_integrity_in_bounds_witness:
  "\<exists>msg. stun_read (put16 1 @ put16 0 @ put32 STUN_MAGIC @ replicate 12 5) = Inr (20, msg)
    \<and> stun_check_integrity (put16 1 @ put16 0 @ put32 STUN_MAGIC @ replicate 12 5) (msg\<lparr>sm_has_integrity := True\<rparr>) (Some [1])
        \<noteq> Inl OutOfBounds"
proof -
  have "\<exists>msg. stun_read (put16 1 @ put16 0 @ put32 STUN_MAGIC @ replicate 12 5) = Inr (20, msg)"
    by (simp add: stun_read_def getr_ok stun_read_loop.simps Let_def)
  then show ?thesis using stun_check_integrity_in_bounds by blast
qed

section \<open>Written messages are accepted\<close>

lemma generate_hmac_key_received:
  assumes "wf_message msg" "sm_class msg = STUN_CLASS_REQUEST \<or> cr_realm (sm_credentials msg) = []"
  shows "generate_hmac_key (stun_received msg password) p = generate_hmac_key msg p"
  using assms by (auto simp: generate_hmac_key_def stun_received_def wf_message_def credentials_zero_def Let_def)

lemma mac_input_encode:
  assumes "length (sm_transaction_id msg) = 12"
  shows "mac_input (msg_header msg k @ A @ post) (20 + length A) n = msg_header msg (length A + 4 + n) @ A"
proof -
  have "length A + 16 = 16 + length A" by simp
  then show ?thesis using assms by (simp add: mac_input_def stun_header_def)
qed

lemma check_encoded:
  assumes "wf_message msg" "sm_class msg \<noteq> STUN_CLASS_INDICATION"
    "sm_class msg = STUN_CLASS_REQUEST \<or> cr_realm (sm_credentials msg) = []"
    "length (stun_encode msg (Some password) junk) < 65536"
  shows "stun_check_integrity (stun_encode msg (Some password) junk) (stun_received msg (Some password)) (Some password) = Inr True"
proof -
  let ?key = "generate_hmac_key msg (Some password)" and ?as = "stun_attrs msg junk"
  let ?A = "enc_attrs ?as" and ?e = "stun_encode msg (Some password) junk"
  define mi where "mi = HMAC SHA1 ?key (msg_header msg (length ?A + 24) @ ?A)"
  define H where "H = msg_header msg (length ?A + 24 + 8)"
  define F where "F = enc_attr (fingerprint_attr (H @ ?A @ enc_attr (STUN_ATTR_MESSAGE_INTEGRITY, mi)))"
  have tid: "length (sm_transaction_id msg) = 12" using assms(1) by (simp add: wf_message_def wf_type_def)
  have mi: "length mi = 20" "align32 20 = 20" by (simp_all add: mi_def length_HMAC align32_eq)
  have full: "stun_full_attrs msg (Some password) junk = ?as @ [(STUN_ATTR_MESSAGE_INTEGRITY, mi)]"
    using assms(1,2) by (simp add: stun_full_attrs_def attrs_integrity_def Let_def wf_message_def mi_def
        hmac_sha1_HMAC length_HMAC)
  have e: "?e = H @ ?A @ enc_attr (STUN_ATTR_MESSAGE_INTEGRITY, mi) @ F"
    using mi by (simp add: stun_encode_def Let_def full H_def F_def add.assoc)
  have H: "length H = 20" using tid by (simp add: H_def)
  have F: "take 4 F = put16 STUN_ATTR_FINGERPRINT @ put16 4" "length F = 8"
    by (simp_all add: F_def fingerprint_attr_def align32_eq)
  have has: "sm_has_integrity (stun_received msg (Some password))"
    using assms(2) by (simp add: stun_received_def Let_def)
  have len: "length ?e = length ?A + 52" using mi H F by (simp add: e)
  have "length ?A + 32 < 65536" using len assms(4) by simp
  then have "unat (get16 (put16 (of_nat (length ?A + 32)))) = length ?A + 32" by (simp only: get16_put16 unat_of_nat) simp
  moreover have "getr ?e 2 2 = Inr (put16 (of_nat (length ?A + 32)))"
    using tid len by (simp add: getr_ok e H_def stun_header_def add.commute)
  ultimately have "stun_check_integrity ?e (stun_received msg (Some password)) (Some password)
      = check_loop ?e ?key 20 (20 + (length ?A + 32)) False"
    using has len by (simp add: stun_check_integrity_def Let_def generate_hmac_key_received [OF assms(1,3)])
  also have "\<dots> = check_loop ?e ?key (20 + length ?A) (20 + (length ?A + 32)) False"
  proof -
    have "list_all wf_attr ?as"
      using full_attrs_wf [of msg "Some password" junk] len mi assms(4) by (simp add: full)
    from check_loop_plain [OF stun_attrs_plain this, of H "20 + (length ?A + 32)"] show ?thesis
      using H by (simp add: e)
  qed
  also have "\<dots> = check_loop ?e ?key (20 + length ?A + 24) (20 + (length ?A + 32)) True"
  proof -
    have g: "getr ?e (20 + length ?A) 4 = Inr (put16 STUN_ATTR_MESSAGE_INTEGRITY @ put16 (of_nat 20))"
      using H mi by (simp add: getr_ok e)
    have "mac_input ?e (20 + length ?A) 20 = msg_header msg (length ?A + 24) @ ?A"
      using mac_input_encode [OF tid, of "length ?A + 24 + 8" ?A _ 20] unfolding e H_def
      by (simp add: add.assoc del: of_nat_add enc_attr.simps)
    moreover have "take 20 (drop (20 + length ?A + 4) ?e) = mi"
      using H mi by (simp add: e)
    ultimately have "check_mac ?e (20 + length ?A) (\<lambda>m. hmac_sha1 ph_uninit m ?key) 20 = Inr True"
      using len by (subst check_mac_sha1) (simp_all add: mi_def)
    then show ?thesis using len by (subst check_loop_step [OF _ g]) (simp_all add: mi add.assoc)
  qed
  also have "\<dots> = check_loop ?e ?key (20 + length ?A + 24 + 8) (20 + (length ?A + 32)) True"
  proof -
    have g: "getr ?e (20 + length ?A + 24) 4 = Inr (put16 STUN_ATTR_FINGERPRINT @ put16 (of_nat 4))"
      using H mi F by (simp add: getr_ok e)
    show ?thesis using len by (subst check_loop_step [OF _ g]) (simp_all add: align32_eq add.assoc)
  qed
  also have "\<dots> = Inr True" by (subst check_loop.simps) simp
  finally show ?thesis .
qed



theorem stun_check_integrity_sound_witness:
  "\<exists>buf. stun_check_integrity buf (stun_received ping_message (Some [1])) (Some [1]) = Inr True
    \<and> sm_has_integrity (stun_received ping_message (Some [1])) \<and> (\<exists>pos. 20 \<le> pos \<and> pos < length buf
    \<and> integrity_at (generate_hmac_key (stun_received ping_message (Some [1])) (Some [1])) buf pos)"
proof -
  have "stun_check_integrity (stun_encode ping_message (Some [1]) []) (stun_received ping_message (Some [1])) (Some [1]) = Inr True"
    by (rule check_encoded) (use ping_message_wf ping_message_length [of "Some [1]"] in
      \<open>simp_all add: ping_message_def message_zero_def\<close>)
  from this stun_check_integrity_sound [OF this] show ?thesis by blast
qed

end
