(* ===== verification/Turn.thy ===== *)
theory Turn
  imports Stun "HOL-Library.List_Lexorder"
begin

text \<open>
  \<open>turn.c\<close>: channel data framing, and the table of permissions and channels that both the agent (as a
  TURN client) and the server keep. The table is an open-addressing hash table of entries with two
  arrays of pointers to its entries, ordered by channel number and by transaction id. A pointer to an
  entry is its index; the counts of the arrays are the lengths of the lists, their capacity is
  \<open>map_size\<close>, the number of entries.
\<close>

section \<open>Channel data\<close>

definition memory_is_zero :: "bytes \<Rightarrow> bool" where
  "memory_is_zero d = list_all (\<lambda>b. b = 0) d"

text \<open>The number drawn from the 16 random bits \<open>r\<close>.\<close>

definition random_channel_number :: "u16 \<Rightarrow> u16" where
  "random_channel_number r = 0x4000 OR (r AND 0x0FFF)"

definition is_channel_data :: "bytes \<Rightarrow> bool" where
  "is_channel_data data = (if data = [] then False else 64 \<le> hd data \<and> hd data \<le> 79)"

definition is_valid_channel :: "u16 \<Rightarrow> bool" where
  "is_valid_channel channel \<longleftrightarrow> 0x4000 \<le> channel"

text \<open>The buffer afterwards and the number of bytes of the message in it.\<close>

definition turn_wrap_channel_data :: "bytes \<Rightarrow> bytes \<Rightarrow> u16 \<Rightarrow> (bytes \<times> nat) res" where
  "turn_wrap_channel_data buffer data channel =
     (if \<not> is_valid_channel channel then Inl Fail
      else if 65536 \<le> length data then Inl Fail
      else if length buffer < 4 + length data then Inl Fail
      else Inr (put16 channel @ put16 (of_nat (length data)) @ data @ drop (4 + length data) buffer, 4 + length data))"

section \<open>The table\<close>

datatype turn_entry_type = TURN_ENTRY_TYPE_EMPTY | TURN_ENTRY_TYPE_DELETED
  | TURN_ENTRY_TYPE_PERMISSION | TURN_ENTRY_TYPE_CHANNEL

fun turn_type_code :: "turn_entry_type \<Rightarrow> u32" where
  "turn_type_code TURN_ENTRY_TYPE_EMPTY = 0"
| "turn_type_code TURN_ENTRY_TYPE_DELETED = 1"
| "turn_type_code TURN_ENTRY_TYPE_PERMISSION = 2"
| "turn_type_code TURN_ENTRY_TYPE_CHANNEL = 3"

text \<open>Timestamps are milliseconds in 64 bits, which do not overflow in practice: integers here.\<close>

record turn_entry =
  te_type :: turn_entry_type
  te_timestamp :: int
  te_record :: addr_record
  te_transaction_id :: bytes
  te_channel :: u16
  te_fresh_transaction_id :: bool

record turn_map =
  tm_map :: "turn_entry list"
  tm_ordered_channels :: "nat list"
  tm_ordered_transaction_ids :: "nat list"

abbreviation map_size :: "turn_map \<Rightarrow> nat" where "map_size m \<equiv> length (tm_map m)"
abbreviation upd_entry :: "turn_map \<Rightarrow> nat \<Rightarrow> turn_entry \<Rightarrow> turn_map" where
  "upd_entry m i e \<equiv> m\<lparr>tm_map := (tm_map m)[i := e]\<rparr>"

text \<open>\<open>memcmp\<close> on arrays of the same length.\<close>

fun memcmp :: "bytes \<Rightarrow> bytes \<Rightarrow> int" where
  "memcmp (a # as) (b # bs) = (if a < b then -1 else if b < a then 1 else memcmp as bs)"
| "memcmp _ _ = 0"

section \<open>Searching the ordered arrays\<close>

function find_ordered_channel_rec :: "turn_map \<Rightarrow> u16 \<Rightarrow> nat \<Rightarrow> nat \<Rightarrow> nat" where
  "find_ordered_channel_rec m channel b e =
     (if e \<le> b then b
      else let pivot = b + (e - b) div 2; entry = tm_map m ! (tm_ordered_channels m ! pivot)
           in if channel < te_channel entry then find_ordered_channel_rec m channel b pivot
              else if te_channel entry < channel then find_ordered_channel_rec m channel (pivot + 1) e
              else pivot)"
  by pat_completeness auto
termination by (relation "measure (\<lambda>(m, c, b, e). e - b)") auto

function find_ordered_transaction_id_rec :: "turn_map \<Rightarrow> bytes \<Rightarrow> nat \<Rightarrow> nat \<Rightarrow> nat" where
  "find_ordered_transaction_id_rec m tid b e =
     (if e \<le> b then b
      else let pivot = b + (e - b) div 2; entry = tm_map m ! (tm_ordered_transaction_ids m ! pivot);
               ret = memcmp tid (te_transaction_id entry)
           in if ret < 0 then find_ordered_transaction_id_rec m tid b pivot
              else if 0 < ret then find_ordered_transaction_id_rec m tid (pivot + 1) e
              else pivot)"
  by pat_completeness auto
termination by (relation "measure (\<lambda>(m, c, b, e). e - b)") auto

declare find_ordered_channel_rec.simps [simp del] find_ordered_transaction_id_rec.simps [simp del]

definition find_ordered_channel :: "turn_map \<Rightarrow> u16 \<Rightarrow> nat" where
  "find_ordered_channel m channel = find_ordered_channel_rec m channel 0 (length (tm_ordered_channels m))"

definition find_ordered_transaction_id :: "turn_map \<Rightarrow> bytes \<Rightarrow> nat" where
  "find_ordered_transaction_id m tid =
     find_ordered_transaction_id_rec m tid 0 (length (tm_ordered_transaction_ids m))"

definition remove_ordered_transaction_id :: "turn_map \<Rightarrow> bytes \<Rightarrow> turn_map" where
  "remove_ordered_transaction_id m tid =
     (let pos = find_ordered_transaction_id m tid; ids = tm_ordered_transaction_ids m
      in if pos < length ids then m\<lparr>tm_ordered_transaction_ids := take pos ids @ drop (pos + 1) ids\<rparr> else m)"

text \<open>Shifting the tail of an array of \<open>cap\<close> pointers by one and storing \<open>x\<close> at \<open>pos\<close>.\<close>

definition insert_ordered :: "nat \<Rightarrow> nat list \<Rightarrow> nat \<Rightarrow> nat \<Rightarrow> nat list res" where
  "insert_ordered cap xs pos x =
     (if length xs < cap then Inr (take pos xs @ x # drop pos xs) else Inl OutOfBounds)"

section \<open>Probing\<close>

definition entry_matches :: "turn_entry \<Rightarrow> turn_entry_type \<Rightarrow> addr_record \<Rightarrow> bool" where
  "entry_matches e type r \<longleftrightarrow> te_type e = type \<and> addr_record_is_equal (te_record e) r False"

definition probe_stops :: "turn_map \<Rightarrow> addr_record \<Rightarrow> turn_entry_type \<Rightarrow> bool \<Rightarrow> nat \<Rightarrow> bool" where
  "probe_stops m r type allow_deleted pos =
     (let e = tm_map m ! pos
      in te_type e = TURN_ENTRY_TYPE_EMPTY \<or> entry_matches e type r
         \<or> allow_deleted \<and> te_type e = TURN_ENTRY_TYPE_DELETED)"

text \<open>Both positions are below \<open>map_size\<close>, as \<open>find_entry\<close> reduces them.\<close>

function find_entry_loop :: "turn_map \<Rightarrow> addr_record \<Rightarrow> turn_entry_type \<Rightarrow> bool \<Rightarrow> nat \<Rightarrow> nat \<Rightarrow> nat option" where
  "find_entry_loop m r type allow_deleted key pos =
     (if map_size m \<le> pos \<or> map_size m \<le> key then None
      else if probe_stops m r type allow_deleted pos then Some pos
      else let pos' = (pos + 1) mod map_size m
           in if pos' = key then None else find_entry_loop m r type allow_deleted key pos')"
  by pat_completeness auto
termination
proof (relation "measure (\<lambda>(m, r, t, d, key, pos). if pos < key then key - pos else map_size m + key - pos)", goal_cases)
  case (2 m r t d key pos pos')
  then consider "pos + 1 < map_size m" "pos' = pos + 1" | "pos + 1 = map_size m" "pos' = 0"
    by (cases "pos + 1 = map_size m") auto
  then show ?case using 2 by cases auto
qed simp

declare find_entry_loop.simps [simp del]

definition turn_key :: "turn_map \<Rightarrow> addr_record \<Rightarrow> turn_entry_type \<Rightarrow> nat" where
  "turn_key m r type = unat (addr_record_hash r False + turn_type_code type) mod map_size m"

definition find_entry :: "turn_map \<Rightarrow> addr_record \<Rightarrow> turn_entry_type \<Rightarrow> bool \<Rightarrow> nat option" where
  "find_entry m r type allow_deleted =
     find_entry_loop m r type allow_deleted (turn_key m r type) (turn_key m r type)"

section \<open>Operations\<close>

text \<open>
  \<open>now\<close> is what \<open>current_timestamp\<close> returns. A result is the boolean of the C function and the new
  table; a store past the end of an ordered array is an error.
\<close>

definition update_timestamp ::
  "turn_map \<Rightarrow> turn_entry_type \<Rightarrow> bytes \<Rightarrow> addr_record option \<Rightarrow> int \<Rightarrow> int \<Rightarrow> bool \<times> turn_map" where
  "update_timestamp m type tid record now duration =
     (case record of
        Some r \<Rightarrow>
          (case find_entry m r type True of
             None \<Rightarrow> (False, m)
           | Some i \<Rightarrow>
               let e = tm_map m ! i
               in if te_type e = type \<and> memcmp (te_transaction_id e) tid = 0 then (True, m)
                  else let e = (if te_type e = type then e else e\<lparr>te_type := type, te_record := r\<rparr>);
                           m = upd_entry m i e;
                           m = (if \<not> memory_is_zero (te_transaction_id e)
                                then remove_ordered_transaction_id m (te_transaction_id e) else m)
                       in (True, upd_entry m i (e\<lparr>te_transaction_id := tid, te_timestamp := now + duration,
                             te_fresh_transaction_id := False\<rparr>)))
      | None \<Rightarrow>
          let pos = find_ordered_transaction_id m tid
          in if pos = length (tm_ordered_transaction_ids m) then (False, m)
             else let i = tm_ordered_transaction_ids m ! pos; e = tm_map m ! i
                  in if te_type e \<noteq> type \<or> memcmp (te_transaction_id e) tid \<noteq> 0 then (False, m)
                     else (True, upd_entry m i (e\<lparr>te_timestamp := now + duration, te_fresh_transaction_id := False\<rparr>)))"

definition turn_entry_zero :: turn_entry where
  "turn_entry_zero = \<lparr>te_type = TURN_ENTRY_TYPE_EMPTY, te_timestamp = 0, te_record = addr_zero,
     te_transaction_id = replicate 12 0, te_channel = 0, te_fresh_transaction_id = False\<rparr>"

text \<open>\<open>alloc_ok\<close>: whether all three \<open>calloc\<close> succeed.\<close>

definition turn_init_map :: "bool \<Rightarrow> nat \<Rightarrow> turn_map option" where
  "turn_init_map alloc_ok sz =
     (if alloc_ok then Some \<lparr>tm_map = replicate (sz * 2) turn_entry_zero, tm_ordered_channels = [],
        tm_ordered_transaction_ids = []\<rparr> else None)"

definition turn_set_permission :: "turn_map \<Rightarrow> bytes \<Rightarrow> addr_record option \<Rightarrow> int \<Rightarrow> int \<Rightarrow> bool \<times> turn_map" where
  "turn_set_permission m tid record now duration =
     update_timestamp m TURN_ENTRY_TYPE_PERMISSION tid record now duration"

definition turn_has_permission :: "turn_map \<Rightarrow> addr_record \<Rightarrow> int \<Rightarrow> bool" where
  "turn_has_permission m r now =
     (case find_entry m r TURN_ENTRY_TYPE_PERMISSION False of
        None \<Rightarrow> False
      | Some i \<Rightarrow> if te_type (tm_map m ! i) \<noteq> TURN_ENTRY_TYPE_PERMISSION then False
                  else now < te_timestamp (tm_map m ! i))"

definition turn_bind_channel ::
  "turn_map \<Rightarrow> addr_record option \<Rightarrow> bytes option \<Rightarrow> u16 \<Rightarrow> int \<Rightarrow> int \<Rightarrow> (bool \<times> turn_map) res" where
  "turn_bind_channel m record tid channel now duration =
     (case record of
        None \<Rightarrow> Inr (False, m)
      | Some r \<Rightarrow>
          if \<not> is_valid_channel channel then Inr (False, m)
          else case find_entry m r TURN_ENTRY_TYPE_CHANNEL True of
            None \<Rightarrow> Inr (False, m)
          | Some i \<Rightarrow>
              let e = tm_map m ! i
              in if te_type e = TURN_ENTRY_TYPE_CHANNEL \<and> te_channel e \<noteq> 0
                 then if te_channel e \<noteq> channel then Inr (False, m)
                      else Inr (True, upd_entry m i (e\<lparr>te_timestamp := now + duration\<rparr>))
                 else let pos = find_ordered_channel m channel; cs = tm_ordered_channels m
                      in if pos < length cs \<and> te_channel (tm_map m ! (cs ! pos)) = channel then Inr (False, m)
                         else bindr (insert_ordered (map_size m) cs pos i) (\<lambda>cs'.
                           let e = (if te_type e \<noteq> TURN_ENTRY_TYPE_CHANNEL
                                    then e\<lparr>te_type := TURN_ENTRY_TYPE_CHANNEL, te_record := r\<rparr> else e);
                               e = e\<lparr>te_channel := channel, te_timestamp := now + duration\<rparr>;
                               e = (case tid of None \<Rightarrow> e
                                    | Some t \<Rightarrow> e\<lparr>te_transaction_id := t, te_fresh_transaction_id := True\<rparr>)
                           in Inr (True, (upd_entry m i e)\<lparr>tm_ordered_channels := cs'\<rparr>)))"

definition turn_find_channel :: "turn_map \<Rightarrow> u16 \<Rightarrow> addr_record option" where
  "turn_find_channel m channel =
     (if \<not> is_valid_channel channel then None
      else let pos = find_ordered_channel m channel
           in if pos = length (tm_ordered_channels m) then None
              else let e = tm_map m ! (tm_ordered_channels m ! pos)
                   in if te_channel e \<noteq> channel then None else Some (te_record e))"

definition turn_find_bound_channel :: "turn_map \<Rightarrow> u16 \<Rightarrow> int \<Rightarrow> addr_record option" where
  "turn_find_bound_channel m channel now =
     (if \<not> is_valid_channel channel then None
      else let pos = find_ordered_channel m channel
           in if pos = length (tm_ordered_channels m) then None
              else let e = tm_map m ! (tm_ordered_channels m ! pos)
                   in if te_channel e \<noteq> channel \<or> te_timestamp e \<le> now then None else Some (te_record e))"

text \<open>
  The loop that draws channel numbers until a free one comes up. The argument lists what the random
  generator will return; the loop has not ended when the list is used up.
\<close>

fun random_free_channel :: "turn_map \<Rightarrow> u16 list \<Rightarrow> (u16 \<times> u16 list) option" where
  "random_free_channel m [] = None"
| "random_free_channel m (r # rs) =
     (let c = random_channel_number r
      in if turn_find_channel m c \<noteq> None then random_free_channel m rs else Some (c, rs))"

definition turn_bind_random_channel ::
  "turn_map \<Rightarrow> addr_record option \<Rightarrow> u16 list \<Rightarrow> int \<Rightarrow> int \<Rightarrow> (u16 option \<times> turn_map) res option" where
  "turn_bind_random_channel m record draws now duration =
     (case random_free_channel m draws of
        None \<Rightarrow> None
      | Some (c, _) \<Rightarrow> Some (bindr (turn_bind_channel m record None c now duration) (\<lambda>(ok, m).
          Inr (if ok then Some c else None, m))))"

definition turn_bind_current_channel :: "turn_map \<Rightarrow> bytes \<Rightarrow> addr_record option \<Rightarrow> int \<Rightarrow> int \<Rightarrow> bool \<times> turn_map" where
  "turn_bind_current_channel m tid record now duration =
     update_timestamp m TURN_ENTRY_TYPE_CHANNEL tid record now duration"

definition turn_get_channel :: "turn_map \<Rightarrow> addr_record \<Rightarrow> u16 option" where
  "turn_get_channel m r =
     (case find_entry m r TURN_ENTRY_TYPE_CHANNEL False of
        None \<Rightarrow> None
      | Some i \<Rightarrow> if te_type (tm_map m ! i) \<noteq> TURN_ENTRY_TYPE_CHANNEL then None else Some (te_channel (tm_map m ! i)))"

definition turn_get_bound_channel :: "turn_map \<Rightarrow> addr_record \<Rightarrow> int \<Rightarrow> u16 option" where
  "turn_get_bound_channel m r now =
     (case find_entry m r TURN_ENTRY_TYPE_CHANNEL False of
        None \<Rightarrow> None
      | Some i \<Rightarrow>
          let e = tm_map m ! i
          in if te_type e \<noteq> TURN_ENTRY_TYPE_CHANNEL then None
             else if te_channel e = 0 \<or> te_timestamp e \<le> now then None else Some (te_channel e))"

definition set_transaction_id ::
  "turn_map \<Rightarrow> turn_entry_type \<Rightarrow> addr_record \<Rightarrow> bytes \<Rightarrow> (bool \<times> turn_map) res" where
  "set_transaction_id m type r tid =
     (if type \<noteq> TURN_ENTRY_TYPE_PERMISSION \<and> type \<noteq> TURN_ENTRY_TYPE_CHANNEL then Inr (False, m)
      else case find_entry m r type True of
        None \<Rightarrow> Inr (False, m)
      | Some i \<Rightarrow>
          let e = tm_map m ! i;
              m = (if te_type e = type \<and> \<not> memory_is_zero (te_transaction_id e)
                   then remove_ordered_transaction_id m (te_transaction_id e) else m);
              pos = find_ordered_transaction_id m tid
          in bindr (insert_ordered (map_size m) (tm_ordered_transaction_ids m) pos i) (\<lambda>ids.
             let e = (if te_type e \<noteq> type then e\<lparr>te_type := type, te_record := r\<rparr> else e)
             in Inr (True, (upd_entry m i (e\<lparr>te_transaction_id := tid, te_fresh_transaction_id := True\<rparr>))
                           \<lparr>tm_ordered_transaction_ids := ids\<rparr>)))"

definition find_transaction_id :: "turn_map \<Rightarrow> bytes \<Rightarrow> addr_record option" where
  "find_transaction_id m tid =
     (let pos = find_ordered_transaction_id m tid
      in if pos = length (tm_ordered_transaction_ids m) then None
         else let e = tm_map m ! (tm_ordered_transaction_ids m ! pos)
              in if memcmp (te_transaction_id e) tid \<noteq> 0 then None else Some (te_record e))"

fun random_free_tid :: "turn_map \<Rightarrow> bytes list \<Rightarrow> (bytes \<times> bytes list) option" where
  "random_free_tid m [] = None"
| "random_free_tid m (tid # draws) =
     (if find_transaction_id m tid \<noteq> None then random_free_tid m draws else Some (tid, draws))"

definition set_random_transaction_id ::
  "turn_map \<Rightarrow> turn_entry_type \<Rightarrow> addr_record \<Rightarrow> bytes list \<Rightarrow> (bytes option \<times> turn_map) res option" where
  "set_random_transaction_id m type r draws =
     (let fresh = (case find_entry m r type False of
                     Some i \<Rightarrow> if te_fresh_transaction_id (tm_map m ! i) then Some (te_transaction_id (tm_map m ! i)) else None
                   | None \<Rightarrow> None)
      in case fresh of
           Some tid \<Rightarrow> Some (Inr (Some tid, m))
         | None \<Rightarrow> (case random_free_tid m draws of
               None \<Rightarrow> None
             | Some (tid, _) \<Rightarrow> Some (bindr (set_transaction_id m type r tid) (\<lambda>(ok, m).
                 Inr (if ok then Some tid else None, m)))))"

definition turn_set_permission_transaction_id :: "turn_map \<Rightarrow> addr_record \<Rightarrow> bytes \<Rightarrow> (bool \<times> turn_map) res" where
  "turn_set_permission_transaction_id m r tid = set_transaction_id m TURN_ENTRY_TYPE_PERMISSION r tid"

definition turn_set_channel_transaction_id :: "turn_map \<Rightarrow> addr_record \<Rightarrow> bytes \<Rightarrow> (bool \<times> turn_map) res" where
  "turn_set_channel_transaction_id m r tid = set_transaction_id m TURN_ENTRY_TYPE_CHANNEL r tid"

definition turn_set_random_permission_transaction_id ::
  "turn_map \<Rightarrow> addr_record \<Rightarrow> bytes list \<Rightarrow> (bytes option \<times> turn_map) res option" where
  "turn_set_random_permission_transaction_id m r draws = set_random_transaction_id m TURN_ENTRY_TYPE_PERMISSION r draws"

definition turn_set_random_channel_transaction_id ::
  "turn_map \<Rightarrow> addr_record \<Rightarrow> bytes list \<Rightarrow> (bytes option \<times> turn_map) res option" where
  "turn_set_random_channel_transaction_id m r draws = set_random_transaction_id m TURN_ENTRY_TYPE_CHANNEL r draws"

definition turn_retrieve_transaction_id :: "turn_map \<Rightarrow> bytes \<Rightarrow> addr_record option \<times> turn_map" where
  "turn_retrieve_transaction_id m tid =
     (let pos = find_ordered_transaction_id m tid
      in if pos = length (tm_ordered_transaction_ids m) then (None, m)
         else let i = tm_ordered_transaction_ids m ! pos; e = tm_map m ! i
              in if memcmp (te_transaction_id e) tid \<noteq> 0 then (None, m)
                 else (Some (te_record e), upd_entry m i (e\<lparr>te_fresh_transaction_id := False\<rparr>)))"

end
