(* ===== verification/Turn_Search.thy ===== *)
theory Turn_Search
  imports Turn
begin

text \<open>
  The searches of the TURN table: binary search in the two ordered arrays, as an interface that both
  arrays satisfy, and probing in the hash table, which finds what a linear search finds.
\<close>

section \<open>Positions in ordered lists\<close>

text \<open>\<open>lower_pos ks k p\<close>: the keys before \<open>p\<close> are smaller than \<open>k\<close>, those from \<open>p\<close> on are not.\<close>

definition lower_pos :: "'k::linorder list \<Rightarrow> 'k \<Rightarrow> nat \<Rightarrow> bool" where
  "lower_pos ks k p \<longleftrightarrow> p \<le> length ks \<and> (\<forall>i < p. ks ! i < k) \<and> (\<forall>i. p \<le> i \<and> i < length ks \<longrightarrow> k \<le> ks ! i)"

lemma sorted_wrt_lower_pos:
  assumes "sorted_wrt (<) ks" "lower_pos ks k p"
  shows "k \<in> set ks \<longleftrightarrow> p < length ks \<and> ks ! p = k"
proof
  assume "k \<in> set ks"
  then obtain i where i: "i < length ks" "ks ! i = k" by (auto simp: in_set_conv_nth)
  then have "p \<le> i" using assms(2) unfolding lower_pos_def by (meson not_less less_irrefl)
  moreover have "\<not> p < i"
  proof
    assume "p < i"
    then have "ks ! p < ks ! i" using assms(1) i(1) by (auto simp: sorted_wrt_iff_nth_less)
    moreover have "k \<le> ks ! p" using assms(2) \<open>p < i\<close> i(1) unfolding lower_pos_def by auto
    ultimately show False using i(2) by simp
  qed
  ultimately show "p < length ks \<and> ks ! p = k" using i by (cases "i = p") auto
qed auto

lemma sorted_wrt_insert_lower:
  assumes "sorted_wrt (<) ks" "lower_pos ks k p" "k \<notin> set ks"
  shows "sorted_wrt (<) (take p ks @ k # drop p ks)"
proof -
  have "sorted_wrt (<) (take p ks @ drop p ks)" using assms(1) by simp
  then have s: "sorted_wrt (<) (take p ks)" "sorted_wrt (<) (drop p ks)"
    "\<forall>x \<in> set (take p ks). \<forall>y \<in> set (drop p ks). x < y" by (auto simp only: sorted_wrt_append)
  have "x < k" if "x \<in> set (take p ks)" for x
    using that assms(2) unfolding lower_pos_def by (auto simp: in_set_conv_nth)
  moreover have "k < y" if "y \<in> set (drop p ks)" for y
  proof -
    obtain i where "i < length ks - p" "y = ks ! (p + i)" using \<open>y \<in> set (drop p ks)\<close>
      by (auto simp: in_set_conv_nth)
    then have "k \<le> y" "y \<in> set ks" using assms(2) unfolding lower_pos_def by auto
    with assms(3) show ?thesis by (metis le_less)
  qed
  ultimately show ?thesis using s by (simp add: sorted_wrt_append)
qed

lemma sorted_wrt_remove:
  "sorted_wrt P ks \<Longrightarrow> sorted_wrt P (take p ks @ drop (Suc p) ks)"
proof (cases "p < length ks")
  case True
  assume "sorted_wrt P ks"
  then have "sorted_wrt P (take p ks @ ks ! p # drop (Suc p) ks)" using True by (simp add: id_take_nth_drop [symmetric])
  then show ?thesis by (simp add: sorted_wrt_append)
qed simp

lemma set_remove_nth:
  assumes "distinct xs" "p < length xs"
  shows "set (take p xs @ drop (Suc p) xs) = set xs - {xs ! p}"
proof -
  have "set xs = set (take p xs @ xs ! p # drop (Suc p) xs)" "distinct (take p xs @ xs ! p # drop (Suc p) xs)"
    using assms by (simp_all add: id_take_nth_drop [symmetric])
  then show ?thesis by auto
qed

lemma distinct_key: "sorted_wrt (<) (map f xs) \<Longrightarrow> distinct xs" for f :: "'a \<Rightarrow> 'k::linorder"
  by (induction xs) auto

section \<open>Binary search\<close>

text \<open>
  What the searches of both arrays share: \<open>key m x\<close> is the key of the entry \<open>x\<close> points to, \<open>arr m\<close> the
  array and \<open>good m k\<close> says when keys can be compared.
\<close>

locale ordered_search =
  fixes arr :: "'m \<Rightarrow> nat list" and key :: "'m \<Rightarrow> nat \<Rightarrow> 'k::linorder"
    and search :: "'m \<Rightarrow> 'k \<Rightarrow> nat \<Rightarrow> nat \<Rightarrow> nat" and good :: "'m \<Rightarrow> 'k \<Rightarrow> bool"
  assumes search_empty: "e \<le> b \<Longrightarrow> search m k b e = b"
    and search_split: "good m k \<Longrightarrow> b < e \<Longrightarrow> e \<le> length (arr m) \<Longrightarrow> p = b + (e - b) div 2 \<Longrightarrow>
      search m k b e = (if k < key m (arr m ! p) then search m k b p
        else if key m (arr m ! p) < k then search m k (Suc p) e else p)"
begin

abbreviation keys :: "'m \<Rightarrow> 'k list" where "keys m \<equiv> map (key m) (arr m)"

lemma search_lower:
  assumes "sorted_wrt (<) (keys m)" "good m k" "b \<le> e" "e \<le> length (arr m)"
    "\<forall>i < b. keys m ! i < k" "\<forall>i. e \<le> i \<and> i < length (arr m) \<longrightarrow> k \<le> keys m ! i"
  shows "lower_pos (keys m) k (search m k b e)"
  using assms
proof (induction "e - b" arbitrary: b e rule: less_induct)
  case less
  show ?case
  proof (cases "b < e")
    case True
    define p where "p = b + (e - b) div 2"
    then have p: "b \<le> p" "p < e" "p < length (arr m)" using True less.prems by auto
    have ord: "keys m ! i < keys m ! j" if "i < j" "j < length (arr m)" for i j
      using less.prems(1) that by (auto simp: sorted_wrt_iff_nth_less)
    note eq = search_split [OF less.prems(2) True less.prems(4) p_def]
    consider "k < keys m ! p" | "keys m ! p < k" | "keys m ! p = k" by (meson linorder_cases)
    then show ?thesis
    proof cases
      case 1
      then have "lower_pos (keys m) k (search m k b p)"
        using less.prems p ord [of p] by (intro less.hyps) (auto simp: le_less intro: less_trans)
      with eq 1 p show ?thesis by simp
    next
      case 2
      have "\<forall>i < Suc p. keys m ! i < k"
        using 2 ord p by (metis less_Suc_eq less_trans)
      with 2 have "lower_pos (keys m) k (search m k (Suc p) e)"
        using less.prems p by (intro less.hyps) auto
      with eq 2 p show ?thesis by (simp add: less_not_sym)
    next
      case 3
      have "keys m ! i < k" if "i < p" for i
        using ord [OF that p(3)] 3 by simp
      moreover have "k \<le> keys m ! i" if "p \<le> i" "i < length (arr m)" for i
        using ord [of p i] 3 that by (cases "i = p") auto
      ultimately show ?thesis using eq 3 p by (simp add: lower_pos_def)
    qed
  next
    case False
    with less.prems have "b = e" by simp
    with less.prems show ?thesis by (simp add: search_empty lower_pos_def)
  qed
qed

lemma search_all: "sorted_wrt (<) (keys m) \<Longrightarrow> good m k \<Longrightarrow> lower_pos (keys m) k (search m k 0 (length (arr m)))"
  by (rule search_lower) auto

lemma search_hit:
  assumes "sorted_wrt (<) (keys m)" "good m k"
  shows "k \<in> set (keys m) \<longleftrightarrow> search m k 0 (length (arr m)) < length (arr m)
    \<and> key m (arr m ! search m k 0 (length (arr m))) = k"
  using sorted_wrt_lower_pos [OF assms(1) search_all [OF assms]] by auto

lemma search_le: "sorted_wrt (<) (keys m) \<Longrightarrow> good m k \<Longrightarrow> search m k 0 (length (arr m)) \<le> length (arr m)"
  using search_all by (fastforce simp: lower_pos_def)

end

lemma memcmp_less: "length a = length b \<Longrightarrow> memcmp a b < 0 \<longleftrightarrow> a < b"
  by (induction a b rule: memcmp.induct) auto

lemma memcmp_greater: "length a = length b \<Longrightarrow> 0 < memcmp a b \<longleftrightarrow> b < a"
  by (induction a b rule: memcmp.induct) auto

lemma memcmp_eq_0: "length a = length b \<Longrightarrow> memcmp a b = 0 \<longleftrightarrow> a = b"
  by (induction a b rule: memcmp.induct) auto

interpretation channel_search: ordered_search tm_ordered_channels "\<lambda>m i. te_channel (tm_map m ! i)"
  find_ordered_channel_rec "\<lambda>_ _. True"
proof
  fix m k b e p assume "b < e" "p = b + (e - b) div (2::nat)"
  then show "find_ordered_channel_rec m k b e =
      (if k < te_channel (tm_map m ! (tm_ordered_channels m ! p)) then find_ordered_channel_rec m k b p
       else if te_channel (tm_map m ! (tm_ordered_channels m ! p)) < k then find_ordered_channel_rec m k (Suc p) e else p)"
    by (subst find_ordered_channel_rec.simps) (simp add: Let_def)
qed (simp add: find_ordered_channel_rec.simps)

text \<open>Transaction ids compare as byte strings of twelve bytes.\<close>

definition tids_12 :: "turn_map \<Rightarrow> bytes \<Rightarrow> bool" where
  "tids_12 m tid \<longleftrightarrow> length tid = 12 \<and> (\<forall>i \<in> set (tm_ordered_transaction_ids m). length (te_transaction_id (tm_map m ! i)) = 12)"

interpretation tid_search: ordered_search tm_ordered_transaction_ids "\<lambda>m i. te_transaction_id (tm_map m ! i)"
  find_ordered_transaction_id_rec tids_12
proof
  fix m k b e p
  assume a: "tids_12 m k" "b < e" "e \<le> length (tm_ordered_transaction_ids m)" "p = b + (e - b) div (2::nat)"
  then have "p < length (tm_ordered_transaction_ids m)" by auto
  then have l: "length k = length (te_transaction_id (tm_map m ! (tm_ordered_transaction_ids m ! p)))"
    using a(1) by (simp add: tids_12_def)
  show "find_ordered_transaction_id_rec m k b e =
      (if k < te_transaction_id (tm_map m ! (tm_ordered_transaction_ids m ! p)) then find_ordered_transaction_id_rec m k b p
       else if te_transaction_id (tm_map m ! (tm_ordered_transaction_ids m ! p)) < k
       then find_ordered_transaction_id_rec m k (Suc p) e else p)"
    using a(2,4) memcmp_less [OF l] memcmp_greater [OF l]
    by (subst find_ordered_transaction_id_rec.simps) (simp add: Let_def)
qed (simp add: find_ordered_transaction_id_rec.simps)

section \<open>Probing\<close>

lemma find_upt_step:
  "d < n \<Longrightarrow> find P [d..<n] = (if P d then Some d else find P [Suc d..<n])"
  by (simp add: upt_conv_Cons)

lemma find_upt_Some: "find P [0..<n] = Some D \<longleftrightarrow> D < n \<and> P D \<and> (\<forall>d < D. \<not> P d)"
  by (auto simp: find_Some_iff)

text \<open>The loop from \<open>d\<close> steps after the key on: the first position, in cyclic order, where it stops.\<close>

lemma find_entry_loop_eq:
  assumes "d < map_size m" "key < map_size m"
  shows "find_entry_loop m r type del key ((key + d) mod map_size m) =
    map_option (\<lambda>x. (key + x) mod map_size m)
      (find (\<lambda>x. probe_stops m r type del ((key + x) mod map_size m)) [d..<map_size m])"
  using assms
proof (induction "map_size m - d" arbitrary: d rule: less_induct)
  case less
  let ?n = "map_size m"
  have lt: "(key + d) mod ?n < ?n" using less.prems(1) by (metis mod_less_divisor less_nat_zero_code neq0_conv)
  have step: "Suc ((key + d) mod ?n) mod ?n = Suc (key + d) mod ?n" by (simp add: mod_Suc_eq)
  show ?case
  proof (cases "Suc d < ?n")
    case True
    have "(key + Suc d) mod ?n \<noteq> key"
    proof (cases "key + Suc d < ?n")
      case False
      then have "(key + Suc d) mod ?n = key + Suc d - ?n" using True less.prems by (simp add: mod_if)
      then show ?thesis using True False less.prems by simp
    qed simp
    moreover have "find_entry_loop m r type del key ((key + Suc d) mod ?n) =
        map_option (\<lambda>x. (key + x) mod ?n) (find (\<lambda>x. probe_stops m r type del ((key + x) mod ?n)) [Suc d..<?n])"
      using less.prems True by (intro less.hyps) auto
    ultimately show ?thesis using lt less.prems
      by (subst find_entry_loop.simps) (simp add: Let_def step find_upt_step)
  next
    case False
    with less.prems have d: "Suc d = ?n" by simp
    then have "Suc (key + d) mod ?n = key" using less.prems
      by (metis add_Suc_right mod_add_self2 mod_less)
    with d lt less.prems show ?thesis
      by (subst find_entry_loop.simps) (simp add: Let_def step find_upt_step)
  qed
qed

lemma turn_key_less: "0 < map_size m \<Longrightarrow> turn_key m r type < map_size m"
  by (simp add: turn_key_def)

lemma find_entry_eq:
  assumes "0 < map_size m"
  shows "find_entry m r type del = map_option (\<lambda>x. (turn_key m r type + x) mod map_size m)
    (find (\<lambda>x. probe_stops m r type del ((turn_key m r type + x) mod map_size m)) [0..<map_size m])"
  using find_entry_loop_eq [of 0 m "turn_key m r type"] turn_key_less [OF assms] assms
  by (simp add: find_entry_def)

text \<open>A slot \<open>i\<close> is \<open>reached\<close> for a record when probing passes the slots before it.\<close>

definition reached :: "turn_map \<Rightarrow> turn_entry_type \<Rightarrow> addr_record \<Rightarrow> nat \<Rightarrow> bool" where
  "reached m type r i \<longleftrightarrow> (\<exists>D < map_size m. i = (turn_key m r type + D) mod map_size m
     \<and> (\<forall>d < D. \<not> probe_stops m r type True ((turn_key m r type + d) mod map_size m)))"

definition no_deleted :: "turn_map \<Rightarrow> bool" where
  "no_deleted m \<longleftrightarrow> (\<forall>e \<in> set (tm_map m). te_type e \<noteq> TURN_ENTRY_TYPE_DELETED)"

lemma probe_stops_no_deleted:
  "no_deleted m \<Longrightarrow> i < map_size m \<Longrightarrow> probe_stops m r type del i = probe_stops m r type True i"
  by (auto simp: probe_stops_def no_deleted_def Let_def)

lemma find_entry_Some:
  assumes "0 < map_size m" "no_deleted m"
  shows "find_entry m r type del = Some i \<longleftrightarrow> reached m type r i \<and> probe_stops m r type del i"
proof -
  let ?n = "map_size m" and ?k = "turn_key m r type"
  have mod: "(?k + x) mod ?n < ?n" for x using assms(1) by simp
  have st: "probe_stops m r type del ((?k + x) mod ?n) = probe_stops m r type True ((?k + x) mod ?n)" for x
    using probe_stops_no_deleted [OF assms(2) mod] .
  have "find_entry m r type del = Some i \<longleftrightarrow>
      (\<exists>D. find (\<lambda>x. probe_stops m r type del ((?k + x) mod ?n)) [0..<?n] = Some D \<and> i = (?k + D) mod ?n)"
    unfolding find_entry_eq [OF assms(1)] by auto
  also have "\<dots> \<longleftrightarrow> reached m type r i \<and> probe_stops m r type del i"
    by (auto simp: find_upt_Some reached_def st)
  finally show ?thesis .
qed

lemma find_entry_None:
  assumes "0 < map_size m" "find_entry m r type del = None" "i < map_size m"
  shows "\<not> probe_stops m r type del i"
proof -
  let ?n = "map_size m" and ?k = "turn_key m r type"
  have k: "?k < ?n" using assms(1) by (rule turn_key_less)
  define d where "d = (if ?k \<le> i then i - ?k else ?n + i - ?k)"
  have d: "d < ?n" "(?k + d) mod ?n = i" using k assms(3) by (auto simp: d_def mod_if)
  have "find (\<lambda>x. probe_stops m r type del ((?k + x) mod ?n)) [0..<?n] = None"
    using assms(2) unfolding find_entry_eq [OF assms(1)] by simp
  with d show ?thesis by (auto simp: find_None_iff)
qed

end
