(* ===== verification/Turn_Table.thy ===== *)
theory Turn_Table
  imports Turn_Search
begin

text \<open>
  The invariant of the TURN table and what its operations do to the abstract table, the linear
  search of a record among the entries.
\<close>

section \<open>Invariant\<close>

abbreviation empty_type where "empty_type \<equiv> TURN_ENTRY_TYPE_EMPTY"
abbreviation known_record :: "addr_record \<Rightarrow> bool" where "known_record r \<equiv> addr_known (ar_addr r)"
abbreviation same_addr :: "addr_record \<Rightarrow> addr_record \<Rightarrow> bool" where
  "same_addr a b \<equiv> addr_record_is_equal a b False"

definition entry_ok :: "turn_entry \<Rightarrow> bool" where
  "entry_ok e \<longleftrightarrow> te_type e \<noteq> TURN_ENTRY_TYPE_DELETED \<and> length (te_transaction_id e) = 12
     \<and> (te_type e \<noteq> empty_type \<longrightarrow> known_record (te_record e))
     \<and> (te_type e = empty_type \<longrightarrow> e = turn_entry_zero)
     \<and> (te_channel e \<noteq> 0 \<longrightarrow> te_type e = TURN_ENTRY_TYPE_CHANNEL \<and> is_valid_channel (te_channel e))"

definition table_inv :: "turn_map \<Rightarrow> bool" where
  "table_inv m \<longleftrightarrow> 0 < map_size m \<and> (\<forall>i < map_size m. let e = tm_map m ! i in entry_ok e
     \<and> (te_type e \<noteq> empty_type \<longrightarrow> reached m (te_type e) (te_record e) i))"

definition channels_inv :: "turn_map \<Rightarrow> bool" where
  "channels_inv m \<longleftrightarrow> sorted_wrt (<) (map (\<lambda>i. te_channel (tm_map m ! i)) (tm_ordered_channels m))
     \<and> set (tm_ordered_channels m) = {i. i < map_size m \<and> te_channel (tm_map m ! i) \<noteq> 0}"

definition tids_inv :: "turn_map \<Rightarrow> bool" where
  "tids_inv m \<longleftrightarrow> sorted_wrt (<) (map (\<lambda>i. te_transaction_id (tm_map m ! i)) (tm_ordered_transaction_ids m))
     \<and> set (tm_ordered_transaction_ids m) = {i. i < map_size m \<and> \<not> memory_is_zero (te_transaction_id (tm_map m ! i))}"

text \<open>The reference: linear search.\<close>

definition turn_lookup :: "turn_map \<Rightarrow> turn_entry_type \<Rightarrow> addr_record \<Rightarrow> turn_entry option" where
  "turn_lookup m type r = find (\<lambda>e. entry_matches e type r) (tm_map m)"

lemma table_invD:
  assumes "table_inv m" "i < map_size m"
  shows "entry_ok (tm_map m ! i)"
    "te_type (tm_map m ! i) \<noteq> empty_type \<Longrightarrow> reached m (te_type (tm_map m ! i)) (te_record (tm_map m ! i)) i"
  using assms by (auto simp: table_inv_def Let_def)

lemma table_inv_basic: "table_inv m \<Longrightarrow> 0 < map_size m" "table_inv m \<Longrightarrow> no_deleted m"
  by (auto simp: table_inv_def no_deleted_def entry_ok_def in_set_conv_nth Let_def)

lemma entry_matches_same: "same_addr r r' \<Longrightarrow> entry_matches e type r = entry_matches e type r'"
  by (simp add: entry_matches_def record_key.eq_right)

lemma reached_same:
  assumes "same_addr r r'"
  shows "reached m type r i = reached m type r' i"
proof -
  have "turn_key m r type = turn_key m r' type" using record_key.eq_hash [OF assms] by (simp add: turn_key_def)
  then show ?thesis by (simp add: reached_def probe_stops_def entry_matches_same [OF assms])
qed

lemma reached_less: "reached m type r i \<Longrightarrow> i < map_size m"
  by (auto simp: reached_def) (metis length_0_conv mod_less_divisor neq0_conv not_less_zero)

lemma match_found:
  assumes "table_inv m" "i < map_size m" "entry_matches (tm_map m ! i) type r" "type \<noteq> empty_type"
  shows "find_entry m r type del = Some i"
proof -
  have "reached m type (te_record (tm_map m ! i)) i"
    using table_invD(2) [OF assms(1,2)] assms(3,4) by (simp add: entry_matches_def)
  then have "reached m type r i" using assms(3) reached_same by (auto simp: entry_matches_def)
  with assms(3) show ?thesis
    using table_inv_basic [OF assms(1)] by (simp add: find_entry_Some probe_stops_def)
qed

lemma found_cases:
  assumes "table_inv m" "find_entry m r type del = Some i"
  shows "i < map_size m" "te_type (tm_map m ! i) = empty_type \<or> entry_matches (tm_map m ! i) type r"
    "reached m type r i"
  using assms table_inv_basic [OF assms(1)] reached_less [of m type r i] table_invD(1) [of m i]
  by (auto simp: find_entry_Some probe_stops_def Let_def entry_ok_def)

lemma lookup_Some:
  assumes "table_inv m" "type \<noteq> empty_type"
  shows "turn_lookup m type r = Some e \<longleftrightarrow> (\<exists>i < map_size m. tm_map m ! i = e \<and> entry_matches e type r)"
proof
  assume "turn_lookup m type r = Some e"
  then show "\<exists>i < map_size m. tm_map m ! i = e \<and> entry_matches e type r"
    by (auto simp: turn_lookup_def find_Some_iff)
next
  assume "\<exists>i < map_size m. tm_map m ! i = e \<and> entry_matches e type r"
  then obtain i where i: "i < map_size m" "tm_map m ! i = e" "entry_matches e type r" by blast
  show "turn_lookup m type r = Some e"
  proof (cases "turn_lookup m type r")
    case None
    with i show ?thesis by (auto simp: turn_lookup_def find_None_iff)
  next
    case (Some e')
    then obtain j where j: "j < map_size m" "tm_map m ! j = e'" "entry_matches e' type r"
      by (auto simp: turn_lookup_def find_Some_iff)
    have "find_entry m r type True = Some j" "find_entry m r type True = Some i"
      using i j by (auto intro: match_found [OF assms(1) _ _ assms(2)])
    with Some i j show ?thesis by simp
  qed
qed

text \<open>Probing and linear search agree.\<close>

lemma find_entry_lookup:
  assumes "table_inv m" "type \<noteq> empty_type"
  shows "(case find_entry m r type del of None \<Rightarrow> None
          | Some i \<Rightarrow> if te_type (tm_map m ! i) \<noteq> type then None else Some (tm_map m ! i)) = turn_lookup m type r"
proof (cases "turn_lookup m type r")
  case None
  then have "\<not> entry_matches (tm_map m ! i) type r" if "i < map_size m" for i
    using that by (auto simp: turn_lookup_def find_None_iff)
  then show ?thesis
    using None found_cases [OF assms(1)] assms(2) by (auto split: option.split) metis
next
  case (Some e)
  then obtain i where i: "i < map_size m" "tm_map m ! i = e" "entry_matches e type r"
    using lookup_Some [OF assms] by auto
  with match_found [OF assms(1) i(1) _ assms(2)] show ?thesis using Some by (auto simp: entry_matches_def)
qed

section \<open>Writing a slot\<close>

text \<open>
  \<open>put_at m r type i e\<close>: slot \<open>i\<close> is where probing for the record ends, and the entry \<open>e\<close> to be stored is
  for that record; an entry that was there keeps its type and its record.
\<close>

definition put_at :: "turn_map \<Rightarrow> addr_record \<Rightarrow> turn_entry_type \<Rightarrow> nat \<Rightarrow> turn_entry \<Rightarrow> bool" where
  "put_at m r type i e \<longleftrightarrow> find_entry m r type True = Some i \<and> type \<noteq> empty_type \<and> known_record r \<and> entry_ok e
     \<and> te_type e = type \<and> te_record e = (if te_type (tm_map m ! i) = type then te_record (tm_map m ! i) else r)"

lemma probe_stops_put:
  assumes "table_inv m" "put_at m r type i e" "\<not> probe_stops m r' type' True x" "x < map_size m"
  shows "\<not> probe_stops (upd_entry m i e) r' type' True x"
proof (cases "x = i")
  case True
  with assms(3) have "te_type (tm_map m ! i) \<noteq> empty_type" by (auto simp: probe_stops_def Let_def)
  then have "entry_matches (tm_map m ! i) type r"
    using found_cases(2) [OF assms(1)] assms(2) by (auto simp: put_at_def)
  then have "te_type e = te_type (tm_map m ! i)" "te_record e = te_record (tm_map m ! i)"
    using assms(2) by (simp_all add: put_at_def entry_matches_def)
  with assms(3,4) True show ?thesis by (simp add: probe_stops_def entry_matches_def Let_def)
next
  case False
  with assms(3) show ?thesis by (simp add: probe_stops_def Let_def)
qed

lemma reached_put:
  assumes "table_inv m" "put_at m r type i e" "reached m type' r' j"
  shows "reached (upd_entry m i e) type' r' j"
  using assms(3) probe_stops_put [OF assms(1,2)] table_inv_basic(1) [OF assms(1)]
  by (auto simp: reached_def turn_key_def)

lemma table_inv_put:
  assumes "table_inv m" "put_at m r type i e"
  shows "table_inv (upd_entry m i e)"
proof -
  have f: "find_entry m r type True = Some i" and e: "te_type e = type" "entry_ok e"
    using assms(2) by (auto simp: put_at_def)
  note fc = found_cases [OF assms(1) f]
  have "reached m type (te_record e) i"
  proof (cases "te_type (tm_map m ! i) = type")
    case True
    then have "te_record e = te_record (tm_map m ! i)" using assms(2) by (simp add: put_at_def)
    then show ?thesis using table_invD(2) [OF assms(1) fc(1)] True assms(2) by (simp add: put_at_def)
  next
    case False
    then show ?thesis using fc(3) assms(2) by (simp add: put_at_def)
  qed
  then have "reached (upd_entry m i e) (te_type e) (te_record e) i"
    using reached_put [OF assms] e by simp
  then show ?thesis
    unfolding table_inv_def
    using table_inv_basic(1) [OF assms(1)] table_invD [OF assms(1)] reached_put [OF assms] e fc(1)
    by (auto simp: nth_list_update Let_def)
qed

lemma lookup_put:
  assumes "table_inv m" "put_at m r type i e" "type' \<noteq> empty_type"
  shows "turn_lookup (upd_entry m i e) type' r' =
    (if type' = type \<and> same_addr r r' then Some e else turn_lookup m type' r')"
proof -
  have f: "find_entry m r type True = Some i" and e: "te_type e = type" "type \<noteq> empty_type" "known_record r"
    using assms(2) by (auto simp: put_at_def)
  note fc = found_cases [OF assms(1) f]
  note inv' = table_inv_put [OF assms(1,2)]
  have same: "same_addr (te_record e) x = same_addr r x" for x
  proof (cases "te_type (tm_map m ! i) = type")
    case True
    then have "same_addr (te_record (tm_map m ! i)) r" using fc(2) e by (auto simp: entry_matches_def)
    then show ?thesis using assms(2) True record_key.eq_left by (simp add: put_at_def)
  next
    case False
    then show ?thesis using assms(2) by (simp add: put_at_def)
  qed
  show ?thesis
  proof (cases "type' = type \<and> same_addr r r'")
    case True
    then have "entry_matches e type' r'" using e same by (simp add: entry_matches_def)
    then have "turn_lookup (upd_entry m i e) type' r' = Some e"
      using fc(1) by (subst lookup_Some [OF inv' assms(3)]) auto
    with True show ?thesis by simp
  next
    case False
    then have ne: "\<not> entry_matches e type' r'" using e same by (auto simp: entry_matches_def)
    have ni: "\<not> entry_matches (tm_map m ! i) type' r'"
      using False fc(2) assms(3) record_key.eq_left [of "te_record (tm_map m ! i)" r] by (auto simp: entry_matches_def)
    have "((tm_map m)[i := e] ! j = x \<and> entry_matches x type' r') = (tm_map m ! j = x \<and> entry_matches x type' r')"
      if "j < map_size m" for j x
      using ne ni that by (cases "j = i") auto
    then have "turn_lookup (upd_entry m i e) type' r' = Some x \<longleftrightarrow> turn_lookup m type' r' = Some x" for x
      unfolding lookup_Some [OF inv' assms(3)] lookup_Some [OF assms(1,3)] by auto
    then have "turn_lookup (upd_entry m i e) type' r' = turn_lookup m type' r'"
      by (metis option.exhaust)
    with False show ?thesis by auto
  qed
qed

text \<open>The arrays do not matter for probing.\<close>

lemma arrays_frame [simp]:
  "table_inv (m\<lparr>tm_ordered_channels := cs\<rparr>) = table_inv m" "table_inv (m\<lparr>tm_ordered_transaction_ids := ids\<rparr>) = table_inv m"
  "turn_lookup (m\<lparr>tm_ordered_channels := cs\<rparr>) = turn_lookup m"
  "turn_lookup (m\<lparr>tm_ordered_transaction_ids := ids\<rparr>) = turn_lookup m"
  by (auto simp: table_inv_def reached_def probe_stops_def turn_key_def turn_lookup_def fun_eq_iff)

lemma channels_frame [simp]: "channels_inv (m\<lparr>tm_ordered_transaction_ids := ids\<rparr>) = channels_inv m"
  by (simp add: channels_inv_def)

text \<open>Storing an entry with the same channel, or with the same transaction id, keeps the arrays in order.\<close>

lemma channels_inv_put_same:
  assumes "channels_inv m" "te_channel e = te_channel (tm_map m ! i)" "i < map_size m"
  shows "channels_inv (upd_entry m i e)"
proof -
  have "te_channel ((tm_map m)[i := e] ! j) = te_channel (tm_map m ! j)" for j
    using assms by (cases "j = i") auto
  with assms(1) show ?thesis by (simp add: channels_inv_def)
qed

lemma tids_inv_put_same:
  assumes "tids_inv m" "te_transaction_id e = te_transaction_id (tm_map m ! i)" "i < map_size m"
  shows "tids_inv (upd_entry m i e)"
proof -
  have "te_transaction_id ((tm_map m)[i := e] ! j) = te_transaction_id (tm_map m ! j)" for j
    using assms by (cases "j = i") auto
  with assms(1) show ?thesis by (simp add: tids_inv_def)
qed

lemma tids_frame [simp]: "tids_inv (m\<lparr>tm_ordered_channels := cs\<rparr>) = tids_inv m"
  by (simp add: tids_inv_def)

section \<open>Refreshing an entry\<close>

abbreviation usable_type :: "turn_entry_type \<Rightarrow> bool" where
  "usable_type type \<equiv> type = TURN_ENTRY_TYPE_PERMISSION \<or> type = TURN_ENTRY_TYPE_CHANNEL"

text \<open>What \<open>update_timestamp\<close> makes of the entry of a record: a retransmission leaves it alone.\<close>

definition refreshed ::
  "turn_entry option \<Rightarrow> turn_entry_type \<Rightarrow> addr_record \<Rightarrow> bytes \<Rightarrow> int \<Rightarrow> turn_entry" where
  "refreshed old type r tid expiry =
     (case old of
        None \<Rightarrow> turn_entry_zero\<lparr>te_type := type, te_record := r, te_transaction_id := tid, te_timestamp := expiry\<rparr>
      | Some e \<Rightarrow> if te_transaction_id e = tid then e
                  else e\<lparr>te_transaction_id := tid, te_timestamp := expiry, te_fresh_transaction_id := False\<rparr>)"

lemma remove_ordered_frame:
  obtains ids where "remove_ordered_transaction_id m tid = m\<lparr>tm_ordered_transaction_ids := ids\<rparr>"
    "length ids \<le> length (tm_ordered_transaction_ids m)"
proof -
  have "\<exists>ids. remove_ordered_transaction_id m tid = m\<lparr>tm_ordered_transaction_ids := ids\<rparr>
      \<and> length ids \<le> length (tm_ordered_transaction_ids m)"
  proof (cases "find_ordered_transaction_id m tid < length (tm_ordered_transaction_ids m)")
    case True
    let ?p = "find_ordered_transaction_id m tid" and ?ids = "tm_ordered_transaction_ids m"
    show ?thesis using True
      by (intro exI [of _ "take ?p ?ids @ drop (?p + 1) ?ids"]) (simp add: remove_ordered_transaction_id_def Let_def)
  next
    case False
    then show ?thesis
      by (intro exI [of _ "tm_ordered_transaction_ids m"]) (simp add: remove_ordered_transaction_id_def Let_def)
  qed
  then show thesis using that by blast
qed

lemma upd_frame:
  "(upd_entry m i e)\<lparr>tm_ordered_transaction_ids := ids\<rparr> = upd_entry (m\<lparr>tm_ordered_transaction_ids := ids\<rparr>) i e"
  by simp

lemma memory_is_zero_replicate [simp]: "memory_is_zero (replicate n 0)"
  by (simp add: memory_is_zero_def list_all_iff)

text \<open>A found slot is the entry of the record or an empty one.\<close>

lemma found_slot:
  assumes "table_inv m" "find_entry m r type True = Some i" "usable_type type"
  obtains (old) "te_type (tm_map m ! i) = type" "turn_lookup m type r = Some (tm_map m ! i)"
    | (new) "tm_map m ! i = turn_entry_zero" "turn_lookup m type r = None"
proof (cases "te_type (tm_map m ! i) = type")
  case True
  have ne: "type \<noteq> empty_type" using assms(3) by auto
  show thesis using old True find_entry_lookup [OF assms(1) ne, of r True] assms(2) by simp
next
  case False
  have ne: "type \<noteq> empty_type" using assms(3) by auto
  have "te_type (tm_map m ! i) = empty_type"
    using found_cases(2) [OF assms(1,2)] False by (auto simp: entry_matches_def)
  then have "tm_map m ! i = turn_entry_zero"
    using table_invD(1) [OF assms(1) found_cases(1) [OF assms(1,2)]] by (simp add: entry_ok_def)
  then show thesis using new False find_entry_lookup [OF assms(1) ne, of r True] assms(2) by simp
qed

lemma update_timestamp_record:
  assumes "table_inv m" "channels_inv m" "known_record r" "usable_type type" "length tid = 12"
    and upd: "update_timestamp m type tid (Some r) now d = (True, m')"
  obtains i ids where "m' = upd_entry (m\<lparr>tm_ordered_transaction_ids := ids\<rparr>) i (refreshed (turn_lookup m type r) type r tid (now + d))"
    "put_at m r type i (refreshed (turn_lookup m type r) type r tid (now + d))"
    "te_channel (refreshed (turn_lookup m type r) type r tid (now + d)) = te_channel (tm_map m ! i)"
    "length ids \<le> length (tm_ordered_transaction_ids m)"
proof -
  from upd obtain i where f: "find_entry m r type True = Some i"
    by (auto simp: update_timestamp_def Let_def split: option.splits if_splits)
  note fc = found_cases [OF assms(1) f]
  have ok: "entry_ok (tm_map m ! i)" by (rule table_invD(1) [OF assms(1) fc(1)])
  let ?e = "tm_map m ! i"
  from assms(1) f assms(4) show thesis
  proof (cases rule: found_slot)
    case old
    have l: "memcmp (te_transaction_id ?e) tid = 0 \<longleftrightarrow> te_transaction_id ?e = tid"
      using ok assms(5) by (intro memcmp_eq_0) (simp add: entry_ok_def)
    have put: "put_at m r type i (refreshed (turn_lookup m type r) type r tid (now + d))"
      using f assms(3-5) ok old by (auto simp: put_at_def refreshed_def entry_ok_def)
    obtain ids where ids: "remove_ordered_transaction_id (upd_entry m i ?e) (te_transaction_id ?e)
        = (upd_entry m i ?e)\<lparr>tm_ordered_transaction_ids := ids\<rparr>" "length ids \<le> length (tm_ordered_transaction_ids m)"
      using remove_ordered_frame [of "upd_entry m i ?e" "te_transaction_id ?e"] by auto
    show thesis
    proof (cases "te_transaction_id ?e = tid")
      case True
      then have "m' = m" using upd f old l by (simp add: update_timestamp_def Let_def)
      then show thesis using True old put
        by (intro that [of "tm_ordered_transaction_ids m" i]) (simp_all add: refreshed_def)
    next
      case False
      then show thesis using upd f old l put ids
        by (intro that [of "if memory_is_zero (te_transaction_id ?e) then tm_ordered_transaction_ids m else ids" i])
          (auto simp: update_timestamp_def refreshed_def Let_def list_update_overwrite)
    qed
  next
    case new
    have ne: "te_type ?e \<noteq> type" using new assms(4) by (auto simp: turn_entry_zero_def)
    have put: "put_at m r type i (refreshed (turn_lookup m type r) type r tid (now + d))"
      using f assms(3-5) new ne by (auto simp: put_at_def refreshed_def entry_ok_def turn_entry_zero_def)
    have "m' = upd_entry m i (refreshed (turn_lookup m type r) type r tid (now + d))"
      using upd f new ne by (auto simp: update_timestamp_def refreshed_def Let_def turn_entry_zero_def)
    with put new show thesis
      by (intro that [of "tm_ordered_transaction_ids m" i]) (simp_all add: refreshed_def turn_entry_zero_def)
  qed
qed

lemma ids_frame:
  "table_inv (upd_entry (m\<lparr>tm_ordered_transaction_ids := ids\<rparr>) i e) = table_inv (upd_entry m i e)"
  "channels_inv (upd_entry (m\<lparr>tm_ordered_transaction_ids := ids\<rparr>) i e) = channels_inv (upd_entry m i e)"
  "turn_lookup (upd_entry (m\<lparr>tm_ordered_transaction_ids := ids\<rparr>) i e) = turn_lookup (upd_entry m i e)"
  by (simp_all only: upd_frame [symmetric] arrays_frame channels_frame)

definition table_full :: "turn_map \<Rightarrow> bool" where
  "table_full m \<longleftrightarrow> (\<forall>i < map_size m. te_type (tm_map m ! i) \<noteq> empty_type)"

lemma not_found:
  assumes "table_inv m" "find_entry m r type del = None" "type \<noteq> empty_type"
  shows "turn_lookup m type r = None" "table_full m"
  using find_entry_None [OF table_inv_basic(1) [OF assms(1)] assms(2)] find_entry_lookup [OF assms(1,3), of r del] assms(2)
  by (auto simp: table_full_def probe_stops_def Let_def)

lemma update_timestamp_spec:
  assumes "table_inv m" "channels_inv m" "known_record r" "usable_type type" "length tid = 12"
    and upd: "update_timestamp m type tid (Some r) now d = (ok, m')"
  shows "table_inv m' \<and> channels_inv m' \<and> map_size m' = map_size m
    \<and> (tm_ordered_transaction_ids m = [] \<longrightarrow> tm_ordered_transaction_ids m' = [])
    \<and> (\<not> ok \<longrightarrow> m' = m \<and> turn_lookup m type r = None \<and> table_full m)
    \<and> (ok \<longrightarrow> (\<forall>type' r'. type' \<noteq> empty_type \<longrightarrow> turn_lookup m' type' r' =
         (if type' = type \<and> same_addr r r' then Some (refreshed (turn_lookup m type r) type r tid (now + d))
          else turn_lookup m type' r')))"
proof (cases ok)
  case True
  with upd have "update_timestamp m type tid (Some r) now d = (True, m')" by simp
  from assms(1-5) this obtain i ids where
    m': "m' = upd_entry (m\<lparr>tm_ordered_transaction_ids := ids\<rparr>) i (refreshed (turn_lookup m type r) type r tid (now + d))"
    and put: "put_at m r type i (refreshed (turn_lookup m type r) type r tid (now + d))"
    and ch: "te_channel (refreshed (turn_lookup m type r) type r tid (now + d)) = te_channel (tm_map m ! i)"
    and ids: "length ids \<le> length (tm_ordered_transaction_ids m)"
    by (rule update_timestamp_record)
  have i: "i < map_size m" using found_cases(1) [OF assms(1)] put by (auto simp: put_at_def)
  have "table_inv m'" "channels_inv m'"
    unfolding m' ids_frame by (rule table_inv_put [OF assms(1) put], rule channels_inv_put_same [OF assms(2) ch i])
  moreover have "turn_lookup m' type' r' =
      (if type' = type \<and> same_addr r r' then Some (refreshed (turn_lookup m type r) type r tid (now + d))
       else turn_lookup m type' r')" if "type' \<noteq> empty_type" for type' r'
    unfolding m' ids_frame by (rule lookup_put [OF assms(1) put that])
  ultimately show ?thesis using True ids m' by auto
next
  case False
  with upd have "find_entry m r type True = None" "m' = m"
    by (auto simp: update_timestamp_def Let_def split: option.splits if_splits)
  then show ?thesis using False assms not_found [OF assms(1), of r type True] by auto
qed

text \<open>Without a record, the entry is found by its transaction id; only its expiry and freshness change.\<close>

lemma entry_found_by_tid:
  assumes "table_inv m" "tids_inv m" "length tid = 12" "\<not> memory_is_zero tid"
  shows "(let pos = find_ordered_transaction_id m tid
          in pos < length (tm_ordered_transaction_ids m)
             \<and> te_transaction_id (tm_map m ! (tm_ordered_transaction_ids m ! pos)) = tid)
    \<longleftrightarrow> (\<exists>i < map_size m. te_transaction_id (tm_map m ! i) = tid)"
    and "find_ordered_transaction_id m tid \<le> length (tm_ordered_transaction_ids m)"
    and "tids_12 m tid"
proof -
  have "length (te_transaction_id (tm_map m ! i)) = 12" if "i < map_size m" for i
    using table_invD(1) [OF assms(1) that] by (simp add: entry_ok_def)
  then show g: "tids_12 m tid" using assms(2,3) by (auto simp: tids_12_def tids_inv_def)
  have s: "sorted_wrt (<) (tid_search.keys m)" using assms(2) by (simp add: tids_inv_def)
  show "find_ordered_transaction_id m tid \<le> length (tm_ordered_transaction_ids m)"
    using tid_search.search_le [OF s g] by (simp add: find_ordered_transaction_id_def)
  have "(\<exists>i < map_size m. te_transaction_id (tm_map m ! i) = tid) \<longleftrightarrow> tid \<in> set (tid_search.keys m)"
    using assms(2,4) by (auto simp: tids_inv_def image_iff)
  then show "(let pos = find_ordered_transaction_id m tid
          in pos < length (tm_ordered_transaction_ids m)
             \<and> te_transaction_id (tm_map m ! (tm_ordered_transaction_ids m ! pos)) = tid)
    \<longleftrightarrow> (\<exists>i < map_size m. te_transaction_id (tm_map m ! i) = tid)"
    using tid_search.search_hit [OF s g] by (simp add: find_ordered_transaction_id_def Let_def)
qed

lemma tids_inv_unique:
  assumes "tids_inv m" "i < map_size m" "j < map_size m" "te_transaction_id (tm_map m ! i) = te_transaction_id (tm_map m ! j)"
    "\<not> memory_is_zero (te_transaction_id (tm_map m ! i))"
  shows "i = j"
proof -
  let ?t = "\<lambda>i. te_transaction_id (tm_map m ! i)"
  have "sorted_wrt (<) (map ?t (tm_ordered_transaction_ids m))" using assms(1) by (simp add: tids_inv_def)
  then have "distinct (map ?t (tm_ordered_transaction_ids m))" by (simp add: strict_sorted_iff)
  then have "inj_on ?t (set (tm_ordered_transaction_ids m))" by (simp add: distinct_map)
  moreover have "i \<in> set (tm_ordered_transaction_ids m)" "j \<in> set (tm_ordered_transaction_ids m)"
    using assms by (auto simp: tids_inv_def)
  ultimately show ?thesis using assms(4) by (auto dest: inj_onD)
qed

section \<open>Channels\<close>

lemma channel_hit:
  assumes "channels_inv m" "c \<noteq> 0"
  shows "(find_ordered_channel m c < length (tm_ordered_channels m)
      \<and> te_channel (tm_map m ! (tm_ordered_channels m ! find_ordered_channel m c)) = c)
    \<longleftrightarrow> (\<exists>i < map_size m. te_channel (tm_map m ! i) = c)"
    and "lower_pos (map (\<lambda>i. te_channel (tm_map m ! i)) (tm_ordered_channels m)) c (find_ordered_channel m c)"
proof -
  have s: "sorted_wrt (<) (channel_search.keys m)" using assms(1) by (simp add: channels_inv_def)
  have "(\<exists>i < map_size m. te_channel (tm_map m ! i) = c) \<longleftrightarrow> c \<in> set (channel_search.keys m)"
    using assms by (auto simp: channels_inv_def image_iff)
  then show "(find_ordered_channel m c < length (tm_ordered_channels m)
      \<and> te_channel (tm_map m ! (tm_ordered_channels m ! find_ordered_channel m c)) = c)
    \<longleftrightarrow> (\<exists>i < map_size m. te_channel (tm_map m ! i) = c)"
    using channel_search.search_hit [OF s] by (simp add: find_ordered_channel_def)
  show "lower_pos (map (\<lambda>i. te_channel (tm_map m ! i)) (tm_ordered_channels m)) c (find_ordered_channel m c)"
    using channel_search.search_all [OF s] by (simp add: find_ordered_channel_def)
qed

lemma channels_inv_unique:
  assumes "channels_inv m" "i < map_size m" "j < map_size m" "te_channel (tm_map m ! i) = te_channel (tm_map m ! j)"
    "te_channel (tm_map m ! i) \<noteq> 0"
  shows "i = j"
proof -
  let ?t = "\<lambda>i. te_channel (tm_map m ! i)"
  have "distinct (map ?t (tm_ordered_channels m))" using assms(1) by (simp add: channels_inv_def strict_sorted_iff)
  then have "inj_on ?t (set (tm_ordered_channels m))" by (simp add: distinct_map)
  moreover have "i \<in> set (tm_ordered_channels m)" "j \<in> set (tm_ordered_channels m)"
    using assms by (auto simp: channels_inv_def)
  ultimately show ?thesis using assms(4) by (auto dest: inj_onD)
qed

text \<open>There is room for one more pointer as long as some entry is not in the array.\<close>

lemma array_room:
  assumes "distinct xs" "set xs \<subseteq> {..<n}" "i < n" "i \<notin> set xs"
  shows "length xs < n"
proof -
  have "set xs \<subset> {..<n}" using assms by auto
  then have "card (set xs) < n" using psubset_card_mono [of "{..<n}"] by simp
  with assms(1) show ?thesis by (simp add: distinct_card)
qed

lemma map_key_update: "i \<notin> set cs \<Longrightarrow> map (\<lambda>j. f (es[i := e] ! j)) cs = map (\<lambda>j. f (es ! j)) cs"
  by (auto simp: nth_list_update_neq) (metis nth_list_update_neq)

lemma map_key_insert:
  assumes "i \<notin> set cs" "i < length es"
  shows "map (\<lambda>j. f (es[i := e] ! j)) (take p cs @ i # drop p cs)
    = take p (map (\<lambda>j. f (es ! j)) cs) @ f e # drop p (map (\<lambda>j. f (es ! j)) cs)"
proof -
  have "map (\<lambda>j. f (es[i := e] ! j)) cs = map (\<lambda>j. f (es ! j)) cs" using assms(1) by (rule map_key_update)
  then have "map (\<lambda>j. f (es[i := e] ! j)) (take p cs) = take p (map (\<lambda>j. f (es ! j)) cs)"
    "map (\<lambda>j. f (es[i := e] ! j)) (drop p cs) = drop p (map (\<lambda>j. f (es ! j)) cs)"
    by (metis take_map, metis drop_map)
  with assms(2) show ?thesis by simp
qed

lemma channels_inv_insert:
  assumes "channels_inv m" "i < map_size m" "te_channel (tm_map m ! i) = 0" "c \<noteq> 0" "te_channel e = c"
    "\<forall>j < map_size m. te_channel (tm_map m ! j) \<noteq> c" "pos = find_ordered_channel m c"
  shows "channels_inv ((upd_entry m i e)\<lparr>tm_ordered_channels := take pos (tm_ordered_channels m) @ i # drop pos (tm_ordered_channels m)\<rparr>)"
    "length (tm_ordered_channels m) < map_size m"
proof -
  let ?cs = "tm_ordered_channels m" and ?k = "\<lambda>j. te_channel (tm_map m ! j)"
  have ni: "i \<notin> set ?cs" and sub: "set ?cs \<subseteq> {..<map_size m}" and s: "sorted_wrt (<) (map ?k ?cs)"
    using assms by (auto simp: channels_inv_def)
  have "sorted_wrt (<) (take pos (map ?k ?cs) @ c # drop pos (map ?k ?cs))"
    using channel_hit(2) [OF assms(1,4)] assms(6) sub assms(7)
    by (intro sorted_wrt_insert_lower [OF s]) auto
  moreover have "map (\<lambda>j. te_channel ((tm_map m)[i := e] ! j)) (take pos ?cs @ i # drop pos ?cs)
      = take pos (map ?k ?cs) @ c # drop pos (map ?k ?cs)"
    using map_key_insert [OF ni assms(2), where f = te_channel and e = e] assms(5) by simp
  ultimately have "sorted_wrt (<) (map (\<lambda>j. te_channel ((tm_map m)[i := e] ! j)) (take pos ?cs @ i # drop pos ?cs))"
    by simp
  moreover have "set (take pos ?cs @ i # drop pos ?cs) = insert i (set ?cs)"
    by (metis append_take_drop_id set_append list.simps(15) Un_insert_right)
  moreover have "insert i (set ?cs) = {j. j < map_size m \<and> te_channel ((tm_map m)[i := e] ! j) \<noteq> 0}"
    using assms by (auto simp: channels_inv_def nth_list_update)
  ultimately show "channels_inv ((upd_entry m i e)\<lparr>tm_ordered_channels := take pos ?cs @ i # drop pos ?cs\<rparr>)"
    by (simp add: channels_inv_def)
  show "length ?cs < map_size m"
    using distinct_key [OF s] sub assms(2) ni by (rule array_room)
qed

text \<open>The entry that binds channel \<open>c\<close> to a record.\<close>

definition bound_entry :: "turn_entry option \<Rightarrow> addr_record \<Rightarrow> bytes option \<Rightarrow> u16 \<Rightarrow> int \<Rightarrow> turn_entry" where
  "bound_entry old r tid c expiry =
     (let e = (case old of None \<Rightarrow> turn_entry_zero\<lparr>te_type := TURN_ENTRY_TYPE_CHANNEL, te_record := r\<rparr> | Some e \<Rightarrow> e)
      in if te_channel e \<noteq> 0 then e\<lparr>te_timestamp := expiry\<rparr>
         else let e = e\<lparr>te_channel := c, te_timestamp := expiry\<rparr>
              in case tid of None \<Rightarrow> e | Some t \<Rightarrow> e\<lparr>te_transaction_id := t, te_fresh_transaction_id := True\<rparr>)"

text \<open>A channel can be bound to a record when neither has another partner.\<close>

definition may_bind :: "turn_map \<Rightarrow> addr_record \<Rightarrow> u16 \<Rightarrow> bool" where
  "may_bind m r c \<longleftrightarrow> is_valid_channel c
     \<and> (case turn_lookup m TURN_ENTRY_TYPE_CHANNEL r of
          Some e \<Rightarrow> te_channel e = c \<or> te_channel e = 0 \<and> (\<forall>i < map_size m. te_channel (tm_map m ! i) \<noteq> c)
        | None \<Rightarrow> \<not> table_full m \<and> (\<forall>i < map_size m. te_channel (tm_map m ! i) \<noteq> c))"

lemma valid_channel_nonzero: "is_valid_channel c \<Longrightarrow> c \<noteq> 0"
  by (auto simp: is_valid_channel_def)

lemma usable_channel: "usable_type TURN_ENTRY_TYPE_CHANNEL" by simp

lemma put_bound_entry:
  assumes "table_inv m" "known_record r" "case tid of None \<Rightarrow> True | Some t \<Rightarrow> length t = 12" "is_valid_channel c"
    "find_entry m r TURN_ENTRY_TYPE_CHANNEL True = Some i" "te_channel (tm_map m ! i) = 0 \<or> te_channel (tm_map m ! i) = c"
  shows "put_at m r TURN_ENTRY_TYPE_CHANNEL i (bound_entry (turn_lookup m TURN_ENTRY_TYPE_CHANNEL r) r tid c expiry)"
    "te_channel (bound_entry (turn_lookup m TURN_ENTRY_TYPE_CHANNEL r) r tid c expiry) = c"
proof -
  have ok: "entry_ok (tm_map m ! i)" by (rule table_invD(1) [OF assms(1) found_cases(1) [OF assms(1,5)]])
  from assms(1,5) usable_channel have "put_at m r TURN_ENTRY_TYPE_CHANNEL i (bound_entry (turn_lookup m TURN_ENTRY_TYPE_CHANNEL r) r tid c expiry)
      \<and> te_channel (bound_entry (turn_lookup m TURN_ENTRY_TYPE_CHANNEL r) r tid c expiry) = c"
  proof (cases rule: found_slot)
    case old
    have "c \<noteq> 0" using assms(4) by (rule valid_channel_nonzero)
    then show ?thesis using old assms(2-6) ok
      by (cases tid) (auto simp: put_at_def bound_entry_def entry_ok_def Let_def)
  next
    case new
    then show ?thesis using assms(2-6)
      by (cases tid) (auto simp: put_at_def bound_entry_def entry_ok_def Let_def turn_entry_zero_def)
  qed
  then show "put_at m r TURN_ENTRY_TYPE_CHANNEL i (bound_entry (turn_lookup m TURN_ENTRY_TYPE_CHANNEL r) r tid c expiry)"
    "te_channel (bound_entry (turn_lookup m TURN_ENTRY_TYPE_CHANNEL r) r tid c expiry) = c" by simp_all
qed

text \<open>A record that has a channel already: only that channel, whose lifetime is renewed.\<close>

lemma bind_channel_again:
  assumes "table_inv m" "find_entry m r TURN_ENTRY_TYPE_CHANNEL True = Some i" "te_channel (tm_map m ! i) \<noteq> 0"
    "is_valid_channel c"
  shows "turn_bind_channel m (Some r) tid c now d = Inr (if te_channel (tm_map m ! i) = c
      then (True, upd_entry m i (bound_entry (turn_lookup m TURN_ENTRY_TYPE_CHANNEL r) r tid c (now + d))) else (False, m))"
    "may_bind m r c \<longleftrightarrow> te_channel (tm_map m ! i) = c"
proof -
  have "entry_ok (tm_map m ! i)" by (rule table_invD(1) [OF assms(1) found_cases(1) [OF assms(1,2)]])
  with assms(3) have ty: "te_type (tm_map m ! i) = TURN_ENTRY_TYPE_CHANNEL" by (simp add: entry_ok_def)
  have l: "turn_lookup m TURN_ENTRY_TYPE_CHANNEL r = Some (tm_map m ! i)"
    using find_entry_lookup [OF assms(1), of TURN_ENTRY_TYPE_CHANNEL r True] assms(2) ty by simp
  show "turn_bind_channel m (Some r) tid c now d = Inr (if te_channel (tm_map m ! i) = c
      then (True, upd_entry m i (bound_entry (turn_lookup m TURN_ENTRY_TYPE_CHANNEL r) r tid c (now + d))) else (False, m))"
    using assms(2-4) ty l by (simp add: turn_bind_channel_def bound_entry_def Let_def)
  show "may_bind m r c \<longleftrightarrow> te_channel (tm_map m ! i) = c"
    using assms(3,4) l by (simp add: may_bind_def)
qed

lemma bind_channel_taken:
  assumes "channels_inv m" "find_entry m r TURN_ENTRY_TYPE_CHANNEL True = Some i" "te_channel (tm_map m ! i) = 0"
    "is_valid_channel c" "\<exists>j < map_size m. te_channel (tm_map m ! j) = c"
  shows "turn_bind_channel m (Some r) tid c now d = Inr (False, m)"
  using channel_hit(1) [OF assms(1) valid_channel_nonzero [OF assms(4)]] assms(2-5)
  by (simp add: turn_bind_channel_def Let_def)

lemma bind_channel_new:
  assumes "table_inv m" "channels_inv m" "find_entry m r TURN_ENTRY_TYPE_CHANNEL True = Some i" "te_channel (tm_map m ! i) = 0"
    "is_valid_channel c" "\<forall>j < map_size m. te_channel (tm_map m ! j) \<noteq> c"
  shows "turn_bind_channel m (Some r) tid c now d = Inr (True,
    (upd_entry m i (bound_entry (turn_lookup m TURN_ENTRY_TYPE_CHANNEL r) r tid c (now + d)))
      \<lparr>tm_ordered_channels := take (find_ordered_channel m c) (tm_ordered_channels m) @ i
         # drop (find_ordered_channel m c) (tm_ordered_channels m)\<rparr>)"
proof -
  let ?pos = "find_ordered_channel m c" and ?cs = "tm_ordered_channels m"
  note c0 = valid_channel_nonzero [OF assms(5)]
  note fc = found_cases [OF assms(1,3)]
  have cond: "\<not> (?pos < length ?cs \<and> te_channel (tm_map m ! (?cs ! ?pos)) = c)"
    using channel_hit(1) [OF assms(2) c0] assms(6) by simp
  have room: "length ?cs < map_size m"
    using channels_inv_insert(2) [OF assms(2) fc(1) assms(4) c0 _ assms(6) refl, of "turn_entry_zero\<lparr>te_channel := c\<rparr>"] by simp
  from assms(1,3) usable_channel show ?thesis
  proof (cases rule: found_slot)
    case old
    then show ?thesis using assms(3-5) cond room
      by (simp add: turn_bind_channel_def bound_entry_def insert_ordered_def Let_def del: de_Morgan_conj split: option.split)
  next
    case new
    then show ?thesis using assms(3-5) cond room
      by (simp add: turn_bind_channel_def bound_entry_def insert_ordered_def Let_def turn_entry_zero_def
          del: de_Morgan_conj split: option.split)
  qed
qed

abbreviation tid_arg_ok :: "bytes option \<Rightarrow> bool" where
  "tid_arg_ok tid \<equiv> (case tid of None \<Rightarrow> True | Some t \<Rightarrow> length t = 12)"

abbreviation channel_entry :: "turn_map \<Rightarrow> addr_record \<Rightarrow> bytes option \<Rightarrow> u16 \<Rightarrow> int \<Rightarrow> turn_entry" where
  "channel_entry m r tid c expiry \<equiv> bound_entry (turn_lookup m TURN_ENTRY_TYPE_CHANNEL r) r tid c expiry"

lemma bind_channel_refused:
  assumes "table_inv m" "channels_inv m" "\<not> may_bind m r c"
  shows "turn_bind_channel m (Some r) tid c now d = Inr (False, m)"
proof (cases "is_valid_channel c \<and> find_entry m r TURN_ENTRY_TYPE_CHANNEL True \<noteq> None")
  case True
  then obtain i where f: "find_entry m r TURN_ENTRY_TYPE_CHANNEL True = Some i" and v: "is_valid_channel c" by auto
  show ?thesis
  proof (cases "te_channel (tm_map m ! i) = 0")
    case z: True
    have "\<exists>j < map_size m. te_channel (tm_map m ! j) = c"
    proof (rule ccontr)
      assume n: "\<not> (\<exists>j < map_size m. te_channel (tm_map m ! j) = c)"
      from assms(1) f usable_channel show False
      proof (cases rule: found_slot)
        case old
        with n z v assms(3) show False by (auto simp: may_bind_def)
      next
        case new
        then have "\<not> table_full m" using found_cases(1) [OF assms(1) f]
          by (auto simp: table_full_def turn_entry_zero_def intro!: exI [of _ i])
        with n v new assms(3) show False by (auto simp: may_bind_def)
      qed
    qed
    with bind_channel_taken [OF assms(2) f z v] show ?thesis by simp
  next
    case False
    with bind_channel_again [OF assms(1) f False v] assms(3) show ?thesis by simp
  qed
next
  case False
  then show ?thesis by (auto simp: turn_bind_channel_def)
qed

lemma bind_channel_done:
  assumes "table_inv m" "channels_inv m" "known_record r" "tid_arg_ok tid" "may_bind m r c"
  obtains i m' where "turn_bind_channel m (Some r) tid c now d = Inr (True, m')"
    "put_at m r TURN_ENTRY_TYPE_CHANNEL i (channel_entry m r tid c (now + d))"
    "tm_map m' = (tm_map m)[i := channel_entry m r tid c (now + d)]"
    "tm_ordered_transaction_ids m' = tm_ordered_transaction_ids m" "channels_inv m'"
    "te_channel (channel_entry m r tid c (now + d)) = c"
proof -
  have v: "is_valid_channel c" using assms(5) by (simp add: may_bind_def)
  have "find_entry m r TURN_ENTRY_TYPE_CHANNEL True \<noteq> None"
  proof
    assume "find_entry m r TURN_ENTRY_TYPE_CHANNEL True = None"
    from not_found [OF assms(1) this] assms(5) show False by (simp add: may_bind_def)
  qed
  then obtain i where f: "find_entry m r TURN_ENTRY_TYPE_CHANNEL True = Some i" by auto
  note fc = found_cases [OF assms(1) f]
  show thesis
  proof (cases "te_channel (tm_map m ! i) = 0")
    case z: True
    have free: "\<forall>j < map_size m. te_channel (tm_map m ! j) \<noteq> c"
      using assms(1) f usable_channel
    proof (cases rule: found_slot)
      case old
      then show ?thesis using assms(5) z valid_channel_nonzero [OF v] by (auto simp: may_bind_def)
    next
      case new
      then show ?thesis using assms(5) by (auto simp: may_bind_def)
    qed
    note put = put_bound_entry [OF assms(1,3,4) v f disjI1 [OF z], of "now + d"]
    show thesis
      using bind_channel_new [OF assms(1,2) f z v free] put
        channels_inv_insert(1) [OF assms(2) fc(1) z valid_channel_nonzero [OF v] put(2) free refl]
      by (intro that) (assumption | simp)+
  next
    case False
    note again = bind_channel_again [OF assms(1) f False v]
    then have c: "te_channel (tm_map m ! i) = c" using assms(5) by simp
    note put = put_bound_entry [OF assms(1,3,4) v f disjI2 [OF c], of "now + d"]
    show thesis
      using again(1) [of tid now d] c put channels_inv_put_same [OF assms(2) _ fc(1), of "channel_entry m r tid c (now + d)"]
      by (intro that) (assumption | simp)+
  qed
qed

lemma channels_map_frame:
  "tm_map m = tm_map m' \<Longrightarrow> tm_ordered_channels m = tm_ordered_channels m' \<Longrightarrow> channels_inv m = channels_inv m'"
  by (simp add: channels_inv_def)

lemma map_frame: "tm_map m = tm_map m' \<Longrightarrow> table_inv m = table_inv m' \<and> turn_lookup m = turn_lookup m'"
  by (auto simp: table_inv_def reached_def probe_stops_def turn_key_def turn_lookup_def fun_eq_iff)

lemma turn_bind_channel_spec:
  assumes "table_inv m" "channels_inv m" "known_record r" "tid_arg_ok tid"
  shows "\<exists>m'. turn_bind_channel m (Some r) tid c now d = Inr (may_bind m r c, m')
    \<and> table_inv m' \<and> channels_inv m' \<and> map_size m' = map_size m
    \<and> tm_ordered_transaction_ids m' = tm_ordered_transaction_ids m
    \<and> (\<forall>type' r'. type' \<noteq> empty_type \<longrightarrow> turn_lookup m' type' r' =
         (if may_bind m r c \<and> type' = TURN_ENTRY_TYPE_CHANNEL \<and> same_addr r r' then Some (channel_entry m r tid c (now + d))
          else turn_lookup m type' r'))"
proof (cases "may_bind m r c")
  case True
  obtain i m' where b: "turn_bind_channel m (Some r) tid c now d = Inr (True, m')"
    and put: "put_at m r TURN_ENTRY_TYPE_CHANNEL i (channel_entry m r tid c (now + d))"
    and m': "tm_map m' = (tm_map m)[i := channel_entry m r tid c (now + d)]"
    and rest: "tm_ordered_transaction_ids m' = tm_ordered_transaction_ids m" "channels_inv m'"
      "te_channel (channel_entry m r tid c (now + d)) = c"
    using assms True by (rule bind_channel_done)
  have fr: "table_inv m' = table_inv (upd_entry m i (channel_entry m r tid c (now + d)))"
    "turn_lookup m' = turn_lookup (upd_entry m i (channel_entry m r tid c (now + d)))"
    using map_frame [of m' "upd_entry m i (channel_entry m r tid c (now + d))"] m' by simp_all
  show ?thesis
    using b m' rest True table_inv_put [OF assms(1) put] lookup_put [OF assms(1) put]
    by (intro exI [of _ m']) (simp add: fr)
next
  case False
  with bind_channel_refused [OF assms(1,2)] assms show ?thesis by auto
qed

text \<open>A channel number leads to the record that is bound to it.\<close>

lemma turn_find_channel_spec:
  assumes "table_inv m" "channels_inv m"
  shows "turn_find_channel m c = Some r \<longleftrightarrow> is_valid_channel c
    \<and> (\<exists>i < map_size m. te_channel (tm_map m ! i) = c \<and> te_record (tm_map m ! i) = r)"
proof (cases "is_valid_channel c")
  case True
  let ?p = "find_ordered_channel m c" and ?cs = "tm_ordered_channels m"
  note hit = channel_hit [OF assms(2) valid_channel_nonzero [OF True]]
  have le: "?p \<le> length ?cs" using hit(2) by (simp add: lower_pos_def)
  show ?thesis
  proof (cases "?p < length ?cs \<and> te_channel (tm_map m ! (?cs ! ?p)) = c")
    case found: True
    then have i: "?cs ! ?p < map_size m" using assms(2) nth_mem [of ?p ?cs] unfolding channels_inv_def by blast
    have uniq: "j = ?cs ! ?p" if "j < map_size m" "te_channel (tm_map m ! j) = c" for j
      using channels_inv_unique [OF assms(2) that(1) i] that found valid_channel_nonzero [OF True] by simp
    have "(\<exists>j < map_size m. te_channel (tm_map m ! j) = c \<and> te_record (tm_map m ! j) = r)
        \<longleftrightarrow> te_record (tm_map m ! (?cs ! ?p)) = r"
    proof
      assume "\<exists>j < map_size m. te_channel (tm_map m ! j) = c \<and> te_record (tm_map m ! j) = r"
      then obtain j where j: "j < map_size m" "te_channel (tm_map m ! j) = c" "te_record (tm_map m ! j) = r" by blast
      then show "te_record (tm_map m ! (?cs ! ?p)) = r" using uniq [OF j(1,2)] by simp
    next
      assume "te_record (tm_map m ! (?cs ! ?p)) = r"
      then show "\<exists>j < map_size m. te_channel (tm_map m ! j) = c \<and> te_record (tm_map m ! j) = r"
        using found i by (intro exI [of _ "?cs ! ?p"] conjI) auto
    qed
    moreover have "turn_find_channel m c = Some (te_record (tm_map m ! (?cs ! ?p)))"
      using found True unfolding turn_find_channel_def Let_def by (simp del: not_less)
    ultimately show ?thesis using True by simp
  next
    case False
    then have "turn_find_channel m c = None"
      using le by (cases "?p = length ?cs") (simp_all add: turn_find_channel_def Let_def)
    moreover have "\<not> (\<exists>i < map_size m. te_channel (tm_map m ! i) = c)" using False hit(1) by metis
    ultimately show ?thesis by auto
  qed
qed (simp add: turn_find_channel_def)

lemma turn_get_channel_lookup:
  "table_inv m \<Longrightarrow> turn_get_channel m r = map_option te_channel (turn_lookup m TURN_ENTRY_TYPE_CHANNEL r)"
  by (auto simp: turn_get_channel_def find_entry_lookup [of m TURN_ENTRY_TYPE_CHANNEL r False, symmetric] split: option.split)

lemma turn_has_permission_lookup:
  "table_inv m \<Longrightarrow> turn_has_permission m r now =
     (case turn_lookup m TURN_ENTRY_TYPE_PERMISSION r of None \<Rightarrow> False | Some e \<Rightarrow> now < te_timestamp e)"
  by (auto simp: turn_has_permission_def find_entry_lookup [of m TURN_ENTRY_TYPE_PERMISSION r False, symmetric] split: option.split)

end
