(* ===== verification/Turn_Client.thy ===== *)
theory Turn_Client
  imports Turn_Table
begin

text \<open>
  The transaction ids of the TURN table as the agent uses them: an id drawn for a request is in the
  ordered array until the next one replaces it, and leads back to the record of the request.
\<close>

section \<open>Removing and inserting ids\<close>

abbreviation tid_of :: "turn_map \<Rightarrow> nat \<Rightarrow> bytes" where
  "tid_of m i \<equiv> te_transaction_id (tm_map m ! i)"

lemma tids_inv_remove:
  assumes "table_inv m" "tids_inv m" "i < map_size m" "\<not> memory_is_zero (tid_of m i)"
  obtains ids where "remove_ordered_transaction_id m (tid_of m i) = m\<lparr>tm_ordered_transaction_ids := ids\<rparr>"
    "sorted_wrt (<) (map (tid_of m) ids)" "set ids = {j. j < map_size m \<and> j \<noteq> i \<and> \<not> memory_is_zero (tid_of m j)}"
proof -
  let ?p = "find_ordered_transaction_id m (tid_of m i)" and ?ids = "tm_ordered_transaction_ids m"
  have l: "length (tid_of m i) = 12" using table_invD(1) [OF assms(1,3)] by (simp add: entry_ok_def)
  have p: "?p < length ?ids" "tid_of m (?ids ! ?p) = tid_of m i"
    using entry_found_by_tid(1) [OF assms(1,2) l assms(4)] assms(3) by (auto simp: Let_def)
  have s: "sorted_wrt (<) (map (tid_of m) ?ids)" and set: "set ?ids = {j. j < map_size m \<and> \<not> memory_is_zero (tid_of m j)}"
    using assms(2) by (simp_all add: tids_inv_def)
  have "?ids ! ?p < map_size m" using p(1) set nth_mem by blast
  then have pi: "?ids ! ?p = i" using tids_inv_unique [OF assms(2) _ assms(3) p(2)] p(2) assms(4) by simp
  let ?ids' = "take ?p ?ids @ drop (Suc ?p) ?ids"
  have "remove_ordered_transaction_id m (tid_of m i) = m\<lparr>tm_ordered_transaction_ids := ?ids'\<rparr>"
    using p(1) by (simp add: remove_ordered_transaction_id_def Let_def)
  moreover have "sorted_wrt (<) (map (tid_of m) ?ids')"
    using sorted_wrt_remove [OF s, of ?p] by (simp add: take_map drop_map)
  moreover have "set ?ids' = {j. j < map_size m \<and> j \<noteq> i \<and> \<not> memory_is_zero (tid_of m j)}"
    using set_remove_nth [OF distinct_key [OF s] p(1)] set pi by auto
  ultimately show thesis by (rule that)
qed

lemma tids_inv_insert:
  assumes "table_inv m" "i < map_size m" "sorted_wrt (<) (map (tid_of m) ids)"
    "set ids = {j. j < map_size m \<and> j \<noteq> i \<and> \<not> memory_is_zero (tid_of m j)}"
    "length tid = 12" "\<not> memory_is_zero tid" "\<forall>j < map_size m. tid_of m j \<noteq> tid" "te_transaction_id e = tid"
    "pos = find_ordered_transaction_id (m\<lparr>tm_ordered_transaction_ids := ids\<rparr>) tid"
  shows "tids_inv ((upd_entry m i e)\<lparr>tm_ordered_transaction_ids := take pos ids @ i # drop pos ids\<rparr>)"
    "length ids < map_size m"
proof -
  let ?m = "m\<lparr>tm_ordered_transaction_ids := ids\<rparr>"
  have ni: "i \<notin> set ids" and sub: "set ids \<subseteq> {..<map_size m}" using assms(4) by auto
  have "length (tid_of m j) = 12" if "j < map_size m" for j
    using table_invD(1) [OF assms(1) that] by (simp add: entry_ok_def)
  then have g: "tids_12 ?m tid" using assms(5) sub by (auto simp: tids_12_def)
  have "lower_pos (map (tid_of m) ids) tid pos"
    using tid_search.search_all [of ?m tid] g assms(3,9) by (simp add: find_ordered_transaction_id_def)
  then have "sorted_wrt (<) (take pos (map (tid_of m) ids) @ tid # drop pos (map (tid_of m) ids))"
    using assms(3,7) sub by (intro sorted_wrt_insert_lower) auto
  then have "sorted_wrt (<) (map (\<lambda>j. te_transaction_id ((tm_map m)[i := e] ! j)) (take pos ids @ i # drop pos ids))"
    using map_key_insert [OF ni assms(2), where f = te_transaction_id and e = e] assms(8) by simp
  moreover have "set (take pos ids @ i # drop pos ids) = insert i (set ids)"
    by (metis append_take_drop_id set_append list.simps(15) Un_insert_right)
  moreover have "insert i (set ids) = {j. j < map_size m \<and> \<not> memory_is_zero (te_transaction_id ((tm_map m)[i := e] ! j))}"
    using assms(2,4,6,8) by (auto simp: nth_list_update)
  ultimately show "tids_inv ((upd_entry m i e)\<lparr>tm_ordered_transaction_ids := take pos ids @ i # drop pos ids\<rparr>)"
    by (simp add: tids_inv_def)
  show "length ids < map_size m"
    using distinct_key [OF assms(3)] sub assms(2) ni by (rule array_room)
qed

section \<open>Setting an id\<close>

definition identified :: "turn_entry option \<Rightarrow> turn_entry_type \<Rightarrow> addr_record \<Rightarrow> bytes \<Rightarrow> turn_entry" where
  "identified old type r tid =
     (case old of None \<Rightarrow> turn_entry_zero\<lparr>te_type := type, te_record := r\<rparr> | Some e \<Rightarrow> e)
       \<lparr>te_transaction_id := tid, te_fresh_transaction_id := True\<rparr>"

lemma set_transaction_id_done:
  assumes "table_inv m" "tids_inv m" "known_record r" "usable_type type" "length tid = 12" "\<not> memory_is_zero tid"
    "\<forall>j < map_size m. tid_of m j \<noteq> tid" "find_entry m r type True = Some i"
  shows "\<exists>ids. set_transaction_id m type r tid = Inr (True,
      (upd_entry m i (identified (turn_lookup m type r) type r tid))\<lparr>tm_ordered_transaction_ids := ids\<rparr>)
    \<and> tids_inv ((upd_entry m i (identified (turn_lookup m type r) type r tid))\<lparr>tm_ordered_transaction_ids := ids\<rparr>)"
proof -
  let ?e = "tm_map m ! i" and ?new = "identified (turn_lookup m type r) type r tid"
  note i = found_cases(1) [OF assms(1,8)]
  have nt: "te_transaction_id ?new = tid" by (simp add: identified_def)
  obtain ids where ids: "(if te_type ?e = type \<and> \<not> memory_is_zero (tid_of m i)
      then remove_ordered_transaction_id m (tid_of m i) else m) = m\<lparr>tm_ordered_transaction_ids := ids\<rparr>"
    "sorted_wrt (<) (map (tid_of m) ids)" "set ids = {j. j < map_size m \<and> j \<noteq> i \<and> \<not> memory_is_zero (tid_of m j)}"
  proof (cases "te_type ?e = type \<and> \<not> memory_is_zero (tid_of m i)")
    case True
    then have "\<not> memory_is_zero (tid_of m i)" by simp
    from assms(1,2) i this obtain ids where "remove_ordered_transaction_id m (tid_of m i) = m\<lparr>tm_ordered_transaction_ids := ids\<rparr>"
      "sorted_wrt (<) (map (tid_of m) ids)" "set ids = {j. j < map_size m \<and> j \<noteq> i \<and> \<not> memory_is_zero (tid_of m j)}"
      by (rule tids_inv_remove)
    with True show thesis by (intro that) simp_all
  next
    case False
    from assms(1,8,4) have "memory_is_zero (tid_of m i)"
      by (cases rule: found_slot) (use False in \<open>auto simp: turn_entry_zero_def\<close>)
    with False assms(2) show thesis
      by (intro that [of "tm_ordered_transaction_ids m"]) (auto simp: tids_inv_def)
  qed
  define pos where "pos = find_ordered_transaction_id (m\<lparr>tm_ordered_transaction_ids := ids\<rparr>) tid"
  note ins = tids_inv_insert [OF assms(1) i ids(2,3) assms(5-7) nt pos_def]
  have e: "(if te_type ?e \<noteq> type then ?e\<lparr>te_type := type, te_record := r\<rparr> else ?e)
      \<lparr>te_transaction_id := tid, te_fresh_transaction_id := True\<rparr> = ?new"
    using assms(1,8,4) by (cases rule: found_slot) (use assms(4) in \<open>auto simp: identified_def turn_entry_zero_def\<close>)
  have ty: "\<not> (type \<noteq> TURN_ENTRY_TYPE_PERMISSION \<and> type \<noteq> TURN_ENTRY_TYPE_CHANNEL)" using assms(4) by auto
  have "set_transaction_id m type r tid = Inr (True,
      (upd_entry m i ?new)\<lparr>tm_ordered_transaction_ids := take pos ids @ i # drop pos ids\<rparr>)"
    unfolding set_transaction_id_def assms(8) option.case Let_def ids(1) pos_def [symmetric] insert_ordered_def e
    using ty ins(2) by (simp add: pos_def [symmetric] e)
  with ins(1) show ?thesis by blast
qed

lemma identified_put:
  assumes "table_inv m" "known_record r" "usable_type type" "length tid = 12" "find_entry m r type True = Some i"
  shows "put_at m r type i (identified (turn_lookup m type r) type r tid)"
    "te_channel (identified (turn_lookup m type r) type r tid) = te_channel (tm_map m ! i)"
proof -
  have ok: "entry_ok (tm_map m ! i)" by (rule table_invD(1) [OF assms(1) found_cases(1) [OF assms(1,5)]])
  from assms(1,5,3) have "put_at m r type i (identified (turn_lookup m type r) type r tid)
    \<and> te_channel (identified (turn_lookup m type r) type r tid) = te_channel (tm_map m ! i)"
    by (cases rule: found_slot) (use assms ok in \<open>auto simp: put_at_def identified_def entry_ok_def turn_entry_zero_def\<close>)
  then show "put_at m r type i (identified (turn_lookup m type r) type r tid)"
    "te_channel (identified (turn_lookup m type r) type r tid) = te_channel (tm_map m ! i)" by simp_all
qed

lemma set_transaction_id_spec:
  assumes "table_inv m" "channels_inv m" "tids_inv m" "known_record r" "usable_type type" "length tid = 12"
    "\<not> memory_is_zero tid" "\<forall>j < map_size m. tid_of m j \<noteq> tid"
  shows "\<exists>ok m'. set_transaction_id m type r tid = Inr (ok, m') \<and> table_inv m' \<and> channels_inv m' \<and> tids_inv m'
    \<and> (\<not> ok \<longrightarrow> m' = m \<and> table_full m)
    \<and> (ok \<longrightarrow> (\<forall>type' r'. type' \<noteq> empty_type \<longrightarrow> turn_lookup m' type' r' =
         (if type' = type \<and> same_addr r r' then Some (identified (turn_lookup m type r) type r tid)
          else turn_lookup m type' r')))"
proof (cases "find_entry m r type True")
  case None
  have "type \<noteq> empty_type" using assms(5) by auto
  with None assms not_found [OF assms(1) None] show ?thesis by (auto simp: set_transaction_id_def)
next
  case (Some i)
  let ?new = "identified (turn_lookup m type r) type r tid"
  obtain ids where d: "set_transaction_id m type r tid = Inr (True, (upd_entry m i ?new)\<lparr>tm_ordered_transaction_ids := ids\<rparr>)"
    "tids_inv ((upd_entry m i ?new)\<lparr>tm_ordered_transaction_ids := ids\<rparr>)"
    using set_transaction_id_done [OF assms(1,3-8) Some] by blast
  define m' where "m' = (upd_entry m i ?new)\<lparr>tm_ordered_transaction_ids := ids\<rparr>"
  have "tm_map m' = tm_map (upd_entry m i ?new)" "tm_ordered_channels m' = tm_ordered_channels (upd_entry m i ?new)"
    by (simp_all add: m'_def)
  note fr = map_frame [OF this(1)] channels_map_frame [OF this]
  note put = identified_put [OF assms(1,4-6) Some]
  show ?thesis
    using d table_inv_put [OF assms(1) put(1)] lookup_put [OF assms(1) put(1)] fr
      channels_inv_put_same [OF assms(2) put(2) found_cases(1) [OF assms(1) Some]]
    unfolding m'_def [symmetric] by (intro exI [of _ True] exI [of _ m']) simp
qed

end
