(* ===== verification/Turn_Runs.thy ===== *)
theory Turn_Runs
  imports Turn_Client
begin

text \<open>
  The TURN tables that can arise: the server's, filled by CreatePermission and ChannelBind requests,
  and the agent's, which tracks its own requests. The invariants hold for all of them, and so do the
  properties of the operations.
\<close>

section \<open>Reachable tables\<close>

inductive server_table :: "turn_map \<Rightarrow> bool" where
  init: "0 < n \<Longrightarrow> turn_init_map True n = Some m \<Longrightarrow> server_table m"
| set_permission: "server_table m \<Longrightarrow> known_record r \<Longrightarrow> length tid = 12 \<Longrightarrow>
    turn_set_permission m tid (Some r) now d = (ok, m') \<Longrightarrow> server_table m'"
| bind_channel: "server_table m \<Longrightarrow> known_record r \<Longrightarrow> length tid = 12 \<Longrightarrow>
    turn_bind_channel m (Some r) (Some tid) c now d = Inr (ok, m') \<Longrightarrow> server_table m'"

text \<open>Random transaction ids are twelve bytes that are not all zero.\<close>

abbreviation draw_ok :: "bytes \<Rightarrow> bool" where "draw_ok tid \<equiv> length tid = 12 \<and> \<not> memory_is_zero tid"

inductive client_table :: "turn_map \<Rightarrow> bool" where
  init: "0 < n \<Longrightarrow> turn_init_map True n = Some m \<Longrightarrow> client_table m"
| permission_tid: "client_table m \<Longrightarrow> known_record r \<Longrightarrow> list_all draw_ok draws \<Longrightarrow>
    turn_set_random_permission_transaction_id m r draws = Some (Inr (x, m')) \<Longrightarrow> client_table m'"
| channel_tid: "client_table m \<Longrightarrow> known_record r \<Longrightarrow> list_all draw_ok draws \<Longrightarrow>
    turn_set_random_channel_transaction_id m r draws = Some (Inr (x, m')) \<Longrightarrow> client_table m'"
| permission_granted: "client_table m \<Longrightarrow> length tid = 12 \<Longrightarrow>
    turn_set_permission m tid None now d = (ok, m') \<Longrightarrow> client_table m'"
| channel_bound: "client_table m \<Longrightarrow> length tid = 12 \<Longrightarrow>
    turn_bind_current_channel m tid None now d = (ok, m') \<Longrightarrow> client_table m'"
| bind_random: "client_table m \<Longrightarrow> known_record r \<Longrightarrow>
    turn_bind_random_channel m (Some r) channels now d = Some (Inr (c, m')) \<Longrightarrow> client_table m'"
| retrieve: "client_table m \<Longrightarrow> length tid = 12 \<Longrightarrow>
    turn_retrieve_transaction_id m tid = (x, m') \<Longrightarrow> client_table m'"

definition fresh_ok :: "turn_map \<Rightarrow> bool" where
  "fresh_ok m \<longleftrightarrow> (\<forall>e \<in> set (tm_map m). te_fresh_transaction_id e \<longrightarrow> \<not> memory_is_zero (te_transaction_id e))"

definition server_inv :: "turn_map \<Rightarrow> bool" where
  "server_inv m \<longleftrightarrow> table_inv m \<and> channels_inv m \<and> tm_ordered_transaction_ids m = []"

definition client_inv :: "turn_map \<Rightarrow> bool" where
  "client_inv m \<longleftrightarrow> table_inv m \<and> channels_inv m \<and> tids_inv m \<and> fresh_ok m"

lemma init_inv:
  assumes "0 < n" "turn_init_map True n = Some m"
  shows "server_inv m" "client_inv m"
proof -
  have m: "tm_map m = replicate (n * 2) turn_entry_zero" "tm_ordered_channels m = []" "tm_ordered_transaction_ids m = []"
    using assms(2) by (auto simp: turn_init_map_def)
  have "table_inv m" using assms(1) by (simp add: table_inv_def m entry_ok_def Let_def) (simp add: turn_entry_zero_def)
  moreover have "channels_inv m" "tids_inv m" "fresh_ok m"
    by (auto simp: channels_inv_def tids_inv_def fresh_ok_def m) (simp_all add: turn_entry_zero_def)
  ultimately show "server_inv m" "client_inv m" by (simp_all add: server_inv_def client_inv_def m)
qed

lemma server_table_inv: "server_table m \<Longrightarrow> server_inv m"
proof (induction rule: server_table.induct)
  case (init n m)
  then show ?case by (rule init_inv)
next
  case (set_permission m r tid now d ok m')
  then show ?case
    using update_timestamp_spec [of m r TURN_ENTRY_TYPE_PERMISSION tid now d ok m']
    by (simp add: server_inv_def turn_set_permission_def)
next
  case (bind_channel m r tid c now d ok m')
  then show ?case
    using turn_bind_channel_spec [of m r "Some tid" c now d] by (auto simp: server_inv_def)
qed

section \<open>The agent's steps keep its invariant\<close>

text \<open>Updates that keep type, record, transaction id and channel of an entry.\<close>

definition same_keys :: "turn_entry \<Rightarrow> turn_entry \<Rightarrow> bool" where
  "same_keys e e' \<longleftrightarrow> te_type e' = te_type e \<and> te_record e' = te_record e \<and> te_transaction_id e' = te_transaction_id e
     \<and> te_channel e' = te_channel e \<and> (te_fresh_transaction_id e' \<longrightarrow> te_fresh_transaction_id e)"

lemma client_inv_same_keys:
  assumes "client_inv m" "i < map_size m" "same_keys (tm_map m ! i) e" "te_type e \<noteq> empty_type"
  shows "client_inv (upd_entry m i e)"
proof -
  have inv: "table_inv m" "channels_inv m" "tids_inv m" "fresh_ok m" using assms(1) by (simp_all add: client_inv_def)
  have ok: "entry_ok (tm_map m ! i)" by (rule table_invD(1) [OF inv(1) assms(2)])
  let ?r = "te_record (tm_map m ! i)" and ?T = "te_type (tm_map m ! i)"
  have T: "?T \<noteq> empty_type" using assms(3,4) by (simp add: same_keys_def)
  then have k: "known_record ?r" using ok by (simp add: entry_ok_def)
  then have "entry_matches (tm_map m ! i) ?T ?r" by (simp add: entry_matches_def record_key.eq_refl)
  then have "put_at m ?r ?T i e"
    using match_found [OF inv(1) assms(2) _ T] ok k T assms(3) by (auto simp: put_at_def same_keys_def entry_ok_def)
  then have "table_inv (upd_entry m i e)" by (rule table_inv_put [OF inv(1)])
  moreover have "channels_inv (upd_entry m i e)" "tids_inv (upd_entry m i e)"
    using assms(2,3) inv by (auto simp: same_keys_def intro: channels_inv_put_same tids_inv_put_same)
  moreover have "fresh_ok (upd_entry m i e)"
    using inv(4) assms(2,3) by (auto simp: fresh_ok_def same_keys_def dest!: set_update_subset_insert [THEN subsetD])
  ultimately show ?thesis by (simp add: client_inv_def)
qed

lemma ordered_tid_entry:
  assumes "client_inv m" "length tid = 12" "find_ordered_transaction_id m tid \<noteq> length (tm_ordered_transaction_ids m)"
    "i = tm_ordered_transaction_ids m ! find_ordered_transaction_id m tid"
  shows "i < map_size m" "te_type (tm_map m ! i) \<noteq> empty_type" "length (tid_of m i) = 12"
proof -
  have inv: "table_inv m" "tids_inv m" using assms(1) by (simp_all add: client_inv_def)
  have "length (tid_of m j) = 12" if "j < map_size m" for j
    using table_invD(1) [OF inv(1) that] by (simp add: entry_ok_def)
  then have "tids_12 m tid" using assms(2) inv(2) by (auto simp: tids_12_def tids_inv_def)
  then have "find_ordered_transaction_id m tid < length (tm_ordered_transaction_ids m)"
    using tid_search.search_le [of m tid] inv(2) assms(3) by (simp add: find_ordered_transaction_id_def tids_inv_def)
  then have "i \<in> set (tm_ordered_transaction_ids m)" using assms(4) by simp
  then have i: "i < map_size m" "\<not> memory_is_zero (tid_of m i)" using inv(2) by (auto simp: tids_inv_def)
  then show "i < map_size m" "length (tid_of m i) = 12" using table_invD(1) [OF inv(1)] by (simp_all add: entry_ok_def)
  show "te_type (tm_map m ! i) \<noteq> empty_type"
    using table_invD(1) [OF inv(1) i(1)] i(2) by (auto simp: entry_ok_def turn_entry_zero_def)
qed

lemma client_update_None:
  assumes "client_inv m" "length tid = 12" "update_timestamp m type tid None now d = (ok, m')"
  shows "client_inv m'"
proof (cases "m' = m")
  case False
  define i where "i = tm_ordered_transaction_ids m ! find_ordered_transaction_id m tid"
  have ne: "find_ordered_transaction_id m tid \<noteq> length (tm_ordered_transaction_ids m)"
    and m': "m' = upd_entry m i ((tm_map m ! i)\<lparr>te_timestamp := now + d, te_fresh_transaction_id := False\<rparr>)"
    using assms(3) False by (auto simp: update_timestamp_def Let_def i_def split: if_splits)
  show ?thesis
    unfolding m' using ordered_tid_entry [OF assms(1,2) ne i_def]
    by (intro client_inv_same_keys assms(1)) (simp_all add: same_keys_def)
qed (use assms(1) in simp)

lemma client_retrieve:
  assumes "client_inv m" "length tid = 12" "turn_retrieve_transaction_id m tid = (x, m')"
  shows "client_inv m'"
proof (cases "m' = m")
  case False
  define i where "i = tm_ordered_transaction_ids m ! find_ordered_transaction_id m tid"
  have ne: "find_ordered_transaction_id m tid \<noteq> length (tm_ordered_transaction_ids m)"
    and m': "m' = upd_entry m i ((tm_map m ! i)\<lparr>te_fresh_transaction_id := False\<rparr>)"
    using assms(3) False by (auto simp: turn_retrieve_transaction_id_def Let_def i_def split: if_splits)
  show ?thesis
    unfolding m' using ordered_tid_entry [OF assms(1,2) ne i_def]
    by (intro client_inv_same_keys assms(1)) (simp_all add: same_keys_def)
qed (use assms(1) in simp)

lemma find_transaction_id_None:
  assumes "client_inv m" "draw_ok tid" "find_transaction_id m tid = None"
  shows "\<forall>j < map_size m. tid_of m j \<noteq> tid"
proof (rule ccontr)
  assume "\<not> (\<forall>j < map_size m. tid_of m j \<noteq> tid)"
  then have h: "find_ordered_transaction_id m tid < length (tm_ordered_transaction_ids m)"
    "tid_of m (tm_ordered_transaction_ids m ! find_ordered_transaction_id m tid) = tid"
    using entry_found_by_tid(1) [of m tid] assms(1,2) by (auto simp: client_inv_def Let_def)
  then have "memcmp (tid_of m (tm_ordered_transaction_ids m ! find_ordered_transaction_id m tid)) tid = 0"
    by (simp add: memcmp_eq_0)
  with h assms(3) show False by (simp add: find_transaction_id_def Let_def)
qed

lemma random_free_tid_spec:
  "random_free_tid m draws = Some (tid, rest) \<Longrightarrow> tid \<in> set draws \<and> find_transaction_id m tid = None"
  by (induction draws) (auto split: if_splits)

lemma fresh_ok_upd:
  "fresh_ok m \<Longrightarrow> (te_fresh_transaction_id e \<longrightarrow> \<not> memory_is_zero (te_transaction_id e)) \<Longrightarrow> tm_map m' = (tm_map m)[i := e]
    \<Longrightarrow> fresh_ok m'"
  by (auto simp: fresh_ok_def dest!: set_update_subset_insert [THEN subsetD])

lemma client_set_tid:
  assumes "client_inv m" "known_record r" "usable_type type" "draw_ok tid" "find_transaction_id m tid = None"
  shows "\<exists>ok m'. set_transaction_id m type r tid = Inr (ok, m') \<and> client_inv m'
    \<and> (ok \<longrightarrow> (\<exists>e. turn_lookup m' type r = Some e \<and> te_transaction_id e = tid))"
proof -
  have inv: "table_inv m" "channels_inv m" "tids_inv m" "fresh_ok m" using assms(1) by (simp_all add: client_inv_def)
  have l: "length tid = 12" "\<not> memory_is_zero tid" using assms(4) by simp_all
  note new = find_transaction_id_None [OF assms(1,4,5)]
  obtain ok m' where s: "set_transaction_id m type r tid = Inr (ok, m')" "table_inv m'" "channels_inv m'" "tids_inv m'"
    and fl: "\<not> ok \<longrightarrow> m' = m"
    and lk: "ok \<longrightarrow> (\<forall>type' r'. type' \<noteq> empty_type \<longrightarrow> turn_lookup m' type' r' =
         (if type' = type \<and> same_addr r r' then Some (identified (turn_lookup m type r) type r tid)
          else turn_lookup m type' r'))"
    using set_transaction_id_spec [OF inv(1-3) assms(2,3) l new] by metis
  have "fresh_ok m'"
  proof (cases "find_entry m r type True")
    case None
    then have "m' = m" using s(1) assms(3) by (auto simp: set_transaction_id_def)
    with inv(4) show ?thesis by simp
  next
    case (Some i)
    then obtain ids where "m' = (upd_entry m i (identified (turn_lookup m type r) type r tid))\<lparr>tm_ordered_transaction_ids := ids\<rparr>"
      using set_transaction_id_done [OF inv(1,3) assms(2,3) l new Some] s(1) by auto
    with l(2) show ?thesis by (intro fresh_ok_upd [OF inv(4)]) (simp_all add: identified_def)
  qed
  moreover have "\<exists>e. turn_lookup m' type r = Some e \<and> te_transaction_id e = tid" if ok
    using lk that assms(2,3) record_key.eq_refl [of r] by (auto simp: identified_def)
  ultimately show ?thesis using s by (auto simp: client_inv_def)
qed

lemma set_random_spec:
  assumes "client_inv m" "known_record r" "usable_type type" "list_all draw_ok draws"
    "set_random_transaction_id m type r draws = Some res"
  shows "\<exists>x m'. res = Inr (x, m') \<and> client_inv m'
    \<and> (\<forall>tid. x = Some tid \<longrightarrow> draw_ok tid \<and> (\<exists>e. turn_lookup m' type r = Some e \<and> te_transaction_id e = tid))"
proof (cases "\<exists>i. find_entry m r type False = Some i \<and> te_fresh_transaction_id (tm_map m ! i)")
  case True
  then obtain i where f: "find_entry m r type False = Some i" and fr: "te_fresh_transaction_id (tm_map m ! i)" by blast
  have inv: "table_inv m" "fresh_ok m" using assms(1) by (simp_all add: client_inv_def)
  note i = found_cases(1) [OF inv(1) f]
  have ok: "entry_ok (tm_map m ! i)" by (rule table_invD(1) [OF inv(1) i])
  have T: "type \<noteq> empty_type" using assms(3) by auto
  have "te_type (tm_map m ! i) = type"
    using found_cases(2) [OF inv(1) f] ok fr by (auto simp: entry_ok_def entry_matches_def turn_entry_zero_def)
  then have "turn_lookup m type r = Some (tm_map m ! i)" using find_entry_lookup [OF inv(1) T, of r False] f by simp
  moreover have "draw_ok (tid_of m i)" using ok fr inv(2) i by (auto simp: entry_ok_def fresh_ok_def)
  moreover have "res = Inr (Some (tid_of m i), m)" using assms(5) f fr by (simp add: set_random_transaction_id_def)
  ultimately show ?thesis using assms(1) by auto
next
  case False
  then have "(case find_entry m r type False of
      Some i \<Rightarrow> if te_fresh_transaction_id (tm_map m ! i) then Some (tid_of m i) else None | None \<Rightarrow> None) = None"
    by (auto split: option.split)
  then obtain tid rest where r: "random_free_tid m draws = Some (tid, rest)"
    and res: "res = bindr (set_transaction_id m type r tid) (\<lambda>(ok, m). Inr (if ok then Some tid else None, m))"
    using assms(5) by (auto simp: set_random_transaction_id_def split: option.splits)
  have "draw_ok tid" "find_transaction_id m tid = None"
    using random_free_tid_spec [OF r] assms(4) by (auto simp: list_all_iff)
  with client_set_tid [OF assms(1-3)] res show ?thesis by fastforce
qed

lemma client_bind_random:
  assumes "client_inv m" "known_record r" "turn_bind_random_channel m (Some r) channels now d = Some res"
  shows "\<exists>x m'. res = Inr (x, m') \<and> client_inv m'"
proof -
  have inv: "table_inv m" "channels_inv m" "tids_inv m" "fresh_ok m" using assms(1) by (simp_all add: client_inv_def)
  obtain c where res: "res = bindr (turn_bind_channel m (Some r) None c now d) (\<lambda>(ok, m). Inr (if ok then Some c else None, m))"
    using assms(3) by (auto simp: turn_bind_random_channel_def split: option.splits)
  show ?thesis
  proof (cases "may_bind m r c")
    case True
    have t: "tid_arg_ok None" by simp
    obtain i m' where b: "turn_bind_channel m (Some r) None c now d = Inr (True, m')"
      and put: "put_at m r TURN_ENTRY_TYPE_CHANNEL i (channel_entry m r None c (now + d))"
      and m': "tm_map m' = (tm_map m)[i := channel_entry m r None c (now + d)]"
      and rest: "tm_ordered_transaction_ids m' = tm_ordered_transaction_ids m" "channels_inv m'"
        "te_channel (channel_entry m r None c (now + d)) = c"
      using inv(1,2) assms(2) t True by (rule bind_channel_done)
    have f: "find_entry m r TURN_ENTRY_TYPE_CHANNEL True = Some i" using put by (simp add: put_at_def)
    note i = found_cases(1) [OF inv(1) f]
    from inv(1) f usable_channel have keep: "te_transaction_id (channel_entry m r None c (now + d)) = tid_of m i
      \<and> te_fresh_transaction_id (channel_entry m r None c (now + d)) = te_fresh_transaction_id (tm_map m ! i)"
      by (cases rule: found_slot) (simp_all add: bound_entry_def Let_def turn_entry_zero_def)
    have "table_inv m'" using map_frame [of m' "upd_entry m i (channel_entry m r None c (now + d))"] m'
        table_inv_put [OF inv(1) put] by simp
    moreover have "tids_inv m'"
      using tids_inv_put_same [OF inv(3) _ i, of "channel_entry m r None c (now + d)"] keep m' rest
      by (simp add: tids_inv_def)
    moreover have "fresh_ok m'"
      using keep inv(4) i by (intro fresh_ok_upd [OF inv(4) _ m']) (auto simp: fresh_ok_def)
    ultimately show ?thesis using b res rest by (simp add: client_inv_def)
  next
    case False
    with bind_channel_refused [OF inv(1,2)] res assms(1) show ?thesis by simp
  qed
qed

lemma client_table_inv: "client_table m \<Longrightarrow> client_inv m"
proof (induction rule: client_table.induct)
  case (init n m)
  then show ?case by (rule init_inv)
next
  case (permission_tid m r draws x m')
  then show ?case using set_random_spec [of m r TURN_ENTRY_TYPE_PERMISSION draws]
    by (auto simp: turn_set_random_permission_transaction_id_def)
next
  case (channel_tid m r draws x m')
  then show ?case using set_random_spec [of m r TURN_ENTRY_TYPE_CHANNEL draws]
    by (auto simp: turn_set_random_channel_transaction_id_def)
next
  case (permission_granted m tid now d ok m')
  then show ?case using client_update_None by (auto simp: turn_set_permission_def)
next
  case (channel_bound m tid now d ok m')
  then show ?case using client_update_None by (auto simp: turn_bind_current_channel_def)
next
  case (bind_random m r channels now d c m')
  then show ?case using client_bind_random by fastforce
next
  case (retrieve m tid x m')
  then show ?case using client_retrieve by blast
qed

lemma reachable_inv: "server_table m \<or> client_table m \<Longrightarrow> table_inv m \<and> channels_inv m"
  using server_table_inv client_table_inv by (auto simp: server_inv_def client_inv_def)

section \<open>Properties\<close>

text \<open>An empty table with room for two entries, for the examples.\<close>

definition fresh_table :: turn_map where
  "fresh_table = \<lparr>tm_map = replicate 2 turn_entry_zero, tm_ordered_channels = [], tm_ordered_transaction_ids = []\<rparr>"

definition peer_a :: addr_record where "peer_a = \<lparr>ar_addr = Sin 0x1234 [10, 0, 0, 1], ar_len = 16\<rparr>"

lemma fresh_table_reachable: "server_table fresh_table" "client_table fresh_table"
proof -
  have "turn_init_map True 1 = Some fresh_table" by (simp add: turn_init_map_def fresh_table_def)
  then show "server_table fresh_table" "client_table fresh_table"
    by (auto intro: server_table.init client_table.init zero_less_one)
qed

lemma fresh_table_lookup: "type \<noteq> empty_type \<Longrightarrow> turn_lookup fresh_table type r = None"
  by (auto simp: turn_lookup_def fresh_table_def entry_matches_def turn_entry_zero_def find_None_iff)

lemma fresh_table_not_full: "\<not> table_full fresh_table"
  by (auto simp: table_full_def fresh_table_def turn_entry_zero_def intro!: exI [of _ 0])

lemma peer_a_known [simp]: "known_record peer_a" "same_addr peer_a peer_a"
  by (simp_all add: peer_a_def addr_record_is_equal_def addr_is_equal_def)

text \<open>C24: In every reachable table the probing and the binary search return what a linear search through
  the entries returns: permissions, channels of records and records of channels.\<close>

theorem turn_table_lookups:
  assumes "server_table m \<or> client_table m"
  shows "turn_has_permission m r now =
      (case turn_lookup m TURN_ENTRY_TYPE_PERMISSION r of None \<Rightarrow> False | Some e \<Rightarrow> now < te_timestamp e)
    \<and> turn_get_channel m r = map_option te_channel (turn_lookup m TURN_ENTRY_TYPE_CHANNEL r)
    \<and> (turn_find_channel m c = Some r' \<longleftrightarrow> is_valid_channel c
         \<and> (\<exists>e \<in> set (tm_map m). te_channel e = c \<and> te_record e = r'))"
proof -
  have inv: "table_inv m" "channels_inv m" using reachable_inv [OF assms] by simp_all
  show ?thesis
    using turn_has_permission_lookup [OF inv(1)] turn_get_channel_lookup [OF inv(1)] turn_find_channel_spec [OF inv]
    by (simp add: Bex_def in_set_conv_nth) blast
qed

theorem turn_table_lookups_witness:
  "turn_has_permission fresh_table peer_a 0 =
      (case turn_lookup fresh_table TURN_ENTRY_TYPE_PERMISSION peer_a of None \<Rightarrow> False | Some e \<Rightarrow> 0 < te_timestamp e)
    \<and> turn_get_channel fresh_table peer_a = map_option te_channel (turn_lookup fresh_table TURN_ENTRY_TYPE_CHANNEL peer_a)
    \<and> (turn_find_channel fresh_table 0x4000 = Some peer_a \<longleftrightarrow> is_valid_channel 0x4000
         \<and> (\<exists>e \<in> set (tm_map fresh_table). te_channel e = 0x4000 \<and> te_record e = peer_a))"
  by (rule turn_table_lookups) (simp add: fresh_table_reachable)

text \<open>C22: Channels and peers are in bijection in every reachable table: the peer a channel leads to has that
  channel, and two channels never lead to the same address.\<close>

theorem turn_channel_bijection:
  assumes "server_table m \<or> client_table m" "turn_find_channel m c = Some r"
  shows "turn_get_channel m r = Some c
    \<and> (\<forall>c' r'. turn_find_channel m c' = Some r' \<and> addr_record_is_equal r r' False \<longrightarrow> c' = c)"
proof -
  have inv: "table_inv m" "channels_inv m" using reachable_inv [OF assms(1)] by simp_all
  have get: "turn_get_channel m q = Some k" if k: "turn_find_channel m k = Some p" and "same_addr p q" for p q k
  proof -
    obtain i where i: "i < map_size m" "te_channel (tm_map m ! i) = k" "te_record (tm_map m ! i) = p" "is_valid_channel k"
      using k turn_find_channel_spec [OF inv] by auto
    then have "te_type (tm_map m ! i) = TURN_ENTRY_TYPE_CHANNEL"
      using table_invD(1) [OF inv(1) i(1)] valid_channel_nonzero by (auto simp: entry_ok_def)
    then have "turn_lookup m TURN_ENTRY_TYPE_CHANNEL q = Some (tm_map m ! i)"
      using i that(2) lookup_Some [OF inv(1), of TURN_ENTRY_TYPE_CHANNEL q] by (auto simp: entry_matches_def)
    then show ?thesis using turn_get_channel_lookup [OF inv(1)] i(2) by simp
  qed
  have "known_record r"
    using assms(2) turn_find_channel_spec [OF inv] table_invD(1) [OF inv(1)] valid_channel_nonzero
    by (fastforce simp: entry_ok_def)
  then have self: "same_addr r r" by (rule record_key.eq_refl)
  have "c' = c" if "turn_find_channel m c' = Some r'" "same_addr r r'" for c' r'
    using get [OF that(1) record_key.eq_sym [OF that(2)]] get [OF assms(2) self] by simp
  with get [OF assms(2) self] show ?thesis by blast
qed

lemma fresh_bind: "may_bind fresh_table peer_a 0x4001"
proof -
  have "te_channel (tm_map fresh_table ! i) = 0" if "i < map_size fresh_table" for i
    using that by (simp add: fresh_table_def turn_entry_zero_def)
  then show ?thesis
    using fresh_table_lookup [of TURN_ENTRY_TYPE_CHANNEL peer_a] fresh_table_not_full
    by (simp add: may_bind_def is_valid_channel_def)
qed

lemma bound_find:
  assumes "table_inv m" "channels_inv m" "known_record r" "tid_arg_ok tid" "may_bind m r c"
    "turn_bind_channel m (Some r) tid c now d = Inr (ok, m')"
  shows "\<exists>r'. turn_find_channel m' c = Some r' \<and> same_addr r' r"
proof -
  obtain m2 where m2: "turn_bind_channel m (Some r) tid c now d = Inr (True, m2)" "table_inv m2" "channels_inv m2"
    "turn_lookup m2 TURN_ENTRY_TYPE_CHANNEL r = Some (channel_entry m r tid c (now + d))"
    using turn_bind_channel_spec [OF assms(1-4), of c now d] assms(5) record_key.eq_refl [OF assms(3)] by fastforce
  have ch: "te_channel (channel_entry m r tid c (now + d)) = c"
    using assms(1-5) by (rule bind_channel_done)
  from m2(4) lookup_Some [OF m2(2), of TURN_ENTRY_TYPE_CHANNEL r] obtain i where
    "i < map_size m2" "tm_map m2 ! i = channel_entry m r tid c (now + d)"
    "entry_matches (channel_entry m r tid c (now + d)) TURN_ENTRY_TYPE_CHANNEL r" by auto
  moreover have "is_valid_channel c" using assms(5) by (simp add: may_bind_def)
  ultimately have "turn_find_channel m2 c = Some (te_record (channel_entry m r tid c (now + d)))"
    using ch by (subst turn_find_channel_spec [OF m2(2,3)]) auto
  with m2(1) assms(6) \<open>entry_matches _ _ _\<close> show ?thesis by (auto simp: entry_matches_def)
qed

theorem turn_channel_bijection_witness:
  "\<exists>m r. server_table m \<and> turn_find_channel m 0x4001 = Some r \<and> turn_get_channel m r = Some 0x4001
    \<and> (\<forall>c' r'. turn_find_channel m c' = Some r' \<and> addr_record_is_equal r r' False \<longrightarrow> c' = 0x4001)"
proof -
  have inv: "table_inv fresh_table" "channels_inv fresh_table"
    using reachable_inv fresh_table_reachable by auto
  obtain m where m: "turn_bind_channel fresh_table (Some peer_a) (Some (replicate 12 1)) 0x4001 0 600 = Inr (True, m)"
    using turn_bind_channel_spec [OF inv peer_a_known(1), of "Some (replicate 12 1)" "0x4001" 0 600] fresh_bind by auto
  then have "server_table m"
    by (rule server_table.bind_channel [OF fresh_table_reachable(1) peer_a_known(1), rotated]) simp
  moreover obtain r where "turn_find_channel m 0x4001 = Some r"
    using bound_find [OF inv peer_a_known(1) _ fresh_bind m] by auto
  ultimately show ?thesis using turn_channel_bijection [of m "0x4001" r] by blast
qed

text \<open>C29: A permission the server installs holds for its lifetime for exactly the address it was requested
  for, whatever the port, and leaves all others as they were; a retransmitted request changes nothing.
  It is refused only when the table is full.\<close>

theorem turn_set_permission_effect:
  assumes "server_table m" "addr_known (ar_addr r)" "length tid = 12"
    "turn_set_permission m tid (Some r) now d = (ok, m')"
  shows "(ok \<longrightarrow> turn_has_permission m' r' t =
      (if addr_record_is_equal r r' False \<and> map_option te_transaction_id (turn_lookup m TURN_ENTRY_TYPE_PERMISSION r) \<noteq> Some tid
       then t < now + d else turn_has_permission m r' t))
    \<and> (\<not> ok \<longrightarrow> m' = m \<and> (\<forall>e \<in> set (tm_map m). te_type e \<noteq> TURN_ENTRY_TYPE_EMPTY))"
proof -
  have inv: "table_inv m" "channels_inv m" using reachable_inv assms(1) by auto
  have u: "update_timestamp m TURN_ENTRY_TYPE_PERMISSION tid (Some r) now d = (ok, m')"
    using assms(4) by (simp add: turn_set_permission_def)
  note spec = update_timestamp_spec [OF inv assms(2) _ assms(3) u, simplified]
  then have inv': "table_inv m'" by simp
  have old: "turn_lookup m TURN_ENTRY_TYPE_PERMISSION r' = turn_lookup m TURN_ENTRY_TYPE_PERMISSION r"
    if "same_addr r r'"
    using entry_matches_same [OF that] by (simp add: turn_lookup_def)
  have "ok \<longrightarrow> turn_has_permission m' r' t =
      (if addr_record_is_equal r r' False \<and> map_option te_transaction_id (turn_lookup m TURN_ENTRY_TYPE_PERMISSION r) \<noteq> Some tid
       then t < now + d else turn_has_permission m r' t)"
    using spec old turn_has_permission_lookup [OF inv'] turn_has_permission_lookup [OF inv(1)]
    by (auto simp: refreshed_def split: option.splits)
  moreover have "\<not> ok \<longrightarrow> m' = m \<and> (\<forall>e \<in> set (tm_map m). te_type e \<noteq> TURN_ENTRY_TYPE_EMPTY)"
    using spec by (auto simp: table_full_def in_set_conv_nth)
  ultimately show ?thesis by blast
qed

theorem turn_set_permission_effect_witness:
  "\<exists>m'. turn_set_permission fresh_table (replicate 12 1) (Some peer_a) 0 300 = (True, m') \<and> turn_has_permission m' peer_a 299"
proof -
  have inv: "table_inv fresh_table" "channels_inv fresh_table"
    using reachable_inv fresh_table_reachable by auto
  obtain ok m' where u: "turn_set_permission fresh_table (replicate 12 1) (Some peer_a) 0 300 = (ok, m')" by fastforce
  have ok
    using update_timestamp_spec [OF inv peer_a_known(1), of TURN_ENTRY_TYPE_PERMISSION "replicate 12 1" 0 300 ok m'] u
      fresh_table_not_full by (auto simp: turn_set_permission_def)
  with u turn_set_permission_effect [OF fresh_table_reachable(1) peer_a_known(1) _ u, of peer_a 299] show ?thesis
    by (simp add: fresh_table_lookup)
qed

text \<open>The server's channel binding never writes outside its arrays. It succeeds exactly when the channel
  number is valid and neither the channel nor the address has another partner (and, for a new peer, the
  table has a free entry); the binding then holds until it expires, and other peers keep theirs.\<close>

theorem turn_bind_channel_effect:
  assumes "server_table m" "addr_known (ar_addr r)" "length tid = 12"
  shows "\<exists>m'. turn_bind_channel m (Some r) (Some tid) c now d = Inr (may_bind m r c, m')
    \<and> (may_bind m r c \<longrightarrow> (\<exists>r'. turn_find_channel m' c = Some r' \<and> addr_record_is_equal r' r False)
         \<and> (\<forall>t. turn_get_bound_channel m' r t = (if t < now + d then Some c else None)))
    \<and> (\<not> may_bind m r c \<longrightarrow> m' = m)
    \<and> (\<forall>r'. \<not> addr_record_is_equal r r' False \<longrightarrow> turn_get_channel m' r' = turn_get_channel m r')"
proof -
  have inv: "table_inv m" "channels_inv m" using reachable_inv assms(1) by auto
  have tid: "tid_arg_ok (Some tid)" using assms(3) by simp
  obtain m' where m': "turn_bind_channel m (Some r) (Some tid) c now d = Inr (may_bind m r c, m')" "table_inv m'"
    and lk: "\<forall>type' r'. type' \<noteq> empty_type \<longrightarrow> turn_lookup m' type' r' =
         (if may_bind m r c \<and> type' = TURN_ENTRY_TYPE_CHANNEL \<and> same_addr r r'
          then Some (channel_entry m r (Some tid) c (now + d)) else turn_lookup m type' r')"
    using turn_bind_channel_spec [OF inv assms(2) tid, of c now d] by blast
  have "turn_get_bound_channel m' r t = (if t < now + d then Some c else None)" if mb: "may_bind m r c" for t
  proof -
    have v: "c \<noteq> 0" using mb valid_channel_nonzero by (auto simp: may_bind_def)
    let ?e = "channel_entry m r (Some tid) c (now + d)"
    have ch: "te_channel ?e = c" using inv assms(2) tid mb by (rule bind_channel_done)
    have "turn_lookup m' TURN_ENTRY_TYPE_CHANNEL r = Some ?e"
      using lk mb record_key.eq_refl [OF assms(2)] by simp
    moreover have "te_timestamp ?e = now + d" by (simp add: bound_entry_def Let_def)
    ultimately show ?thesis
      using find_entry_lookup [OF m'(2), of TURN_ENTRY_TYPE_CHANNEL r False] ch v
      by (auto simp: turn_get_bound_channel_def Let_def split: option.splits if_splits)
  qed
  moreover have "m' = m" if "\<not> may_bind m r c"
    using m'(1) bind_channel_refused [OF inv that] by simp
  moreover have "turn_get_channel m' r' = turn_get_channel m r'" if "\<not> same_addr r r'" for r'
    using that lk turn_get_channel_lookup [OF inv(1)] turn_get_channel_lookup [OF m'(2)] by simp
  moreover have "\<exists>r'. turn_find_channel m' c = Some r' \<and> same_addr r' r" if "may_bind m r c"
    using bound_find [OF inv assms(2) tid that m'(1)] .
  ultimately show ?thesis using m'(1) by (intro exI [of _ m']) simp
qed

theorem turn_bind_channel_effect_witness:
  "\<exists>m'. turn_bind_channel fresh_table (Some peer_a) (Some (replicate 12 1)) 0x4001 0 600 = Inr (True, m')
    \<and> turn_get_bound_channel m' peer_a 599 = Some 0x4001 \<and> turn_get_bound_channel m' peer_a 600 = None"
proof -
  have l: "length (replicate 12 (1::u8)) = 12" by simp
  show ?thesis
    using turn_bind_channel_effect [OF fresh_table_reachable(1) peer_a_known(1) l, of "0x4001" 0 600] fresh_bind by auto
qed

text \<open>A request's transaction id leads back to the peer it was sent for: after the agent has drawn an id
  for a record, retrieving that id returns the record, up to its port.\<close>

theorem turn_retrieve_after_set:
  assumes "client_table m" "addr_known (ar_addr r)" "list_all draw_ok draws"
    "set_random_transaction_id m type r draws = Some (Inr (Some tid, m'))"
    "type = TURN_ENTRY_TYPE_PERMISSION \<or> type = TURN_ENTRY_TYPE_CHANNEL"
  shows "\<exists>r'. fst (turn_retrieve_transaction_id m' tid) = Some r' \<and> addr_record_is_equal r' r False"
proof -
  have "client_inv m'" "draw_ok tid" and "\<exists>e. turn_lookup m' type r = Some e \<and> te_transaction_id e = tid"
    using set_random_spec [OF client_table_inv [OF assms(1)] assms(2,5,3,4)] by auto
  moreover from this(1) have inv: "table_inv m'" "tids_inv m'" by (simp_all add: client_inv_def)
  moreover have "type \<noteq> empty_type" using assms(5) by auto
  ultimately obtain i where i: "i < map_size m'" "tid_of m' i = tid" "entry_matches (tm_map m' ! i) type r"
    using lookup_Some [OF inv(1), of type r] by auto
  let ?p = "find_ordered_transaction_id m' tid" and ?ids = "tm_ordered_transaction_ids m'"
  have p: "?p < length ?ids" "tid_of m' (?ids ! ?p) = tid"
    using entry_found_by_tid(1) [OF inv, of tid] i \<open>draw_ok tid\<close> by (auto simp: Let_def)
  then have "?ids ! ?p < map_size m'" using inv(2) nth_mem unfolding tids_inv_def by blast
  then have "?ids ! ?p = i" using tids_inv_unique [OF inv(2) _ i(1)] p(2) i(2) \<open>draw_ok tid\<close> by simp
  then show ?thesis
    using p i by (auto simp: turn_retrieve_transaction_id_def Let_def memcmp_eq_0 entry_matches_def)
qed

theorem turn_retrieve_after_set_witness:
  "\<exists>tid m' r'. set_random_transaction_id fresh_table TURN_ENTRY_TYPE_CHANNEL peer_a [replicate 12 1] = Some (Inr (Some tid, m'))
    \<and> fst (turn_retrieve_transaction_id m' tid) = Some r' \<and> addr_record_is_equal r' peer_a False"
proof -
  have "find_entry fresh_table peer_a TURN_ENTRY_TYPE_CHANNEL False = None
      \<or> (\<exists>i < 2. find_entry fresh_table peer_a TURN_ENTRY_TYPE_CHANNEL False = Some i)"
    using found_cases(1) [of fresh_table peer_a TURN_ENTRY_TYPE_CHANNEL False] reachable_inv fresh_table_reachable
    by (cases "find_entry fresh_table peer_a TURN_ENTRY_TYPE_CHANNEL False") (auto simp: fresh_table_def)
  then have fresh: "(case find_entry fresh_table peer_a TURN_ENTRY_TYPE_CHANNEL False of
      Some i \<Rightarrow> if te_fresh_transaction_id (tm_map fresh_table ! i) then Some (tid_of fresh_table i) else None | None \<Rightarrow> None) = None"
    by (auto simp: fresh_table_def turn_entry_zero_def)
  have draw: "draw_ok (replicate 12 1)" by (simp add: memory_is_zero_def list_all_iff)
  have none: "find_transaction_id fresh_table (replicate 12 1) = None"
    by (simp add: find_transaction_id_def find_ordered_transaction_id_def fresh_table_def
        find_ordered_transaction_id_rec.simps)
  have inv: "client_inv fresh_table" by (rule client_table_inv [OF fresh_table_reachable(2)])
  obtain m' where s: "set_transaction_id fresh_table TURN_ENTRY_TYPE_CHANNEL peer_a (replicate 12 1) = Inr (True, m')"
    using set_transaction_id_spec [of fresh_table peer_a TURN_ENTRY_TYPE_CHANNEL "replicate 12 1"] inv draw
      find_transaction_id_None [OF inv draw none] fresh_table_not_full by (auto simp: client_inv_def)
  have "set_random_transaction_id fresh_table TURN_ENTRY_TYPE_CHANNEL peer_a [replicate 12 1] = Some (Inr (Some (replicate 12 1), m'))"
    using fresh none s by (simp add: set_random_transaction_id_def)
  with turn_retrieve_after_set [OF fresh_table_reachable(2) peer_a_known(1) _ this] draw show ?thesis by fastforce
qed

section \<open>Random channel numbers\<close>

lemma random_channel_number_eq: "random_channel_number r = 0x4000 + take_bit 12 r"
proof -
  have "r AND 0x0FFF = take_bit 12 r" using take_bit_eq_mask [of 12 r] by (simp add: mask_eq_exp_minus_1)
  moreover have "take_bit 12 r AND 2 ^ 14 = 0"
    unfolding and_exp_eq_0_iff_not_bit by (simp add: bit_take_bit_iff)
  then have "0x4000 AND take_bit 12 r = 0" by (simp add: and.commute)
  ultimately show ?thesis unfolding random_channel_number_def by (simp add: disjunctive_add_eq_or)
qed

lemma unat_random_channel_number: "unat (random_channel_number r) = 0x4000 + unat r mod 0x1000"
proof -
  have t: "unat (take_bit 12 r) = unat r mod 0x1000" by (simp add: unat_mod_distrib take_bit_eq_mod)
  then have "unat (0x4000 + take_bit 12 r) = unat (0x4000 :: u16) + unat (take_bit 12 r)"
    by (intro unat_add_lem [THEN iffD1]) simp
  then show ?thesis by (simp add: random_channel_number_eq t)
qed

lemma random_channel_number_range: "0x4000 \<le> random_channel_number r \<and> random_channel_number r \<le> 0x4FFF"
proof -
  have "unat r mod 0x1000 < 0x1000" by simp
  then have "unat (random_channel_number r) \<le> unat (0x4FFF :: u16)" "unat (0x4000 :: u16) \<le> unat (random_channel_number r)"
    unfolding unat_random_channel_number by simp_all
  then show ?thesis by (simp add: word_le_nat_alt)
qed

text \<open>As long as fewer than 4096 entries exist, some number is free.\<close>

lemma free_channel:
  assumes "table_inv m" "channels_inv m" "map_size m < 4096"
  obtains x where "turn_find_channel m (random_channel_number x) = None"
proof (rule ccontr)
  assume "\<not> thesis"
  with that have all: "turn_find_channel m (random_channel_number x) \<noteq> None" for x by blast
  let ?f = "\<lambda>k::nat. random_channel_number (of_nat k)"
  have "?f ` {..<4096} \<subseteq> te_channel ` set (tm_map m)"
  proof
    fix c assume "c \<in> ?f ` {..<4096}"
    then obtain r where "turn_find_channel m c = Some r" using all by auto
    then show "c \<in> te_channel ` set (tm_map m)" using turn_find_channel_spec [OF assms(1,2)] by force
  qed
  then have "card (?f ` {..<4096}) \<le> card (te_channel ` set (tm_map m))" by (intro card_mono) simp_all
  also have "\<dots> \<le> map_size m" using card_image_le [of "set (tm_map m)" te_channel] card_length [of "tm_map m"] by simp
  finally have "card (?f ` {..<4096}) < 4096" using assms(3) by simp
  moreover have "inj_on ?f {..<4096}"
  proof (rule inj_onI)
    fix a b :: nat assume ab: "a \<in> {..<4096}" "b \<in> {..<4096}" "?f a = ?f b"
    then have "unat (?f a) = unat (?f b)" by simp
    with ab(1,2) show "a = b" by (simp add: unat_random_channel_number unat_of_nat)
  qed
  then have "card (?f ` {..<4096}) = 4096" by (simp add: card_image)
  ultimately show False by simp
qed

lemma random_free_channel_Some:
  "x \<in> set draws \<Longrightarrow> turn_find_channel m (random_channel_number x) = None \<Longrightarrow>
     \<exists>y rest. random_free_channel m draws = Some (random_channel_number y, rest)"
  by (induction draws) (auto simp: Let_def)

text \<open>C31: Drawing a channel number ends: while the table has fewer than 4096 entries there is a value of the
  random generator after which the loop stops, wherever it comes up; the bound channel is then in the range
  0x4000 to 0x4FFF, and no array is overrun.\<close>

theorem turn_bind_random_channel_returns:
  assumes "client_table m" "addr_known (ar_addr r)" "map_size m < 4096"
  shows "\<exists>x. \<forall>draws. x \<in> set draws \<longrightarrow> (\<exists>c m'. turn_bind_random_channel m (Some r) draws now d = Some (Inr (c, m'))
    \<and> (\<forall>k. c = Some k \<longrightarrow> 0x4000 \<le> k \<and> k \<le> 0x4FFF))"
proof -
  have inv: "client_inv m" using assms(1) by (rule client_table_inv)
  then obtain x where x: "turn_find_channel m (random_channel_number x) = None"
    using free_channel assms(3) by (auto simp: client_inv_def)
  have "\<exists>c m'. turn_bind_random_channel m (Some r) draws now d = Some (Inr (c, m'))
      \<and> (\<forall>k. c = Some k \<longrightarrow> 0x4000 \<le> k \<and> k \<le> 0x4FFF)" if dr: "x \<in> set draws" for draws
  proof -
    obtain y rest where f: "random_free_channel m draws = Some (random_channel_number y, rest)"
      using random_free_channel_Some [OF dr x] by blast
    then obtain res where res: "turn_bind_random_channel m (Some r) draws now d = Some res"
      by (simp add: turn_bind_random_channel_def)
    then obtain c m' where c: "res = Inr (c, m')" using client_bind_random [OF inv assms(2)] by blast
    have "c = None \<or> c = Some (random_channel_number y)"
      using res c f by (auto simp: turn_bind_random_channel_def bindr_eq_Inr split: prod.splits if_splits)
    then show ?thesis using res c random_channel_number_range [of y] by auto
  qed
  then show ?thesis by blast
qed

theorem turn_bind_random_channel_returns_witness:
  "\<exists>x. \<forall>draws. x \<in> set draws \<longrightarrow> (\<exists>c m'. turn_bind_random_channel fresh_table (Some peer_a) draws 0 0 = Some (Inr (c, m'))
    \<and> (\<forall>k. c = Some k \<longrightarrow> 0x4000 \<le> k \<and> k \<le> 0x4FFF))"
  by (rule turn_bind_random_channel_returns) (simp_all add: fresh_table_reachable(2), simp add: fresh_table_def)

text \<open>The agent's table never writes outside its array of transaction ids, whatever ids are drawn.\<close>

theorem turn_client_in_bounds:
  assumes "client_table m" "addr_known (ar_addr r)" "list_all draw_ok draws"
  shows "turn_set_random_permission_transaction_id m r draws \<noteq> Some (Inl e)
    \<and> turn_set_random_channel_transaction_id m r draws \<noteq> Some (Inl e)"
  using set_random_spec [OF client_table_inv [OF assms(1)] assms(2) _ assms(3)]
  by (fastforce simp: turn_set_random_permission_transaction_id_def turn_set_random_channel_transaction_id_def)

theorem turn_client_in_bounds_witness:
  "turn_set_random_permission_transaction_id fresh_table peer_a [replicate 12 1] \<noteq> Some (Inl OutOfBounds)
    \<and> turn_set_random_channel_transaction_id fresh_table peer_a [replicate 12 1] \<noteq> Some (Inl OutOfBounds)"
  by (rule turn_client_in_bounds) (simp_all add: fresh_table_reachable(2) memory_is_zero_def list_all_iff)

section \<open>Channel data\<close>

lemma channel_first_byte:
  "64 \<le> (ucast (drop_bit 8 c) :: u8) \<and> (ucast (drop_bit 8 c) :: u8) \<le> 79 \<longleftrightarrow> 0x4000 \<le> c \<and> c \<le> 0x4FFF" for c :: u16
proof -
  have u: "unat (ucast (drop_bit 8 c) :: u8) = unat c div 256"
  proof -
    have "unat (drop_bit 8 c) = unat c div 256" by (simp add: drop_bit_eq_div unat_div_distrib)
    moreover have "unat c div 256 < 256" using unsigned_less [of c] by (simp add: less_mult_imp_div_less)
    ultimately show ?thesis by (simp add: unsigned_ucast_eq take_bit_nat_eq_self)
  qed
  have "64 \<le> unat c div 256 \<longleftrightarrow> 0x4000 \<le> unat c" "unat c div 256 \<le> 79 \<longleftrightarrow> unat c \<le> 0x4FFF" by linarith+
  then show ?thesis by (simp add: word_le_nat_alt u)
qed

text \<open>Data framed for a channel of the TURN range 0x4000 to 0x4FFF is recognised as channel data, and its
  header gives back the channel and the length; a number above the range is framed as well, but what
  results is not recognised as channel data.\<close>

theorem turn_wrap_channel_data_frame:
  assumes "length data < 65536" "4 + length data \<le> length buffer" "0x4000 \<le> channel"
  shows "\<exists>buf. turn_wrap_channel_data buffer data channel = Inr (buf, 4 + length data) \<and> length buf = length buffer
    \<and> get16 buf = channel \<and> unat (get16 (drop 2 buf)) = length data \<and> take (length data) (drop 4 buf) = data
    \<and> (is_channel_data buf \<longleftrightarrow> channel \<le> 0x4FFF)"
proof -
  let ?buf = "put16 channel @ put16 (of_nat (length data)) @ data @ drop (4 + length data) buffer"
  have "turn_wrap_channel_data buffer data channel = Inr (?buf, 4 + length data)"
    using assms by (simp add: turn_wrap_channel_data_def is_valid_channel_def)
  moreover have "is_channel_data ?buf \<longleftrightarrow> channel \<le> 0x4FFF"
    using channel_first_byte [of channel] assms(3) by (simp add: is_channel_data_def put16_def)
  ultimately show ?thesis using assms by (intro exI [of _ ?buf]) (simp add: unat_of_nat)
qed

theorem turn_wrap_channel_data_frame_witness:
  "\<exists>buf. turn_wrap_channel_data (replicate 8 0) [7, 8] 0x4001 = Inr (buf, 6) \<and> is_channel_data buf"
  using turn_wrap_channel_data_frame [of "[7, 8]" "replicate 8 0" "0x4001"] by auto

end
