(* ===== verification/Ice.thy ===== *)
theory Ice
  imports Addr Base64
begin

text \<open>
  \<open>ice.c\<close>: candidates and their priorities, candidate pairs, the candidate list of a description with its
  in-place insertion sort, and the printing and parsing of descriptions in SDP. The resolver
  (\<open>getaddrinfo\<close>, \<open>getnameinfo\<close>) and the random bytes are arguments. \<open>random.c\<close>'s string generator is
  here, too.
\<close>

section \<open>Data\<close>

datatype ice_candidate_type = ICE_CANDIDATE_TYPE_UNKNOWN | ICE_CANDIDATE_TYPE_HOST
  | ICE_CANDIDATE_TYPE_SERVER_REFLEXIVE | ICE_CANDIDATE_TYPE_PEER_REFLEXIVE | ICE_CANDIDATE_TYPE_RELAYED

abbreviation (input) ICE_MAX_CANDIDATES_COUNT :: nat where "ICE_MAX_CANDIDATES_COUNT \<equiv> 20"
abbreviation (input) ICE_CANDIDATE_PREF_HOST :: u32 where "ICE_CANDIDATE_PREF_HOST \<equiv> 126"
abbreviation (input) ICE_CANDIDATE_PREF_PEER_REFLEXIVE :: u32 where "ICE_CANDIDATE_PREF_PEER_REFLEXIVE \<equiv> 110"
abbreviation (input) ICE_CANDIDATE_PREF_SERVER_REFLEXIVE :: u32 where "ICE_CANDIDATE_PREF_SERVER_REFLEXIVE \<equiv> 100"
abbreviation (input) ICE_CANDIDATE_PREF_RELAYED :: u32 where "ICE_CANDIDATE_PREF_RELAYED \<equiv> 0"
abbreviation (input) BUFFER_SIZE :: nat where "BUFFER_SIZE \<equiv> 1024"

text \<open>Character arrays are C strings; \<open>component\<close> is an \<open>int\<close> of 32 bits.\<close>

record ice_candidate =
  ic_type :: ice_candidate_type
  ic_priority :: u32
  ic_component :: int
  ic_foundation :: bytes
  ic_transport :: bytes
  ic_hostname :: bytes
  ic_service :: bytes
  ic_resolved :: addr_record

record ice_description =
  id_ice_ufrag :: bytes
  id_ice_pwd :: bytes
  id_ice_lite :: bool
  id_candidates :: "ice_candidate list"
  id_finished :: bool

datatype ice_candidate_pair_state = ICE_CANDIDATE_PAIR_STATE_PENDING | ICE_CANDIDATE_PAIR_STATE_SUCCEEDED
  | ICE_CANDIDATE_PAIR_STATE_FAILED | ICE_CANDIDATE_PAIR_STATE_FROZEN

text \<open>The candidates of a pair are given by value; the pointers to them may be null.\<close>

record ice_candidate_pair =
  cp_local :: "ice_candidate option"
  cp_remote :: "ice_candidate option"
  cp_priority :: u64
  cp_state :: ice_candidate_pair_state
  cp_nominated :: bool
  cp_nomination_requested :: bool
  cp_consent_expiry :: int

datatype ice_resolve_mode = ICE_RESOLVE_MODE_SIMPLE | ICE_RESOLVE_MODE_LOOKUP

datatype ice_parse_result = ICE_PARSE_ERROR | ICE_PARSE_IGNORED | ICE_PARSE_MISSING_UFRAG | ICE_PARSE_MISSING_PWD

definition candidate_zero :: ice_candidate where
  "candidate_zero = \<lparr>ic_type = ICE_CANDIDATE_TYPE_UNKNOWN, ic_priority = 0, ic_component = 0, ic_foundation = [],
     ic_transport = [], ic_hostname = [], ic_service = [], ic_resolved = \<lparr>ar_addr = OtherFamily 0, ar_len = 0\<rparr>\<rparr>"

definition description_zero :: ice_description where
  "description_zero = \<lparr>id_ice_ufrag = [], id_ice_pwd = [], id_ice_lite = False, id_candidates = [], id_finished = False\<rparr>"

section \<open>Priorities\<close>

definition clamp :: "int \<Rightarrow> int \<Rightarrow> int \<Rightarrow> int" where
  "clamp x low high = (if x > high then high else if x < low then low else x)"

definition ice_compute_priority :: "ice_candidate_type \<Rightarrow> u16 \<Rightarrow> int \<Rightarrow> int \<Rightarrow> u32" where
  "ice_compute_priority type family component index =
     (let p = (case type of ICE_CANDIDATE_TYPE_HOST \<Rightarrow> ICE_CANDIDATE_PREF_HOST
                 | ICE_CANDIDATE_TYPE_PEER_REFLEXIVE \<Rightarrow> ICE_CANDIDATE_PREF_PEER_REFLEXIVE
                 | ICE_CANDIDATE_TYPE_SERVER_REFLEXIVE \<Rightarrow> ICE_CANDIDATE_PREF_SERVER_REFLEXIVE
                 | ICE_CANDIDATE_TYPE_RELAYED \<Rightarrow> ICE_CANDIDATE_PREF_RELAYED
                 | ICE_CANDIDATE_TYPE_UNKNOWN \<Rightarrow> 0);
          p = push_bit 16 p;
          p = p + (if family = AF_INET then 32767 else if family = AF_INET6 then 65535 else 0);
          p = p - of_int (clamp index 0 32767);
          p = push_bit 8 p
      in p + of_int (256 - clamp component 1 256))"

definition ice_update_candidate_pair :: "ice_candidate_pair \<Rightarrow> bool \<Rightarrow> ice_candidate_pair" where
  "ice_update_candidate_pair pair is_controlling =
     (if cp_local pair = None \<and> cp_remote pair = None then pair
      else let prio = (\<lambda>own other. case own of Some c \<Rightarrow> ic_priority c
                 | None \<Rightarrow> ice_compute_priority ICE_CANDIDATE_TYPE_HOST (sa_family (ar_addr (ic_resolved (the other))))
                             (ic_component (the other)) 0);
               local_priority = (ucast (prio (cp_local pair) (cp_remote pair)) :: u64);
               remote_priority = (ucast (prio (cp_remote pair) (cp_local pair)) :: u64);
               g = (if is_controlling then local_priority else remote_priority);
               d = (if is_controlling then remote_priority else local_priority);
               mn = (if g < d then g else d);
               mx = (if g > d then g else d)
           in pair\<lparr>cp_priority := push_bit 32 mn + push_bit 1 mx + (if g > d then 1 else 0)\<rparr>)"

definition ice_create_candidate_pair ::
  "ice_candidate option \<Rightarrow> ice_candidate option \<Rightarrow> bool \<Rightarrow> ice_candidate_pair option" where
  "ice_create_candidate_pair lcl rmt is_controlling =
     (if lcl \<noteq> None \<and> rmt \<noteq> None
         \<and> sa_family (ar_addr (ic_resolved (the lcl))) \<noteq> sa_family (ar_addr (ic_resolved (the rmt)))
      then None
      else Some (ice_update_candidate_pair \<lparr>cp_local = lcl, cp_remote = rmt, cp_priority = 0,
             cp_state = ICE_CANDIDATE_PAIR_STATE_FROZEN, cp_nominated = False, cp_nomination_requested = False,
             cp_consent_expiry = 0\<rparr> is_controlling))"

section \<open>The candidate list\<close>

text \<open>Decimal digits, as \<open>%u\<close> prints them.\<close>

fun print_u :: "nat \<Rightarrow> bytes" where
  "print_u n = (if n < 10 then [of_nat (48 + n)] else print_u (n div 10) @ [of_nat (48 + n mod 10)])"

declare print_u.simps [simp del]

definition ice_add_candidate :: "ice_candidate \<Rightarrow> ice_description \<Rightarrow> (ice_candidate \<times> ice_description) option" where
  "ice_add_candidate c d =
     (if ic_type c = ICE_CANDIDATE_TYPE_UNKNOWN then None
      else if ICE_MAX_CANDIDATES_COUNT \<le> length (id_candidates d) then None
      else let c = (if ic_foundation c = ascii ''-''
                    then c\<lparr>ic_foundation := take 31 (print_u (length (id_candidates d) + 1))\<rparr> else c)
           in Some (c, d\<lparr>id_candidates := id_candidates d @ [c]\<rparr>))"

text \<open>
  The insertion sort, on the array. The inner loop moves elements up from \<open>prev = n - 1\<close> downwards while
  their priority is smaller; \<open>n\<close> is the position after \<open>prev\<close>, where the element goes.
\<close>

fun sort_shift :: "ice_candidate list \<Rightarrow> u32 \<Rightarrow> nat \<Rightarrow> ice_candidate list \<times> nat" where
  "sort_shift a priority 0 = (a, 0)"
| "sort_shift a priority (Suc prev) =
     (if ic_priority (a ! prev) < priority then sort_shift (a[Suc prev := a ! prev]) priority prev
      else (a, Suc prev))"

lemma length_sort_shift [simp]: "length (fst (sort_shift a p n)) = length a"
  by (induction a p n rule: sort_shift.induct) auto

function sort_loop :: "ice_candidate list \<Rightarrow> nat \<Rightarrow> ice_candidate list" where
  "sort_loop a cur =
     (if cur < length a
      then let tmp = a ! cur; (a', n) = sort_shift a (ic_priority tmp) cur
           in sort_loop (if n \<noteq> cur then a'[n := tmp] else a') (cur + 1)
      else a)"
  by pat_completeness auto
termination
  by (relation "measure (\<lambda>(a, cur). length a - cur)")
    (simp_all, metis length_sort_shift fst_conv diff_less_mono2 lessI)

declare sort_loop.simps [simp del]

definition ice_sort_candidates :: "ice_description \<Rightarrow> ice_description" where
  "ice_sort_candidates d = d\<lparr>id_candidates := sort_loop (id_candidates d) 1\<rparr>"

text \<open>The index of the first candidate with the address, of the type if one is given.\<close>

definition ice_find_candidate_from_addr :: "ice_description \<Rightarrow> addr_record \<Rightarrow> ice_candidate_type \<Rightarrow> ice_candidate option" where
  "ice_find_candidate_from_addr d r type =
     find (\<lambda>c. (type = ICE_CANDIDATE_TYPE_UNKNOWN \<or> ic_type c = type)
        \<and> addr_is_equal (ar_addr r) (ar_addr (ic_resolved c)) True) (id_candidates d)"

definition ice_candidates_count :: "ice_description \<Rightarrow> ice_candidate_type \<Rightarrow> nat" where
  "ice_candidates_count d type = fold (\<lambda>c n. if ic_type c = type then n + 1 else n) (id_candidates d) 0"

section \<open>Local candidates\<close>

text \<open>One character per random byte.\<close>

definition chars64 :: bytes where
  "chars64 = ascii ''ABCDEFGHIJKLMNOPQRSTUVWXYZabcdefghijklmnopqrstuvwxyz0123456789+/''"

definition juice_random_str64 :: "bytes \<Rightarrow> bytes" where
  "juice_random_str64 rnd = map (\<lambda>b. chars64 ! unat (b AND 0x3F)) rnd"

text \<open>The random bytes for the fragment and the password are the arguments.\<close>

definition ice_create_local_description :: "bytes \<Rightarrow> bytes \<Rightarrow> ice_description" where
  "ice_create_local_description rnd_ufrag rnd_pwd =
     description_zero\<lparr>id_ice_ufrag := juice_random_str64 (take 4 rnd_ufrag), id_ice_pwd := juice_random_str64 (take 22 rnd_pwd)\<rparr>"

definition ice_create_local_candidate ::
  "(sockaddr \<Rightarrow> nat \<Rightarrow> (bytes \<times> bytes) option) \<Rightarrow> ice_candidate_type \<Rightarrow> int \<Rightarrow> int \<Rightarrow> addr_record \<Rightarrow> ice_candidate option" where
  "ice_create_local_candidate nameinfo type component index r =
     (let c = candidate_zero\<lparr>ic_type := type, ic_component := component, ic_resolved := r, ic_foundation := ascii ''-'',
                ic_priority := ice_compute_priority type (sa_family (ar_addr r)) component index\<rparr>
      in case nameinfo (ar_addr r) (ar_len r) of
           None \<Rightarrow> None
         | Some (host, service) \<Rightarrow> Some (c\<lparr>ic_hostname := host, ic_service := service\<rparr>))"

definition ice_resolve_candidate ::
  "(ice_resolve_mode \<Rightarrow> bytes \<Rightarrow> bytes \<Rightarrow> (sockaddr \<times> nat) list option) \<Rightarrow> ice_candidate \<Rightarrow> ice_resolve_mode \<Rightarrow> bool \<times> ice_candidate" where
  "ice_resolve_candidate gai c mode =
     (case gai mode (ic_hostname c) (ic_service c) of
        None \<Rightarrow> (False, c\<lparr>ic_resolved := (ic_resolved c)\<lparr>ar_len := 0\<rparr>\<rparr>)
      | Some ais \<Rightarrow>
          (case find (\<lambda>(sa, len). sa_family sa = AF_INET \<or> sa_family sa = AF_INET6) ais of
             None \<Rightarrow> (True, c)
           | Some (sa, len) \<Rightarrow> (True, c\<lparr>ic_resolved := \<lparr>ar_addr = sa, ar_len = len\<rparr>\<rparr>)))"

definition c_isalpha :: "u8 \<Rightarrow> bool" where
  "c_isalpha b \<longleftrightarrow> 65 \<le> b \<and> b \<le> 90 \<or> 97 \<le> b \<and> b \<le> 122"

definition c_isdigit :: "u8 \<Rightarrow> bool" where
  "c_isdigit b \<longleftrightarrow> 48 \<le> b \<and> b \<le> 57"

definition ice_is_valid_string :: "bytes option \<Rightarrow> bool" where
  "ice_is_valid_string str =
     (case str of None \<Rightarrow> False
      | Some s \<Rightarrow> list_all (\<lambda>b. \<not> (\<not> c_isalpha b \<and> \<not> c_isdigit b \<and> b \<noteq> of_char CHR ''+'' \<and> b \<noteq> of_char CHR ''/'')) s)"

end
