(* ===== verification/Array_Sort.thy ===== *)
theory Array_Sort
  imports Prelude
begin

text \<open>
  Insertion sort on arrays by descending key, as the sources write it twice (for the candidates of a
  description and for the pointers to candidate pairs). The locale is the contract of the inner loop,
  which moves the elements with a smaller key up; its lemmas say what a round makes of the
  sorted part. The reference is \<open>place\<close>, insertion into the sorted part read from its end.
\<close>

fun place :: "('a \<Rightarrow> 'k::linorder) \<Rightarrow> 'a \<Rightarrow> 'a list \<Rightarrow> 'a list" where
  "place key x [] = [x]"
| "place key x (y # ys) = (if key y < key x then y # place key x ys else x # y # ys)"

lemma place_mset [simp]: "mset (place key x ys) = add_mset x (mset ys)"
  by (induction ys) auto

lemma place_set [simp]: "set (place key x ys) = insert x (set ys)"
  using place_mset [of key x ys] by (metis set_mset_mset set_mset_add_mset_insert)

lemma place_length [simp]: "length (place key x ys) = Suc (length ys)"
  by (induction ys) auto

lemma place_sorted: "sorted (map key ys) \<Longrightarrow> sorted (map key (place key x ys))"
  by (induction ys) (auto simp: less_imp_le dest: leI intro: order_trans)

lemma place_filter:
  "filter (\<lambda>c. key c = k) (place key x ys) =
     (if key x = k then x # filter (\<lambda>c. key c = k) ys else filter (\<lambda>c. key c = k) ys)"
  by (induction ys) auto

lemma fold_place:
  "mset (fold (place key) ys zs) = mset ys + mset zs"
  "sorted (map key zs) \<Longrightarrow> sorted (map key (fold (place key) ys zs))"
  "filter (\<lambda>c. key c = k) (fold (place key) ys zs) = rev (filter (\<lambda>c. key c = k) ys) @ filter (\<lambda>c. key c = k) zs"
  by (induction ys arbitrary: zs) (auto simp: place_sorted place_filter)

locale shifting =
  fixes shift :: "'a list \<Rightarrow> 'k::linorder \<Rightarrow> nat \<Rightarrow> 'a list \<times> nat" and key :: "'a \<Rightarrow> 'k"
  assumes shift_0: "shift a p 0 = (a, 0)"
    and shift_Suc: "shift a p (Suc n) = (if key (a ! n) < p then shift (a[Suc n := a ! n]) p n else (a, Suc n))"
begin

lemma shift_place:
  assumes "shift (xs @ h # post) (key x) (length xs) = (a, n)"
  shows "a[n := x] = rev (place key x (rev xs)) @ post \<and> n \<le> length xs \<and> (n = length xs \<longrightarrow> a = xs @ h # post)"
  using assms
proof (induction xs arbitrary: h post rule: rev_induct)
  case (snoc y ys)
  show ?case
  proof (cases "key y < key x")
    case True
    have upd: "(ys @ y # h # post)[Suc (length ys) := y] = ys @ y # y # post"
      by (simp add: list_update_append)
    have "shift (ys @ y # y # post) (key x) (length ys) = (a, n)"
      using snoc.prems True by (simp add: shift_Suc nth_append upd)
    from snoc.IH [OF this] True show ?thesis by simp
  next
    case False
    then show ?thesis using snoc.prems by (auto simp: shift_Suc nth_append list_update_append)
  qed
qed (auto simp: shift_0)

text \<open>One round, with the element stored at the end of it, unless it stays where it is.\<close>

lemma round_place:
  assumes "shift (xs @ h # post) (key x) (length xs) = (a, n)"
  shows "a[n := x] = rev (place key x (rev xs)) @ post"
    and "h = x \<Longrightarrow> (if n \<noteq> length xs then a[n := x] else a) = rev (place key x (rev xs)) @ post"
  using shift_place [OF assms] by (auto simp: list_update_append)

end

end
