(* ===== verification/Ice_Priority.thy ===== *)
theory Ice_Priority
  imports Ice Array_Sort "HOL-Library.Multiset"
begin

text \<open>
  Priorities of candidates and pairs, and the order of the candidate list: the formulas of RFC 8445, the
  agreement of the two sides on pair priorities, and the correctness of the insertion sort.
\<close>

section \<open>Candidate priorities\<close>

fun type_preference :: "ice_candidate_type \<Rightarrow> nat" where
  "type_preference ICE_CANDIDATE_TYPE_HOST = 126"
| "type_preference ICE_CANDIDATE_TYPE_PEER_REFLEXIVE = 110"
| "type_preference ICE_CANDIDATE_TYPE_SERVER_REFLEXIVE = 100"
| "type_preference ICE_CANDIDATE_TYPE_RELAYED = 0"
| "type_preference ICE_CANDIDATE_TYPE_UNKNOWN = 0"

definition family_preference :: "u16 \<Rightarrow> nat" where
  "family_preference family = (if family = AF_INET then 32767 else if family = AF_INET6 then 65535 else 0)"

lemma push_bit_of_nat_u32: "push_bit k (of_nat n :: u32) = of_nat (n * 2 ^ k)"
  by (simp add: push_bit_eq_mult)

lemma clamp_range: "low \<le> high \<Longrightarrow> low \<le> clamp x low high \<and> clamp x low high \<le> high"
  by (simp add: clamp_def)

lemma of_int_clamp:
  assumes "0 \<le> low" "low \<le> high"
  shows "(of_int (clamp x low high) :: u32) = of_nat (nat (clamp x low high))"
  using clamp_range [OF assms(2), of x] assms(1) by simp

lemma of_int_complement:
  assumes "0 \<le> x" "x \<le> 256"
  shows "(of_int (256 - x) :: u32) = of_nat (256 - nat x)"
proof -
  have "256 - x = int (256 - nat x)" using assms by (simp add: of_nat_diff nat_le_iff)
  then show ?thesis by (metis of_int_of_nat_eq)
qed

lemma ice_compute_priority_nat:
  assumes "family = AF_INET \<or> family = AF_INET6"
  shows "ice_compute_priority type family component index = of_nat
    (2 ^ 24 * type_preference type + 2 ^ 8 * (family_preference family - nat (clamp index 0 32767))
     + (256 - nat (clamp component 1 256)))"
proof -
  let ?i = "nat (clamp index 0 32767)" and ?c = "nat (clamp component 1 256)" and ?t = "type_preference type"
    and ?f = "family_preference family"
  have i: "?i \<le> ?f"
    using clamp_range [of 0 32767 index] assms
    by (auto simp: family_preference_def AF_INET_def AF_INET6_def)
  have pref: "(case type of ICE_CANDIDATE_TYPE_HOST \<Rightarrow> 126 | ICE_CANDIDATE_TYPE_PEER_REFLEXIVE \<Rightarrow> 110
      | ICE_CANDIDATE_TYPE_SERVER_REFLEXIVE \<Rightarrow> 100 | ICE_CANDIDATE_TYPE_RELAYED \<Rightarrow> 0
      | ICE_CANDIDATE_TYPE_UNKNOWN \<Rightarrow> 0) = (of_nat ?t :: u32)" by (cases type) simp_all
  have fam: "(if family = AF_INET then 32767 else if family = AF_INET6 then 65535 else 0) = (of_nat ?f :: u32)"
    by (simp add: family_preference_def)
  have sub: "of_nat (?t * 2 ^ 16) + of_nat ?f - of_nat ?i = (of_nat (?t * 2 ^ 16 + (?f - ?i)) :: u32)"
    using i by (simp only: of_nat_add of_nat_diff add_diff_eq)
  have cmp: "(of_int (256 - clamp component 1 256) :: u32) = of_nat (256 - ?c)"
    by (rule of_int_complement) (use clamp_range [of 1 256 component] in simp_all)
  have idx: "(of_int (clamp index 0 32767) :: u32) = of_nat ?i" by (rule of_int_clamp) simp_all
  have "ice_compute_priority type family component index = of_nat ((?t * 2 ^ 16 + (?f - ?i)) * 2 ^ 8 + (256 - ?c))"
    unfolding ice_compute_priority_def Let_def pref fam idx cmp push_bit_of_nat_u32 sub of_nat_add [of "_ * 2 ^ 8"] by (rule refl)
  moreover have "(?t * 2 ^ 16 + (?f - ?i)) * 2 ^ 8 + (256 - ?c) = 2 ^ 24 * ?t + 2 ^ 8 * (?f - ?i) + (256 - ?c)"
    by (simp add: algebra_simps)
  ultimately show ?thesis by (simp only:)
qed

text \<open>For IPv4 and IPv6 candidates \<open>ice_compute_priority\<close> is the formula of RFC 8445 section 5.1.2.1 with the
  recommended type preferences, without overflow, and stays below \<open>2 ^ 31\<close> as the RFC demands.\<close>

theorem ice_compute_priority_rfc8445:
  assumes "family = AF_INET \<or> family = AF_INET6"
  shows "unat (ice_compute_priority type family component index) =
      2 ^ 24 * type_preference type + 2 ^ 8 * (family_preference family - nat (clamp index 0 32767))
      + (256 - nat (clamp component 1 256))
    \<and> unat (ice_compute_priority type family component index) < 2 ^ 31"
proof -
  let ?n = "2 ^ 24 * type_preference type + 2 ^ 8 * (family_preference family - nat (clamp index 0 32767))
      + (256 - nat (clamp component 1 256))"
  have "type_preference type \<le> 126" by (cases type) simp_all
  moreover have "family_preference family \<le> 65535" by (simp add: family_preference_def)
  moreover have "1 \<le> nat (clamp component 1 256)" using clamp_range [of 1 256 component] by linarith
  ultimately have "?n \<le> 2 ^ 24 * 126 + 2 ^ 8 * 65535 + 255" by (intro add_mono mult_left_mono) simp_all
  then have n: "?n < 2 ^ 31" by simp
  then have "unat (of_nat ?n :: u32) = ?n" by (subst unat_of_nat) simp
  with n show ?thesis by (simp only: ice_compute_priority_nat [OF assms])
qed

theorem ice_compute_priority_rfc8445_witness:
  "unat (ice_compute_priority ICE_CANDIDATE_TYPE_HOST AF_INET 1 0) = 2 ^ 24 * 126 + 2 ^ 8 * 32767 + 255
    \<and> unat (ice_compute_priority ICE_CANDIDATE_TYPE_HOST AF_INET 1 0) < 2 ^ 31"
  using ice_compute_priority_rfc8445 [of AF_INET ICE_CANDIDATE_TYPE_HOST 1 0]
  by (simp add: family_preference_def clamp_def)

section \<open>Pair priorities\<close>

lemma pair_priority:
  "ice_create_candidate_pair (Some a) (Some b) controlling = Some p \<Longrightarrow>
    cp_priority p = (let g = ucast (ic_priority (if controlling then a else b)) :: u64;
                         d = ucast (ic_priority (if controlling then b else a))
                     in push_bit 32 (min g d) + push_bit 1 (max g d) + (if g > d then 1 else 0))"
  by (auto simp: ice_create_candidate_pair_def ice_update_candidate_pair_def Let_def min_def max_def split: if_splits)

lemma unat_ucast_u64 [simp]: "unat (ucast (w :: u32) :: u64) = unat w"
proof -
  have "unat w < 2 ^ 32" using unsigned_less [of w, where ?'a = nat] by simp
  then have "unat w < 2 ^ 64" by simp
  then show ?thesis by (simp add: unsigned_ucast_eq take_bit_nat_eq_self)
qed

text \<open>Both agents compute the same priority for a pair, one as the controlling and the other as the
  controlled side; with priorities below \<open>2 ^ 31\<close> it is the formula of RFC 8445 section 6.1.2.3.\<close>

theorem ice_pair_priority_agrees:
  assumes "ice_create_candidate_pair (Some a) (Some b) True = Some p"
    and "ice_create_candidate_pair (Some b) (Some a) False = Some q"
  shows "cp_priority p = cp_priority q
    \<and> (ic_priority a < 2 ^ 31 \<and> ic_priority b < 2 ^ 31 \<longrightarrow>
        unat (cp_priority p) = 2 ^ 32 * min (unat (ic_priority a)) (unat (ic_priority b))
          + 2 * max (unat (ic_priority a)) (unat (ic_priority b)) + (if ic_priority a > ic_priority b then 1 else 0))"
proof -
  let ?g = "ucast (ic_priority a) :: u64" and ?d = "ucast (ic_priority b) :: u64"
  have p: "cp_priority p = push_bit 32 (min ?g ?d) + push_bit 1 (max ?g ?d) + (if ?g > ?d then 1 else 0)"
    using pair_priority [OF assms(1)] by (simp add: Let_def)
  have "cp_priority p = cp_priority q" using pair_priority [OF assms(2)] by (simp add: p Let_def)
  moreover have "unat (cp_priority p) = 2 ^ 32 * min (unat (ic_priority a)) (unat (ic_priority b))
          + 2 * max (unat (ic_priority a)) (unat (ic_priority b)) + (if ic_priority a > ic_priority b then 1 else 0)"
    if lt: "ic_priority a < 2 ^ 31" "ic_priority b < 2 ^ 31"
  proof -
    let ?A = "unat (ic_priority a)" and ?B = "unat (ic_priority b)"
    have ab: "?A < 2 ^ 31" "?B < 2 ^ 31" using lt by (simp_all add: word_less_nat_alt)
    have gd: "?g = of_nat ?A" "?d = of_nat ?B" by (simp_all flip: unat_ucast_u64)
    have less: "?g > ?d \<longleftrightarrow> ?A > ?B" "ic_priority a > ic_priority b \<longleftrightarrow> ?A > ?B"
      by (simp_all add: word_less_nat_alt)
    have mm: "min ?g ?d = of_nat (min ?A ?B)" "max ?g ?d = of_nat (max ?A ?B)"
      unfolding min_def max_def by (simp_all add: word_le_nat_alt gd [symmetric])
    have "cp_priority p = of_nat (2 ^ 32 * min ?A ?B + 2 * max ?A ?B + (if ?A > ?B then 1 else 0))"
      unfolding p mm less by (simp add: push_bit_eq_mult mult.commute)
    moreover have "2 ^ 32 * min ?A ?B + 2 * max ?A ?B + (if ?A > ?B then 1 else 0) < 2 ^ 64"
      using ab by (simp add: min_def max_def)
    ultimately show ?thesis unfolding less by (simp only: unat_of_nat) simp
  qed
  ultimately show ?thesis by blast
qed

theorem ice_pair_priority_agrees_witness:
  "\<exists>p q. ice_create_candidate_pair (Some candidate_zero) (Some (candidate_zero\<lparr>ic_priority := 5\<rparr>)) True = Some p
    \<and> ice_create_candidate_pair (Some (candidate_zero\<lparr>ic_priority := 5\<rparr>)) (Some candidate_zero) False = Some q
    \<and> cp_priority p = cp_priority q \<and> unat (cp_priority p) = 10"
proof -
  let ?a = candidate_zero and ?b = "candidate_zero\<lparr>ic_priority := 5\<rparr>"
  obtain p q where pq: "ice_create_candidate_pair (Some ?a) (Some ?b) True = Some p"
    "ice_create_candidate_pair (Some ?b) (Some ?a) False = Some q"
    by (simp add: ice_create_candidate_pair_def candidate_zero_def)
  from ice_pair_priority_agrees [OF this] have "cp_priority p = cp_priority q" "unat (cp_priority p) = 10"
    by (auto simp: candidate_zero_def)
  with pq show ?thesis by blast
qed

section \<open>Sorting\<close>

interpretation candidate_sort: shifting sort_shift ic_priority
  by unfold_locales auto

lemma sort_loop_place:
  "sort_loop (xs @ ys) (length xs) = rev (fold (place ic_priority) ys (rev xs))"
proof (induction ys arbitrary: xs)
  case Nil
  then show ?case by (subst sort_loop.simps) simp
next
  case (Cons x ys)
  obtain a n where s: "sort_shift (xs @ x # ys) (ic_priority x) (length xs) = (a, n)" by fastforce
  let ?xs = "rev (place ic_priority x (rev xs))"
  have "sort_loop (xs @ x # ys) (length xs) = sort_loop (?xs @ ys) (length ?xs)"
    using s candidate_sort.round_place(2) [OF s refl] by (subst sort_loop.simps) simp
  with Cons.IH [of ?xs] show ?case by simp
qed

lemma sort_loop_eq: "sort_loop cs (Suc 0) = rev (fold (place ic_priority) cs [])"
proof (cases cs)
  case Nil
  then show ?thesis by (subst sort_loop.simps) simp
next
  case (Cons c cs')
  then show ?thesis using sort_loop_place [of "[c]" cs'] by simp
qed

text \<open>C30: \<open>ice_sort_candidates\<close> is a stable sort by descending priority: the result is ordered, has the same
  candidates, and keeps the order of candidates with equal priority; nothing else changes.\<close>

theorem ice_sort_candidates_correct:
  "sorted (rev (map ic_priority (id_candidates (ice_sort_candidates d))))
   \<and> mset (id_candidates (ice_sort_candidates d)) = mset (id_candidates d)
   \<and> filter (\<lambda>c. ic_priority c = k) (id_candidates (ice_sort_candidates d)) = filter (\<lambda>c. ic_priority c = k) (id_candidates d)
   \<and> ice_sort_candidates d = d\<lparr>id_candidates := id_candidates (ice_sort_candidates d)\<rparr>"
  by (simp add: ice_sort_candidates_def sort_loop_eq fold_place rev_map [symmetric] rev_filter [symmetric])

end
