(* ===== verification/Ice_Sdp.thy ===== *)
theory Ice_Sdp
  imports Ice_Priority "HOL-Library.Monad_Syntax"
begin

text \<open>
  The SDP part of \<open>ice.c\<close>: scanning with \<open>sscanf\<close>, printing with \<open>snprintf\<close>, and the round trip of
  candidates and descriptions.
\<close>

section \<open>Scanning\<close>

text \<open>
  The conversions of \<open>sscanf\<close> that the code uses, on C strings: \<open>%ns\<close>, \<open>%d\<close>, \<open>%u\<close> and literal text. The
  numeric ones convert with \<open>strtol\<close> and \<open>strtoul\<close>, which saturate (\<open>long\<close> has 32 bits).
\<close>

definition skip_ws :: "bytes \<Rightarrow> bytes" where
  "skip_ws s = dropWhile c_isspace s"

definition scan_str :: "nat \<Rightarrow> bytes \<Rightarrow> (bytes \<times> bytes) option" where
  "scan_str n s = (let s = skip_ws s; w = take n (takeWhile (\<lambda>b. \<not> c_isspace b) s)
                   in if w = [] then None else Some (w, drop (length w) s))"

definition decimal :: "bytes \<Rightarrow> nat" where
  "decimal ds = foldl (\<lambda>n b. 10 * n + (unat b - 48)) 0 ds"

definition scan_number :: "bytes \<Rightarrow> (bool \<times> nat \<times> bytes) option" where
  "scan_number s =
     (let s = skip_ws s; neg = (s \<noteq> [] \<and> hd s = of_char CHR ''-''); pos = (s \<noteq> [] \<and> hd s = of_char CHR ''+'');
          s = (if neg \<or> pos then tl s else s); ds = takeWhile c_isdigit s
      in if ds = [] then None else Some (neg, decimal ds, drop (length ds) s))"

definition scan_d :: "bytes \<Rightarrow> (int \<times> bytes) option" where
  "scan_d s = map_option (\<lambda>(neg, n, rest). (clamp (if neg then - int n else int n) (- (2 ^ 31)) (2 ^ 31 - 1), rest)) (scan_number s)"

definition scan_u :: "bytes \<Rightarrow> (u32 \<times> bytes) option" where
  "scan_u s = map_option (\<lambda>(neg, n, rest).
     (if 2 ^ 32 \<le> n then - 1 else if neg then - of_nat n else of_nat n, rest)) (scan_number s)"

definition scan_lit :: "bytes \<Rightarrow> bytes \<Rightarrow> bytes option" where
  "scan_lit lit s = (if take (length lit) s = lit then Some (drop (length lit) s) else None)"

definition c_toupper :: "u8 \<Rightarrow> u8" where "c_toupper b = (if 97 \<le> b \<and> b \<le> 122 then b - 32 else b)"
definition c_tolower :: "u8 \<Rightarrow> u8" where "c_tolower b = (if 65 \<le> b \<and> b \<le> 90 then b + 32 else b)"

section \<open>Parsing\<close>

definition skip_prefix :: "bytes \<Rightarrow> bytes \<Rightarrow> bytes" where
  "skip_prefix str prefix = (if take (length prefix) str = prefix then drop (length prefix) str else str)"

definition match_prefix :: "bytes \<Rightarrow> bytes \<Rightarrow> bytes option" where
  "match_prefix str prefix =
     (let en = skip_prefix str prefix in if en \<noteq> str \<or> prefix = [] then Some en else None)"

definition scan_candidate :: "bytes \<Rightarrow> (ice_candidate \<times> bytes \<times> bytes) option" where
  "scan_candidate line = do {
     (foundation, s) \<leftarrow> scan_str 32 line;
     (component, s) \<leftarrow> scan_d s;
     (transport, s) \<leftarrow> scan_str 32 s;
     (priority, s) \<leftarrow> scan_u s;
     (hostname, s) \<leftarrow> scan_str 256 s;
     (service, s) \<leftarrow> scan_str 32 s;
     s \<leftarrow> scan_lit (ascii ''typ'') (skip_ws s);
     (type, s) \<leftarrow> scan_str 32 s;
     Some (candidate_zero\<lparr>ic_foundation := foundation, ic_component := component, ic_priority := priority,
             ic_hostname := hostname, ic_service := service\<rparr>, map c_toupper transport, map c_tolower type)
   }"

definition parse_sdp_candidate :: "bytes \<Rightarrow> ice_parse_result + ice_candidate" where
  "parse_sdp_candidate line =
     (let line = skip_prefix line (ascii ''a=''); line = skip_prefix line (ascii ''candidate:'')
      in case scan_candidate line of
           None \<Rightarrow> Inl ICE_PARSE_ERROR
         | Some (c, transport, type) \<Rightarrow>
             let udp = (\<lambda>t. if transport = ascii ''UDP'' then Inr (c\<lparr>ic_type := t\<rparr>) else Inl ICE_PARSE_IGNORED)
             in if type = ascii ''host'' then udp ICE_CANDIDATE_TYPE_HOST
                else if type = ascii ''srflx'' then udp ICE_CANDIDATE_TYPE_SERVER_REFLEXIVE
                else if type = ascii ''relay'' then udp ICE_CANDIDATE_TYPE_RELAYED
                else Inl ICE_PARSE_IGNORED)"

type_synonym resolver = "ice_resolve_mode \<Rightarrow> bytes \<Rightarrow> bytes \<Rightarrow> (sockaddr \<times> nat) list option"

definition ice_parse_candidate_sdp :: "resolver \<Rightarrow> bytes \<Rightarrow> ice_parse_result + ice_candidate" where
  "ice_parse_candidate_sdp gai line =
     (case match_prefix line (ascii ''a=candidate:'') of
        None \<Rightarrow> Inl ICE_PARSE_ERROR
      | Some _ \<Rightarrow> (case parse_sdp_candidate line of
            Inl e \<Rightarrow> Inl e
          | Inr c \<Rightarrow> Inr (snd (ice_resolve_candidate gai c ICE_RESOLVE_MODE_SIMPLE))))"

text \<open>The result is the error code, if any, and the description.\<close>

definition parse_sdp_line :: "resolver \<Rightarrow> bytes \<Rightarrow> ice_description \<Rightarrow> ice_parse_result option \<times> ice_description" where
  "parse_sdp_line gai line d =
     (let word = (\<lambda>arg old. case scan_str 256 arg of None \<Rightarrow> old | Some (w, _) \<Rightarrow> w)
      in case match_prefix line (ascii ''a=ice-ufrag:'') of
           Some arg \<Rightarrow> (None, d\<lparr>id_ice_ufrag := word arg (id_ice_ufrag d)\<rparr>)
         | None \<Rightarrow>
         case match_prefix line (ascii ''a=ice-pwd:'') of
           Some arg \<Rightarrow> (None, d\<lparr>id_ice_pwd := word arg (id_ice_pwd d)\<rparr>)
         | None \<Rightarrow>
         case match_prefix line (ascii ''a=ice-lite'') of
           Some arg \<Rightarrow> (None, d\<lparr>id_ice_lite := True\<rparr>)
         | None \<Rightarrow>
         case match_prefix line (ascii ''a=end-of-candidates'') of
           Some arg \<Rightarrow> (None, d\<lparr>id_finished := True\<rparr>)
         | None \<Rightarrow>
         case ice_parse_candidate_sdp gai line of
           Inr c \<Rightarrow> (None, case ice_add_candidate c d of None \<Rightarrow> d | Some (_, d') \<Rightarrow> d')
         | Inl _ \<Rightarrow> (Some ICE_PARSE_IGNORED, d))"

text \<open>The loop over the characters, with the line collected so far.\<close>

fun parse_sdp_loop :: "resolver \<Rightarrow> bytes \<Rightarrow> bytes \<Rightarrow> ice_description \<Rightarrow> ice_parse_result option \<times> ice_description" where
  "parse_sdp_loop gai [] buffer d = (None, d)"
| "parse_sdp_loop gai (ch # sdp) buffer d =
     (if ch = 10
      then if buffer \<noteq> []
           then case parse_sdp_line gai buffer d of
                  (r, d') \<Rightarrow> if r = Some ICE_PARSE_ERROR then (r, d') else parse_sdp_loop gai sdp [] d'
           else parse_sdp_loop gai sdp buffer d
      else if ch \<noteq> 13 \<and> length buffer + 1 < BUFFER_SIZE then parse_sdp_loop gai sdp (buffer @ [ch]) d
      else parse_sdp_loop gai sdp buffer d)"

definition ice_parse_sdp :: "resolver \<Rightarrow> bytes \<Rightarrow> ice_parse_result option \<times> ice_description" where
  "ice_parse_sdp gai sdp =
     (case parse_sdp_loop gai sdp [] description_zero of
        (Some e, d) \<Rightarrow> (Some e, d)
      | (None, d) \<Rightarrow>
          let d = ice_sort_candidates d
          in if id_ice_ufrag d = [] then (Some ICE_PARSE_MISSING_UFRAG, d)
             else if id_ice_pwd d = [] then (Some ICE_PARSE_MISSING_PWD, d) else (None, d))"

section \<open>Printing\<close>

definition sdp_type :: "ice_candidate_type \<Rightarrow> (bytes \<times> bytes) option" where
  "sdp_type t = (case t of
       ICE_CANDIDATE_TYPE_HOST \<Rightarrow> Some (ascii ''host'', [])
     | ICE_CANDIDATE_TYPE_PEER_REFLEXIVE \<Rightarrow> Some (ascii ''prflx'', [])
     | ICE_CANDIDATE_TYPE_SERVER_REFLEXIVE \<Rightarrow> Some (ascii ''srflx'', ascii '' raddr 0.0.0.0 rport 0'')
     | ICE_CANDIDATE_TYPE_RELAYED \<Rightarrow> Some (ascii ''relay'', ascii '' raddr 0.0.0.0 rport 0'')
     | ICE_CANDIDATE_TYPE_UNKNOWN \<Rightarrow> None)"

text \<open>The return value of \<open>snprintf\<close> and the string left in a buffer of \<open>sz\<close> bytes.\<close>

definition ice_generate_candidate_sdp :: "ice_candidate \<Rightarrow> nat \<Rightarrow> (nat \<times> bytes) option" where
  "ice_generate_candidate_sdp c sz =
     (case sdp_type (ic_type c) of
        None \<Rightarrow> None
      | Some (type, suffix) \<Rightarrow>
          let s = ascii ''a=candidate:'' @ ic_foundation c @ ascii '' '' @ print_u (nat (ic_component c mod 2 ^ 32))
                @ ascii '' UDP '' @ print_u (unat (ic_priority c)) @ ascii '' '' @ ic_hostname c @ ascii '' ''
                @ ic_service c @ ascii '' typ '' @ type @ suffix
          in Some (length s, take (sz - 1) s))"

definition crlf :: bytes where "crlf = [13, 10]"

text \<open>
  The piece each round prints, if any. In round 0 of a lite description the second \<open>snprintf\<close> writes over
  the first, so only its text remains.
\<close>

definition sdp_pieces :: "ice_description \<Rightarrow> bytes option list" where
  "sdp_pieces d =
     [Some (if id_ice_lite d then ascii ''a=ice-lite'' @ crlf
            else ascii ''a=ice-ufrag:'' @ id_ice_ufrag d @ crlf @ ascii ''a=ice-pwd:'' @ id_ice_pwd d @ crlf)]
     @ map (\<lambda>c. if ic_type c = ICE_CANDIDATE_TYPE_UNKNOWN \<or> ic_type c = ICE_CANDIDATE_TYPE_PEER_REFLEXIVE then None
                else map_option (\<lambda>(_, tmp). tmp @ crlf) (ice_generate_candidate_sdp c BUFFER_SIZE)) (id_candidates d)
     @ [Some (if id_finished d then ascii ''a=end-of-candidates'' @ crlf @ ascii ''a=ice-options:ice2'' @ crlf
              else ascii ''a=ice-options:ice2,trickle'' @ crlf)]"

text \<open>Appending a piece to the buffer: the total length counts on, the text is cut off at the end.\<close>

definition sdp_append :: "nat \<Rightarrow> bytes option \<Rightarrow> nat \<times> bytes \<Rightarrow> nat \<times> bytes" where
  "sdp_append sz piece s = (case piece of None \<Rightarrow> s
     | Some p \<Rightarrow> (fst s + length p, snd s @ take (sz - length (snd s) - 1) p))"

definition ice_generate_sdp :: "ice_description \<Rightarrow> nat \<Rightarrow> (nat \<times> bytes) option" where
  "ice_generate_sdp d sz =
     (if id_ice_ufrag d = [] \<or> id_ice_pwd d = [] then None
      else Some (fold (sdp_append sz) (sdp_pieces d) (0, [])))"

end
