(* ===== verification/Ice_Roundtrip.thy ===== *)
theory Ice_Roundtrip
  imports Ice_Sdp
begin

text \<open>
  What \<open>ice.c\<close> prints, it parses: the round trip of a candidate line and of a whole description.
\<close>

section \<open>Words and numbers\<close>

definition token :: "nat \<Rightarrow> bytes \<Rightarrow> bool" where
  "token n w \<longleftrightarrow> w \<noteq> [] \<and> length w \<le> n \<and> list_all (\<lambda>b. \<not> c_isspace b) w"

text \<open>What may follow a word: the end of the string or white space.\<close>

definition stops :: "bytes \<Rightarrow> bool" where
  "stops rest \<longleftrightarrow> rest = [] \<or> c_isspace (hd rest)"

lemma space_32 [simp]: "c_isspace 32"
  by (simp add: c_isspace_def)

lemma takeWhile_token: "list_all (\<lambda>b. \<not> c_isspace b) w \<Longrightarrow> stops rest \<Longrightarrow> takeWhile (\<lambda>b. \<not> c_isspace b) (w @ rest) = w"
  by (cases rest) (auto simp: list_all_iff stops_def takeWhile_append)

lemma skip_ws_token: "token n w \<Longrightarrow> skip_ws (w @ rest) = w @ rest"
  by (cases w) (auto simp: token_def skip_ws_def)

lemma scan_str_token: "token n w \<Longrightarrow> stops rest \<Longrightarrow> scan_str n (w @ rest) = Some (w, rest)"
  using takeWhile_token [of w rest] by (simp add: scan_str_def Let_def skip_ws_token) (cases n; auto simp: token_def)

lemma scan_str_space: "scan_str n (32 # s) = scan_str n s"
  by (simp add: scan_str_def skip_ws_def)

lemma print_u_digits: "list_all c_isdigit (print_u n)" and print_u_nonempty: "print_u n \<noteq> []"
proof (induction n rule: print_u.induct)
  case (1 n)
  have d: "c_isdigit (of_nat (48 + k))" if "k < 10" for k
    using that by (simp add: c_isdigit_def word_le_nat_alt unat_of_nat del: of_nat_add)
  { case 1
    show ?case using d [of n] d [of "n mod 10"] "1.IH"(1) by (subst print_u.simps) simp
  next
    case 2
    show ?case by (subst print_u.simps) simp
  }
qed

lemma decimal_snoc: "decimal (ds @ [b]) = 10 * decimal ds + (unat b - 48)"
  by (simp add: decimal_def)

lemma decimal_print_u: "decimal (print_u n) = n"
proof (induction n rule: print_u.induct)
  case (1 n)
  have d: "unat (of_nat (48 + k) :: u8) - 48 = k" if "k < 10" for k
    using that by (subst unat_of_nat) simp
  show ?case
  proof (cases "n < 10")
    case True
    then show ?thesis using d [of n] by (subst print_u.simps) (simp add: decimal_def del: of_nat_add)
  next
    case False
    then show ?thesis using d [of "n mod 10"] 1
      by (subst print_u.simps) (simp add: decimal_snoc del: of_nat_add)
  qed
qed

lemma length_print_u: "n < 10 ^ Suc k \<Longrightarrow> length (print_u n) \<le> Suc k"
proof (induction k arbitrary: n)
  case 0
  then show ?case by (subst print_u.simps) simp
next
  case (Suc k)
  have "n div 10 < 10 ^ Suc k" using Suc.prems by (simp add: less_mult_imp_div_less)
  then show ?case using Suc.IH [of "n div 10"] by (subst print_u.simps) simp
qed

lemma digit_no_space: "c_isdigit b \<Longrightarrow> \<not> c_isspace b"
  by (auto simp: c_isdigit_def c_isspace_def word_le_nat_alt)

lemma digit_no_sign: "c_isdigit b \<Longrightarrow> b \<noteq> of_char CHR ''-'' \<and> b \<noteq> of_char CHR ''+''"
  by (auto simp: c_isdigit_def)

lemma space_no_digit: "stops rest \<Longrightarrow> rest \<noteq> [] \<Longrightarrow> \<not> c_isdigit (hd rest)"
  using digit_no_space by (auto simp: stops_def)

lemma scan_number_print:
  assumes "stops rest"
  shows "scan_number (32 # print_u n @ rest) = Some (False, n, rest)"
proof -
  obtain b bs where p: "print_u n = b # bs" using print_u_nonempty by (cases "print_u n") auto
  have d: "c_isdigit b" "list_all c_isdigit (print_u n)" using print_u_digits [of n] by (simp_all add: p)
  have ws: "skip_ws (32 # print_u n @ rest) = print_u n @ rest"
    using d(1) digit_no_space by (simp add: skip_ws_def p)
  have tw: "takeWhile c_isdigit (print_u n @ rest) = print_u n"
    using d(2) space_no_digit [OF assms] by (cases rest) (auto simp: list_all_iff takeWhile_append)
  show ?thesis
    unfolding scan_number_def Let_def ws using digit_no_sign [OF d(1)] tw
    by (simp add: p decimal_print_u flip: p) (simp add: p)
qed

lemma scan_d_print: "stops rest \<Longrightarrow> n < 2 ^ 31 \<Longrightarrow> scan_d (32 # print_u n @ rest) = Some (int n, rest)"
  by (simp add: scan_d_def scan_number_print clamp_def)

lemma scan_u_print: "stops rest \<Longrightarrow> scan_u (32 # print_u (unat p) @ rest) = Some (p, rest)"
  using unsigned_less [of p, where ?'a = nat] by (simp add: scan_u_def scan_number_print)

lemma stops_simps [simp]: "stops []" "stops (32 # rest)"
  by (simp_all add: stops_def)

section \<open>Candidates\<close>

definition printable :: "ice_candidate \<Rightarrow> bool" where
  "printable c \<longleftrightarrow> (ic_type c = ICE_CANDIDATE_TYPE_HOST \<or> ic_type c = ICE_CANDIDATE_TYPE_SERVER_REFLEXIVE
       \<or> ic_type c = ICE_CANDIDATE_TYPE_RELAYED)
     \<and> 0 \<le> ic_component c \<and> ic_component c < 2 ^ 31 \<and> ic_transport c = []
     \<and> token 32 (ic_foundation c) \<and> token 256 (ic_hostname c) \<and> token 32 (ic_service c)"

text \<open>The candidate as its reader has it: resolved anew.\<close>

definition reread :: "resolver \<Rightarrow> ice_candidate \<Rightarrow> ice_candidate" where
  "reread gai c = snd (ice_resolve_candidate gai (c\<lparr>ic_resolved := \<lparr>ar_addr = OtherFamily 0, ar_len = 0\<rparr>\<rparr>) ICE_RESOLVE_MODE_SIMPLE)"

definition candidate_line :: "ice_candidate \<Rightarrow> bytes" where
  "candidate_line c = (case sdp_type (ic_type c) of None \<Rightarrow> [] | Some (type, suffix) \<Rightarrow>
     ascii ''a=candidate:'' @ ic_foundation c @ 32 # print_u (nat (ic_component c)) @ 32 # ascii ''UDP''
       @ 32 # print_u (unat (ic_priority c)) @ 32 # ic_hostname c @ 32 # ic_service c @ 32 # ascii ''typ'' @ 32 # type @ suffix)"

lemma generate_candidate_line:
  assumes "printable c"
  shows "ice_generate_candidate_sdp c sz = Some (length (candidate_line c), take (sz - 1) (candidate_line c))"
proof -
  have "ic_component c mod 4294967296 = ic_component c" using assms by (simp add: printable_def)
  then show ?thesis using assms
    by (auto simp: printable_def ice_generate_candidate_sdp_def candidate_line_def sdp_type_def Let_def)
qed

lemma printable_component: "printable c \<Longrightarrow> nat (ic_component c) < 2 ^ 31"
  by (simp add: printable_def nat_less_iff)

lemma length_candidate_line:
  assumes "printable c"
  shows "length (candidate_line c) \<le> 500"
proof -
  have "length (print_u (nat (ic_component c))) \<le> 10" "length (print_u (unat (ic_priority c))) \<le> 10"
    using length_print_u [of "nat (ic_component c)" 9] length_print_u [of "unat (ic_priority c)" 9]
      unsigned_less [of "ic_priority c", where ?'a = nat] printable_component [OF assms] by simp_all
  then show ?thesis using assms by (auto simp: printable_def candidate_line_def sdp_type_def token_def)
qed

lemma scan_candidate_line:
  assumes "printable c" "sdp_type (ic_type c) = Some (type, suffix)" "token 32 type" "stops suffix"
  shows "scan_candidate (drop 12 (candidate_line c)) =
    Some (c\<lparr>ic_type := ICE_CANDIDATE_TYPE_UNKNOWN, ic_resolved := \<lparr>ar_addr = OtherFamily 0, ar_len = 0\<rparr>\<rparr>,
      ascii ''UDP'', map c_tolower type)"
proof -
  note n = printable_component [OF assms(1)]
  have t: "token 32 (ic_foundation c)" "token 256 (ic_hostname c)" "token 32 (ic_service c)"
    and c: "int (nat (ic_component c)) = ic_component c" "ic_transport c = []"
    using assms(1) by (simp_all add: printable_def)
  have rec: "candidate_zero\<lparr>ic_foundation := ic_foundation c, ic_component := ic_component c, ic_priority := ic_priority c,
      ic_hostname := ic_hostname c, ic_service := ic_service c\<rparr>
    = c\<lparr>ic_type := ICE_CANDIDATE_TYPE_UNKNOWN, ic_resolved := \<lparr>ar_addr = OtherFamily 0, ar_len = 0\<rparr>\<rparr>"
    using c(2) by (cases c) (simp add: candidate_zero_def)
  have nonneg: "0 \<le> ic_component c" using assms(1) by (simp add: printable_def)
  have udp: "token 32 (ascii ''UDP'')" "map c_toupper (ascii ''UDP'') = ascii ''UDP''"
    by (simp_all add: token_def c_isspace_def c_toupper_def)
  have tlit: "skip_ws (32 # ascii ''typ'' @ s) = ascii ''typ'' @ s" for s
    by (simp add: skip_ws_def c_isspace_def)
  have "drop 12 (candidate_line c) = ic_foundation c @ 32 # print_u (nat (ic_component c)) @ 32 # ascii ''UDP''
       @ 32 # print_u (unat (ic_priority c)) @ 32 # ic_hostname c @ 32 # ic_service c @ 32 # ascii ''typ'' @ 32 # type @ suffix"
    by (simp add: candidate_line_def assms(2))
  then show ?thesis
    unfolding scan_candidate_def
    by (simp only: scan_str_token [OF t(1)] scan_d_print [OF _ n] scan_str_space scan_str_token [OF udp(1)] scan_u_print
        scan_str_token [OF t(2)] scan_str_token [OF t(3)] tlit scan_lit_def scan_str_token [OF assms(3,4)] stops_simps
        bind.bind_lunit prod.case udp(2)) (simp add: scan_str_space scan_str_token [OF assms(3,4)] nonneg rec)
qed

lemma sdp_type_printable:
  assumes "printable c"
  obtains type suffix where "sdp_type (ic_type c) = Some (type, suffix)" "token 32 type" "stops suffix"
    "map c_tolower type = type"
  using assms by (auto simp: printable_def sdp_type_def token_def stops_def c_isspace_def c_tolower_def)

lemma skip_prefix_append: "skip_prefix (p @ s) p = s"
  by (simp add: skip_prefix_def)

lemma match_prefix_append: "p \<noteq> [] \<Longrightarrow> match_prefix (p @ s) p = Some s"
  by (auto simp: match_prefix_def skip_prefix_append dest: arg_cong [of _ _ length])

lemma parse_candidate_line:
  assumes "printable c"
  shows "ice_parse_candidate_sdp gai (candidate_line c) = Inr (reread gai c)"
proof -
  obtain type suffix where ty: "sdp_type (ic_type c) = Some (type, suffix)" "token 32 type" "stops suffix"
    "map c_tolower type = type"
    using assms by (rule sdp_type_printable)
  let ?s = "drop 12 (candidate_line c)"
  have line: "candidate_line c = ascii ''a=candidate:'' @ ?s" by (simp add: candidate_line_def ty)
  have "match_prefix (candidate_line c) (ascii ''a=candidate:'') = Some ?s"
    by (subst line, subst match_prefix_append) simp_all
  moreover have "skip_prefix (skip_prefix (candidate_line c) (ascii ''a='')) (ascii ''candidate:'') = ?s"
    by (subst line) (simp add: skip_prefix_def)
  moreover have "parse_sdp_candidate (candidate_line c) = Inr (c\<lparr>ic_resolved := \<lparr>ar_addr = OtherFamily 0, ar_len = 0\<rparr>\<rparr>)"
    unfolding parse_sdp_candidate_def Let_def calculation(2) scan_candidate_line [OF assms ty(1-3)] ty(4)
    using assms ty(1) by (cases c) (auto simp: printable_def sdp_type_def)
  ultimately show ?thesis by (simp add: ice_parse_candidate_sdp_def reread_def)
qed

text \<open>A host, server-reflexive or relayed candidate that \<open>ice_generate_candidate_sdp\<close> prints into a large
  enough buffer is read back by \<open>ice_parse_candidate_sdp\<close> with all its fields; its address is resolved anew.\<close>

theorem ice_candidate_roundtrip:
  assumes "printable c" "500 < sz"
  shows "\<exists>len line. ice_generate_candidate_sdp c sz = Some (len, line) \<and> len = length line
    \<and> ice_parse_candidate_sdp gai line = Inr (reread gai c)"
proof -
  have "take (sz - 1) (candidate_line c) = candidate_line c" using length_candidate_line [OF assms(1)] assms(2) by simp
  then show ?thesis using generate_candidate_line [OF assms(1), of sz] parse_candidate_line [OF assms(1)] by simp
qed

definition host_candidate :: ice_candidate where
  "host_candidate = candidate_zero\<lparr>ic_type := ICE_CANDIDATE_TYPE_HOST, ic_component := 1, ic_foundation := ascii ''1'',
     ic_priority := 2122317823, ic_hostname := ascii ''10.0.0.1'', ic_service := ascii ''5000''\<rparr>"

lemma host_candidate_printable: "printable host_candidate"
  by (simp add: printable_def host_candidate_def candidate_zero_def token_def c_isspace_def)

theorem ice_candidate_roundtrip_witness:
  "\<exists>len line. ice_generate_candidate_sdp host_candidate 1024 = Some (len, line) \<and> len = length line
    \<and> ice_parse_candidate_sdp (\<lambda>_ _ _. None) line = Inr (reread (\<lambda>_ _ _. None) host_candidate)"
  by (rule ice_candidate_roundtrip) (simp_all add: host_candidate_printable)

section \<open>Descriptions\<close>

text \<open>Printing: what fits is the concatenation of the pieces.\<close>

definition pieces_text :: "bytes option list \<Rightarrow> bytes" where
  "pieces_text ps = concat (map (\<lambda>p. case p of None \<Rightarrow> [] | Some t \<Rightarrow> t) ps)"

lemma pieces_text_simps [simp]:
  "pieces_text [] = []" "pieces_text (None # ps) = pieces_text ps" "pieces_text (Some t # ps) = t @ pieces_text ps"
  "pieces_text (ps @ qs) = pieces_text ps @ pieces_text qs"
  by (simp_all add: pieces_text_def)

lemma sdp_append_simps:
  "sdp_append sz None s = s" "sdp_append sz (Some p) s = (fst s + length p, snd s @ take (sz - length (snd s) - 1) p)"
  by (simp_all add: sdp_append_def)

lemma fold_sdp_append:
  "fst (fold (sdp_append sz) ps (n, t)) = n + length (pieces_text ps)"
  "length t + length (pieces_text ps) < sz \<Longrightarrow> snd (fold (sdp_append sz) ps (n, t)) = t @ pieces_text ps"
proof (induction ps arbitrary: n t)
  case (Cons p ps)
  { case 1
    show ?case by (cases p) (simp_all add: sdp_append_simps Cons.IH(1))
  next
    case 2
    show ?case
    proof (cases p)
      case (Some q)
      then have "take (sz - length t - 1) q = q" using 2 by simp
      then show ?thesis using 2 Some Cons.IH(2) [of "t @ q"] by (simp add: sdp_append_simps)
    qed (use 2 Cons.IH(2) [of t] in \<open>simp add: sdp_append_simps\<close>)
  }
qed simp_all

text \<open>Reading: line by line.\<close>

definition plain_line :: "bytes \<Rightarrow> bool" where
  "plain_line l \<longleftrightarrow> l \<noteq> [] \<and> length l \<le> 1023 \<and> list_all (\<lambda>b. b \<noteq> 10 \<and> b \<noteq> 13) l"

lemma parse_sdp_collect:
  "list_all (\<lambda>b. b \<noteq> 10 \<and> b \<noteq> 13) l \<Longrightarrow> length buf + length l \<le> 1023 \<Longrightarrow>
     parse_sdp_loop gai (l @ rest) buf d = parse_sdp_loop gai rest (buf @ l) d"
  by (induction l arbitrary: buf) auto

lemma parse_sdp_crlf:
  "plain_line l \<Longrightarrow> parse_sdp_loop gai (l @ crlf @ rest) [] d =
     (case parse_sdp_line gai l d of (r, d') \<Rightarrow> if r = Some ICE_PARSE_ERROR then (r, d') else parse_sdp_loop gai rest [] d')"
  using parse_sdp_collect [of l "[]" gai "crlf @ rest" d] by (simp add: plain_line_def crlf_def)

lemma match_prefix_None: "take (length p) s \<noteq> p \<Longrightarrow> p \<noteq> [] \<Longrightarrow> match_prefix s p = None"
  by (simp add: match_prefix_def skip_prefix_def)

lemma token_plain: "token n w \<Longrightarrow> list_all (\<lambda>b. b \<noteq> 10 \<and> b \<noteq> 13) w"
  by (auto simp: token_def list_all_iff c_isspace_def)

lemma scan_whole: "token n w \<Longrightarrow> scan_str n w = Some (w, [])"
  using scan_str_token [of n w "[]"] by simp

lemma parse_ufrag_line: "token 256 w \<Longrightarrow> parse_sdp_line gai (ascii ''a=ice-ufrag:'' @ w) d = (None, d\<lparr>id_ice_ufrag := w\<rparr>)"
  unfolding parse_sdp_line_def Let_def by (subst match_prefix_append) (simp_all add: scan_whole)

lemma parse_pwd_line: "token 256 w \<Longrightarrow> parse_sdp_line gai (ascii ''a=ice-pwd:'' @ w) d = (None, d\<lparr>id_ice_pwd := w\<rparr>)"
  unfolding parse_sdp_line_def Let_def
  by (subst match_prefix_None, simp, simp, subst match_prefix_append) (simp_all add: scan_whole)

lemma parse_end_line: "parse_sdp_line gai (ascii ''a=end-of-candidates'') d = (None, d\<lparr>id_finished := True\<rparr>)"
  by (simp add: parse_sdp_line_def match_prefix_def skip_prefix_def)

lemma parse_options_line:
  "parse_sdp_line gai (ascii ''a=ice-options:ice2'') d = (Some ICE_PARSE_IGNORED, d)"
  "parse_sdp_line gai (ascii ''a=ice-options:ice2,trickle'') d = (Some ICE_PARSE_IGNORED, d)"
  by (simp_all add: parse_sdp_line_def match_prefix_def skip_prefix_def ice_parse_candidate_sdp_def)

lemma reread_fields:
  "ic_type (reread gai c) = ic_type c" "ic_foundation (reread gai c) = ic_foundation c" "ic_priority (reread gai c) = ic_priority c"
  by (simp_all add: reread_def ice_resolve_candidate_def split: option.split prod.split)

lemma parse_candidate_line_desc:
  assumes "printable c" "ic_foundation c \<noteq> ascii ''-''" "length (id_candidates d) < 20"
  shows "parse_sdp_line gai (candidate_line c) d = (None, d\<lparr>id_candidates := id_candidates d @ [reread gai c]\<rparr>)"
proof -
  have "\<exists>s. candidate_line c = ascii ''a=candidate:'' @ s"
    using assms(1) by (auto simp: candidate_line_def printable_def sdp_type_def)
  then obtain s where s: "candidate_line c = ascii ''a=candidate:'' @ s" by blast
  have no: "match_prefix (candidate_line c) (ascii ''a=ice-ufrag:'') = None"
    "match_prefix (candidate_line c) (ascii ''a=ice-pwd:'') = None"
    "match_prefix (candidate_line c) (ascii ''a=ice-lite'') = None"
    "match_prefix (candidate_line c) (ascii ''a=end-of-candidates'') = None"
    unfolding s by (rule match_prefix_None; simp)+
  have "ic_type c \<noteq> ICE_CANDIDATE_TYPE_UNKNOWN" using assms(1) by (auto simp: printable_def)
  then have "ice_add_candidate (reread gai c) d
      = Some (reread gai c, d\<lparr>id_candidates := id_candidates d @ [reread gai c]\<rparr>)"
    using assms(2,3) by (simp add: ice_add_candidate_def reread_fields Let_def)
  then show ?thesis
    unfolding parse_sdp_line_def Let_def no option.case parse_candidate_line [OF assms(1)] sum.case by simp
qed

definition sdp_skipped :: "ice_candidate \<Rightarrow> bool" where
  "sdp_skipped c \<longleftrightarrow> ic_type c = ICE_CANDIDATE_TYPE_UNKNOWN \<or> ic_type c = ICE_CANDIDATE_TYPE_PEER_REFLEXIVE"

lemma candidate_line_plain:
  assumes "printable c"
  shows "plain_line (candidate_line c)"
proof -
  have "list_all (\<lambda>b. b \<noteq> 10 \<and> b \<noteq> 13) (print_u n)" for n
    using print_u_digits [of n] by (auto simp: list_all_iff c_isdigit_def)
  then have "list_all (\<lambda>b. b \<noteq> 10 \<and> b \<noteq> 13) (candidate_line c)" "candidate_line c \<noteq> []"
    using assms token_plain [of 32] token_plain [of 256] by (auto simp: printable_def candidate_line_def sdp_type_def)
  with length_candidate_line [OF assms] show ?thesis by (simp add: plain_line_def)
qed

lemma parse_candidate_pieces:
  assumes "list_all (\<lambda>c. sdp_skipped c \<or> printable c \<and> ic_foundation c \<noteq> ascii ''-'') cs"
    "length (id_candidates d) + length cs \<le> 20"
  shows "parse_sdp_loop gai (pieces_text (map (\<lambda>c. if sdp_skipped c then None
        else map_option (\<lambda>(_, tmp). tmp @ crlf) (ice_generate_candidate_sdp c BUFFER_SIZE)) cs) @ rest) [] d
    = parse_sdp_loop gai rest [] (d\<lparr>id_candidates := id_candidates d @ map (reread gai) (filter (\<lambda>c. \<not> sdp_skipped c) cs)\<rparr>)"
  using assms
proof (induction cs arbitrary: d)
  case (Cons c cs)
  show ?case
  proof (cases "sdp_skipped c")
    case True
    then show ?thesis using Cons.IH [of d] Cons.prems by simp
  next
    case False
    then have c: "printable c" "ic_foundation c \<noteq> ascii ''-''" using Cons.prems by auto
    have "take 1023 (candidate_line c) = candidate_line c" using length_candidate_line [OF c(1)] by simp
    then show ?thesis
      using False Cons.prems Cons.IH [of "d\<lparr>id_candidates := id_candidates d @ [reread gai c]\<rparr>"]
        parse_candidate_line_desc [OF c, of d gai]
      by (simp add: generate_candidate_line [OF c(1)] parse_sdp_crlf [OF candidate_line_plain [OF c(1)]])
  qed
qed simp

lemma plain_lines:
  "plain_line (ascii ''a=end-of-candidates'')" "plain_line (ascii ''a=ice-options:ice2'')"
  "plain_line (ascii ''a=ice-options:ice2,trickle'')"
  "token 256 w \<Longrightarrow> plain_line (ascii ''a=ice-ufrag:'' @ w)" "token 256 w \<Longrightarrow> plain_line (ascii ''a=ice-pwd:'' @ w)"
  using token_plain [of 256 w] by (simp_all add: plain_line_def token_def)

lemma parse_sdp_crlf_end:
  "plain_line l \<Longrightarrow> parse_sdp_loop gai (l @ crlf) [] d =
     (case parse_sdp_line gai l d of (r, d') \<Rightarrow> if r = Some ICE_PARSE_ERROR then (r, d') else (None, d'))"
  using parse_sdp_crlf [of l gai "[]" d] by (simp split: prod.split)

lemma parse_tail:
  "parse_sdp_loop gai (ascii ''a=end-of-candidates'' @ crlf @ ascii ''a=ice-options:ice2'' @ crlf) [] d
     = (None, d\<lparr>id_finished := True\<rparr>)"
  "parse_sdp_loop gai (ascii ''a=ice-options:ice2,trickle'' @ crlf) [] d = (None, d)"
  by (simp_all only: parse_sdp_crlf [OF plain_lines(1)] parse_end_line prod.case option.distinct if_False
      parse_sdp_crlf_end [OF plain_lines(2)] parse_sdp_crlf_end [OF plain_lines(3)] parse_options_line) simp_all

text \<open>C25: A description that \<open>ice_generate_sdp\<close> prints without truncation is read back by \<open>ice_parse_sdp\<close>:
  fragment, password, the end-of-candidates flag and the signalled candidates (peer-reflexive ones are not
  signalled), resolved anew and sorted by priority. Lite descriptions are excluded.\<close>

theorem ice_sdp_roundtrip:
  assumes "ice_generate_sdp d sz = Some (len, out)" "len < sz" "\<not> id_ice_lite d"
    "token 256 (id_ice_ufrag d)" "token 256 (id_ice_pwd d)" "length (id_candidates d) \<le> 20"
    "list_all (\<lambda>c. sdp_skipped c \<or> printable c \<and> ic_foundation c \<noteq> ascii ''-'') (id_candidates d)"
  shows "ice_parse_sdp gai out = (None, ice_sort_candidates
    (d\<lparr>id_candidates := map (reread gai) (filter (\<lambda>c. \<not> sdp_skipped c) (id_candidates d))\<rparr>))"
proof -
  let ?ps = "sdp_pieces d" and ?cs = "map (reread gai) (filter (\<lambda>c. \<not> sdp_skipped c) (id_candidates d))"
  have ne: "id_ice_ufrag d \<noteq> []" "id_ice_pwd d \<noteq> []" using assms(4,5) by (auto simp: token_def)
  then have f: "fold (sdp_append sz) ?ps (0, []) = (len, out)"
    using assms(1) by (simp add: ice_generate_sdp_def)
  have "len = length (pieces_text ?ps)" using fold_sdp_append(1) [of sz ?ps 0 "[]"] by (simp add: f)
  then have out: "out = pieces_text ?ps" using fold_sdp_append(2) [of "[]" ?ps sz 0] assms(2) by (simp add: f)
  define tail where "tail = (if id_finished d then ascii ''a=end-of-candidates'' @ crlf @ ascii ''a=ice-options:ice2'' @ crlf
              else ascii ''a=ice-options:ice2,trickle'' @ crlf)"
  define e where "e = description_zero\<lparr>id_ice_ufrag := id_ice_ufrag d, id_ice_pwd := id_ice_pwd d\<rparr>"
  have "parse_sdp_loop gai out [] description_zero = parse_sdp_loop gai (pieces_text (map (\<lambda>c. if sdp_skipped c then None
        else map_option (\<lambda>(_, tmp). tmp @ crlf) (ice_generate_candidate_sdp c BUFFER_SIZE)) (id_candidates d)) @ tail) [] e"
    unfolding out using assms(3) parse_sdp_crlf [OF plain_lines(4) [OF assms(4)]] parse_sdp_crlf [OF plain_lines(5) [OF assms(5)]]
      parse_ufrag_line [OF assms(4)] parse_pwd_line [OF assms(5)]
    by (simp add: sdp_pieces_def [folded sdp_skipped_def] tail_def e_def)
  also have "\<dots> = parse_sdp_loop gai tail [] (e\<lparr>id_candidates := ?cs\<rparr>)"
    using parse_candidate_pieces [OF assms(7), of e gai tail] assms(6) by (simp add: e_def description_zero_def)
  also have "\<dots> = (None, e\<lparr>id_candidates := ?cs, id_finished := id_finished d\<rparr>)"
    unfolding tail_def by (cases "id_finished d") (simp_all only: parse_tail if_True if_False, simp_all add: e_def description_zero_def)
  also have "e\<lparr>id_candidates := ?cs, id_finished := id_finished d\<rparr> = d\<lparr>id_candidates := ?cs\<rparr>"
    using assms(3) by (cases d) (simp add: e_def description_zero_def)
  finally show ?thesis using ne by (simp add: ice_parse_sdp_def ice_sort_candidates_def)
qed

definition sample_description :: ice_description where
  "sample_description = description_zero\<lparr>id_ice_ufrag := ascii ''Uf4x'', id_ice_pwd := ascii ''0123456789012345678901'',
     id_candidates := [host_candidate]\<rparr>"

theorem ice_sdp_roundtrip_witness:
  "\<exists>len out. ice_generate_sdp sample_description 4096 = Some (len, out) \<and> len < 4096
    \<and> ice_parse_sdp (\<lambda>_ _ _. None) out = (None, ice_sort_candidates
        (sample_description\<lparr>id_candidates := map (reread (\<lambda>_ _ _. None)) [host_candidate]\<rparr>))"
proof -
  have "ice_generate_sdp sample_description 4096 = Some (fold (sdp_append 4096) (sdp_pieces sample_description) (0, []))"
    by (simp add: ice_generate_sdp_def sample_description_def)
  then obtain len out where g: "ice_generate_sdp sample_description 4096 = Some (len, out)" by (metis prod.collapse)
  have c: "\<not> sdp_skipped host_candidate" by (simp add: sdp_skipped_def host_candidate_def candidate_zero_def)
  have ps: "length (pieces_text (sdp_pieces sample_description)) < 4096"
    using length_candidate_line [OF host_candidate_printable] c
    by (simp add: sdp_pieces_def [folded sdp_skipped_def] sample_description_def description_zero_def crlf_def
        generate_candidate_line [OF host_candidate_printable])
  have f: "fold (sdp_append 4096) (sdp_pieces sample_description) (0, []) = (len, out)"
    using g by (auto simp: ice_generate_sdp_def split: if_splits)
  have len: "len < 4096" using ps fold_sdp_append(1) [of 4096 "sdp_pieces sample_description" 0 "[]"] by (simp add: f)
  have "ice_parse_sdp (\<lambda>_ _ _. None) out = (None, ice_sort_candidates (sample_description
      \<lparr>id_candidates := map (reread (\<lambda>_ _ _. None)) (filter (\<lambda>c. \<not> sdp_skipped c) (id_candidates sample_description))\<rparr>))"
    by (rule ice_sdp_roundtrip [OF g len]) (use host_candidate_printable in
      \<open>simp_all add: sample_description_def description_zero_def token_def c_isspace_def host_candidate_def candidate_zero_def\<close>)
  then have "ice_parse_sdp (\<lambda>_ _ _. None) out = (None, ice_sort_candidates
        (sample_description\<lparr>id_candidates := map (reread (\<lambda>_ _ _. None)) [host_candidate]\<rparr>))"
    using c by (simp add: sample_description_def)
  with g len show ?thesis by blast
qed


end
