(* ===== verification/Agent.thy ===== *)
theory Agent
  imports Turn Ice_Sdp Stun_Write Stun_Read
begin

text \<open>
  The state of the ICE agent (\<open>agent.h\<close>) and the operations on its tables (\<open>agent.c\<close>): states, the arming
  of transmissions, the ordering of candidate pairs, the registration of pairs and entries, and the
  searches. Pointers are indices: into \<open>candidate_pairs\<close>, into \<open>entries\<close>, and into the candidates of the
  local and the remote description. The counts of the arrays are the lengths of the lists.

  What the agent takes from outside is in the environment: the readings of the clock, the random bytes,
  the results of \<open>conn_send\<close>, the contents of uninitialised stack memory, \<open>getnameinfo\<close> and \<open>getaddrinfo\<close>.
  The n-th use of each is the n-th value, and the state counts the uses. What the agent does
  to the outside, datagrams and callbacks, is appended to \<open>ag_out\<close>. A store outside an array and a loop
  that does not return are recorded in \<open>ag_fault\<close>; the state after a fault has no meaning.
\<close>

section \<open>Data\<close>

abbreviation (input) MIN_STUN_RETRANSMISSION_TIMEOUT :: int where "MIN_STUN_RETRANSMISSION_TIMEOUT \<equiv> 500"
abbreviation (input) LAST_STUN_RETRANSMISSION_TIMEOUT :: int where "LAST_STUN_RETRANSMISSION_TIMEOUT \<equiv> 500 * 16"
abbreviation (input) MAX_STUN_CHECK_RETRANSMISSION_COUNT :: int where "MAX_STUN_CHECK_RETRANSMISSION_COUNT \<equiv> 6"
abbreviation (input) MAX_STUN_SERVER_RETRANSMISSION_COUNT :: int where "MAX_STUN_SERVER_RETRANSMISSION_COUNT \<equiv> 5"
abbreviation (input) STUN_PACING_TIME :: int where "STUN_PACING_TIME \<equiv> 50"
abbreviation (input) STUN_KEEPALIVE_PERIOD :: int where "STUN_KEEPALIVE_PERIOD \<equiv> 15000"
abbreviation (input) ICE_PAC_TIMEOUT :: int where "ICE_PAC_TIMEOUT \<equiv> 39500"
abbreviation (input) CONSENT_TIMEOUT :: int where "CONSENT_TIMEOUT \<equiv> 30000"
abbreviation (input) MIN_CONSENT_CHECK_PERIOD :: int where "MIN_CONSENT_CHECK_PERIOD \<equiv> 4000"
abbreviation (input) MAX_CONSENT_CHECK_PERIOD :: int where "MAX_CONSENT_CHECK_PERIOD \<equiv> 6000"
abbreviation (input) NOMINATION_TIMEOUT :: int where "NOMINATION_TIMEOUT \<equiv> 2000"
abbreviation (input) TURN_LIFETIME :: int where "TURN_LIFETIME \<equiv> 600000"
abbreviation (input) TURN_REFRESH_PERIOD :: int where "TURN_REFRESH_PERIOD \<equiv> TURN_LIFETIME - 60000"
abbreviation (input) MAX_SERVER_ENTRIES_COUNT :: nat where "MAX_SERVER_ENTRIES_COUNT \<equiv> 2"
abbreviation (input) MAX_RELAY_ENTRIES_COUNT :: nat where "MAX_RELAY_ENTRIES_COUNT \<equiv> 2"
abbreviation (input) MAX_TURN_REDIRECTIONS :: nat where "MAX_TURN_REDIRECTIONS \<equiv> 1"
abbreviation (input) MAX_HOST_CANDIDATES_COUNT :: nat where "MAX_HOST_CANDIDATES_COUNT \<equiv> 9"
abbreviation (input) MAX_PEER_REFLEXIVE_CANDIDATES_COUNT :: nat where "MAX_PEER_REFLEXIVE_CANDIDATES_COUNT \<equiv> 9"
abbreviation (input) MAX_CANDIDATE_PAIRS_COUNT :: nat where "MAX_CANDIDATE_PAIRS_COUNT \<equiv> 60"
abbreviation (input) MAX_STUN_ENTRIES_COUNT :: nat where "MAX_STUN_ENTRIES_COUNT \<equiv> 62"
abbreviation (input) AGENT_TURN_MAP_SIZE :: nat where "AGENT_TURN_MAP_SIZE \<equiv> ICE_MAX_CANDIDATES_COUNT"
abbreviation (input) PERMISSION_LIFETIME :: int where "PERMISSION_LIFETIME \<equiv> 300000"
abbreviation (input) BIND_LIFETIME :: int where "BIND_LIFETIME \<equiv> 600000"
abbreviation (input) AGENT_BUFFER_SIZE :: nat where "AGENT_BUFFER_SIZE \<equiv> 4096"
abbreviation (input) DEFAULT_MAX_RECORDS_COUNT :: nat where "DEFAULT_MAX_RECORDS_COUNT \<equiv> 8"

datatype juice_state = JUICE_STATE_DISCONNECTED | JUICE_STATE_GATHERING | JUICE_STATE_CONNECTING
  | JUICE_STATE_CONNECTED | JUICE_STATE_COMPLETED | JUICE_STATE_FAILED

datatype agent_mode = AGENT_MODE_UNKNOWN | AGENT_MODE_CONTROLLED | AGENT_MODE_CONTROLLING

datatype agent_stun_entry_type = AGENT_STUN_ENTRY_TYPE_EMPTY | AGENT_STUN_ENTRY_TYPE_SERVER
  | AGENT_STUN_ENTRY_TYPE_RELAY | AGENT_STUN_ENTRY_TYPE_CHECK

datatype agent_stun_entry_state = AGENT_STUN_ENTRY_STATE_PENDING | AGENT_STUN_ENTRY_STATE_CANCELLED
  | AGENT_STUN_ENTRY_STATE_FAILED | AGENT_STUN_ENTRY_STATE_SUCCEEDED
  | AGENT_STUN_ENTRY_STATE_SUCCEEDED_KEEPALIVE | AGENT_STUN_ENTRY_STATE_IDLE

record agent_turn_state =
  ts_map :: turn_map
  ts_credentials :: stun_credentials
  ts_password :: "bytes option"

text \<open>\<open>pair\<close> and \<open>relay_entry\<close> are the indices of a candidate pair and of an entry.\<close>

record agent_stun_entry =
  se_type :: agent_stun_entry_type
  se_state :: agent_stun_entry_state
  se_mode :: agent_mode
  se_pair :: "nat option"
  se_record :: addr_record
  se_relayed :: addr_record
  se_transaction_id :: bytes
  se_next_transmission :: int
  se_retransmission_timeout :: int
  se_retransmissions :: int
  se_transaction_id_expired :: bool
  se_turn :: "agent_turn_state option"
  se_turn_redirections :: nat
  se_relay_entry :: "nat option"

text \<open>A candidate pair as the agent stores it: with pointers into the two descriptions.\<close>

record agent_pair =
  ap_local :: "nat option"
  ap_remote :: nat
  ap_priority :: u64
  ap_state :: ice_candidate_pair_state
  ap_nominated :: bool
  ap_nomination_requested :: bool
  ap_consent_expiry :: int

record juice_turn_server =
  jt_host :: "bytes option"
  jt_username :: bytes
  jt_password :: "bytes option"
  jt_port :: u16

datatype agent_output = StateChanged juice_state | Candidate bytes | GatheringDone | Recv bytes
  | Sent addr_record bytes int

datatype agent_fault = MemoryFault | NotReturned

record agent_env =
  ev_clock :: "nat \<Rightarrow> int"
  ev_rand :: "nat \<Rightarrow> bytes"
  ev_draws :: "nat \<Rightarrow> bytes list"
  ev_send :: "nat \<Rightarrow> int"
  ev_stack :: bytes
  ev_junk :: bytes
  ev_nameinfo :: "sockaddr \<Rightarrow> nat \<Rightarrow> (bytes \<times> bytes) option"
  ev_resolver :: resolver
  ev_gai :: "bytes \<Rightarrow> bytes \<Rightarrow> (sockaddr \<times> nat) list option"

record agent =
  ag_state :: juice_state
  ag_mode :: agent_mode
  ag_local :: ice_description
  ag_remote :: ice_description
  ag_pairs :: "agent_pair list"
  ag_ordered_pairs :: "nat list"
  ag_selected_pair :: "nat option"
  ag_entries :: "agent_stun_entry list"
  ag_selected_entry :: "nat option"
  ag_ice_tiebreaker :: u64
  ag_pac_timestamp :: int
  ag_nomination_timestamp :: int
  ag_gathering_done :: bool
  ag_stun_server_host :: "bytes option"
  ag_stun_server_port :: u16
  ag_turn_servers :: "juice_turn_server list"
  ag_mux :: bool
  ag_conn :: bool
  ag_out :: "agent_output list"
  ag_fault :: "agent_fault option"
  ag_env :: agent_env
  ag_ticks :: nat
  ag_rands :: nat
  ag_loops :: nat
  ag_sends :: nat

definition entry_zero :: agent_stun_entry where
  "entry_zero = \<lparr>se_type = AGENT_STUN_ENTRY_TYPE_EMPTY, se_state = AGENT_STUN_ENTRY_STATE_PENDING,
     se_mode = AGENT_MODE_UNKNOWN, se_pair = None, se_record = addr_zero, se_relayed = addr_zero,
     se_transaction_id = replicate 12 0, se_next_transmission = 0, se_retransmission_timeout = 0,
     se_retransmissions = 0, se_transaction_id_expired = False, se_turn = None, se_turn_redirections = 0,
     se_relay_entry = None\<rparr>"

abbreviation entry :: "agent \<Rightarrow> nat \<Rightarrow> agent_stun_entry" where "entry ag i \<equiv> ag_entries ag ! i"
abbreviation pair :: "agent \<Rightarrow> nat \<Rightarrow> agent_pair" where "pair ag p \<equiv> ag_pairs ag ! p"

definition upd_stun :: "nat \<Rightarrow> (agent_stun_entry \<Rightarrow> agent_stun_entry) \<Rightarrow> agent \<Rightarrow> agent" where
  "upd_stun i f ag = ag\<lparr>ag_entries := (ag_entries ag)[i := f (entry ag i)]\<rparr>"

definition upd_pair :: "nat \<Rightarrow> (agent_pair \<Rightarrow> agent_pair) \<Rightarrow> agent \<Rightarrow> agent" where
  "upd_pair p f ag = ag\<lparr>ag_pairs := (ag_pairs ag)[p := f (pair ag p)]\<rparr>"

definition fault :: "agent_fault \<Rightarrow> agent \<Rightarrow> agent" where
  "fault f ag = ag\<lparr>ag_fault := (case ag_fault ag of None \<Rightarrow> Some f | Some g \<Rightarrow> Some g)\<rparr>"

definition emit :: "agent_output \<Rightarrow> agent \<Rightarrow> agent" where
  "emit ev ag = ag\<lparr>ag_out := ag_out ag @ [ev]\<rparr>"

text \<open>The slot of a candidate in the array of a description; unused slots hold zeros.\<close>

definition candidate_at :: "ice_description \<Rightarrow> nat \<Rightarrow> ice_candidate" where
  "candidate_at d k = (if k < length (id_candidates d) then id_candidates d ! k else candidate_zero)"

text \<open>The index of the first element with a property.\<close>

definition first_index :: "('a \<Rightarrow> bool) \<Rightarrow> 'a list \<Rightarrow> nat option" where
  "first_index P xs = (let k = length (takeWhile (\<lambda>x. \<not> P x) xs) in if k < length xs then Some k else None)"

section \<open>The environment\<close>

definition current_timestamp :: "agent \<Rightarrow> int \<times> agent" where
  "current_timestamp ag = (ev_clock (ag_env ag) (ag_ticks ag), ag\<lparr>ag_ticks := ag_ticks ag + 1\<rparr>)"

definition juice_random :: "nat \<Rightarrow> agent \<Rightarrow> bytes \<times> agent" where
  "juice_random n ag = (take n (ev_rand (ag_env ag) (ag_rands ag) @ replicate n 0), ag\<lparr>ag_rands := ag_rands ag + 1\<rparr>)"

definition juice_rand32 :: "agent \<Rightarrow> u32 \<times> agent" where
  "juice_rand32 ag = (let (r, ag) = juice_random 4 ag in (get32le r, ag))"

text \<open>The values that a loop of \<open>turn.c\<close> draws.\<close>

definition random_draws :: "agent \<Rightarrow> bytes list \<times> agent" where
  "random_draws ag = (ev_draws (ag_env ag) (ag_loops ag), ag\<lparr>ag_loops := ag_loops ag + 1\<rparr>)"

definition agent_direct_send :: "agent \<Rightarrow> addr_record \<Rightarrow> bytes \<Rightarrow> int \<Rightarrow> int \<times> agent" where
  "agent_direct_send ag dst data ds =
     (ev_send (ag_env ag) (ag_sends ag), emit (Sent dst data ds) (ag\<lparr>ag_sends := ag_sends ag + 1\<rparr>))"

text \<open>
  \<open>stun_write\<close> into a buffer on the stack, with the \<open>int\<close> it returns. Most callers take a result that is not positive
  as a failure.
\<close>

definition agent_stun_size :: "agent \<Rightarrow> stun_message \<Rightarrow> bytes option \<Rightarrow> bytes \<times> int \<times> agent" where
  "agent_stun_size ag msg password =
     (let buffer = take AGENT_BUFFER_SIZE (ev_stack (ag_env ag) @ replicate AGENT_BUFFER_SIZE 0)
      in case stun_write buffer msg password (ev_junk (ag_env ag)) of
           Inl OutOfBounds \<Rightarrow> (buffer, -1, fault MemoryFault ag)
         | Inl Fail \<Rightarrow> (buffer, -1, ag)
         | Inr (buffer, sz) \<Rightarrow> (buffer, sz, ag))"

definition agent_stun_write :: "agent \<Rightarrow> stun_message \<Rightarrow> bytes option \<Rightarrow> bytes option \<times> agent" where
  "agent_stun_write ag msg password =
     (let (buffer, sz, ag) = agent_stun_size ag msg password
      in (if sz \<le> 0 then None else Some (take (nat sz) buffer), ag))"

section \<open>State and timers\<close>

definition agent_change_state :: "agent \<Rightarrow> juice_state \<Rightarrow> agent" where
  "agent_change_state ag s = (if s \<noteq> ag_state ag then emit (StateChanged s) (ag\<lparr>ag_state := s\<rparr>) else ag)"

text \<open>
  The search for a time slot. The \<open>int\<close> that \<open>abs\<close> takes has 32 bits, timestamps have 64; they do not
  overflow in practice and are integers here.
\<close>

definition slot_taken :: "agent_stun_entry list \<Rightarrow> nat \<Rightarrow> nat \<Rightarrow> int \<Rightarrow> bool" where
  "slot_taken es i k t \<longleftrightarrow> k \<noteq> i \<and> se_next_transmission (es ! k) \<noteq> 0
     \<and> abs (sint (word_of_int (t - se_next_transmission (es ! k)) :: 32 word)) < STUN_PACING_TIME"

partial_function (option) find_slot :: "agent_stun_entry list \<Rightarrow> nat \<Rightarrow> nat \<Rightarrow> int \<Rightarrow> int option" where
  "find_slot es i k t =
     (if k = length es then Some t
      else if slot_taken es i k t then find_slot es i 0 (se_next_transmission (es ! k) + STUN_PACING_TIME)
      else find_slot es i (k + 1) t)"

definition agent_arm_transmission :: "agent \<Rightarrow> nat \<Rightarrow> int \<Rightarrow> agent" where
  "agent_arm_transmission ag i delay =
     (let e = entry ag i;
          e = (if se_state e \<noteq> AGENT_STUN_ENTRY_STATE_SUCCEEDED_KEEPALIVE
               then e\<lparr>se_state := AGENT_STUN_ENTRY_STATE_PENDING\<rparr> else e);
          (now, ag) = current_timestamp ag;
          e = (if se_state e = AGENT_STUN_ENTRY_STATE_PENDING
               then e\<lparr>se_retransmission_timeout := MIN_STUN_RETRANSMISSION_TIMEOUT,
                      se_retransmissions := (if se_type e = AGENT_STUN_ENTRY_TYPE_CHECK
                        then MAX_STUN_CHECK_RETRANSMISSION_COUNT else MAX_STUN_SERVER_RETRANSMISSION_COUNT)\<rparr> else e)
      in case find_slot (ag_entries ag) i 0 (now + delay) of
           None \<Rightarrow> fault NotReturned ag
         | Some t \<Rightarrow> upd_stun i (\<lambda>_. e\<lparr>se_next_transmission := t\<rparr>) ag)"

definition agent_arm_keepalive :: "agent \<Rightarrow> nat \<Rightarrow> agent" where
  "agent_arm_keepalive ag i =
     (let ag = (if se_state (entry ag i) = AGENT_STUN_ENTRY_STATE_SUCCEEDED
                then upd_stun i (\<lambda>e. e\<lparr>se_state := AGENT_STUN_ENTRY_STATE_SUCCEEDED_KEEPALIVE\<rparr>) ag else ag)
      in if se_state (entry ag i) \<noteq> AGENT_STUN_ENTRY_STATE_SUCCEEDED_KEEPALIVE then ag
         else let (period, ag) =
                (case se_type (entry ag i) of
                   AGENT_STUN_ENTRY_TYPE_RELAY \<Rightarrow>
                     (if 0 < length (id_candidates (ag_remote ag)) then TURN_REFRESH_PERIOD else STUN_KEEPALIVE_PERIOD, ag)
                 | AGENT_STUN_ENTRY_TYPE_SERVER \<Rightarrow> (STUN_KEEPALIVE_PERIOD, ag)
                 | _ \<Rightarrow> let (r, ag) = juice_rand32 ag
                        in (MIN_CONSENT_CHECK_PERIOD
                            + uint r mod (MAX_CONSENT_CHECK_PERIOD - MIN_CONSENT_CHECK_PERIOD + 1), ag))
              in agent_arm_transmission (upd_stun i (\<lambda>e. e\<lparr>se_transaction_id_expired := True\<rparr>) ag) i period)"

definition agent_update_pac_timer :: "agent \<Rightarrow> agent" where
  "agent_update_pac_timer ag =
     (if ag_pac_timestamp ag \<noteq> 0 then ag
      else if id_ice_ufrag (ag_remote ag) \<noteq> [] \<and> ag_gathering_done ag
      then let (now, ag) = current_timestamp ag in ag\<lparr>ag_pac_timestamp := now + ICE_PAC_TIMEOUT\<rparr>
      else ag)"

definition agent_update_gathering_done :: "agent \<Rightarrow> agent" where
  "agent_update_gathering_done ag =
     (if list_ex (\<lambda>e. se_type e \<noteq> AGENT_STUN_ENTRY_TYPE_CHECK \<and> se_state e = AGENT_STUN_ENTRY_STATE_PENDING) (ag_entries ag)
      then ag
      else if \<not> ag_gathering_done ag
      then emit GatheringDone (agent_update_pac_timer
             (ag\<lparr>ag_local := (ag_local ag)\<lparr>id_finished := True\<rparr>, ag_gathering_done := True\<rparr>))
      else ag)"

section \<open>Candidate pairs\<close>

text \<open>The pair with its candidates looked up, and the insertion sort of the pointers by priority.\<close>

definition pair_view :: "agent \<Rightarrow> agent_pair \<Rightarrow> ice_candidate_pair" where
  "pair_view ag p = \<lparr>cp_local = map_option (candidate_at (ag_local ag)) (ap_local p),
     cp_remote = Some (candidate_at (ag_remote ag) (ap_remote p)), cp_priority = ap_priority p, cp_state = ap_state p,
     cp_nominated = ap_nominated p, cp_nomination_requested = ap_nomination_requested p,
     cp_consent_expiry = ap_consent_expiry p\<rparr>"

fun order_shift :: "agent_pair list \<Rightarrow> nat list \<Rightarrow> u64 \<Rightarrow> nat \<Rightarrow> nat list \<times> nat" where
  "order_shift ps a priority 0 = (a, 0)"
| "order_shift ps a priority (Suc prev) =
     (if ap_priority (ps ! (a ! prev)) < priority then order_shift ps (a[Suc prev := a ! prev]) priority prev
      else (a, Suc prev))"

fun order_loop :: "agent_pair list \<Rightarrow> nat list \<Rightarrow> nat list \<Rightarrow> nat list" where
  "order_loop ps a [] = a"
| "order_loop ps a (i # is) = (let (a, n) = order_shift ps a (ap_priority (ps ! i)) i in order_loop ps (a[n := i]) is)"

definition agent_update_ordered_pairs :: "agent \<Rightarrow> agent" where
  "agent_update_ordered_pairs ag =
     (let n = length (ag_pairs ag)
      in ag\<lparr>ag_ordered_pairs := order_loop (ag_pairs ag) (take n (ag_ordered_pairs ag @ replicate n 0)) [0..<n]\<rparr>)"

definition agent_update_candidate_pairs :: "agent \<Rightarrow> agent" where
  "agent_update_candidate_pairs ag =
     (let is_controlling = (ag_mode ag = AGENT_MODE_CONTROLLING);
          ag = ag\<lparr>ag_pairs := map (\<lambda>p. p\<lparr>ap_priority := cp_priority (ice_update_candidate_pair (pair_view ag p) is_controlling)\<rparr>)
                 (ag_pairs ag)\<rparr>;
          ag = agent_update_ordered_pairs ag
      in ag\<lparr>ag_entries := map (\<lambda>e. if se_type e = AGENT_STUN_ENTRY_TYPE_CHECK then e\<lparr>se_transaction_id_expired := True\<rparr> else e)
               (ag_entries ag)\<rparr>)"

definition agent_unfreeze_candidate_pair :: "agent \<Rightarrow> nat \<Rightarrow> int \<times> agent" where
  "agent_unfreeze_candidate_pair ag p =
     (if ap_state (pair ag p) \<noteq> ICE_CANDIDATE_PAIR_STATE_FROZEN then (0, ag)
      else case first_index (\<lambda>e. se_pair e = Some p) (ag_entries ag) of
             None \<Rightarrow> (-1, ag)
           | Some i \<Rightarrow>
               let ag = upd_pair p (\<lambda>p. p\<lparr>ap_state := ICE_CANDIDATE_PAIR_STATE_PENDING\<rparr>) ag;
                   ag = upd_stun i (\<lambda>e. e\<lparr>se_state := AGENT_STUN_ENTRY_STATE_PENDING\<rparr>) ag
               in (0, agent_arm_transmission ag i 0))"

text \<open>Storing a new entry behind the last one; \<open>entries\<close> has room for \<open>MAX_STUN_ENTRIES_COUNT\<close>.\<close>

definition register_entry :: "agent_stun_entry \<Rightarrow> agent \<Rightarrow> agent" where
  "register_entry e ag =
     (if length (ag_entries ag) < MAX_STUN_ENTRIES_COUNT then ag\<lparr>ag_entries := ag_entries ag @ [e]\<rparr>
      else fault MemoryFault ag)"

text \<open>
  The translation of local addresses is not compiled in (\<open>JUICE_ENABLE_LOCAL_ADDRESS_TRANSLATION\<close> is not
  defined), so the function leaves the entry as it is.
\<close>

definition agent_translate_host_candidate_entry :: "agent \<Rightarrow> nat \<Rightarrow> agent" where
  "agent_translate_host_candidate_entry ag i = ag"

definition agent_add_candidate_pair :: "agent \<Rightarrow> nat option \<Rightarrow> nat \<Rightarrow> int \<times> agent" where
  "agent_add_candidate_pair ag lcl rmt =
     (let is_controlling = (ag_mode ag = AGENT_MODE_CONTROLLING);
          lc = map_option (candidate_at (ag_local ag)) lcl;
          rc = candidate_at (ag_remote ag) rmt
      in case ice_create_candidate_pair lc (Some rc) is_controlling of
           None \<Rightarrow> (-1, ag)
         | Some cp \<Rightarrow>
             if MAX_CANDIDATE_PAIRS_COUNT \<le> length (ag_pairs ag) then (-1, ag)
             else let pos = length (ag_pairs ag);
                      ag = ag\<lparr>ag_pairs := ag_pairs ag @ [\<lparr>ap_local = lcl, ap_remote = rmt, ap_priority = cp_priority cp,
                             ap_state = cp_state cp, ap_nominated = cp_nominated cp,
                             ap_nomination_requested = cp_nomination_requested cp,
                             ap_consent_expiry = cp_consent_expiry cp\<rparr>]\<rparr>;
                      ag = agent_update_ordered_pairs ag
                  in if length (ag_entries ag) = MAX_STUN_ENTRIES_COUNT then (-1, ag)
                     else let relayed = (case lc of None \<Rightarrow> False | Some c \<Rightarrow> ic_type c = ICE_CANDIDATE_TYPE_RELAYED);
                              relay_entry = (if relayed
                                then first_index (\<lambda>e. se_type e = AGENT_STUN_ENTRY_TYPE_RELAY
                                       \<and> addr_record_is_equal (se_relayed e) (ic_resolved (the lc)) True) (ag_entries ag)
                                else None)
                          in if relayed \<and> relay_entry = None then (-1, ag)
                             else let (tid, ag) = juice_random 12 ag; i = length (ag_entries ag);
                                      ag = register_entry (entry_zero\<lparr>se_type := AGENT_STUN_ENTRY_TYPE_CHECK,
                                             se_state := AGENT_STUN_ENTRY_STATE_IDLE, se_mode := AGENT_MODE_UNKNOWN,
                                             se_pair := Some pos, se_record := ic_resolved rc,
                                             se_relay_entry := relay_entry, se_transaction_id := tid,
                                             se_transaction_id_expired := False\<rparr>) ag;
                                      ag = (if ic_type rc = ICE_CANDIDATE_TYPE_HOST
                                            then agent_translate_host_candidate_entry ag i else ag)
                                  in if ag_mode ag = AGENT_MODE_CONTROLLING
                                        \<and> list_ex (\<lambda>p. ap_state (pair ag p) = ICE_CANDIDATE_PAIR_STATE_SUCCEEDED)
                                            (takeWhile (\<lambda>p. p \<noteq> pos) (ag_ordered_pairs ag))
                                     then (0, ag)
                                     else if id_ice_ufrag (ag_remote ag) \<noteq> []
                                        \<and> (case ag_selected_pair ag of None \<Rightarrow> True | Some s \<Rightarrow> \<not> ap_nominated (pair ag s))
                                     then (0, snd (agent_unfreeze_candidate_pair ag pos))
                                     else (0, ag))"

text \<open>The loop over the local candidates stops at the first failure.\<close>

fun add_relayed_pairs :: "agent \<Rightarrow> nat \<Rightarrow> nat list \<Rightarrow> int \<times> agent" where
  "add_relayed_pairs ag rmt [] = (0, ag)"
| "add_relayed_pairs ag rmt (l # ls) =
     (let c = candidate_at (ag_local ag) l
      in if ic_type c = ICE_CANDIDATE_TYPE_RELAYED
            \<and> sa_family (ar_addr (ic_resolved c)) = sa_family (ar_addr (ic_resolved (candidate_at (ag_remote ag) rmt)))
         then let (r, ag) = agent_add_candidate_pair ag (Some l) rmt
              in if r \<noteq> 0 then (-1, ag) else add_relayed_pairs ag rmt ls
         else add_relayed_pairs ag rmt ls)"

definition agent_add_candidate_pairs_for_remote :: "agent \<Rightarrow> nat \<Rightarrow> int \<times> agent" where
  "agent_add_candidate_pairs_for_remote ag rmt =
     (let (r, ag) = agent_add_candidate_pair ag None rmt
      in if r \<noteq> 0 then (-1, ag) else add_relayed_pairs ag rmt [0..<length (id_candidates (ag_local ag))])"

section \<open>Searching the entries\<close>

definition pair_is_relayed :: "agent \<Rightarrow> agent_pair \<Rightarrow> bool" where
  "pair_is_relayed ag p = (case ap_local p of None \<Rightarrow> False
     | Some l \<Rightarrow> ic_type (candidate_at (ag_local ag) l) = ICE_CANDIDATE_TYPE_RELAYED)"

definition entry_is_relayed :: "agent \<Rightarrow> agent_stun_entry \<Rightarrow> bool" where
  "entry_is_relayed ag e = (case se_pair e of None \<Rightarrow> False | Some p \<Rightarrow> pair_is_relayed ag (pair ag p))"

text \<open>Looking a transaction id up in a TURN table clears the fresh flag of the entry that has it.\<close>

fun find_tid_loop :: "agent \<Rightarrow> bytes \<Rightarrow> nat list \<Rightarrow> nat option \<times> agent" where
  "find_tid_loop ag tid [] = (None, ag)"
| "find_tid_loop ag tid (i # is) =
     (if memcmp tid (se_transaction_id (entry ag i)) = 0 then (Some i, ag)
      else case se_turn (entry ag i) of
             None \<Rightarrow> find_tid_loop ag tid is
           | Some ts \<Rightarrow>
               let (found, m) = turn_retrieve_transaction_id (ts_map ts) tid;
                   ag = upd_stun i (\<lambda>e. e\<lparr>se_turn := Some (ts\<lparr>ts_map := m\<rparr>)\<rparr>) ag
               in if found \<noteq> None then (Some i, ag) else find_tid_loop ag tid is)"

definition agent_find_entry_from_transaction_id :: "agent \<Rightarrow> bytes \<Rightarrow> nat option \<times> agent" where
  "agent_find_entry_from_transaction_id ag tid = find_tid_loop ag tid [0..<length (ag_entries ag)]"

text \<open>Whether the entry is for the relayed address and the remote address, or, not relayed, for the remote address.\<close>

definition entry_matches_relayed :: "agent \<Rightarrow> addr_record \<Rightarrow> addr_record \<Rightarrow> agent_stun_entry \<Rightarrow> bool" where
  "entry_matches_relayed ag r relayed e \<longleftrightarrow> entry_is_relayed ag e
     \<and> addr_record_is_equal (ic_resolved (candidate_at (ag_local ag) (the (ap_local (pair ag (the (se_pair e))))))) relayed True
     \<and> addr_record_is_equal (se_record e) r True"

definition entry_matches_direct :: "agent \<Rightarrow> addr_record \<Rightarrow> agent_stun_entry \<Rightarrow> bool" where
  "entry_matches_direct ag r e \<longleftrightarrow> \<not> entry_is_relayed ag e \<and> addr_record_is_equal (se_record e) r True"

definition pair_matches_direct :: "agent \<Rightarrow> addr_record \<Rightarrow> agent_pair \<Rightarrow> bool" where
  "pair_matches_direct ag r p \<longleftrightarrow> \<not> pair_is_relayed ag p
     \<and> addr_record_is_equal (ic_resolved (candidate_at (ag_remote ag) (ap_remote p))) r True"

definition agent_find_entry_from_record :: "agent \<Rightarrow> addr_record \<Rightarrow> addr_record option \<Rightarrow> nat option" where
  "agent_find_entry_from_record ag r relayed =
     (let matches = (case relayed of Some rl \<Rightarrow> entry_matches_relayed ag r rl | None \<Rightarrow> entry_matches_direct ag r);
          sel = (case ag_selected_entry ag of
                   Some s \<Rightarrow> (case se_pair (entry ag s) of
                       Some p \<Rightarrow> if ap_nominated (pair ag p) \<and> matches (entry ag s) then Some s else None
                     | None \<Rightarrow> None)
                 | None \<Rightarrow> None)
      in case sel of
           Some s \<Rightarrow> Some s
         | None \<Rightarrow>
             (case relayed of
                Some rl \<Rightarrow> first_index matches (ag_entries ag)
              | None \<Rightarrow>
                  let by_pair = (case find (\<lambda>p. pair_matches_direct ag r (pair ag p)) (ag_ordered_pairs ag) of
                                   None \<Rightarrow> None
                                 | Some p \<Rightarrow> first_index (\<lambda>e. se_pair e = Some p) (ag_entries ag))
                  in case by_pair of Some i \<Rightarrow> Some i | None \<Rightarrow> first_index matches (ag_entries ag)))"

end
