(* ===== verification/Agent_Input.thy ===== *)
theory Agent_Input
  imports Agent
begin

text \<open>
  The messages of the agent (\<open>agent.c\<close>): sending Binding and TURN messages, directly or through a relay,
  verifying and processing the ones that arrive, and \<open>agent_input\<close>, which takes a datagram apart. A
  function of the code that returns an \<open>int\<close> returns it here with the new state.
\<close>

section \<open>TURN requests\<close>

text \<open>The TURN state of an entry, when there is one.\<close>

definition set_turn_map :: "nat \<Rightarrow> turn_map \<Rightarrow> agent \<Rightarrow> agent" where
  "set_turn_map i m ag = upd_stun i (\<lambda>e. e\<lparr>se_turn := map_option (\<lambda>ts. ts\<lparr>ts_map := m\<rparr>) (se_turn e)\<rparr>) ag"

definition set_turn_credentials :: "nat \<Rightarrow> stun_credentials \<Rightarrow> agent \<Rightarrow> agent" where
  "set_turn_credentials i c ag =
     upd_stun i (\<lambda>e. e\<lparr>se_turn := map_option (\<lambda>ts. ts\<lparr>ts_credentials := stun_process_credentials c (ts_credentials ts)\<rparr>) (se_turn e)\<rparr>) ag"

text \<open>Writing a message and sending it: \<open>-1\<close> when either fails.\<close>

definition send_message :: "agent \<Rightarrow> addr_record \<Rightarrow> stun_message \<Rightarrow> bytes option \<Rightarrow> int \<Rightarrow> int \<times> agent" where
  "send_message ag dst msg password ds =
     (case agent_stun_write ag msg password of
        (None, ag) \<Rightarrow> (-1, ag)
      | (Some buffer, ag) \<Rightarrow> let (r, ag) = agent_direct_send ag dst buffer ds in (if r < 0 then -1 else 0, ag))"

definition agent_send_turn_allocate_request :: "agent \<Rightarrow> nat \<Rightarrow> u16 \<Rightarrow> int \<times> agent" where
  "agent_send_turn_allocate_request ag i method =
     (if method \<noteq> STUN_METHOD_ALLOCATE \<and> method \<noteq> STUN_METHOD_REFRESH then (-1, ag)
      else if se_type (entry ag i) \<noteq> AGENT_STUN_ENTRY_TYPE_RELAY then (-1, ag)
      else case se_turn (entry ag i) of
        None \<Rightarrow> (-1, ag)
      | Some ts \<Rightarrow>
          let msg = message_zero\<lparr>sm_class := STUN_CLASS_REQUEST, sm_method := method,
                      sm_transaction_id := se_transaction_id (entry ag i), sm_lifetime := of_int (TURN_LIFETIME div 1000)\<rparr>;
              msg = (if method = STUN_METHOD_ALLOCATE then msg\<lparr>sm_requested_transport := True\<rparr> else msg);
              auth = (cr_nonce (ts_credentials ts) \<noteq> []);
              msg = (if auth then msg\<lparr>sm_credentials := ts_credentials ts\<rparr> else msg)
          in send_message ag (se_record (entry ag i)) msg (if auth then ts_password ts else None) 0)"

text \<open>
  Drawing a transaction id for a record in the table of entry \<open>i\<close>. A draw that finds no free id, and a
  store outside the arrays of the table, are faults.
\<close>

definition draw_turn_tid ::
  "(turn_map \<Rightarrow> addr_record \<Rightarrow> bytes list \<Rightarrow> (bytes option \<times> turn_map) res option) \<Rightarrow> agent \<Rightarrow> nat \<Rightarrow> turn_map
   \<Rightarrow> addr_record \<Rightarrow> bytes option \<times> agent" where
  "draw_turn_tid f ag i m r =
     (let (draws, ag) = random_draws ag
      in case f m r draws of
           None \<Rightarrow> (None, fault NotReturned ag)
         | Some (Inl _) \<Rightarrow> (None, fault MemoryFault ag)
         | Some (Inr (tid, m)) \<Rightarrow> (tid, set_turn_map i m ag))"

definition agent_send_turn_create_permission_request :: "agent \<Rightarrow> nat \<Rightarrow> addr_record \<Rightarrow> int \<Rightarrow> int \<times> agent" where
  "agent_send_turn_create_permission_request ag i record ds =
     (if se_type (entry ag i) \<noteq> AGENT_STUN_ENTRY_TYPE_RELAY then (-1, ag)
      else case se_turn (entry ag i) of
        None \<Rightarrow> (-1, ag)
      | Some ts \<Rightarrow>
          if cr_realm (ts_credentials ts) = [] \<or> cr_nonce (ts_credentials ts) = [] then (-1, ag)
          else case draw_turn_tid turn_set_random_permission_transaction_id ag i (ts_map ts) record of
            (None, ag) \<Rightarrow> (-1, ag)
          | (Some tid, ag) \<Rightarrow>
              send_message ag (se_record (entry ag i))
                (message_zero\<lparr>sm_class := STUN_CLASS_REQUEST, sm_method := STUN_METHOD_CREATE_PERMISSION,
                   sm_transaction_id := tid, sm_credentials := ts_credentials ts, sm_peers := [record]\<rparr>)
                (ts_password ts) ds)"

text \<open>The channel of the record, bound to a random free number when there is none.\<close>

definition channel_for :: "agent \<Rightarrow> nat \<Rightarrow> turn_map \<Rightarrow> addr_record \<Rightarrow> u16 option \<times> agent" where
  "channel_for ag i m record =
     (case turn_get_channel m record of
        Some c \<Rightarrow> (Some c, ag)
      | None \<Rightarrow>
          let (draws, ag) = random_draws ag; (now, ag) = current_timestamp ag
          in case turn_bind_random_channel m (Some record) (map (\<lambda>d. unraw16 (take 2 (d @ [0, 0]))) draws) now 0 of
               None \<Rightarrow> (None, fault NotReturned ag)
             | Some (Inl _) \<Rightarrow> (None, fault MemoryFault ag)
             | Some (Inr (c, m)) \<Rightarrow> (c, set_turn_map i m ag))"

text \<open>The result, the channel stored through \<open>out_channel\<close>, and the state.\<close>

definition agent_send_turn_channel_bind_request ::
  "agent \<Rightarrow> nat \<Rightarrow> addr_record \<Rightarrow> int \<Rightarrow> int \<times> u16 option \<times> agent" where
  "agent_send_turn_channel_bind_request ag i record ds =
     (if se_type (entry ag i) \<noteq> AGENT_STUN_ENTRY_TYPE_RELAY then (-1, None, ag)
      else case se_turn (entry ag i) of
        None \<Rightarrow> (-1, None, ag)
      | Some ts \<Rightarrow>
          if cr_realm (ts_credentials ts) = [] \<or> cr_nonce (ts_credentials ts) = [] then (-1, None, ag)
          else case channel_for ag i (ts_map ts) record of
            (None, ag) \<Rightarrow> (-1, None, ag)
          | (Some channel, ag) \<Rightarrow>
              (case se_turn (entry ag i) of
                 None \<Rightarrow> (-1, None, ag)
               | Some ts \<Rightarrow>
                   (case draw_turn_tid turn_set_random_channel_transaction_id ag i (ts_map ts) record of
                      (None, ag) \<Rightarrow> (-1, None, ag)
                    | (Some tid, ag) \<Rightarrow>
                        let (r, ag) = send_message ag (se_record (entry ag i))
                              (message_zero\<lparr>sm_class := STUN_CLASS_REQUEST, sm_method := STUN_METHOD_CHANNEL_BIND,
                                 sm_transaction_id := tid, sm_credentials := ts_credentials ts,
                                 sm_channel_number := channel, sm_peers := [record]\<rparr>) (ts_password ts) ds
                        in (r, Some channel, ag))))"

section \<open>Sending through a relay\<close>

text \<open>
  In \<open>agent_relay_send\<close> the result of \<open>stun_write\<close> is kept in a \<open>size_t\<close>: the failure value \<open>-1\<close> passes the
  test \<open>size <= 0\<close> and becomes the size of the datagram, far beyond the buffer.
\<close>

definition agent_relay_send :: "agent \<Rightarrow> nat \<Rightarrow> addr_record \<Rightarrow> bytes \<Rightarrow> int \<Rightarrow> int \<times> agent" where
  "agent_relay_send ag i dst data ds =
     (case se_turn (entry ag i) of
        None \<Rightarrow> (-1, ag)
      | Some ts \<Rightarrow>
          let (now, ag) = current_timestamp ag;
              (r, ag) = (if \<not> turn_has_permission (ts_map ts) dst now
                         then agent_send_turn_create_permission_request ag i dst ds else (0, ag))
          in if r \<noteq> 0 then (-1, ag)
             else let (tid, ag) = juice_random 12 ag;
                      msg = message_zero\<lparr>sm_class := STUN_CLASS_INDICATION, sm_method := STUN_METHOD_SEND,
                              sm_transaction_id := tid, sm_peers := [dst], sm_data := Some data\<rparr>
                  in case agent_stun_size ag msg None of
                       (buffer, sz, ag) \<Rightarrow>
                         if sz = 0 then (-1, ag)
                         else if sz < 0 then (-1, fault MemoryFault ag)
                         else agent_direct_send ag (se_record (entry ag i)) (take (nat sz) buffer) ds)"

definition agent_channel_send :: "agent \<Rightarrow> nat \<Rightarrow> addr_record \<Rightarrow> bytes \<Rightarrow> int \<Rightarrow> int \<times> agent" where
  "agent_channel_send ag i record data ds =
     (case se_turn (entry ag i) of
        None \<Rightarrow> (-1, ag)
      | Some ts \<Rightarrow>
          let (now, ag) = current_timestamp ag;
              (r, channel, ag) = (case turn_get_bound_channel (ts_map ts) record now of
                  Some c \<Rightarrow> (0, Some c, ag)
                | None \<Rightarrow> agent_send_turn_channel_bind_request ag i record ds)
          in case channel of
               None \<Rightarrow> (-1, ag)
             | Some c \<Rightarrow>
                 if r < 0 then (-1, ag)
                 else case turn_wrap_channel_data (take AGENT_BUFFER_SIZE (ev_stack (ag_env ag) @ replicate AGENT_BUFFER_SIZE 0)) data c of
                        Inl _ \<Rightarrow> (-1, ag)
                      | Inr (buffer, len) \<Rightarrow> agent_direct_send ag (se_record (entry ag i)) (take len buffer) ds)"

definition agent_send :: "agent \<Rightarrow> bytes \<Rightarrow> int \<Rightarrow> int \<times> agent" where
  "agent_send ag data ds =
     (case ag_selected_entry ag of
        None \<Rightarrow> (-1, ag)
      | Some s \<Rightarrow>
          (case se_relay_entry (entry ag s) of
             Some rl \<Rightarrow> agent_channel_send ag rl (se_record (entry ag s)) data ds
           | None \<Rightarrow> agent_direct_send ag (se_record (entry ag s)) data ds))"

section \<open>Binding messages\<close>

text \<open>The request of a connectivity check.\<close>

definition check_request :: "agent \<Rightarrow> agent_stun_entry \<Rightarrow> stun_message \<Rightarrow> stun_message" where
  "check_request ag e msg =
     (let pr = map_option (\<lambda>p. pair ag p) (se_pair e);
          index = (case pr of None \<Rightarrow> 0 | Some p \<Rightarrow> (case ap_local p of None \<Rightarrow> 0 | Some l \<Rightarrow> l))
      in msg\<lparr>sm_credentials := (sm_credentials msg)\<lparr>cr_username := snprintf_str STUN_MAX_USERNAME_LEN
                (id_ice_ufrag (ag_remote ag) @ ascii '':'' @ id_ice_ufrag (ag_local ag))\<rparr>,
             sm_ice_controlling := (if ag_mode ag = AGENT_MODE_CONTROLLING then ag_ice_tiebreaker ag else 0),
             sm_ice_controlled := (if ag_mode ag = AGENT_MODE_CONTROLLED then ag_ice_tiebreaker ag else 0),
             sm_priority := ice_compute_priority ICE_CANDIDATE_TYPE_PEER_REFLEXIVE
                (sa_family (ar_addr (se_record e))) 1 (int index),
             sm_use_candidate := (ag_mode ag = AGENT_MODE_CONTROLLING
                \<and> (case pr of None \<Rightarrow> False | Some p \<Rightarrow> ap_nomination_requested p \<and> \<not> ap_nominated p))\<rparr>)"

text \<open>The attributes and the password of a message of a connectivity check; a request notes the mode in the entry.\<close>

definition binding_prepare ::
  "agent \<Rightarrow> nat \<Rightarrow> u16 \<Rightarrow> u32 \<Rightarrow> addr_record option \<Rightarrow> stun_message \<Rightarrow> stun_message \<times> bytes option \<times> agent" where
  "binding_prepare ag i msg_class error_code mapped msg =
     (if se_type (entry ag i) \<noteq> AGENT_STUN_ENTRY_TYPE_CHECK then (msg, None, ag)
      else if msg_class = STUN_CLASS_REQUEST
      then (check_request ag (entry ag i) msg, Some (id_ice_pwd (ag_remote ag)), upd_stun i (\<lambda>e. e\<lparr>se_mode := ag_mode ag\<rparr>) ag)
      else if msg_class = STUN_CLASS_RESP_SUCCESS \<or> msg_class = STUN_CLASS_RESP_ERROR
      then (case mapped of None \<Rightarrow> msg\<lparr>sm_error_code := error_code\<rparr>
              | Some m \<Rightarrow> msg\<lparr>sm_error_code := error_code, sm_mapped := m\<rparr>, Some (id_ice_pwd (ag_local ag)), ag)
      else (msg, None, ag))"

text \<open>Sending it: through the relay of the entry, by a channel once the pair is nominated, or directly.\<close>

definition binding_transmit :: "agent \<Rightarrow> nat \<Rightarrow> bytes \<Rightarrow> int \<times> agent" where
  "binding_transmit ag i buffer =
     (case se_relay_entry (entry ag i) of
        Some rl \<Rightarrow>
          if (case se_pair (entry ag i) of None \<Rightarrow> False | Some p \<Rightarrow> ap_nominated (pair ag p))
          then agent_channel_send ag rl (se_record (entry ag i)) buffer 0
          else agent_relay_send ag rl (se_record (entry ag i)) buffer 0
      | None \<Rightarrow> agent_direct_send ag (se_record (entry ag i)) buffer 0)"

definition binding_tid :: "agent \<Rightarrow> nat \<Rightarrow> u16 \<Rightarrow> bytes option \<Rightarrow> bytes \<times> agent" where
  "binding_tid ag i msg_class tid =
     (case tid of Some t \<Rightarrow> (t, ag)
      | None \<Rightarrow> if msg_class = STUN_CLASS_INDICATION then juice_random 12 ag else (se_transaction_id (entry ag i), ag))"

definition agent_send_stun_binding ::
  "agent \<Rightarrow> nat \<Rightarrow> u16 \<Rightarrow> u32 \<Rightarrow> bytes option \<Rightarrow> addr_record option \<Rightarrow> int \<times> agent" where
  "agent_send_stun_binding ag i msg_class error_code tid mapped =
     (if (msg_class = STUN_CLASS_RESP_SUCCESS \<or> msg_class = STUN_CLASS_RESP_ERROR) \<and> tid = None then (-1, ag)
      else let (t, ag) = binding_tid ag i msg_class tid;
               msg = message_zero\<lparr>sm_class := msg_class, sm_method := STUN_METHOD_BINDING, sm_transaction_id := t\<rparr>
           in if se_type (entry ag i) = AGENT_STUN_ENTRY_TYPE_CHECK \<and> msg_class = STUN_CLASS_REQUEST
                 \<and> (id_ice_ufrag (ag_remote ag) = [] \<or> id_ice_pwd (ag_remote ag) = []) then (0, ag)
              else let (msg, password, ag) = binding_prepare ag i msg_class error_code mapped msg
                   in case agent_stun_write ag msg password of
                        (None, ag) \<Rightarrow> (-1, ag)
                      | (Some buffer, ag) \<Rightarrow> let (r, ag) = binding_transmit ag i buffer in (if r < 0 then -1 else 0, ag))"

section \<open>Candidates learned from messages\<close>

text \<open>The candidate created for a record, added to a description; nothing when a step fails.\<close>

definition agent_add_local_relayed_candidate :: "agent \<Rightarrow> addr_record \<Rightarrow> int \<times> agent" where
  "agent_add_local_relayed_candidate ag record =
     (if ice_find_candidate_from_addr (ag_local ag) record ICE_CANDIDATE_TYPE_RELAYED \<noteq> None then (0, ag)
      else case ice_create_local_candidate (ev_nameinfo (ag_env ag)) ICE_CANDIDATE_TYPE_RELAYED 1
                  (int (length (id_candidates (ag_local ag)))) record of
        None \<Rightarrow> (-1, ag)
      | Some c \<Rightarrow>
          (case ice_add_candidate c (ag_local ag) of
             None \<Rightarrow> (-1, ag)
           | Some (c, d) \<Rightarrow>
               let ag = ag\<lparr>ag_local := d\<rparr>; l = length (id_candidates d) - 1
               in case ice_generate_candidate_sdp c AGENT_BUFFER_SIZE of
                    None \<Rightarrow> (-1, ag)
                  | Some (_, buffer) \<Rightarrow>
                      (0, emit (Candidate buffer)
                         (fold (\<lambda>k ag. if sa_family (ar_addr (ic_resolved (candidate_at (ag_local ag) l)))
                                          = sa_family (ar_addr (ic_resolved (candidate_at (ag_remote ag) k)))
                                       then snd (agent_add_candidate_pair ag (Some l) k) else ag)
                            [0..<length (id_candidates (ag_remote ag))] ag))))"

definition agent_add_local_reflexive_candidate :: "agent \<Rightarrow> ice_candidate_type \<Rightarrow> addr_record \<Rightarrow> int \<times> agent" where
  "agent_add_local_reflexive_candidate ag type record =
     (if type \<noteq> ICE_CANDIDATE_TYPE_SERVER_REFLEXIVE \<and> type \<noteq> ICE_CANDIDATE_TYPE_PEER_REFLEXIVE then (-1, ag)
      else if ice_find_candidate_from_addr (ag_local ag) record
                (if sa_family (ar_addr record) = AF_INET6 then ICE_CANDIDATE_TYPE_UNKNOWN else type) \<noteq> None then (0, ag)
      else case ice_create_local_candidate (ev_nameinfo (ag_env ag)) type 1
                  (int (length (id_candidates (ag_local ag)))) record of
        None \<Rightarrow> (-1, ag)
      | Some c \<Rightarrow>
          if ic_type c = ICE_CANDIDATE_TYPE_PEER_REFLEXIVE
             \<and> MAX_PEER_REFLEXIVE_CANDIDATES_COUNT \<le> ice_candidates_count (ag_local ag) ICE_CANDIDATE_TYPE_PEER_REFLEXIVE
          then (0, ag)
          else case ice_add_candidate c (ag_local ag) of
            None \<Rightarrow> (-1, ag)
          | Some (c, d) \<Rightarrow>
              let ag = ag\<lparr>ag_local := d\<rparr>
              in case ice_generate_candidate_sdp c AGENT_BUFFER_SIZE of
                   None \<Rightarrow> (-1, ag)
                 | Some (_, buffer) \<Rightarrow>
                     (0, if type \<noteq> ICE_CANDIDATE_TYPE_PEER_REFLEXIVE then emit (Candidate buffer) ag else ag))"

definition agent_add_remote_reflexive_candidate ::
  "agent \<Rightarrow> ice_candidate_type \<Rightarrow> u32 \<Rightarrow> addr_record \<Rightarrow> int \<times> agent" where
  "agent_add_remote_reflexive_candidate ag type priority record =
     (if type \<noteq> ICE_CANDIDATE_TYPE_PEER_REFLEXIVE then (-1, ag)
      else if ice_find_candidate_from_addr (ag_remote ag) record ICE_CANDIDATE_TYPE_UNKNOWN \<noteq> None then (0, ag)
      else case ice_create_local_candidate (ev_nameinfo (ag_env ag)) type 1
                  (int (length (id_candidates (ag_local ag)))) record of
        None \<Rightarrow> (-1, ag)
      | Some c \<Rightarrow>
          if MAX_PEER_REFLEXIVE_CANDIDATES_COUNT \<le> ice_candidates_count (ag_remote ag) ICE_CANDIDATE_TYPE_PEER_REFLEXIVE
          then (0, ag)
          else case ice_add_candidate c (ag_remote ag) of
            None \<Rightarrow> (-1, ag)
          | Some (c, d) \<Rightarrow>
              let k = length (id_candidates d) - 1;
                  d = d\<lparr>id_candidates := (id_candidates d)[k := (id_candidates d ! k)\<lparr>ic_priority := priority\<rparr>]\<rparr>
              in agent_add_candidate_pairs_for_remote (ag\<lparr>ag_remote := d\<rparr>) k)"

section \<open>Verification\<close>

definition check_integrity :: "agent \<Rightarrow> bytes \<Rightarrow> stun_message \<Rightarrow> bytes option \<Rightarrow> int \<times> agent" where
  "check_integrity ag buf msg password =
     (case stun_check_integrity buf msg password of
        Inl OutOfBounds \<Rightarrow> (-1, fault MemoryFault ag)
      | Inl Fail \<Rightarrow> (-1, ag)
      | Inr ok \<Rightarrow> (if ok then 0 else -1, ag))"

definition username_ok :: "agent \<Rightarrow> bytes \<Rightarrow> bool" where
  "username_ok ag username =
     (let local_ufrag = takeWhile (\<lambda>b. b \<noteq> of_char CHR '':'') username;
          remote_ufrag = drop (length local_ufrag + 1) username
      in of_char CHR '':'' \<in> set username \<and> local_ufrag = id_ice_ufrag (ag_local ag)
         \<and> \<not> (id_ice_ufrag (ag_remote ag) \<noteq> [] \<and> remote_ufrag \<noteq> id_ice_ufrag (ag_remote ag)))"

definition agent_verify_stun_binding :: "agent \<Rightarrow> bytes \<Rightarrow> stun_message \<Rightarrow> int \<times> agent" where
  "agent_verify_stun_binding ag buf msg =
     (if sm_method msg \<noteq> STUN_METHOD_BINDING then (-1, ag)
      else if sm_class msg = STUN_CLASS_INDICATION \<or> sm_class msg = STUN_CLASS_RESP_ERROR then (0, ag)
      else if \<not> sm_has_integrity msg then (-1, ag)
      else if sm_class msg = STUN_CLASS_REQUEST \<and> \<not> username_ok ag (cr_username (sm_credentials msg)) then (-1, ag)
      else let password = (if sm_class msg = STUN_CLASS_REQUEST then id_ice_pwd (ag_local ag) else id_ice_pwd (ag_remote ag))
           in if password = [] then (-1, ag) else check_integrity ag buf msg (Some password))"

text \<open>The message afterwards carries the credentials of the entry.\<close>

definition agent_verify_credentials :: "agent \<Rightarrow> nat \<Rightarrow> bytes \<Rightarrow> stun_message \<Rightarrow> int \<times> stun_message \<times> agent" where
  "agent_verify_credentials ag i buf msg =
     (if sm_class msg = STUN_CLASS_INDICATION \<or> (sm_class msg = STUN_CLASS_RESP_ERROR \<and> sm_error_code msg \<noteq> 400)
      then (0, msg, ag)
      else if \<not> sm_has_integrity msg then (-1, msg, ag)
      else case se_turn (entry ag i) of
        None \<Rightarrow> (-1, msg, ag)
      | Some ts \<Rightarrow>
          let c = ts_credentials ts;
              msg = msg\<lparr>sm_credentials := (sm_credentials msg)\<lparr>cr_realm := cr_realm c, cr_nonce := cr_nonce c,
                      cr_username := cr_username c\<rparr>\<rparr>;
              (r, ag) = check_integrity ag buf msg (ts_password ts)
          in (r, msg, ag))"

section \<open>Processing Binding messages\<close>

text \<open>A request. The first part ends the processing, or goes on with the response and a triggered check.\<close>

definition agent_process_binding_request :: "agent \<Rightarrow> stun_message \<Rightarrow> nat \<Rightarrow> addr_record \<Rightarrow> int \<times> agent" where
  "agent_process_binding_request ag msg i src =
     (let error = (\<lambda>code ag. snd (agent_send_stun_binding ag i STUN_CLASS_RESP_ERROR code (Some (sm_transaction_id msg)) None))
      in if se_type (entry ag i) \<noteq> AGENT_STUN_ENTRY_TYPE_CHECK then (-1, ag)
         else if sm_ice_controlling msg = sm_ice_controlled msg then (-1, error 400 ag)
         else if ag_mode ag = AGENT_MODE_CONTROLLING \<and> sm_ice_controlling msg \<noteq> 0
         then (0, if sm_ice_controlling msg \<le> ag_ice_tiebreaker ag then error 487 ag
                  else agent_update_candidate_pairs (ag\<lparr>ag_mode := AGENT_MODE_CONTROLLED\<rparr>))
         else if ag_mode ag = AGENT_MODE_CONTROLLED \<and> sm_ice_controlled msg \<noteq> 0
         then (0, if sm_ice_controlling msg \<le> ag_ice_tiebreaker ag
                  then agent_update_candidate_pairs (ag\<lparr>ag_mode := AGENT_MODE_CONTROLLING\<rparr>) else error 487 ag)
         else if sm_use_candidate msg \<and> sm_ice_controlling msg = 0 then (-1, error 400 ag)
         else case se_pair (entry ag i) of
           None \<Rightarrow> (-1, fault MemoryFault ag)
         | Some p \<Rightarrow>
             let ag = (if sm_use_candidate msg
                       then if ap_state (pair ag p) = ICE_CANDIDATE_PAIR_STATE_SUCCEEDED
                            then upd_pair p (\<lambda>p. p\<lparr>ap_nominated := True\<rparr>) ag
                            else upd_pair p (\<lambda>p. p\<lparr>ap_nomination_requested := True\<rparr>) ag
                       else ag);
                 (r, ag) = agent_send_stun_binding ag i STUN_CLASS_RESP_SUCCESS 0 (Some (sm_transaction_id msg)) (Some src)
             in if r \<noteq> 0 then (-1, ag)
                else if ap_state (pair ag p) \<noteq> ICE_CANDIDATE_PAIR_STATE_SUCCEEDED \<and> id_ice_ufrag (ag_remote ag) \<noteq> []
                then let ag = upd_pair p (\<lambda>p. p\<lparr>ap_state := ICE_CANDIDATE_PAIR_STATE_PENDING\<rparr>) ag;
                         ag = upd_stun i (\<lambda>e. e\<lparr>se_state := AGENT_STUN_ENTRY_STATE_PENDING\<rparr>) ag
                     in (0, agent_arm_transmission ag i STUN_PACING_TIME)
                else (0, ag))"

definition not_nominated_yet :: "agent \<Rightarrow> bool" where
  "not_nominated_yet ag = (case ag_selected_pair ag of None \<Rightarrow> True | Some s \<Rightarrow> \<not> ap_nominated (pair ag s))"

text \<open>A success response: first the entry, then the mapped address, then the pair.\<close>

definition succeed_entry :: "agent \<Rightarrow> nat \<Rightarrow> agent" where
  "succeed_entry ag i =
     (let ag = (if se_state (entry ag i) \<noteq> AGENT_STUN_ENTRY_STATE_SUCCEEDED_KEEPALIVE
                then upd_stun i (\<lambda>e. e\<lparr>se_state := AGENT_STUN_ENTRY_STATE_SUCCEEDED, se_next_transmission := 0\<rparr>) ag else ag)
      in if not_nominated_yet ag
         then agent_arm_keepalive (upd_stun i (\<lambda>e. e\<lparr>se_state := AGENT_STUN_ENTRY_STATE_SUCCEEDED_KEEPALIVE\<rparr>) ag) i
         else ag)"

definition succeed_pair :: "agent \<Rightarrow> nat \<Rightarrow> stun_message \<Rightarrow> agent" where
  "succeed_pair ag p msg =
     (let ag = upd_pair p (\<lambda>p. p\<lparr>ap_state := ICE_CANDIDATE_PAIR_STATE_SUCCEEDED\<rparr>) ag;
          ag = (if ap_local (pair ag p) = None \<and> ar_len (sm_mapped msg) \<noteq> 0
                then upd_pair p (\<lambda>p. p\<lparr>ap_local := first_index (\<lambda>c. addr_is_equal (ar_addr (sm_mapped msg)) (ar_addr (ic_resolved c)) True)
                       (id_candidates (ag_local ag))\<rparr>) ag
                else ag);
          (now, ag) = current_timestamp ag;
          ag = upd_pair p (\<lambda>p. p\<lparr>ap_consent_expiry := now + CONSENT_TIMEOUT\<rparr>) ag
      in if ap_nomination_requested (pair ag p) then upd_pair p (\<lambda>p. p\<lparr>ap_nominated := True\<rparr>) ag else ag)"

definition agent_process_binding_success ::
  "agent \<Rightarrow> stun_message \<Rightarrow> nat \<Rightarrow> addr_record \<Rightarrow> addr_record option \<Rightarrow> int \<times> agent" where
  "agent_process_binding_success ag msg i src relayed =
     (let ag = succeed_entry ag i;
          check = (se_type (entry ag i) = AGENT_STUN_ENTRY_TYPE_CHECK);
          ag = (if ar_len (sm_mapped msg) \<noteq> 0 \<and> relayed = None
                then snd (agent_add_local_reflexive_candidate ag
                       (if check then ICE_CANDIDATE_TYPE_PEER_REFLEXIVE else ICE_CANDIDATE_TYPE_SERVER_REFLEXIVE) (sm_mapped msg))
                else ag)
      in if check
         then case se_pair (entry ag i) of
                None \<Rightarrow> (-1, ag)
              | Some p \<Rightarrow>
                  if ap_state (pair ag p) \<noteq> ICE_CANDIDATE_PAIR_STATE_SUCCEEDED
                     \<and> \<not> addr_record_is_equal src (se_record (entry ag i)) True
                  then (0, upd_pair p (\<lambda>p. p\<lparr>ap_state := ICE_CANDIDATE_PAIR_STATE_FAILED\<rparr>)
                         (upd_stun i (\<lambda>e. e\<lparr>se_state := AGENT_STUN_ENTRY_STATE_FAILED, se_next_transmission := 0\<rparr>) ag))
                  else (0, succeed_pair ag p msg)
         else if se_type (entry ag i) = AGENT_STUN_ENTRY_TYPE_SERVER then (0, agent_update_gathering_done ag)
         else (0, ag))"

definition agent_process_binding_error :: "agent \<Rightarrow> stun_message \<Rightarrow> nat \<Rightarrow> agent" where
  "agent_process_binding_error ag msg i =
     (if se_type (entry ag i) = AGENT_STUN_ENTRY_TYPE_CHECK
      then if sm_error_code msg = 487
           then if se_mode (entry ag i) = ag_mode ag
                then let (t, ag) = juice_random 8 ag;
                         ag = ag\<lparr>ag_mode := (if se_mode (entry ag i) = AGENT_MODE_CONTROLLING then AGENT_MODE_CONTROLLED
                                             else AGENT_MODE_CONTROLLING), ag_ice_tiebreaker := get64 (rev t)\<rparr>;
                         ag = agent_update_candidate_pairs ag
                     in if se_state (entry ag i) \<noteq> AGENT_STUN_ENTRY_STATE_IDLE
                        then agent_arm_transmission (upd_stun i (\<lambda>e. e\<lparr>se_state := AGENT_STUN_ENTRY_STATE_PENDING\<rparr>) ag) i 0
                        else ag
                else ag
           else let ag = upd_stun i (\<lambda>e. e\<lparr>se_state := AGENT_STUN_ENTRY_STATE_FAILED, se_next_transmission := 0\<rparr>) ag
                in case se_pair (entry ag i) of
                     None \<Rightarrow> ag
                   | Some p \<Rightarrow> upd_pair p (\<lambda>p. p\<lparr>ap_state := ICE_CANDIDATE_PAIR_STATE_FAILED\<rparr>) ag
      else if se_type (entry ag i) = AGENT_STUN_ENTRY_TYPE_SERVER
      then agent_update_gathering_done (upd_stun i (\<lambda>e. e\<lparr>se_state := AGENT_STUN_ENTRY_STATE_FAILED\<rparr>) ag)
      else ag)"

definition agent_process_stun_binding ::
  "agent \<Rightarrow> stun_message \<Rightarrow> nat \<Rightarrow> addr_record \<Rightarrow> addr_record option \<Rightarrow> int \<times> agent" where
  "agent_process_stun_binding ag msg i src relayed =
     (if sm_class msg = STUN_CLASS_REQUEST then agent_process_binding_request ag msg i src
      else if sm_class msg = STUN_CLASS_RESP_SUCCESS then agent_process_binding_success ag msg i src relayed
      else if sm_class msg = STUN_CLASS_RESP_ERROR then (0, agent_process_binding_error ag msg i)
      else if sm_class msg = STUN_CLASS_INDICATION then (0, ag)
      else (-1, ag))"

section \<open>Processing TURN messages\<close>

text \<open>A failed allocation; the second form is the failure of a successful response without relayed address.\<close>

definition fail_entry :: "agent \<Rightarrow> nat \<Rightarrow> agent" where
  "fail_entry ag i = agent_update_gathering_done (upd_stun i (\<lambda>e. e\<lparr>se_state := AGENT_STUN_ENTRY_STATE_FAILED\<rparr>) ag)"

definition allocate_success :: "agent \<Rightarrow> stun_message \<Rightarrow> nat \<Rightarrow> int \<times> agent" where
  "allocate_success ag msg i =
     (if sm_method msg = STUN_METHOD_REFRESH then (0, ag)
      else if ar_len (sm_relayed msg) = 0
      then (-1, upd_stun i (\<lambda>e. e\<lparr>se_state := AGENT_STUN_ENTRY_STATE_FAILED\<rparr>) ag)
      else let ag = succeed_entry ag i;
               ag = (if ar_len (sm_mapped msg) \<noteq> 0
                     then snd (agent_add_local_reflexive_candidate ag ICE_CANDIDATE_TYPE_SERVER_REFLEXIVE (sm_mapped msg)) else ag);
               ag = upd_stun i (\<lambda>e. e\<lparr>se_relayed := sm_relayed msg\<rparr>) ag;
               (r, ag) = agent_add_local_relayed_candidate ag (sm_relayed msg)
           in if r \<noteq> 0 then (-1, ag) else (0, agent_update_gathering_done ag))"

definition allocate_error :: "agent \<Rightarrow> stun_message \<Rightarrow> nat \<Rightarrow> agent_turn_state \<Rightarrow> int \<times> agent" where
  "allocate_error ag msg i ts =
     (let missing = (cr_realm (sm_credentials msg) = [] \<or> cr_nonce (sm_credentials msg) = []);
          resend = (\<lambda>ag. agent_arm_transmission (set_turn_credentials i (sm_credentials msg) ag) i 0)
      in if sm_error_code msg = 401
         then if cr_realm (ts_credentials ts) \<noteq> [] then (-1, fail_entry ag i)
              else if missing then (-1, fail_entry ag i)
              else (0, resend ag)
         else if sm_error_code msg = 438
         then if missing then (-1, fail_entry ag i) else (0, resend ag)
         else if sm_method msg = STUN_METHOD_ALLOCATE \<and> sm_error_code msg = 300
         then if ar_len (sm_alternate_server msg) = 0
                 \<or> addr_record_is_equal (sm_alternate_server msg) (se_record (entry ag i)) True then (-1, fail_entry ag i)
              else if MAX_TURN_REDIRECTIONS \<le> se_turn_redirections (entry ag i) then (-1, fail_entry ag i)
              else (0, agent_arm_transmission (upd_stun i (\<lambda>e. e\<lparr>se_turn_redirections := se_turn_redirections e + 1,
                         se_record := sm_alternate_server msg\<rparr>) ag) i 0)
         else (0, fail_entry ag i))"

definition agent_process_turn_allocate :: "agent \<Rightarrow> stun_message \<Rightarrow> nat \<Rightarrow> int \<times> agent" where
  "agent_process_turn_allocate ag msg i =
     (if sm_method msg \<noteq> STUN_METHOD_ALLOCATE \<and> sm_method msg \<noteq> STUN_METHOD_REFRESH then (-1, ag)
      else if se_type (entry ag i) \<noteq> AGENT_STUN_ENTRY_TYPE_RELAY then (-1, ag)
      else case se_turn (entry ag i) of
        None \<Rightarrow> (-1, ag)
      | Some ts \<Rightarrow>
          if sm_class msg = STUN_CLASS_RESP_SUCCESS then allocate_success ag msg i
          else if sm_class msg = STUN_CLASS_RESP_ERROR then allocate_error ag msg i ts
          else (-1, ag))"

text \<open>
  The responses to CreatePermission and ChannelBind. \<open>confirm\<close> notes the success in the table, \<open>resend\<close>
  repeats the request for a record with fresh credentials.
\<close>

definition process_turn_response ::
  "(turn_map \<Rightarrow> int \<Rightarrow> bool \<times> turn_map) \<Rightarrow> (agent \<Rightarrow> addr_record \<Rightarrow> agent) \<Rightarrow> agent \<Rightarrow> stun_message \<Rightarrow> nat \<Rightarrow> int \<times> agent" where
  "process_turn_response confirm resend ag msg i =
     (if se_type (entry ag i) \<noteq> AGENT_STUN_ENTRY_TYPE_RELAY then (-1, ag)
      else case se_turn (entry ag i) of
        None \<Rightarrow> (-1, ag)
      | Some ts \<Rightarrow>
          if sm_class msg = STUN_CLASS_RESP_SUCCESS
          then let (now, ag) = current_timestamp ag in (0, set_turn_map i (snd (confirm (ts_map ts) now)) ag)
          else if sm_class msg = STUN_CLASS_RESP_ERROR
          then if sm_error_code msg = 438
               then if cr_realm (sm_credentials msg) = [] \<or> cr_nonce (sm_credentials msg) = [] then (-1, ag)
                    else let ag = set_turn_credentials i (sm_credentials msg) ag;
                             (record, m) = turn_retrieve_transaction_id (ts_map ts) (sm_transaction_id msg);
                             ag = set_turn_map i m ag
                         in (0, case record of None \<Rightarrow> ag | Some r \<Rightarrow> resend ag r)
               else (0, ag)
          else (-1, ag))"

definition agent_process_turn_create_permission :: "agent \<Rightarrow> stun_message \<Rightarrow> nat \<Rightarrow> int \<times> agent" where
  "agent_process_turn_create_permission ag msg i =
     process_turn_response (\<lambda>m now. turn_set_permission m (sm_transaction_id msg) None now (PERMISSION_LIFETIME div 2))
       (\<lambda>ag r. snd (agent_send_turn_create_permission_request ag i r 0)) ag msg i"

definition agent_process_turn_channel_bind :: "agent \<Rightarrow> stun_message \<Rightarrow> nat \<Rightarrow> int \<times> agent" where
  "agent_process_turn_channel_bind ag msg i =
     process_turn_response (\<lambda>m now. turn_bind_current_channel m (sm_transaction_id msg) None now (BIND_LIFETIME div 2))
       (\<lambda>ag r. snd (snd (agent_send_turn_channel_bind_request ag i r 0))) ag msg i"

section \<open>Dispatch\<close>

text \<open>
  Data that came through a relay is handed to \<open>agent_input\<close> again, in tail position: a step of the
  processing ends with the result or with the datagram to go on with (data, peer, relayed address).
\<close>

datatype agent_tail = Done int | Again bytes addr_record addr_record

definition agent_process_turn_data :: "agent \<Rightarrow> stun_message \<Rightarrow> nat \<Rightarrow> agent_tail" where
  "agent_process_turn_data ag msg i =
     (if se_type (entry ag i) \<noteq> AGENT_STUN_ENTRY_TYPE_RELAY then Done (-1)
      else if sm_class msg \<noteq> STUN_CLASS_INDICATION then Done (-1)
      else case sm_data msg of
        None \<Rightarrow> Done (-1)
      | Some data \<Rightarrow> if sm_peers msg = [] then Done (-1) else Again data (hd (sm_peers msg)) (se_relayed (entry ag i)))"

definition agent_process_channel_data :: "agent \<Rightarrow> nat \<Rightarrow> bytes \<Rightarrow> agent_tail \<times> agent" where
  "agent_process_channel_data ag i buf =
     (if length buf < 4 then (Done (-1), ag)
      else let channel = get16 buf; len = unat (get16 (drop 2 buf))
           in if length buf - 4 < len then (Done (-1), ag)
              else case se_turn (entry ag i) of
                None \<Rightarrow> (Done (-1), fault MemoryFault ag)
              | Some ts \<Rightarrow>
                  (case turn_find_channel (ts_map ts) channel of
                     None \<Rightarrow> (Done (-1), ag)
                   | Some src \<Rightarrow> (Again (take len (drop 4 buf)) src (se_relayed (entry ag i)), ag)))"

definition dispatch_method ::
  "agent \<Rightarrow> bytes \<Rightarrow> stun_message \<Rightarrow> nat \<Rightarrow> addr_record \<Rightarrow> addr_record option \<Rightarrow> agent_tail \<times> agent" where
  "dispatch_method ag buf msg i src relayed =
     (let verified = (\<lambda>process. case agent_verify_credentials ag i buf msg of
            (r, msg, ag) \<Rightarrow> if r \<noteq> 0 then (Done (-1), ag) else apfst Done (process ag msg i))
      in if sm_method msg = STUN_METHOD_BINDING
         then if se_type (entry ag i) = AGENT_STUN_ENTRY_TYPE_CHECK \<and> \<not> sm_has_integrity msg
                 \<and> (sm_class msg = STUN_CLASS_REQUEST \<or> sm_class msg = STUN_CLASS_RESP_SUCCESS)
              then (Done (-1), ag)
              else apfst Done (agent_process_stun_binding ag msg i src relayed)
         else if sm_method msg = STUN_METHOD_ALLOCATE \<or> sm_method msg = STUN_METHOD_REFRESH
         then verified agent_process_turn_allocate
         else if sm_method msg = STUN_METHOD_CREATE_PERMISSION then verified agent_process_turn_create_permission
         else if sm_method msg = STUN_METHOD_CHANNEL_BIND then verified agent_process_turn_channel_bind
         else if sm_method msg = STUN_METHOD_DATA then (agent_process_turn_data ag msg i, ag)
         else (Done (-1), ag))"

definition agent_dispatch_stun ::
  "agent \<Rightarrow> bytes \<Rightarrow> stun_message \<Rightarrow> addr_record \<Rightarrow> addr_record option \<Rightarrow> agent_tail \<times> agent" where
  "agent_dispatch_stun ag buf msg src relayed =
     (let peer = (sm_method msg = STUN_METHOD_BINDING \<and> sm_has_integrity msg);
          (r, ag) = (if peer then agent_verify_stun_binding ag buf msg else (0, ag))
      in if r \<noteq> 0 then (Done (-1), ag)
         else let ag = (if peer then snd (agent_add_remote_reflexive_candidate ag ICE_CANDIDATE_TYPE_PEER_REFLEXIVE
                                            (sm_priority msg) src) else ag)
              in if STUN_IS_RESPONSE (sm_class msg)
                 then case agent_find_entry_from_transaction_id ag (sm_transaction_id msg) of
                        (None, ag) \<Rightarrow> (Done (-1), ag)
                      | (Some i, ag) \<Rightarrow> dispatch_method ag buf msg i src relayed
                 else case agent_find_entry_from_record ag src relayed of
                        None \<Rightarrow> (Done 0, ag)
                      | Some i \<Rightarrow> dispatch_method ag buf msg i src relayed)"

definition agent_input_step :: "agent \<Rightarrow> bytes \<Rightarrow> addr_record \<Rightarrow> addr_record option \<Rightarrow> agent_tail \<times> agent" where
  "agent_input_step ag buf src relayed =
     (if ag_state ag = JUICE_STATE_DISCONNECTED \<or> ag_state ag = JUICE_STATE_GATHERING then (Done 0, ag)
      else if is_stun_datagram buf
      then case stun_read buf of
             Inl OutOfBounds \<Rightarrow> (Done (-1), fault MemoryFault ag)
           | Inl Fail \<Rightarrow> (Done (-1), ag)
           | Inr (_, msg) \<Rightarrow> agent_dispatch_stun ag buf msg src relayed
      else case agent_find_entry_from_record ag src relayed of
             None \<Rightarrow> (Done (-1), ag)
           | Some i \<Rightarrow>
               (case se_type (entry ag i) of
                  AGENT_STUN_ENTRY_TYPE_RELAY \<Rightarrow>
                    if is_channel_data buf then agent_process_channel_data ag i buf else (Done (-1), ag)
                | AGENT_STUN_ENTRY_TYPE_CHECK \<Rightarrow> (Done 0, emit (Recv buf) ag)
                | _ \<Rightarrow> (Done (-1), ag)))"

text \<open>What goes on is shorter than the datagram it came in.\<close>

lemma agent_input_step_shorter:
  assumes "agent_input_step ag buf src relayed = (Again data peer rl, ag')"
  shows "length data < length buf"
proof -
  have no_again: "apfst Done x \<noteq> (Again data peer rl, ag')" for x by (cases x) auto
  have turn: "length data < length buf" if "agent_process_turn_data ag1 msg i = Again data peer rl" "stun_read buf = Inr (n, msg)" for ag1 msg i n
    using that stun_read_data_shorter by (auto simp: agent_process_turn_data_def split: if_splits option.splits)
  have dispatched: "length data < length buf"
    if "dispatch_method ag1 buf msg i src relayed = (Again data peer rl, ag')" "stun_read buf = Inr (n, msg)" for ag1 msg i n
    using that turn no_again by (auto simp: dispatch_method_def Let_def split: if_splits prod.splits)
  have "length data < length buf" if "agent_process_channel_data ag i buf = (Again data peer rl, ag')" for i
    using that by (auto simp: agent_process_channel_data_def Let_def split: if_splits option.splits)
  then show ?thesis using assms dispatched
    by (auto simp: agent_input_step_def agent_dispatch_stun_def Let_def
        split: if_splits sum.splits cerr.splits option.splits prod.splits agent_stun_entry_type.splits)
qed

function agent_input :: "agent \<Rightarrow> bytes \<Rightarrow> addr_record \<Rightarrow> addr_record option \<Rightarrow> int \<times> agent" where
  "agent_input ag buf src relayed =
     (case agent_input_step ag buf src relayed of
        (Done r, ag) \<Rightarrow> (r, ag)
      | (Again data peer rl, ag) \<Rightarrow> agent_input ag data peer (Some rl))"
  by pat_completeness auto
termination
  by (relation "measure (\<lambda>(ag, buf, src, relayed). length buf)") (auto dest: agent_input_step_shorter [OF sym])

declare agent_input.simps [simp del]

definition agent_conn_recv :: "agent \<Rightarrow> bytes \<Rightarrow> addr_record \<Rightarrow> agent" where
  "agent_conn_recv ag buf src = snd (agent_input ag buf src None)"

end
