(* ===== verification/Agent_Book.thy ===== *)
theory Agent_Book
  imports Agent_Input
begin

text \<open>
  The periodic work of the agent (\<open>agent_bookkeeping\<close>: transmissions, selection, nomination, timers) and the
  operations of its interface. Operations run under the lock of the connection, so each is one step;
  \<open>agent_resolve_servers\<close> gives the lock up while it resolves a name, so it is a step per server.
\<close>

section \<open>Transmissions\<close>

definition fresh_tid :: "agent \<Rightarrow> nat \<Rightarrow> agent" where
  "fresh_tid ag i = (let (tid, ag) = juice_random 12 ag
     in upd_stun i (\<lambda>e. e\<lparr>se_transaction_id := tid, se_transaction_id_expired := False\<rparr>) ag)"

definition book_transmit :: "agent \<Rightarrow> nat \<Rightarrow> int \<times> agent" where
  "book_transmit ag i =
     (let ag = (if se_transaction_id_expired (entry ag i) then fresh_tid ag i else ag)
      in if se_type (entry ag i) = AGENT_STUN_ENTRY_TYPE_RELAY
         then agent_send_turn_allocate_request ag i STUN_METHOD_ALLOCATE
         else agent_send_stun_binding ag i STUN_CLASS_REQUEST 0 None None)"

definition book_fail :: "agent \<Rightarrow> nat \<Rightarrow> agent" where
  "book_fail ag i =
     (let ag = upd_stun i (\<lambda>e. e\<lparr>se_state := AGENT_STUN_ENTRY_STATE_FAILED, se_next_transmission := 0\<rparr>) ag
      in if se_type (entry ag i) = AGENT_STUN_ENTRY_TYPE_RELAY \<or> se_type (entry ag i) = AGENT_STUN_ENTRY_TYPE_SERVER
         then agent_update_gathering_done ag
         else case se_pair (entry ag i) of None \<Rightarrow> ag
              | Some p \<Rightarrow> upd_pair p (\<lambda>p. p\<lparr>ap_state := ICE_CANDIDATE_PAIR_STATE_FAILED\<rparr>) ag)"

definition book_sent :: "int \<Rightarrow> agent_stun_entry \<Rightarrow> agent_stun_entry" where
  "book_sent now e =
     (let e = e\<lparr>se_retransmissions := se_retransmissions e - 1\<rparr>
      in if se_retransmissions e < 0 then e\<lparr>se_next_transmission := now + LAST_STUN_RETRANSMISSION_TIMEOUT\<rparr>
         else e\<lparr>se_next_transmission := now + se_retransmission_timeout e,
                se_retransmission_timeout := se_retransmission_timeout e * 2\<rparr>)"

definition book_pending :: "int \<Rightarrow> agent \<Rightarrow> nat \<Rightarrow> agent" where
  "book_pending now ag i =
     (if now < se_next_transmission (entry ag i) then ag
      else let (r, ag) = (if 0 \<le> se_retransmissions (entry ag i) then book_transmit ag i else (-1, ag))
           in if 0 \<le> r then upd_stun i (book_sent now) ag else book_fail ag i)"

definition book_keepalive :: "int \<Rightarrow> agent \<Rightarrow> nat \<Rightarrow> agent" where
  "book_keepalive now ag i =
     (let expired = (case se_pair (entry ag i) of None \<Rightarrow> False | Some p \<Rightarrow> ap_consent_expiry (pair ag p) \<le> now)
      in if expired
         then upd_stun i (\<lambda>e. e\<lparr>se_state := AGENT_STUN_ENTRY_STATE_FAILED, se_next_transmission := 0\<rparr>)
                (upd_pair (the (se_pair (entry ag i))) (\<lambda>p. p\<lparr>ap_state := ICE_CANDIDATE_PAIR_STATE_FAILED\<rparr>) ag)
         else if now < se_next_transmission (entry ag i) then ag
         else let ag = fresh_tid ag i;
                  (r, ag) = (if se_type (entry ag i) = AGENT_STUN_ENTRY_TYPE_RELAY
                             then agent_send_turn_allocate_request ag i STUN_METHOD_REFRESH
                             else agent_send_stun_binding ag i STUN_CLASS_REQUEST 0 None None)
              in if r < 0 then agent_arm_transmission ag i STUN_KEEPALIVE_PERIOD else agent_arm_keepalive ag i)"

definition book_entry :: "int \<Rightarrow> nat \<Rightarrow> agent \<Rightarrow> agent" where
  "book_entry now i ag =
     (if se_state (entry ag i) = AGENT_STUN_ENTRY_STATE_PENDING then book_pending now ag i
      else if se_state (entry ag i) = AGENT_STUN_ENTRY_STATE_SUCCEEDED_KEEPALIVE then book_keepalive now ag i
      else upd_stun i (\<lambda>e. e\<lparr>se_next_transmission := 0\<rparr>) ag)"

section \<open>Selection\<close>

text \<open>The pass over the pairs by priority: pairs still pending, the nominated pair, the selected pair.\<close>

definition freeze_pair :: "nat \<Rightarrow> agent \<Rightarrow> agent" where
  "freeze_pair p ag = upd_pair p (\<lambda>p. p\<lparr>ap_state := ICE_CANDIDATE_PAIR_STATE_FROZEN\<rparr>) ag"

definition scan_pair :: "nat \<Rightarrow> nat \<times> nat option \<times> nat option \<times> agent \<Rightarrow> nat \<times> nat option \<times> nat option \<times> agent" where
  "scan_pair p s =
     (case s of (pending_count, nominated_pair, selected_pair, ag) \<Rightarrow>
        if ap_nominated (pair ag p)
        then if nominated_pair = None then (pending_count, Some p, Some p, ag) else s
        else if ap_state (pair ag p) = ICE_CANDIDATE_PAIR_STATE_SUCCEEDED
        then if selected_pair = None then (pending_count, nominated_pair, Some p, ag) else s
        else if ap_state (pair ag p) = ICE_CANDIDATE_PAIR_STATE_PENDING
        then if ag_mode ag = AGENT_MODE_CONTROLLING \<and> selected_pair \<noteq> None
             then (pending_count, nominated_pair, selected_pair, freeze_pair p ag)
             else (pending_count + 1, nominated_pair, selected_pair, ag)
        else s)"

definition scan_pairs :: "agent \<Rightarrow> nat \<times> nat option \<times> nat option \<times> agent" where
  "scan_pairs ag =
     (case fold scan_pair (ag_ordered_pairs ag) (0, None, None, ag) of
        (pending_count, nominated_pair, selected_pair, ag) \<Rightarrow>
          if ag_mode ag = AGENT_MODE_CONTROLLING \<and> nominated_pair \<noteq> None
          then (0, nominated_pair, selected_pair,
                fold (\<lambda>p ag. if Some p \<noteq> nominated_pair \<and> ap_state (pair ag p) = ICE_CANDIDATE_PAIR_STATE_PENDING
                             then freeze_pair p ag else ag) (ag_ordered_pairs ag) ag)
          else (pending_count, nominated_pair, selected_pair, ag))"

definition cancel_frozen :: "agent \<Rightarrow> agent" where
  "cancel_frozen ag = ag\<lparr>ag_entries := map (\<lambda>e.
     if (case se_pair e of None \<Rightarrow> False | Some p \<Rightarrow> ap_state (pair ag p) = ICE_CANDIDATE_PAIR_STATE_FROZEN)
        \<and> se_state e \<noteq> AGENT_STUN_ENTRY_STATE_IDLE \<and> se_state e \<noteq> AGENT_STUN_ENTRY_STATE_CANCELLED
     then e\<lparr>se_state := AGENT_STUN_ENTRY_STATE_CANCELLED, se_next_transmission := 0\<rparr> else e) (ag_entries ag)\<rparr>"

definition agent_fail :: "agent \<Rightarrow> agent" where
  "agent_fail ag = (agent_change_state ag JUICE_STATE_FAILED)\<lparr>ag_selected_entry := None\<rparr>"

definition book_select :: "int \<Rightarrow> nat \<Rightarrow> agent \<Rightarrow> agent" where
  "book_select now s ag =
     (if ag_selected_pair ag \<noteq> Some s
      then let ag = ag\<lparr>ag_selected_pair := Some s\<rparr>;
               ag = (if ag_mode ag = AGENT_MODE_CONTROLLING then ag\<lparr>ag_nomination_timestamp := now + NOMINATION_TIMEOUT\<rparr> else ag)
           in case first_index (\<lambda>e. se_pair e = Some s) (ag_entries ag) of
                None \<Rightarrow> ag
              | Some i \<Rightarrow> ag\<lparr>ag_selected_entry := Some i\<rparr>
      else ag)"

definition enable_keepalive :: "nat option \<Rightarrow> agent \<Rightarrow> agent" where
  "enable_keepalive i ag = (case i of None \<Rightarrow> ag
     | Some i \<Rightarrow> if se_state (entry ag i) \<noteq> AGENT_STUN_ENTRY_STATE_SUCCEEDED_KEEPALIVE
                 then agent_arm_keepalive (upd_stun i (\<lambda>e. e\<lparr>se_state := AGENT_STUN_ENTRY_STATE_SUCCEEDED_KEEPALIVE\<rparr>) ag) i
                 else ag)"

definition disable_keepalives :: "nat option \<Rightarrow> nat option \<Rightarrow> agent \<Rightarrow> agent" where
  "disable_keepalives i rl ag =
     ag\<lparr>ag_entries := map (\<lambda>(k, e). if Some k \<noteq> i \<and> Some k \<noteq> rl
                                        \<and> se_state e = AGENT_STUN_ENTRY_STATE_SUCCEEDED_KEEPALIVE
                                     then e\<lparr>se_state := AGENT_STUN_ENTRY_STATE_SUCCEEDED\<rparr> else e)
                         (enumerate 0 (ag_entries ag))\<rparr>"

definition book_complete :: "nat \<Rightarrow> agent \<Rightarrow> agent" where
  "book_complete nominated_pair ag =
     (let ag = (if ag_state ag = JUICE_STATE_CONNECTING then agent_change_state ag JUICE_STATE_CONNECTED else ag);
          ag = agent_change_state ag JUICE_STATE_COMPLETED;
          i = first_index (\<lambda>e. se_pair e = Some nominated_pair) (ag_entries ag);
          rl = (case i of None \<Rightarrow> None | Some i \<Rightarrow> se_relay_entry (entry ag i));
          switch = (case i of None \<Rightarrow> False
                    | Some i \<Rightarrow> se_state (entry ag i) \<noteq> AGENT_STUN_ENTRY_STATE_SUCCEEDED_KEEPALIVE);
          ag = enable_keepalive i ag;
          ag = (if switch then ag\<lparr>ag_selected_entry := i\<rparr> else ag);
          ag = enable_keepalive rl ag
      in disable_keepalives i rl ag)"

text \<open>The state and the next time at which the agent wants to run.\<close>

definition book_nominate :: "int \<Rightarrow> nat \<Rightarrow> nat \<Rightarrow> int \<times> agent \<Rightarrow> int \<times> agent" where
  "book_nominate now pending_count s x =
     (case x of (next_timestamp, ag) \<Rightarrow>
        if ag_mode ag = AGENT_MODE_CONTROLLING \<and> \<not> ap_nomination_requested (pair ag s)
        then if pending_count = 0 \<or> (ag_nomination_timestamp ag \<noteq> 0 \<and> ag_nomination_timestamp ag \<le> now)
             then let ag = upd_pair s (\<lambda>p. p\<lparr>ap_nomination_requested := True\<rparr>) ag
                  in (next_timestamp,
                      case first_index (\<lambda>e. se_pair e = Some s) (ag_entries ag) of
                        None \<Rightarrow> ag
                      | Some i \<Rightarrow> agent_arm_transmission (upd_stun i (\<lambda>e. e\<lparr>se_state := AGENT_STUN_ENTRY_STATE_PENDING,
                                    se_transaction_id_expired := True\<rparr>) ag) i 0)
             else if ag_nomination_timestamp ag \<noteq> 0 \<and> ag_nomination_timestamp ag < next_timestamp
             then (ag_nomination_timestamp ag, ag) else x
        else x)"

text \<open>
  The end of the function. The time of a keepalive is compared with the consent of the pair of the entry,
  but the consent of the selected pair is stored, which is a null pointer access when there is none.
\<close>

definition book_next :: "nat option \<Rightarrow> agent_stun_entry \<Rightarrow> int \<times> agent \<Rightarrow> int \<times> agent" where
  "book_next selected_pair e x =
     (case x of (next_timestamp, ag) \<Rightarrow>
        let t = (if se_next_transmission e \<noteq> 0 \<and> se_next_transmission e < next_timestamp then se_next_transmission e
                 else next_timestamp)
        in if se_state e = AGENT_STUN_ENTRY_STATE_SUCCEEDED_KEEPALIVE
              \<and> (case se_pair e of None \<Rightarrow> False | Some p \<Rightarrow> ap_consent_expiry (pair ag p) < t)
           then case selected_pair of None \<Rightarrow> (t, fault MemoryFault ag) | Some s \<Rightarrow> (ap_consent_expiry (pair ag s), ag)
           else (t, ag))"

definition book_outcome :: "int \<Rightarrow> nat \<Rightarrow> nat option \<Rightarrow> nat option \<Rightarrow> agent \<Rightarrow> int \<times> agent" where
  "book_outcome now pending_count nominated_pair selected_pair ag =
     (let next_timestamp = now + 6000000
      in if (case nominated_pair of None \<Rightarrow> False | Some n \<Rightarrow> ap_state (pair ag n) = ICE_CANDIDATE_PAIR_STATE_FAILED)
         then (next_timestamp, agent_fail ag)
         else case selected_pair of
           Some s \<Rightarrow>
             let ag = book_select now s ag;
                 (next_timestamp, ag) = (case nominated_pair of
                     Some n \<Rightarrow> (next_timestamp, book_complete n ag)
                   | None \<Rightarrow> book_nominate now pending_count s (next_timestamp, agent_change_state ag JUICE_STATE_CONNECTED))
             in fold (book_next selected_pair) (ag_entries ag) (next_timestamp, ag)
         | None \<Rightarrow>
             if pending_count = 0 \<and> ag_pac_timestamp ag \<noteq> 0
             then if ag_pac_timestamp ag \<le> now then (next_timestamp, agent_fail ag)
                  else fold (book_next selected_pair) (ag_entries ag)
                         (if ag_pac_timestamp ag < next_timestamp then ag_pac_timestamp ag else next_timestamp, ag)
             else fold (book_next selected_pair) (ag_entries ag) (next_timestamp, ag))"

definition agent_bookkeeping :: "agent \<Rightarrow> int \<times> agent" where
  "agent_bookkeeping ag =
     (let (now, ag) = current_timestamp ag
      in if ag_state ag = JUICE_STATE_DISCONNECTED \<or> ag_state ag = JUICE_STATE_GATHERING then (now + 6000000, ag)
         else let ag = fold (book_entry now) [0..<length (ag_entries ag)] ag;
                  (pending_count, nominated_pair, selected_pair, ag) = scan_pairs ag
              in book_outcome now pending_count nominated_pair selected_pair (cancel_frozen ag))"

definition agent_conn_update :: "agent \<Rightarrow> int \<times> agent" where
  "agent_conn_update ag = agent_bookkeeping ag"

definition agent_conn_fail :: "agent \<Rightarrow> agent" where
  "agent_conn_fail ag = agent_fail ag"

section \<open>The interface\<close>

abbreviation (input) JUICE_ERR_SUCCESS :: int where "JUICE_ERR_SUCCESS \<equiv> 0"
abbreviation (input) JUICE_ERR_INVALID :: int where "JUICE_ERR_INVALID \<equiv> -1"
abbreviation (input) JUICE_ERR_FAILED :: int where "JUICE_ERR_FAILED \<equiv> -2"
abbreviation (input) JUICE_ERR_IGNORED :: int where "JUICE_ERR_IGNORED \<equiv> -4"

text \<open>A new agent; allocation succeeds. The configuration is the two kinds of servers and the concurrency mode.\<close>

definition agent_create :: "agent_env \<Rightarrow> bytes option \<Rightarrow> u16 \<Rightarrow> juice_turn_server list \<Rightarrow> bool \<Rightarrow> agent" where
  "agent_create env host port servers mux =
     (let ag = \<lparr>ag_state = JUICE_STATE_DISCONNECTED, ag_mode = AGENT_MODE_UNKNOWN, ag_local = description_zero,
             ag_remote = description_zero, ag_pairs = [], ag_ordered_pairs = [], ag_selected_pair = None, ag_entries = [],
             ag_selected_entry = None, ag_ice_tiebreaker = 0, ag_pac_timestamp = 0, ag_nomination_timestamp = 0,
             ag_gathering_done = False, ag_stun_server_host = host, ag_stun_server_port = port, ag_turn_servers = servers,
             ag_mux = mux, ag_conn = False, ag_out = [], ag_fault = None, ag_env = env, ag_ticks = 0, ag_rands = 0,
             ag_loops = 0, ag_sends = 0\<rparr>;
          (ufrag, ag) = juice_random 4 ag; (pwd, ag) = juice_random 22 ag; (t, ag) = juice_random 8 ag
      in ag\<lparr>ag_local := ice_create_local_description ufrag pwd, ag_ice_tiebreaker := get64 (rev t)\<rparr>)"

text \<open>The host candidates; the loop ends at the first one that finds the description full.\<close>

fun add_hosts :: "agent \<Rightarrow> addr_record list \<Rightarrow> agent" where
  "add_hosts ag [] = ag"
| "add_hosts ag (r # rs) =
     (case ice_create_local_candidate (ev_nameinfo (ag_env ag)) ICE_CANDIDATE_TYPE_HOST 1
             (int (length (id_candidates (ag_local ag)))) r of
        None \<Rightarrow> add_hosts ag rs
      | Some c \<Rightarrow>
          if MAX_HOST_CANDIDATES_COUNT \<le> length (id_candidates (ag_local ag)) then ag
          else case ice_add_candidate c (ag_local ag) of
                 None \<Rightarrow> add_hosts ag rs
               | Some (c, d) \<Rightarrow> add_hosts (ag\<lparr>ag_local := d\<rparr>) rs)"

definition emit_host :: "ice_candidate \<Rightarrow> agent \<Rightarrow> agent" where
  "emit_host c ag =
     (if ic_type c \<noteq> ICE_CANDIDATE_TYPE_HOST then ag
      else case ice_generate_candidate_sdp c AGENT_BUFFER_SIZE of None \<Rightarrow> ag | Some (_, buffer) \<Rightarrow> emit (Candidate buffer) ag)"

text \<open>
  \<open>conn_ok\<close> is the success of \<open>conn_create\<close>, \<open>records\<close> what \<open>conn_get_addrs\<close> returns, if it succeeds. The resolution
  of the servers, which the code runs next or in a thread, are the operations below.
\<close>

definition agent_gather_candidates :: "agent \<Rightarrow> bool \<Rightarrow> addr_record list option \<Rightarrow> int \<times> agent" where
  "agent_gather_candidates ag conn_ok records =
     (if ag_conn ag then (0, ag)
      else let ag = (if ag_mode ag = AGENT_MODE_UNKNOWN then ag\<lparr>ag_mode := AGENT_MODE_CONTROLLING\<rparr> else ag);
               ag = agent_change_state ag JUICE_STATE_GATHERING
           in if \<not> conn_ok then (-1, ag)
              else let ag = ag\<lparr>ag_conn := True\<rparr>;
                       rs = (case records of None \<Rightarrow> [] | Some rs \<Rightarrow> take (ICE_MAX_CANDIDATES_COUNT - 1) rs);
                       ag = add_hosts ag rs;
                       ag = ag\<lparr>ag_local := ice_sort_candidates (ag_local ag)\<rparr>;
                       ag = fold (\<lambda>i ag. agent_translate_host_candidate_entry ag i) [0..<length (ag_entries ag)] ag;
                       ag = fold emit_host (id_candidates (ag_local ag)) ag
                   in (0, agent_change_state ag JUICE_STATE_CONNECTING))"

definition pick_turn_record :: "addr_record list \<Rightarrow> addr_record option" where
  "pick_turn_record rs = (case find (\<lambda>r. sa_family (ar_addr r) = AF_INET) rs of
     Some r \<Rightarrow> Some r | None \<Rightarrow> find (\<lambda>r. sa_family (ar_addr r) = AF_INET6) rs)"

definition resolve_records :: "agent \<Rightarrow> bytes \<Rightarrow> u16 \<Rightarrow> nat \<Rightarrow> addr_record list" where
  "resolve_records ag host port n =
     (case addr_resolve (ev_gai (ag_env ag)) (snprintf_str 256 host) (snprintf_str 8 (print_u (unat port))) n of
        Inl _ \<Rightarrow> [] | Inr (_, rs) \<Rightarrow> rs)"

text \<open>TURN server \<open>k\<close> of the configuration, with the number of relay entries so far; allocation succeeds.\<close>

definition resolve_turn_server :: "nat \<Rightarrow> nat \<times> agent \<Rightarrow> nat \<times> agent" where
  "resolve_turn_server k x =
     (case x of (cnt, ag) \<Rightarrow>
        let s = ag_turn_servers ag ! k
        in if MAX_RELAY_ENTRIES_COUNT \<le> cnt then x
           else case jt_host s of
             None \<Rightarrow> x
           | Some host \<Rightarrow>
               let port = (if jt_port s = 0 then 3478 else jt_port s);
                   ag = ag\<lparr>ag_turn_servers := (ag_turn_servers ag)[k := s\<lparr>jt_port := port\<rparr>]\<rparr>
               in case pick_turn_record (resolve_records ag host port DEFAULT_MAX_RECORDS_COUNT) of
                    None \<Rightarrow> (cnt, ag)
                  | Some r \<Rightarrow>
                      if list_ex (\<lambda>e. se_type e = AGENT_STUN_ENTRY_TYPE_RELAY \<and> addr_record_is_equal (se_record e) r True) (ag_entries ag)
                      then (cnt, ag)
                      else let (tid, ag) = juice_random 12 ag; i = length (ag_entries ag);
                               ag = register_entry (entry_zero\<lparr>se_type := AGENT_STUN_ENTRY_TYPE_RELAY,
                                      se_state := AGENT_STUN_ENTRY_STATE_PENDING, se_pair := None, se_record := r,
                                      se_turn_redirections := 0,
                                      se_turn := Some \<lparr>ts_map = the (turn_init_map True AGENT_TURN_MAP_SIZE),
                                        ts_credentials = credentials_zero\<lparr>cr_username := snprintf_str STUN_MAX_USERNAME_LEN (jt_username s)\<rparr>,
                                        ts_password = jt_password s\<rparr>,
                                      se_transaction_id := tid, se_transaction_id_expired := False\<rparr>) ag
                           in (cnt + 1, agent_arm_transmission ag i (STUN_PACING_TIME * int k)))"

definition register_server :: "nat \<Rightarrow> addr_record \<Rightarrow> agent \<Rightarrow> agent" where
  "register_server k r ag =
     (let (tid, ag) = juice_random 12 ag; i = length (ag_entries ag);
          ag = register_entry (entry_zero\<lparr>se_type := AGENT_STUN_ENTRY_TYPE_SERVER,
                 se_state := AGENT_STUN_ENTRY_STATE_PENDING, se_pair := None, se_record := r, se_transaction_id := tid,
                 se_transaction_id_expired := False\<rparr>) ag
      in agent_arm_transmission ag i (STUN_PACING_TIME * int k))"

definition resolve_stun_server :: "agent \<Rightarrow> agent" where
  "resolve_stun_server ag =
     (case ag_stun_server_host ag of
        None \<Rightarrow> ag
      | Some host \<Rightarrow>
          let port = (if ag_stun_server_port ag = 0 then 3478 else ag_stun_server_port ag);
              ag = ag\<lparr>ag_stun_server_port := port\<rparr>
          in fold (\<lambda>(k, r). register_server k r)
               (enumerate 0 (take MAX_SERVER_ENTRIES_COUNT (resolve_records ag host port MAX_SERVER_ENTRIES_COUNT))) ag)"

definition agent_resolve_servers :: "agent \<Rightarrow> int \<times> agent" where
  "agent_resolve_servers ag =
     (let ag = (if ag_mux ag then ag
                else snd (fold resolve_turn_server [0..<length (ag_turn_servers ag)] (0, ag)));
          ag = resolve_stun_server ag
      in (0, agent_update_gathering_done ag))"

text \<open>The number of characters \<open>ice_generate_sdp\<close> reports is not looked at: text that is cut off counts as success.\<close>

definition agent_get_local_description :: "agent \<Rightarrow> nat \<Rightarrow> int \<times> bytes option \<times> agent" where
  "agent_get_local_description ag sz =
     (case ice_generate_sdp (ag_local ag) sz of
        None \<Rightarrow> (-1, None, ag)
      | Some (_, buffer) \<Rightarrow>
          (0, Some buffer, if ag_mode ag = AGENT_MODE_UNKNOWN then ag\<lparr>ag_mode := AGENT_MODE_CONTROLLING\<rparr> else ag))"

definition agent_set_remote_description :: "agent \<Rightarrow> bytes \<Rightarrow> int \<times> agent" where
  "agent_set_remote_description ag sdp =
     (case ice_parse_sdp (ev_resolver (ag_env ag)) sdp of
        (Some _, _) \<Rightarrow> (JUICE_ERR_INVALID, ag)
      | (None, remote) \<Rightarrow>
          if id_ice_ufrag (ag_remote ag) \<noteq> []
          then if id_ice_ufrag (ag_remote ag) = id_ice_ufrag remote \<and> id_ice_pwd (ag_remote ag) = id_ice_pwd remote
               then (JUICE_ERR_SUCCESS, ag) else (JUICE_ERR_FAILED, ag)
          else let ag = agent_update_pac_timer (ag\<lparr>ag_remote := remote\<rparr>);
                   ag = (if id_ice_lite remote \<and> ag_mode ag \<noteq> AGENT_MODE_CONTROLLING
                         then ag\<lparr>ag_mode := AGENT_MODE_CONTROLLING\<rparr>
                         else if ag_mode ag = AGENT_MODE_UNKNOWN then ag\<lparr>ag_mode := AGENT_MODE_CONTROLLED\<rparr> else ag);
                   ag = fold (\<lambda>p ag. snd (agent_unfreeze_candidate_pair ag p)) [0..<length (ag_pairs ag)] ag;
                   ag = fold (\<lambda>k ag. snd (agent_add_candidate_pairs_for_remote ag k)) [0..<length (id_candidates remote)] ag
               in (JUICE_ERR_SUCCESS, ag))"

definition agent_add_remote_candidate :: "agent \<Rightarrow> bytes \<Rightarrow> int \<times> agent" where
  "agent_add_remote_candidate ag sdp =
     (if id_finished (ag_remote ag) then (JUICE_ERR_FAILED, ag)
      else case ice_parse_candidate_sdp (ev_resolver (ag_env ag)) sdp of
        Inl ICE_PARSE_IGNORED \<Rightarrow> (JUICE_ERR_IGNORED, ag)
      | Inl _ \<Rightarrow> (JUICE_ERR_INVALID, ag)
      | Inr c \<Rightarrow>
          (case ice_add_candidate c (ag_remote ag) of
             None \<Rightarrow> (JUICE_ERR_FAILED, ag)
           | Some (_, d) \<Rightarrow>
               let (r, ag) = agent_add_candidate_pairs_for_remote (ag\<lparr>ag_remote := d\<rparr>) (length (id_candidates d) - 1)
               in (if r \<noteq> 0 then JUICE_ERR_FAILED else JUICE_ERR_SUCCESS, ag)))"

definition agent_set_local_ice_attributes :: "agent \<Rightarrow> bytes \<Rightarrow> bytes \<Rightarrow> int \<times> agent" where
  "agent_set_local_ice_attributes ag ufrag pwd =
     (if ag_conn ag then (JUICE_ERR_FAILED, ag)
      else if length ufrag < 4 \<or> length pwd < 22 \<or> \<not> ice_is_valid_string (Some ufrag) \<or> \<not> ice_is_valid_string (Some pwd)
      then (JUICE_ERR_INVALID, ag)
      else (JUICE_ERR_SUCCESS, ag\<lparr>ag_local := (ag_local ag)\<lparr>id_ice_ufrag := snprintf_str 257 ufrag,
              id_ice_pwd := snprintf_str 257 pwd\<rparr>\<rparr>))"

definition agent_add_turn_server :: "agent \<Rightarrow> juice_turn_server \<Rightarrow> int \<times> agent" where
  "agent_add_turn_server ag s =
     (if ag_conn ag then (-1, ag) else (0, ag\<lparr>ag_turn_servers := ag_turn_servers ag @ [s]\<rparr>))"

definition agent_set_remote_gathering_done :: "agent \<Rightarrow> agent" where
  "agent_set_remote_gathering_done ag = ag\<lparr>ag_remote := (ag_remote ag)\<lparr>id_finished := True\<rparr>\<rparr>"

definition agent_get_selected_candidate_pair :: "agent \<Rightarrow> (ice_candidate \<times> ice_candidate) option" where
  "agent_get_selected_candidate_pair ag =
     (case ag_selected_pair ag of
        None \<Rightarrow> None
      | Some s \<Rightarrow>
          Some (case ap_local (pair ag s) of None \<Rightarrow> candidate_at (ag_local ag) 0 | Some l \<Rightarrow> candidate_at (ag_local ag) l,
                candidate_at (ag_remote ag) (ap_remote (pair ag s))))"

end
