(* ===== verification/Agent_Timers.thy ===== *)
theory Agent_Timers
  imports Agent_Book Array_Sort
begin

text \<open>
  The order of the candidate pairs, the pacing of transmissions and the schedule of retransmissions.
\<close>

section \<open>Ordered pairs\<close>

interpretation pair_order: shifting "order_shift ps" "\<lambda>i. ap_priority (ps ! i)" for ps
  by unfold_locales auto

lemma order_loop_place:
  "order_loop ps (xs @ junk) [length xs..<length xs + length junk] =
     rev (fold (place (\<lambda>i. ap_priority (ps ! i))) [length xs..<length xs + length junk] (rev xs))"
proof (induction junk arbitrary: xs)
  case (Cons h junk)
  let ?key = "\<lambda>i. ap_priority (ps ! i)" and ?i = "length xs"
  obtain a n where s: "order_shift ps (xs @ h # junk) (?key ?i) (length xs) = (a, n)" by fastforce
  have upt: "[?i..<?i + length (h # junk)] = ?i # [Suc ?i..<Suc ?i + length junk]"
    by (simp add: upt_rec)
  let ?xs = "rev (place ?key ?i (rev xs))"
  have "order_loop ps (xs @ h # junk) [?i..<?i + length (h # junk)] = order_loop ps (?xs @ junk) [length ?xs..<length ?xs + length junk]"
    using s pair_order.round_place(1) [OF s] unfolding upt by simp
  then show ?case using Cons.IH [of ?xs] unfolding upt by simp
qed simp

lemma update_ordered_pairs:
  "agent_update_ordered_pairs ag =
     ag\<lparr>ag_ordered_pairs := rev (fold (place (\<lambda>p. ap_priority (pair ag p))) [0..<length (ag_pairs ag)] [])\<rparr>"
proof -
  let ?n = "length (ag_pairs ag)"
  have "order_loop (ag_pairs ag) J [0..<length J] = rev (fold (place (\<lambda>p. ap_priority (pair ag p))) [0..<length J] [])" for J
    using order_loop_place [of "ag_pairs ag" "[]" J] by simp
  from this [of "take ?n (ag_ordered_pairs ag @ replicate ?n 0)"] show ?thesis
    unfolding agent_update_ordered_pairs_def Let_def
    by (simp only: length_take length_append length_replicate min_absorb2 le_add2)
qed

lemma order_pairs:
  "mset (ag_ordered_pairs (agent_update_ordered_pairs ag)) = mset [0..<length (ag_pairs ag)]"
  "sorted (rev (map (\<lambda>p. ap_priority (pair ag p)) (ag_ordered_pairs (agent_update_ordered_pairs ag))))"
  "filter (\<lambda>p. ap_priority (pair ag p) = k) (ag_ordered_pairs (agent_update_ordered_pairs ag)) =
     filter (\<lambda>p. ap_priority (pair ag p) = k) [0..<length (ag_pairs ag)]"
  by (simp_all add: update_ordered_pairs fold_place rev_map [symmetric] rev_filter [symmetric] del: mset_upt)

text \<open>After \<open>agent_update_ordered_pairs\<close> the array of pointers lists every candidate pair once, by descending
  priority, with pairs of equal priority in the order they were added, whatever the array held before; nothing
  else changes.\<close>

theorem agent_update_ordered_pairs_correct:
  "sorted (rev (map (\<lambda>p. ap_priority (pair ag p)) (ag_ordered_pairs (agent_update_ordered_pairs ag))))
    \<and> mset (ag_ordered_pairs (agent_update_ordered_pairs ag)) = mset [0..<length (ag_pairs ag)]
    \<and> filter (\<lambda>p. ap_priority (pair ag p) = k) (ag_ordered_pairs (agent_update_ordered_pairs ag)) = filter (\<lambda>p. ap_priority (pair ag p) = k) [0..<length (ag_pairs ag)]
    \<and> agent_update_ordered_pairs ag = ag\<lparr>ag_ordered_pairs := ag_ordered_pairs (agent_update_ordered_pairs ag)\<rparr>"
  using order_pairs [of ag] by (simp add: update_ordered_pairs)

section \<open>A sample agent\<close>

text \<open>An environment in which the clock stands at 120, random bytes are zero and datagrams are sent without error.\<close>

definition sample_env :: agent_env where
  "sample_env = \<lparr>ev_clock = (\<lambda>_. 120), ev_rand = (\<lambda>_. []), ev_draws = (\<lambda>_. []), ev_send = (\<lambda>_. 0), ev_stack = [], ev_junk = [0, 0],
     ev_nameinfo = (\<lambda>_ _. Some ([], [])), ev_resolver = (\<lambda>_ _ _. None), ev_gai = (\<lambda>_ _. None)\<rparr>"

definition sample_agent :: agent where
  "sample_agent = (agent_create sample_env None 0 [] False)\<lparr>ag_entries :=
     [entry_zero\<lparr>se_type := AGENT_STUN_ENTRY_TYPE_SERVER, se_next_transmission := 100\<rparr>,
      entry_zero\<lparr>se_type := AGENT_STUN_ENTRY_TYPE_CHECK\<rparr>]\<rparr>"

lemma sample_simps:
  "ag_entries sample_agent = [entry_zero\<lparr>se_type := AGENT_STUN_ENTRY_TYPE_SERVER, se_next_transmission := 100\<rparr>,
      entry_zero\<lparr>se_type := AGENT_STUN_ENTRY_TYPE_CHECK\<rparr>]"
  "fst (current_timestamp sample_agent) = 120" "ag_fault sample_agent = None"
  by (simp_all add: sample_agent_def agent_create_def Let_def split_def juice_random_def current_timestamp_def sample_env_def)

section \<open>Pacing\<close>

lemma slot_taken_iff:
  assumes "lo \<le> t" "t \<le> hi" "lo \<le> se_next_transmission (es ! k)" "se_next_transmission (es ! k) \<le> hi" "hi - lo < 2 ^ 31"
  shows "slot_taken es i k t \<longleftrightarrow> k \<noteq> i \<and> se_next_transmission (es ! k) \<noteq> 0 \<and> \<bar>t - se_next_transmission (es ! k)\<bar> < 50"
proof -
  have "sint (word_of_int d :: 32 word) = d" if "- (2 ^ 31) \<le> d" "d < 2 ^ 31" for d
    using that by (simp add: int_word_sint)
  with assms show ?thesis by (simp add: slot_taken_def del: of_int_diff)
qed

text \<open>The entries whose slots can still push a transmission at \<open>t\<close> back.\<close>

definition later :: "agent_stun_entry list \<Rightarrow> nat \<Rightarrow> int \<Rightarrow> nat set" where
  "later es i t = {k. k < length es \<and> k \<noteq> i \<and> t < se_next_transmission (es ! k) + 50}"

lemma finite_later [simp]: "finite (later es i t)"
  by (simp add: later_def)

lemma find_slot_returns:
  assumes "\<And>k. k < length es \<Longrightarrow> k \<noteq> i \<Longrightarrow> se_next_transmission (es ! k) \<noteq> 0 \<Longrightarrow>
      lo \<le> se_next_transmission (es ! k) \<and> se_next_transmission (es ! k) + 50 \<le> hi"
    and "hi - lo < 2 ^ 31"
    and "lo \<le> t" "t \<le> hi" "k \<le> length es"
    and "\<And>j. j < k \<Longrightarrow> \<not> slot_taken es i j t"
  shows "\<exists>t'. find_slot es i k t = Some t' \<and> t \<le> t' \<and> t' \<le> hi \<and> t' \<le> t + 99 * int (card (later es i t))
    \<and> (\<forall>j < length es. \<not> slot_taken es i j t')"
  using assms(3-)
proof (induction "card (later es i t) * Suc (length es) + (length es - k)" arbitrary: k t rule: less_induct)
  case less
  note win = assms(1,2)
  show ?case
  proof (cases "k = length es")
    case True
    then show ?thesis using less.prems by (auto simp: find_slot.simps)
  next
    case False
    let ?n = "se_next_transmission (es ! k)"
    show ?thesis
    proof (cases "slot_taken es i k t")
      case True
      then have ki: "k \<noteq> i" "?n \<noteq> 0" by (auto simp: slot_taken_def)
      with win(1) [of k] False less.prems(3) have n: "lo \<le> ?n" "?n + 50 \<le> hi" by auto
      with True slot_taken_iff [of lo t hi es k i] less.prems win(2) have d: "\<bar>t - ?n\<bar> < 50" by auto
      have "k \<in> later es i t" "k \<notin> later es i (?n + 50)" "later es i (?n + 50) \<subseteq> later es i t"
        using ki d False less.prems(3) by (auto simp: later_def)
      then have card: "card (later es i (?n + 50)) < card (later es i t)"
        by (intro psubset_card_mono) auto
      then have "card (later es i (?n + 50)) * Suc (length es) + Suc (length es) \<le> card (later es i t) * Suc (length es)"
        by (metis Suc_leI add.commute mult_Suc mult_le_mono1)
      with less.hyps [of "?n + 50" 0] n obtain t' where "find_slot es i 0 (?n + 50) = Some t'"
        "?n + 50 \<le> t'" "t' \<le> hi" "t' \<le> ?n + 50 + 99 * int (card (later es i (?n + 50)))" "\<forall>j < length es. \<not> slot_taken es i j t'"
        by auto
      with True False d card show ?thesis by (subst find_slot.simps) auto
    next
      case free: False
      have "\<not> slot_taken es i j t" if "j < k + 1" for j
        using less.prems(4) [of j] free that by (cases "j = k") auto
      moreover have "length es - (k + 1) < length es - k" using False less.prems(3) by simp
      ultimately show ?thesis
        using less.hyps [of t "k + 1"] False free less.prems(1-3) by (subst find_slot.simps) (simp add: Suc_le_eq)
    qed
  qed
qed

text \<open>C33: Arming a transmission ends and keeps the pace: the search for a time slot returns, the transmission is not
  earlier than asked for and at most 99 ms per entry later, and it is at least 50 ms away from every other
  armed entry; the other entries do not change. The times are within 2^29 ms (six days) of each other.\<close>

theorem agent_arm_transmission_paced:
  assumes "i < length (ag_entries ag)"
    and "\<forall>e \<in> set (ag_entries ag). se_next_transmission e \<noteq> 0 \<longrightarrow>
      \<bar>se_next_transmission e - (fst (current_timestamp ag) + delay)\<bar> < 2 ^ 29"
  shows "ag_fault (agent_arm_transmission ag i delay) = ag_fault ag
    \<and> fst (current_timestamp ag) + delay \<le> se_next_transmission (entry (agent_arm_transmission ag i delay) i)
    \<and> se_next_transmission (entry (agent_arm_transmission ag i delay) i)
        \<le> fst (current_timestamp ag) + delay + 99 * int (length (ag_entries ag))
    \<and> (\<forall>j < length (ag_entries ag). j \<noteq> i \<longrightarrow> entry (agent_arm_transmission ag i delay) j = entry ag j
        \<and> (se_next_transmission (entry ag j) \<noteq> 0 \<longrightarrow>
             50 \<le> \<bar>se_next_transmission (entry (agent_arm_transmission ag i delay) i) - se_next_transmission (entry ag j)\<bar>))"
proof -
  let ?es = "ag_entries ag" and ?T = "fst (current_timestamp ag) + delay"
  let ?lo = "?T - 2 ^ 29" and ?hi = "?T + 2 ^ 29 + 50"
  have win: "?lo \<le> se_next_transmission (?es ! k) \<and> se_next_transmission (?es ! k) + 50 \<le> ?hi"
    if "k < length ?es" "se_next_transmission (?es ! k) \<noteq> 0" for k
    using assms(2) that nth_mem [OF that(1)] by fastforce
  have "card (later ?es i ?T) \<le> card {..<length ?es}"
    by (rule card_mono) (auto simp: later_def)
  then have card: "card (later ?es i ?T) \<le> length ?es" by simp
  obtain t where t: "find_slot ?es i 0 ?T = Some t" "?T \<le> t" "t \<le> ?hi" "t \<le> ?T + 99 * int (card (later ?es i ?T))"
    "\<forall>j < length ?es. \<not> slot_taken ?es i j t"
    using find_slot_returns [of ?es i ?lo ?hi ?T 0] win by auto
  have far: "50 \<le> \<bar>t - se_next_transmission (?es ! j)\<bar>" if "j < length ?es" "j \<noteq> i" "se_next_transmission (?es ! j) \<noteq> 0" for j
    using t(5) slot_taken_iff [of ?lo t ?hi ?es j i] win [OF that(1,3)] t(2,3) that by auto
  from t(1) have arm: "agent_arm_transmission ag i delay =
      upd_stun i (\<lambda>_. entry (agent_arm_transmission ag i delay) i) (snd (current_timestamp ag))"
    "se_next_transmission (entry (agent_arm_transmission ag i delay) i) = t"
    using assms(1) by (simp_all add: agent_arm_transmission_def Let_def upd_stun_def current_timestamp_def)
  have "entry (agent_arm_transmission ag i delay) j = entry ag j" if "j \<noteq> i" for j
    using that by (subst arm(1)) (simp add: upd_stun_def current_timestamp_def)
  moreover have "ag_fault (agent_arm_transmission ag i delay) = ag_fault ag"
    by (subst arm(1)) (simp add: upd_stun_def current_timestamp_def)
  ultimately show ?thesis using t(2,4) card far arm(2) by auto
qed

theorem agent_arm_transmission_paced_witness:
  "120 \<le> se_next_transmission (entry (agent_arm_transmission sample_agent 1 0) 1)
   \<and> 50 \<le> \<bar>se_next_transmission (entry (agent_arm_transmission sample_agent 1 0) 1) - 100\<bar>"
proof -
  have "\<forall>e \<in> set (ag_entries sample_agent). se_next_transmission e \<noteq> 0 \<longrightarrow>
      \<bar>se_next_transmission e - (fst (current_timestamp sample_agent) + 0)\<bar> < 2 ^ 29"
    by (simp add: sample_simps entry_zero_def)
  from agent_arm_transmission_paced [OF _ this, of 1] show ?thesis
    by (auto simp: sample_simps entry_zero_def All_less_Suc)
qed

section \<open>Retransmissions\<close>

text \<open>The entry after \<open>n\<close> transmissions, each when it is due.\<close>

definition transmitted :: "nat \<Rightarrow> agent_stun_entry \<Rightarrow> agent_stun_entry" where
  "transmitted n = (\<lambda>e. book_sent (se_next_transmission e) e) ^^ n"

lemma transmitted_Suc: "transmitted (Suc n) e = book_sent (se_next_transmission (transmitted n e)) (transmitted n e)"
  by (simp add: transmitted_def)

lemma book_sent_frame [simp]: "se_state (book_sent now e) = se_state e" "se_type (book_sent now e) = se_type e"
  by (simp_all add: book_sent_def Let_def)

lemma transmitted_frame [simp]: "se_state (transmitted n e) = se_state e" "se_type (transmitted n e) = se_type e"
  by (induction n) (simp_all add: transmitted_Suc, simp_all add: transmitted_def)

lemma transmitted_backoff:
  assumes "se_retransmissions e = int R" "se_retransmission_timeout e = 500" "n \<le> R"
  shows "se_next_transmission (transmitted n e) = se_next_transmission e + 500 * (2 ^ n - 1)"
    "se_retransmission_timeout (transmitted n e) = 500 * 2 ^ n" "se_retransmissions (transmitted n e) = int (R - n)"
  using assms(3)
proof (induction n)
  case 0
  { case 1 then show ?case by (simp add: transmitted_def) }
  { case 2 then show ?case by (simp add: transmitted_def assms) }
  { case 3 then show ?case by (simp add: transmitted_def assms) }
next
  case (Suc n)
  { case 1 with Suc show ?case by (simp add: transmitted_Suc book_sent_def Let_def) }
  { case 2 with Suc show ?case by (simp add: transmitted_Suc book_sent_def Let_def) }
  { case 3 with Suc show ?case by (simp add: transmitted_Suc book_sent_def Let_def) }
qed

lemma transmitted_last:
  assumes "se_retransmissions e = int R" "se_retransmission_timeout e = 500"
  shows "se_next_transmission (transmitted (Suc R) e) = se_next_transmission e + 500 * (2 ^ R - 1) + 8000
    \<and> se_retransmissions (transmitted (Suc R) e) = -1"
  using transmitted_backoff [OF assms, of R] by (simp add: transmitted_Suc book_sent_def Let_def)

text \<open>An armed request is sent again after 500 ms, 1000 ms, 2000 ms and so on, six times for a connectivity check
  and five times for a server. 39500 ms after it was armed for (23500 ms for a server), which is the
  timeout \<open>ICE_PAC_TIMEOUT\<close> that the agent waits for connectivity, the next round gives the entry up.\<close>

theorem agent_retransmission_schedule:
  assumes "i < length (ag_entries ag)" "se_state (entry ag i) \<noteq> AGENT_STUN_ENTRY_STATE_SUCCEEDED_KEEPALIVE"
    and "find_slot (ag_entries ag) i 0 (fst (current_timestamp ag) + delay) = Some T"
    and "e = entry (agent_arm_transmission ag i delay) i"
    and "R = (if se_type (entry ag i) = AGENT_STUN_ENTRY_TYPE_CHECK then 6 else 5)"
  shows "(\<forall>n \<le> R. se_next_transmission (transmitted n e) = T + 500 * (2 ^ n - 1) \<and> 0 \<le> se_retransmissions (transmitted n e))
    \<and> se_next_transmission (transmitted (R + 1) e) = T + (if se_type (entry ag i) = AGENT_STUN_ENTRY_TYPE_CHECK then 39500 else 23500)
    \<and> (\<forall>ag' now. entry ag' i = transmitted (R + 1) e \<longrightarrow> se_next_transmission (transmitted (R + 1) e) \<le> now \<longrightarrow>
         book_entry now i ag' = book_fail ag' i)"
proof -
  have e: "se_retransmissions e = int R" "se_retransmission_timeout e = 500" "se_next_transmission e = T"
    "se_state e = AGENT_STUN_ENTRY_STATE_PENDING"
    using assms by (simp_all add: agent_arm_transmission_def Let_def current_timestamp_def upd_stun_def)
  have "\<forall>n \<le> R. se_next_transmission (transmitted n e) = T + 500 * (2 ^ n - 1) \<and> 0 \<le> se_retransmissions (transmitted n e)"
    using transmitted_backoff [OF e(1,2)] e(3) by auto
  moreover have "se_next_transmission (transmitted (R + 1) e) = T + (if se_type (entry ag i) = AGENT_STUN_ENTRY_TYPE_CHECK then 39500 else 23500)"
    using transmitted_last [OF e(1,2)] e(3) assms(5) by (simp split: if_splits)
  moreover have "book_entry now i ag' = book_fail ag' i"
    if "entry ag' i = transmitted (R + 1) e" "se_next_transmission (transmitted (R + 1) e) \<le> now" for ag' now
    using that transmitted_last [OF e(1,2)] e(4) by (simp add: book_entry_def book_pending_def)
  ultimately show ?thesis by blast
qed

theorem agent_retransmission_schedule_witness:
  "se_next_transmission (transmitted 7 (entry (agent_arm_transmission sample_agent 1 0) 1)) = 150 + 39500"
proof -
  have "find_slot (ag_entries sample_agent) 1 0 (fst (current_timestamp sample_agent) + 0) = Some 150"
    by (simp add: sample_simps entry_zero_def slot_taken_def int_word_sint
        find_slot.simps [of _ _ 0] find_slot.simps [of _ _ "Suc 0"] find_slot.simps [of _ _ "Suc (Suc 0)"])
  from agent_retransmission_schedule [OF _ _ this refl refl] show ?thesis
    by (simp add: sample_simps entry_zero_def)
qed

end
