(* ===== verification/Agent_States.thy ===== *)
theory Agent_States
  imports Agent_Timers
begin

text \<open>
  The state machine of the agent. \<open>calm\<close> relates two states of the agent when going from one to the other
  reports no change of the connection state, keeps the table of pairs in order and takes no
  nomination back; every operation but gathering, bookkeeping and the failure of the connection is
  calm. The rules are in the collection \<open>calm\<close>, in the form in which the simplifier chains them along the
  operations of a handler.
\<close>

named_theorems calm

section \<open>Calm operations\<close>

definition notified :: "agent \<Rightarrow> juice_state list" where
  "notified ag = List.map_filter (\<lambda>ev. case ev of StateChanged s \<Rightarrow> Some s | _ \<Rightarrow> None) (ag_out ag)"

definition pairs_inv :: "agent \<Rightarrow> bool" where
  "pairs_inv ag \<longleftrightarrow> length (ag_pairs ag) \<le> MAX_CANDIDATE_PAIRS_COUNT
     \<and> mset (ag_ordered_pairs ag) = mset [0..<length (ag_pairs ag)]
     \<and> sorted (rev (map (\<lambda>p. ap_priority (pair ag p)) (ag_ordered_pairs ag)))"

definition calm :: "agent \<Rightarrow> agent \<Rightarrow> bool" where
  "calm a b \<longleftrightarrow> ag_state b = ag_state a \<and> notified b = notified a \<and> ag_conn b = ag_conn a
     \<and> ag_selected_entry b = ag_selected_entry a \<and> (pairs_inv a \<longrightarrow> pairs_inv b)
     \<and> length (ag_pairs a) \<le> length (ag_pairs b)
     \<and> (\<forall>p < length (ag_pairs a). ap_nominated (pair a p) \<longrightarrow> ap_nominated (pair b p))"

lemma calm_refl [simp]: "calm a a"
  by (simp add: calm_def)

lemma calm_trans: "calm a b \<Longrightarrow> calm b c \<Longrightarrow> calm a c"
  by (auto simp: calm_def)

text \<open>What \<open>calm\<close> does not look at.\<close>

lemma calm_update [simp]:
  "calm a (b\<lparr>ag_mode := x1\<rparr>) = calm a b"
  "calm a (b\<lparr>ag_local := x2\<rparr>) = calm a b"
  "calm a (b\<lparr>ag_remote := x3\<rparr>) = calm a b"
  "calm a (b\<lparr>ag_selected_pair := x4\<rparr>) = calm a b"
  "calm a (b\<lparr>ag_entries := x5\<rparr>) = calm a b"
  "calm a (b\<lparr>ag_ice_tiebreaker := x6\<rparr>) = calm a b"
  "calm a (b\<lparr>ag_pac_timestamp := x7\<rparr>) = calm a b"
  "calm a (b\<lparr>ag_nomination_timestamp := x8\<rparr>) = calm a b"
  "calm a (b\<lparr>ag_gathering_done := x9\<rparr>) = calm a b"
  "calm a (b\<lparr>ag_stun_server_port := x10\<rparr>) = calm a b"
  "calm a (b\<lparr>ag_turn_servers := x11\<rparr>) = calm a b"
  "calm a (b\<lparr>ag_fault := x12\<rparr>) = calm a b"
  "calm a (b\<lparr>ag_ticks := x13\<rparr>) = calm a b"
  "calm a (b\<lparr>ag_rands := x14\<rparr>) = calm a b"
  "calm a (b\<lparr>ag_loops := x15\<rparr>) = calm a b"
  "calm a (b\<lparr>ag_sends := x16\<rparr>) = calm a b"
  by (simp_all add: calm_def notified_def pairs_inv_def)

lemma calm_upd_stun [calm]: "calm a b \<Longrightarrow> calm a (upd_stun i f b)"
  by (simp add: upd_stun_def)

lemma calm_fault [calm]: "calm a b \<Longrightarrow> calm a (fault f b)"
  by (simp add: fault_def)

lemma calm_emit [calm]: "calm a b \<Longrightarrow> (\<And>s. ev \<noteq> StateChanged s) \<Longrightarrow> calm a (emit ev b)"
  by (cases ev) (auto simp: calm_def emit_def notified_def pairs_inv_def map_filter_def)

lemma calm_upd_pair [calm]:
  assumes "calm a b" "\<And>q. ap_priority (f q) = ap_priority q" "\<And>q. ap_nominated q \<Longrightarrow> ap_nominated (f q)"
  shows "calm a (upd_pair p f b)"
proof -
  have "ap_priority ((ag_pairs b)[p := f (pair b p)] ! q) = ap_priority (pair b q)" for q
    using assms(2) by (cases "p < length (ag_pairs b)") (auto simp: nth_list_update list_update_beyond not_less)
  moreover have "ap_nominated (pair b q) \<Longrightarrow> ap_nominated ((ag_pairs b)[p := f (pair b p)] ! q)" for q
    using assms(3) by (cases "p < length (ag_pairs b)") (auto simp: nth_list_update list_update_beyond not_less)
  ultimately show ?thesis
    using assms(1) by (auto simp: calm_def upd_pair_def notified_def pairs_inv_def)
qed

lemmas calm_splits = if_split prod.split option.split sum.split cerr.split

section \<open>The operations\<close>

lemma calm_environment [calm]:
  assumes "calm a b"
  shows "calm a (snd (current_timestamp b))" "calm a (snd (juice_random n b))" "calm a (snd (juice_rand32 b))"
    "calm a (snd (random_draws b))" "calm a (snd (agent_direct_send b dst data ds))"
    "calm a (snd (snd (agent_stun_size b msg password)))" "calm a (snd (agent_stun_write b msg password))"
  using assms by (simp_all add: current_timestamp_def juice_random_def juice_rand32_def random_draws_def agent_direct_send_def
      agent_stun_size_def agent_stun_write_def Let_def split_def calm split: calm_splits)

lemma calm_arm_transmission [calm]: "calm a b \<Longrightarrow> calm a (agent_arm_transmission b i delay)"
  by (simp add: agent_arm_transmission_def Let_def split_def calm split: option.split)

lemma calm_arm_keepalive [calm]: "calm a b \<Longrightarrow> calm a (agent_arm_keepalive b i)"
  by (simp add: agent_arm_keepalive_def Let_def split_def calm split: agent_stun_entry_type.split)

lemma calm_timers [calm]:
  assumes "calm a b"
  shows "calm a (agent_update_pac_timer b)" "calm a (agent_update_gathering_done b)"
  using assms by (simp_all add: agent_update_pac_timer_def agent_update_gathering_done_def Let_def split_def calm)

lemma calm_pairs:
  assumes "calm a b" "length (ag_pairs b) \<le> length ps" "pairs_inv a \<Longrightarrow> length ps \<le> MAX_CANDIDATE_PAIRS_COUNT"
    "\<And>p. p < length (ag_pairs b) \<Longrightarrow> ap_nominated (pair b p) \<Longrightarrow> ap_nominated (ps ! p)"
  shows "calm a (agent_update_ordered_pairs (b\<lparr>ag_pairs := ps\<rparr>))"
proof -
  let ?c = "agent_update_ordered_pairs (b\<lparr>ag_pairs := ps\<rparr>)"
  have "ag_pairs ?c = ps" "ag_state ?c = ag_state b" "notified ?c = notified b" "ag_conn ?c = ag_conn b"
    "ag_selected_entry ?c = ag_selected_entry b"
    by (simp_all add: agent_update_ordered_pairs_def Let_def notified_def)
  then show ?thesis
    using assms order_pairs [of "b\<lparr>ag_pairs := ps\<rparr>"] by (auto simp: calm_def pairs_inv_def)
qed

lemma calm_update_candidate_pairs [calm]:
  assumes "calm a b"
  shows "calm a (agent_update_candidate_pairs b)"
proof -
  have "pairs_inv a \<Longrightarrow> length (ag_pairs b) \<le> MAX_CANDIDATE_PAIRS_COUNT"
    using assms by (simp add: calm_def pairs_inv_def)
  then show ?thesis
    using assms by (simp add: agent_update_candidate_pairs_def Let_def calm_pairs)
qed

lemma calm_unfreeze [calm]: "calm a b \<Longrightarrow> calm a (snd (agent_unfreeze_candidate_pair b p))"
  by (simp add: agent_unfreeze_candidate_pair_def Let_def calm split: calm_splits)

lemma calm_register_entry [calm]: "calm a b \<Longrightarrow> calm a (register_entry e b)"
  by (simp add: register_entry_def calm)

lemma calm_add_candidate_pair [calm]:
  assumes "calm a b"
  shows "calm a (snd (agent_add_candidate_pair b lcl rmt))"
proof -
  have "calm a (agent_update_ordered_pairs (b\<lparr>ag_pairs := ag_pairs b @ [q]\<rparr>))" if "length (ag_pairs b) < 60" for q
    using assms that by (intro calm_pairs) (auto simp: nth_append)
  then show ?thesis
    using assms by (simp add: agent_add_candidate_pair_def agent_translate_host_candidate_entry_def Let_def split_def calm
        split: option.split)
qed

lemma calm_add_relayed_pairs [calm]: "calm a b \<Longrightarrow> calm a (snd (add_relayed_pairs b rmt ls))"
  by (induction ls arbitrary: b) (simp_all add: Let_def split_def calm)

lemma calm_pairs_for_remote [calm]: "calm a b \<Longrightarrow> calm a (snd (agent_add_candidate_pairs_for_remote b rmt))"
  by (simp add: agent_add_candidate_pairs_for_remote_def Let_def split_def calm)

lemma calm_find_tid [calm]: "calm a b \<Longrightarrow> calm a (snd (agent_find_entry_from_transaction_id b tid))"
proof -
  have "calm a b \<Longrightarrow> calm a (snd (find_tid_loop b tid is))" for "is"
    by (induction "is" arbitrary: b) (simp_all add: Let_def split_def calm split: option.split)
  then show "calm a b \<Longrightarrow> calm a (snd (agent_find_entry_from_transaction_id b tid))"
    by (simp add: agent_find_entry_from_transaction_id_def)
qed

section \<open>Messages\<close>

lemma calm_set_turn [calm]:
  assumes "calm a b"
  shows "calm a (set_turn_map i m b)" "calm a (set_turn_credentials i c b)"
  using assms by (simp_all add: set_turn_map_def set_turn_credentials_def calm)

lemma calm_send_message [calm]: "calm a b \<Longrightarrow> calm a (snd (send_message b dst msg pw ds))"
  by (simp add: send_message_def Let_def split_def calm split: calm_splits)

lemma calm_send_turn_allocate [calm]: "calm a b \<Longrightarrow> calm a (snd (agent_send_turn_allocate_request b i m))"
  by (simp add: agent_send_turn_allocate_request_def Let_def calm split: calm_splits)

lemma calm_draw_turn_tid [calm]: "calm a b \<Longrightarrow> calm a (snd (draw_turn_tid f b i m r))"
  by (simp add: draw_turn_tid_def Let_def split_def calm split: calm_splits)

lemma calm_send_create_permission [calm]:
  "calm a b \<Longrightarrow> calm a (snd (agent_send_turn_create_permission_request b i r ds))"
  by (simp add: agent_send_turn_create_permission_request_def Let_def split_def calm split: if_split option.split)

lemma calm_channel_for [calm]: "calm a b \<Longrightarrow> calm a (snd (channel_for b i m r))"
  by (simp add: channel_for_def Let_def split_def calm split: if_split option.split sum.split)

lemma calm_send_channel_bind [calm]:
  "calm a b \<Longrightarrow> calm a (snd (snd (agent_send_turn_channel_bind_request b i r ds)))"
  by (simp add: agent_send_turn_channel_bind_request_def Let_def split_def calm split: if_split option.split)

lemma calm_relay_send [calm]: "calm a b \<Longrightarrow> calm a (snd (agent_relay_send b i dst data ds))"
  by (simp add: agent_relay_send_def Let_def split_def calm split: if_split option.split)

lemma calm_channel_send [calm]: "calm a b \<Longrightarrow> calm a (snd (agent_channel_send b i r data ds))"
  by (simp add: agent_channel_send_def Let_def split_def calm split: if_split option.split sum.split)

lemma calm_send [calm]: "calm a b \<Longrightarrow> calm a (snd (agent_send b data ds))"
  by (simp add: agent_send_def calm split: option.split)

lemma calm_binding [calm]:
  assumes "calm a b"
  shows "calm a (snd (binding_tid b i c tid))" "calm a (snd (snd (binding_prepare b i c ec mapped msg)))"
    "calm a (snd (binding_transmit b i buf))"
  using assms by (simp_all add: binding_tid_def binding_prepare_def binding_transmit_def calm split: option.split)

lemma calm_send_stun_binding [calm]: "calm a b \<Longrightarrow> calm a (snd (agent_send_stun_binding b i c ec tid mapped))"
  by (simp add: agent_send_stun_binding_def Let_def split_def calm split: option.split)

lemma calm_fold: "(\<And>x c. calm a c \<Longrightarrow> calm a (f x c)) \<Longrightarrow> calm a b \<Longrightarrow> calm a (fold f xs b)"
  by (induction xs arbitrary: b) simp_all

lemma calm_add_local_relayed [calm]: "calm a b \<Longrightarrow> calm a (snd (agent_add_local_relayed_candidate b r))"
  by (simp add: agent_add_local_relayed_candidate_def Let_def split_def calm calm_fold split: option.split)

lemma calm_add_local_reflexive [calm]: "calm a b \<Longrightarrow> calm a (snd (agent_add_local_reflexive_candidate b t r))"
  by (simp add: agent_add_local_reflexive_candidate_def Let_def split_def calm split: option.split)

lemma calm_add_remote_reflexive [calm]: "calm a b \<Longrightarrow> calm a (snd (agent_add_remote_reflexive_candidate b t p r))"
  by (simp add: agent_add_remote_reflexive_candidate_def Let_def split_def calm split: option.split)

lemma calm_verify [calm]:
  assumes "calm a b"
  shows "calm a (snd (check_integrity b buf msg pw))" "calm a (snd (agent_verify_stun_binding b buf msg))"
    "calm a (snd (snd (agent_verify_credentials b i buf msg)))"
  using assms by (simp_all add: check_integrity_def agent_verify_stun_binding_def agent_verify_credentials_def Let_def split_def calm
      split: option.split sum.split cerr.split)

lemma calm_binding_request [calm]: "calm a b \<Longrightarrow> calm a (snd (agent_process_binding_request b msg i src))"
  by (simp add: agent_process_binding_request_def Let_def split_def calm split: option.split)

lemma calm_succeed [calm]:
  assumes "calm a b"
  shows "calm a (succeed_entry b i)" "calm a (succeed_pair b p msg)"
  using assms by (simp_all add: succeed_entry_def succeed_pair_def Let_def split_def calm)

lemma calm_binding_success [calm]: "calm a b \<Longrightarrow> calm a (snd (agent_process_binding_success b msg i src rl))"
  by (simp add: agent_process_binding_success_def Let_def split_def calm split: option.split)

lemma calm_binding_error [calm]: "calm a b \<Longrightarrow> calm a (agent_process_binding_error b msg i)"
  by (simp add: agent_process_binding_error_def Let_def split_def calm split: option.split)

lemma calm_process_binding [calm]: "calm a b \<Longrightarrow> calm a (snd (agent_process_stun_binding b msg i src rl))"
  by (simp add: agent_process_stun_binding_def calm)

lemma calm_fail_entry [calm]: "calm a b \<Longrightarrow> calm a (fail_entry b i)"
  by (simp add: fail_entry_def calm)

lemma calm_allocate [calm]:
  assumes "calm a b"
  shows "calm a (snd (allocate_success b msg i))" "calm a (snd (allocate_error b msg i ts))"
proof -
  show "calm a (snd (allocate_error b msg i ts))"
    unfolding allocate_error_def Let_def using assms by (auto simp: calm)
  show "calm a (snd (allocate_success b msg i))"
    unfolding allocate_success_def Let_def split_def using assms by (simp add: calm)
qed

lemma calm_process_allocate [calm]: "calm a b \<Longrightarrow> calm a (snd (agent_process_turn_allocate b msg i))"
  by (simp add: agent_process_turn_allocate_def calm split: option.split)

lemma calm_process_response:
  assumes "calm a b" "\<And>c r. calm a c \<Longrightarrow> calm a (resend c r)"
  shows "calm a (snd (process_turn_response confirm resend b msg i))"
  using assms by (simp add: process_turn_response_def Let_def split_def calm split: option.split)

lemma calm_process_turn [calm]:
  assumes "calm a b"
  shows "calm a (snd (agent_process_turn_create_permission b msg i))" "calm a (snd (agent_process_turn_channel_bind b msg i))"
  using assms by (simp_all add: agent_process_turn_create_permission_def agent_process_turn_channel_bind_def calm_process_response calm)

lemma calm_dispatch_method [calm]: "calm a b \<Longrightarrow> calm a (snd (dispatch_method b buf msg i src rl))"
  by (simp add: dispatch_method_def Let_def split_def calm)

lemma calm_dispatch [calm]: "calm a b \<Longrightarrow> calm a (snd (agent_dispatch_stun b buf msg src rl))"
  by (simp add: agent_dispatch_stun_def Let_def split_def calm split: option.split)

lemma calm_channel_data [calm]: "calm a b \<Longrightarrow> calm a (snd (agent_process_channel_data b i buf))"
  by (simp add: agent_process_channel_data_def Let_def calm split: option.split)

lemma calm_input_step [calm]: "calm a b \<Longrightarrow> calm a (snd (agent_input_step b buf src rl))"
  by (simp add: agent_input_step_def split_def calm split: option.split sum.split cerr.split agent_stun_entry_type.split)

lemma calm_input [calm]: "calm a b \<Longrightarrow> calm a (snd (agent_input b buf src rl))"
proof (induction b buf src rl rule: agent_input.induct)
  case (1 b buf src rl)
  then have "calm a (snd (agent_input_step b buf src rl))" by (simp add: calm)
  with 1 show ?case
    by (subst agent_input.simps) (auto split: prod.split agent_tail.split)
qed

end
