(* ===== verification/Agent_Runs.thy ===== *)
theory Agent_Runs
  imports Agent_States
begin

text \<open>
  The runs of an agent and what holds in all of them: the connection states it reports follow the state
  machine of the library, the pairs are in order, and a failed agent does not send.
\<close>

section \<open>Bookkeeping\<close>

lemma calm_fresh_tid [calm]: "calm a b \<Longrightarrow> calm a (fresh_tid b i)"
  by (simp add: fresh_tid_def Let_def split_def calm)

lemma calm_book_transmit [calm]: "calm a b \<Longrightarrow> calm a (snd (book_transmit b i))"
  by (simp add: book_transmit_def Let_def calm)

lemma calm_book_fail [calm]: "calm a b \<Longrightarrow> calm a (book_fail b i)"
  by (simp add: book_fail_def Let_def calm split: option.split)

lemma calm_book_entry [calm]: "calm a b \<Longrightarrow> calm a (book_entry now i b)"
  by (simp add: book_entry_def book_pending_def book_keepalive_def Let_def split_def calm)

lemma calm_freeze [calm]: "calm a b \<Longrightarrow> calm a (freeze_pair p b)"
  by (simp add: freeze_pair_def calm)

lemma calm_cancel_frozen [calm]: "calm a b \<Longrightarrow> calm a (cancel_frozen b)"
  by (simp add: cancel_frozen_def)

lemma calm_enable_keepalive [calm]: "calm a b \<Longrightarrow> calm a (enable_keepalive i b)"
  by (simp add: enable_keepalive_def calm split: option.split)

lemma calm_disable_keepalives [calm]: "calm a b \<Longrightarrow> calm a (disable_keepalives i rl b)"
  by (simp add: disable_keepalives_def)

lemma calm_book_next: "calm a (snd x) \<Longrightarrow> calm a (snd (fold (book_next sp) es x))"
  by (induction es arbitrary: x) (simp_all add: book_next_def Let_def split_def calm split: option.split)

text \<open>The scan: the pairs it reports as nominated and selected are among the ordered ones.\<close>

definition scan_inv :: "agent \<Rightarrow> nat list \<Rightarrow> nat \<times> nat option \<times> nat option \<times> agent \<Rightarrow> bool" where
  "scan_inv ag ps x \<longleftrightarrow> (case x of (_, nom, sel, b) \<Rightarrow> calm ag b \<and> ag_ordered_pairs b = ag_ordered_pairs ag
     \<and> (\<forall>p. ap_nominated (pair b p) \<longleftrightarrow> ap_nominated (pair ag p)) \<and> length (ag_pairs b) = length (ag_pairs ag)
     \<and> (nom = None \<longrightarrow> (\<forall>p \<in> set ps. \<not> ap_nominated (pair ag p)))
     \<and> (\<forall>n. nom = Some n \<longrightarrow> n \<in> set ps \<and> ap_nominated (pair ag n) \<and> sel = Some n))"

lemma freeze_frame [simp]:
  "ap_nominated (pair (freeze_pair p b) q) = ap_nominated (pair b q)"
  "ag_ordered_pairs (freeze_pair p b) = ag_ordered_pairs b" "length (ag_pairs (freeze_pair p b)) = length (ag_pairs b)"
  by (cases "p < length (ag_pairs b)"; simp add: freeze_pair_def upd_pair_def nth_list_update list_update_beyond)+

lemma scan_inv_step: "scan_inv ag ps x \<Longrightarrow> scan_inv ag (ps @ [p]) (scan_pair p x)"
  unfolding scan_inv_def scan_pair_def by (auto simp: calm split: prod.splits)

lemma scan_inv_fold: "scan_inv ag ps x \<Longrightarrow> scan_inv ag (ps @ qs) (fold scan_pair qs x)"
  by (induction qs arbitrary: ps x) (simp, metis scan_inv_step append_Cons append_Nil append_assoc fold_Cons_rev fold_simps(2))

lemma scan_pairs_inv: "scan_inv ag (ag_ordered_pairs ag) (scan_pairs ag)"
proof -
  obtain cnt nom sel b where x: "fold scan_pair (ag_ordered_pairs ag) (0, None, None, ag) = (cnt, nom, sel, b)"
    using prod_cases4 by blast
  let ?f = "\<lambda>p c. if Some p \<noteq> nom \<and> ap_state (pair c p) = ICE_CANDIDATE_PAIR_STATE_PENDING then freeze_pair p c else c"
  have inv: "scan_inv ag (ag_ordered_pairs ag) (cnt, nom, sel, b)"
    using scan_inv_fold [of ag "[]" "(0, None, None, ag)" "ag_ordered_pairs ag"] x by (simp add: scan_inv_def)
  have "scan_inv ag (ag_ordered_pairs ag) (0, nom, sel, fold ?f ps c)"
    if "scan_inv ag (ag_ordered_pairs ag) (0, nom, sel, c)" for ps c
    using that by (induction ps arbitrary: c) (auto simp: scan_inv_def calm)
  with inv show ?thesis by (simp add: scan_pairs_def x scan_inv_def)
qed

lemma calm_select:
  assumes "calm a b"
  obtains x where "calm (a\<lparr>ag_selected_entry := x\<rparr>) (book_select now s b)"
proof -
  have "calm (a\<lparr>ag_selected_entry := ag_selected_entry c\<rparr>) c" if "calm a (c\<lparr>ag_selected_entry := ag_selected_entry a\<rparr>)" for c
    using that by (simp add: calm_def notified_def pairs_inv_def)
  moreover have "calm a ((book_select now s b)\<lparr>ag_selected_entry := ag_selected_entry a\<rparr>)"
    using assms by (auto simp: book_select_def Let_def calm_def notified_def pairs_inv_def split: option.split)
  ultimately show thesis using that by blast
qed

lemma notified_change:
  "notified (agent_change_state ag s) = (if s = ag_state ag then notified ag else notified ag @ [s])"
  "ag_state (agent_change_state ag s) = s"
  by (simp_all add: agent_change_state_def emit_def notified_def map_filter_def)

lemma calm_change: "calm a b \<Longrightarrow> calm (agent_change_state a s) (agent_change_state b s)"
  by (simp add: agent_change_state_def emit_def calm_def notified_def pairs_inv_def map_filter_def)

lemma change_selected: "agent_change_state (ag\<lparr>ag_selected_entry := x\<rparr>) s = (agent_change_state ag s)\<lparr>ag_selected_entry := x\<rparr>"
  by (simp add: agent_change_state_def emit_def)

lemma change_pairs [simp]: "ag_pairs (agent_change_state ag s) = ag_pairs ag"
  by (simp add: agent_change_state_def emit_def)

text \<open>The first half of the work is calm; the second half ends in one of four ways.\<close>

definition complete_state :: "agent \<Rightarrow> agent" where
  "complete_state ag = agent_change_state (if ag_state ag = JUICE_STATE_CONNECTING
     then agent_change_state ag JUICE_STATE_CONNECTED else ag) JUICE_STATE_COMPLETED"

lemma calm_complete:
  assumes "calm a b"
  obtains x where "calm (complete_state (a\<lparr>ag_selected_entry := x\<rparr>)) (book_complete n b)"
proof -
  have st: "ag_state b = ag_state a" using assms by (simp add: calm_def)
  have c: "calm (complete_state a) (complete_state b)"
    using calm_change [OF assms] calm_change assms st unfolding complete_state_def by (auto intro: calm_change)
  have eq: "complete_state (a\<lparr>ag_selected_entry := x\<rparr>) = (complete_state a)\<lparr>ag_selected_entry := x\<rparr>" for x
    by (simp add: complete_state_def change_selected)
  have sel: "calm (d\<lparr>ag_selected_entry := x\<rparr>) (c\<lparr>ag_selected_entry := x\<rparr>)" if "calm d c" for c d x
    using that by (simp add: calm_def notified_def pairs_inv_def)
  show thesis
  proof (rule that)
    let ?i = "first_index (\<lambda>e. se_pair e = Some n) (ag_entries (complete_state b))"
    let ?switch = "case ?i of None \<Rightarrow> False | Some i \<Rightarrow>
      se_state (entry (complete_state b) i) \<noteq> AGENT_STUN_ENTRY_STATE_SUCCEEDED_KEEPALIVE"
    have "calm ((complete_state a)\<lparr>ag_selected_entry := (if ?switch then ?i else ag_selected_entry (complete_state a))\<rparr>) (book_complete n b)"
      using sel [OF c] c unfolding book_complete_def Let_def complete_state_def [symmetric]
      by (auto intro!: calm intro: sel)
    then show "calm (complete_state (a\<lparr>ag_selected_entry := (if ?switch then ?i else ag_selected_entry (complete_state a))\<rparr>)) (book_complete n b)"
      unfolding eq .
  qed
qed

lemma calm_nominate: "calm a (snd x) \<Longrightarrow> calm a (snd (book_nominate now cnt s x))"
  by (simp add: book_nominate_def Let_def split_def calm split: option.split)

definition some_nominated :: "agent \<Rightarrow> bool" where
  "some_nominated ag \<longleftrightarrow> (\<exists>p < length (ag_pairs ag). ap_nominated (pair ag p))"

lemma calm_nominated: "calm a b \<Longrightarrow> some_nominated a \<Longrightarrow> some_nominated b"
  unfolding calm_def some_nominated_def using less_le_trans by blast

lemma ordered_all: "pairs_inv ag \<Longrightarrow> set (ag_ordered_pairs ag) = {..<length (ag_pairs ag)}"
  unfolding pairs_inv_def by (metis mset_eq_setD atLeast_upt)

lemma bookkeeping_cases:
  assumes inv: "pairs_inv ag"
  obtains (idle) "calm ag (snd (agent_bookkeeping ag))"
  | (failed) b where "calm ag b" "snd (agent_bookkeeping ag) = agent_fail b" "ag_state ag \<noteq> JUICE_STATE_DISCONNECTED" "ag_state ag \<noteq> JUICE_STATE_GATHERING"
  | (connected) x where "calm (agent_change_state (ag\<lparr>ag_selected_entry := x\<rparr>) JUICE_STATE_CONNECTED) (snd (agent_bookkeeping ag))"
      "\<not> some_nominated ag" "ag_state ag \<noteq> JUICE_STATE_DISCONNECTED" "ag_state ag \<noteq> JUICE_STATE_GATHERING"
  | (completed) x where "calm (complete_state (ag\<lparr>ag_selected_entry := x\<rparr>)) (snd (agent_bookkeeping ag))"
      "some_nominated (snd (agent_bookkeeping ag))" "ag_state ag \<noteq> JUICE_STATE_DISCONNECTED" "ag_state ag \<noteq> JUICE_STATE_GATHERING"
proof (cases "ag_state ag = JUICE_STATE_DISCONNECTED \<or> ag_state ag = JUICE_STATE_GATHERING")
  case True
  then show thesis
    by (intro idle) (simp add: agent_bookkeeping_def Let_def split_def calm current_timestamp_def)
next
  case False
  define now where "now = fst (current_timestamp ag)"
  define b where "b = fold (book_entry now) [0..<length (ag_entries ag)] (snd (current_timestamp ag))"
  obtain cnt nom sel c where scan: "scan_pairs b = (cnt, nom, sel, c)" using prod_cases4 by blast
  have b: "calm ag b" unfolding b_def by (intro calm_fold) (simp_all add: calm)
  have sc: "scan_inv b (ag_ordered_pairs b) (cnt, nom, sel, c)" using scan_pairs_inv [of b] scan by simp
  define d where "d = cancel_frozen c"
  have d: "calm ag d" "ag_pairs d = ag_pairs c"
    using sc b calm_trans unfolding d_def by (auto simp: scan_inv_def calm cancel_frozen_def)
  have st: "ag_state (snd (current_timestamp ag)) = ag_state ag" "ag_entries (snd (current_timestamp ag)) = ag_entries ag"
    by (simp_all add: current_timestamp_def)
  have bk: "agent_bookkeeping ag = book_outcome now cnt nom sel d"
    using False st scan unfolding agent_bookkeeping_def Let_def split_def now_def b_def d_def by simp
  note out = book_outcome_def Let_def split_def
  have all: "set (ag_ordered_pairs b) = {..<length (ag_pairs b)}"
    using b inv ordered_all by (auto simp: calm_def)
  show thesis
  proof (cases "case nom of None \<Rightarrow> False | Some n \<Rightarrow> ap_state (pair d n) = ICE_CANDIDATE_PAIR_STATE_FAILED")
    case True
    then show thesis using False d(1) by (intro failed) (simp_all add: bk out)
  next
    case nofail: False
    show thesis
    proof (cases sel)
      case None
      show thesis
      proof (cases "cnt = 0 \<and> ag_pac_timestamp d \<noteq> 0 \<and> ag_pac_timestamp d \<le> now")
        case True
        then show thesis using False nofail None d(1) by (intro failed) (simp_all add: bk out)
      next
        case wait: False
        have "calm ag (snd (agent_bookkeeping ag))"
          using False nofail None wait d(1) by (auto simp: bk out intro!: calm_book_next)
        then show thesis by (rule idle)
      qed
    next
      case (Some s)
      obtain x where x: "calm (ag\<lparr>ag_selected_entry := x\<rparr>) (book_select now s d)" using calm_select [OF d(1)] .
      show thesis
      proof (cases nom)
        case None
        have "\<not> some_nominated ag"
          using sc None all calm_nominated [OF b] by (auto simp: scan_inv_def some_nominated_def)
        moreover have "calm (agent_change_state (ag\<lparr>ag_selected_entry := x\<rparr>) JUICE_STATE_CONNECTED) (snd (agent_bookkeeping ag))"
          using False Some None calm_change [OF x] by (auto simp: bk out intro!: calm_book_next calm_nominate)
        ultimately show thesis using False by (intro connected) auto
      next
        case nomS: (Some n)
        obtain y where y: "calm (complete_state (ag\<lparr>ag_selected_entry := x\<rparr>\<lparr>ag_selected_entry := y\<rparr>)) (book_complete n (book_select now s d))"
          using calm_complete [OF x] .
        then have res: "calm (complete_state (ag\<lparr>ag_selected_entry := y\<rparr>)) (snd (agent_bookkeeping ag))"
          using False Some nomS nofail by (auto simp: bk out intro!: calm_book_next)
        have "n < length (ag_pairs d)" "ap_nominated (pair d n)"
          using sc nomS all d(2) by (auto simp: scan_inv_def)
        then have "some_nominated d" by (auto simp: some_nominated_def)
        moreover have "ag_pairs (book_select now s d) = ag_pairs d"
          by (simp add: book_select_def Let_def split: option.split)
        ultimately have n: "some_nominated (complete_state ((book_select now s d)\<lparr>ag_selected_entry := z\<rparr>))" for z
          by (simp add: some_nominated_def complete_state_def)
        obtain z where "calm (complete_state ((book_select now s d)\<lparr>ag_selected_entry := z\<rparr>)) (book_complete n (book_select now s d))"
          using calm_complete [OF calm_refl] .
        then have "calm (complete_state ((book_select now s d)\<lparr>ag_selected_entry := z\<rparr>)) (snd (agent_bookkeeping ag))"
          using False Some nomS nofail by (auto simp: bk out intro!: calm_book_next)
        from calm_nominated [OF this n] res show thesis using False by (intro completed) auto
      qed
    qed
  qed
qed

section \<open>The interface\<close>

lemma calm_resolve [calm]:
  assumes "calm a b"
  shows "calm a (snd (resolve_turn_server k (cnt, b)))" "calm a (resolve_stun_server b)"
proof -
  show "calm a (snd (resolve_turn_server k (cnt, b)))"
    using assms by (simp add: resolve_turn_server_def Let_def split_def calm split: option.split)
  have "calm a (register_server k r c)" if "calm a c" for k r c
    using that by (simp add: register_server_def Let_def split_def calm)
  then show "calm a (resolve_stun_server b)"
    using assms by (auto simp: resolve_stun_server_def Let_def split: option.split intro!: calm_fold)
qed

lemma calm_interface [calm]:
  assumes "calm a b"
  shows "calm a (snd (snd (agent_get_local_description b n)))" "calm a (snd (agent_set_remote_description b sdp))"
    "calm a (snd (agent_add_remote_candidate b sdp))" "calm a (snd (agent_set_local_ice_attributes b ufrag pwd))"
    "calm a (snd (agent_add_turn_server b srv))" "calm a (agent_set_remote_gathering_done b)"
    "calm a (agent_conn_recv b buf src)"
proof -
  show "calm a (snd (agent_set_remote_description b sdp))"
    using assms by (auto simp: agent_set_remote_description_def Let_def calm intro!: calm_fold split: prod.split option.split)
  show "calm a (snd (agent_add_remote_candidate b sdp))"
    using assms by (auto simp: agent_add_remote_candidate_def Let_def split_def calm split: option.split sum.split ice_parse_result.split)
qed (use assms in \<open>auto simp: agent_get_local_description_def agent_set_local_ice_attributes_def agent_add_turn_server_def
      agent_set_remote_gathering_done_def agent_conn_recv_def calm split: option.split\<close>)

lemma calm_add_hosts [calm]: "calm a b \<Longrightarrow> calm a (add_hosts b rs)"
  by (induction rs arbitrary: b) (simp_all split: option.split)

lemma calm_emit_host [calm]: "calm a b \<Longrightarrow> calm a (emit_host c b)"
  by (simp add: emit_host_def split_def calm split: option.split)

lemma gather_cases:
  obtains (again) "snd (agent_gather_candidates ag ok rs) = ag" "ag_conn ag"
  | (refused) "calm (agent_change_state ag JUICE_STATE_GATHERING) (snd (agent_gather_candidates ag ok rs))" "\<not> ag_conn ag"
  | (gathered) "calm (agent_change_state ((agent_change_state ag JUICE_STATE_GATHERING)\<lparr>ag_conn := True\<rparr>) JUICE_STATE_CONNECTING)
        (snd (agent_gather_candidates ag ok rs))" "\<not> ag_conn ag"
proof (cases "ag_conn ag")
  case True
  then show thesis by (intro again) (simp_all add: agent_gather_candidates_def)
next
  case False
  let ?a = "agent_change_state ag JUICE_STATE_GATHERING"
  let ?b = "agent_change_state (if ag_mode ag = AGENT_MODE_UNKNOWN then ag\<lparr>ag_mode := AGENT_MODE_CONTROLLING\<rparr> else ag) JUICE_STATE_GATHERING"
  have b: "calm ?a ?b" by (intro calm_change) simp
  then have conn: "calm (?a\<lparr>ag_conn := True\<rparr>) (?b\<lparr>ag_conn := True\<rparr>)"
    by (simp add: calm_def notified_def pairs_inv_def)
  show thesis
  proof (cases ok)
    case True
    have "calm (agent_change_state (?a\<lparr>ag_conn := True\<rparr>) JUICE_STATE_CONNECTING) (snd (agent_gather_candidates ag ok rs))"
      using False True conn unfolding agent_gather_candidates_def Let_def agent_translate_host_candidate_entry_def
      by (auto intro!: calm_change calm_fold simp: calm)
    then show thesis using False by (rule gathered)
  next
    case no: False
    then show thesis using False b by (intro refused) (simp_all add: agent_gather_candidates_def Let_def)
  qed
qed

section \<open>Runs\<close>

text \<open>
  An agent after any sequence of operations of the interface, datagrams, rounds of bookkeeping and failures of the
  connection. The resolution of the servers, which gives up the lock, is a step for each server.
\<close>

inductive agent_run :: "agent \<Rightarrow> bool" where
  create: "agent_run (agent_create env host port servers mux)"
| gather: "agent_run ag \<Longrightarrow> agent_run (snd (agent_gather_candidates ag ok records))"
| resolve_turn: "agent_run ag \<Longrightarrow> agent_run (snd (resolve_turn_server k (cnt, ag)))"
| resolve_stun: "agent_run ag \<Longrightarrow> agent_run (resolve_stun_server ag)"
| gathering_done: "agent_run ag \<Longrightarrow> agent_run (agent_update_gathering_done ag)"
| local_description: "agent_run ag \<Longrightarrow> agent_run (snd (snd (agent_get_local_description ag n)))"
| remote_description: "agent_run ag \<Longrightarrow> agent_run (snd (agent_set_remote_description ag sdp))"
| remote_candidate: "agent_run ag \<Longrightarrow> agent_run (snd (agent_add_remote_candidate ag sdp))"
| attributes: "agent_run ag \<Longrightarrow> agent_run (snd (agent_set_local_ice_attributes ag ufrag pwd))"
| turn_server: "agent_run ag \<Longrightarrow> agent_run (snd (agent_add_turn_server ag srv))"
| remote_done: "agent_run ag \<Longrightarrow> agent_run (agent_set_remote_gathering_done ag)"
| send: "agent_run ag \<Longrightarrow> agent_run (snd (agent_send ag data ds))"
| recv: "agent_run ag \<Longrightarrow> agent_run (agent_conn_recv ag buf src)"
| update: "agent_run ag \<Longrightarrow> agent_run (snd (agent_conn_update ag))"
| conn_fail: "agent_run ag \<Longrightarrow> ag_conn ag \<Longrightarrow> agent_run (agent_conn_fail ag)"

text \<open>The state machine of a connection.\<close>

inductive juice_next :: "juice_state \<Rightarrow> juice_state \<Rightarrow> bool" where
  "juice_next JUICE_STATE_DISCONNECTED JUICE_STATE_GATHERING"
| "juice_next JUICE_STATE_GATHERING JUICE_STATE_CONNECTING"
| "juice_next JUICE_STATE_CONNECTING JUICE_STATE_CONNECTED"
| "juice_next JUICE_STATE_CONNECTED JUICE_STATE_COMPLETED"
| "juice_next JUICE_STATE_CONNECTING JUICE_STATE_FAILED"
| "juice_next JUICE_STATE_CONNECTED JUICE_STATE_FAILED"
| "juice_next JUICE_STATE_COMPLETED JUICE_STATE_FAILED"
| "juice_next JUICE_STATE_FAILED JUICE_STATE_CONNECTED"
| "juice_next JUICE_STATE_FAILED JUICE_STATE_COMPLETED"

inductive_simps juice_next_iff: "juice_next s t"

definition path_ok :: "agent \<Rightarrow> bool" where
  "path_ok ag \<longleftrightarrow> successively juice_next (JUICE_STATE_DISCONNECTED # notified ag)
     \<and> last (JUICE_STATE_DISCONNECTED # notified ag) = ag_state ag"

definition run_inv :: "agent \<Rightarrow> bool" where
  "run_inv ag \<longleftrightarrow> pairs_inv ag \<and> path_ok ag
     \<and> (ag_conn ag \<longleftrightarrow> ag_state ag \<noteq> JUICE_STATE_DISCONNECTED \<and> ag_state ag \<noteq> JUICE_STATE_GATHERING)
     \<and> (ag_state ag = JUICE_STATE_COMPLETED \<longrightarrow> some_nominated ag)
     \<and> (ag_state ag = JUICE_STATE_FAILED \<longrightarrow> ag_selected_entry ag = None)"

lemma run_inv_calm: "calm a b \<Longrightarrow> run_inv a \<Longrightarrow> run_inv b"
  using calm_nominated [of a b] by (auto simp: run_inv_def calm_def path_ok_def)

lemma path_change:
  assumes "path_ok ag" "s = ag_state ag \<or> juice_next (ag_state ag) s"
  shows "path_ok (agent_change_state ag s)"
  using assms successively_append_iff [of juice_next "JUICE_STATE_DISCONNECTED # notified ag" "[s]"]
  by (auto simp: path_ok_def notified_change)

lemma change_frame:
  "pairs_inv (agent_change_state a s) = pairs_inv a" "ag_conn (agent_change_state a s) = ag_conn a"
  by (simp_all add: agent_change_state_def emit_def pairs_inv_def)

lemma selected_frame:
  "path_ok (a\<lparr>ag_selected_entry := x\<rparr>) = path_ok a" "pairs_inv (a\<lparr>ag_selected_entry := x\<rparr>) = pairs_inv a"
  "some_nominated (a\<lparr>ag_selected_entry := x\<rparr>) = some_nominated a"
  by (simp_all add: path_ok_def notified_def pairs_inv_def some_nominated_def)

lemma run_inv_create: "run_inv (agent_create env host port servers mux)"
  by (simp add: run_inv_def agent_create_def Let_def split_def juice_random_def path_ok_def notified_def map_filter_def pairs_inv_def)

lemma run_inv_gather:
  assumes "run_inv ag"
  shows "run_inv (snd (agent_gather_candidates ag ok rs))"
proof -
  have start: "\<not> ag_conn ag \<Longrightarrow> ag_state ag = JUICE_STATE_DISCONNECTED \<or> ag_state ag = JUICE_STATE_GATHERING"
    using assms by (auto simp: run_inv_def)
  have conn: "path_ok (a\<lparr>ag_conn := x\<rparr>) = path_ok a" "pairs_inv (a\<lparr>ag_conn := x\<rparr>) = pairs_inv a"
    "ag_state (a\<lparr>ag_conn := x\<rparr>) = ag_state a" for a x
    by (simp_all add: path_ok_def notified_def pairs_inv_def)
  let ?g = "agent_change_state ag JUICE_STATE_GATHERING"
  have g: "path_ok ?g" if "\<not> ag_conn ag"
    using start [OF that] assms by (intro path_change) (auto simp: run_inv_def juice_next_iff)
  show ?thesis
  proof (cases rule: gather_cases [of ag ok rs])
    case again
    then show ?thesis using assms by simp
  next
    case refused
    then show ?thesis using g assms
      by (intro run_inv_calm [OF refused(1)]) (auto simp: run_inv_def change_frame notified_change)
  next
    case gathered
    have "path_ok (agent_change_state (?g\<lparr>ag_conn := True\<rparr>) JUICE_STATE_CONNECTING)"
      using g gathered(2) by (intro path_change) (auto simp: conn juice_next_iff notified_change)
    then show ?thesis using gathered assms
      by (intro run_inv_calm [OF gathered(1)]) (auto simp: run_inv_def change_frame conn notified_change)
  qed
qed

lemma run_inv_fail:
  assumes "run_inv ag" "ag_state ag \<noteq> JUICE_STATE_DISCONNECTED" "ag_state ag \<noteq> JUICE_STATE_GATHERING"
  shows "run_inv (agent_fail ag)"
proof -
  have "path_ok (agent_change_state ag JUICE_STATE_FAILED)"
    using assms by (intro path_change; cases "ag_state ag") (auto simp: run_inv_def juice_next_iff)
  then show ?thesis
    using assms by (auto simp: run_inv_def agent_fail_def selected_frame change_frame notified_change)
qed

lemma run_inv_connected:
  assumes "run_inv ag" "ag_state ag \<noteq> JUICE_STATE_DISCONNECTED" "ag_state ag \<noteq> JUICE_STATE_GATHERING" "ag_state ag \<noteq> JUICE_STATE_COMPLETED"
  shows "run_inv (agent_change_state (ag\<lparr>ag_selected_entry := x\<rparr>) JUICE_STATE_CONNECTED)"
proof -
  have "path_ok (agent_change_state ag JUICE_STATE_CONNECTED)"
    using assms by (intro path_change; cases "ag_state ag") (auto simp: run_inv_def juice_next_iff)
  then show ?thesis
    using assms by (auto simp: run_inv_def change_selected selected_frame change_frame notified_change)
qed

lemma run_inv_bookkeeping:
  assumes "run_inv ag"
  shows "run_inv (snd (agent_bookkeeping ag))"
proof -
  have inv: "pairs_inv ag" using assms by (simp add: run_inv_def)
  from inv show ?thesis
  proof (cases rule: bookkeeping_cases)
    case idle
    then show ?thesis using assms run_inv_calm by blast
  next
    case (failed b)
    then show ?thesis using run_inv_fail [OF run_inv_calm [OF failed(1) assms]] by (simp add: calm_def)
  next
    case (connected x)
    moreover have "ag_state ag \<noteq> JUICE_STATE_COMPLETED" using assms connected(2) by (auto simp: run_inv_def)
    ultimately show ?thesis using run_inv_calm run_inv_connected [OF assms] by blast
  next
    case (completed x)
    let ?c = "complete_state (ag\<lparr>ag_selected_entry := x\<rparr>)" and ?r = "snd (agent_bookkeeping ag)"
    let ?k = "if ag_state ag = JUICE_STATE_CONNECTING then agent_change_state ag JUICE_STATE_CONNECTED else ag"
    have "path_ok ?k"
      using assms path_change [of ag] by (auto simp: run_inv_def juice_next_iff)
    then have "path_ok (agent_change_state ?k JUICE_STATE_COMPLETED)"
      using completed(3,4) by (intro path_change; cases "ag_state ag") (auto simp: juice_next_iff notified_change)
    moreover have "notified ?c = notified (agent_change_state ?k JUICE_STATE_COMPLETED)" "ag_state ?c = JUICE_STATE_COMPLETED"
      "ag_conn ?c = ag_conn ag" "pairs_inv ?c = pairs_inv ag"
      by (auto simp: complete_state_def agent_change_state_def emit_def notified_def pairs_inv_def)
    ultimately show ?thesis
      using assms completed by (auto simp: run_inv_def calm_def path_ok_def notified_change)
  qed
qed

lemma agent_run_inv: "agent_run ag \<Longrightarrow> run_inv ag"
proof (induction rule: agent_run.induct)
  case (conn_fail ag)
  then show ?case using run_inv_fail [of ag] by (auto simp: agent_conn_fail_def run_inv_def)
qed (auto simp: agent_conn_update_def run_inv_create run_inv_gather run_inv_bookkeeping
    intro: run_inv_calm [rotated] calm [OF calm_refl])

section \<open>Properties of runs\<close>

text \<open>C6: In every run the connection states that an agent reports form a path of the state machine, from disconnected to its
  current state: it gathers, connects and completes in this order, never completes without having been connected or
  failed before, and never goes back from completed to connected.\<close>

theorem agent_states_follow_machine:
  assumes "agent_run ag"
  shows "successively juice_next (JUICE_STATE_DISCONNECTED # notified ag)
    \<and> last (JUICE_STATE_DISCONNECTED # notified ag) = ag_state ag"
  using agent_run_inv [OF assms] by (simp add: run_inv_def path_ok_def)

text \<open>C34: In every run the table of candidate pairs holds at most 60 pairs, and the ordered array lists each of them once, by
  descending priority.\<close>

theorem agent_pairs_in_order:
  assumes "agent_run ag"
  shows "length (ag_pairs ag) \<le> MAX_CANDIDATE_PAIRS_COUNT
    \<and> mset (ag_ordered_pairs ag) = mset [0..<length (ag_pairs ag)]
    \<and> sorted (rev (map (\<lambda>p. ap_priority (pair ag p)) (ag_ordered_pairs ag)))"
  using agent_run_inv [OF assms] unfolding run_inv_def pairs_inv_def by blast

text \<open>A failed agent does not send: in every run, once the agent reports failure, \<open>agent_send\<close> returns an error and nothing leaves
  the agent until it is connected again.\<close>

theorem agent_failed_does_not_send:
  assumes "agent_run ag" "ag_state ag = JUICE_STATE_FAILED"
  shows "agent_send ag data ds = (-1, ag)"
  using agent_run_inv [OF assms(1)] assms(2) by (simp add: run_inv_def agent_send_def)

text \<open>A run that gathers no host candidates and loses its connection.\<close>

definition new_agent :: agent where
  "new_agent = agent_create sample_env None 0 [] False"

definition gathered_agent :: agent where
  "gathered_agent = snd (agent_gather_candidates new_agent True None)"

lemma gathered_agent_run: "agent_run gathered_agent"
  unfolding gathered_agent_def new_agent_def by (intro agent_run.intros)

lemma sort_loop_Nil [simp]: "sort_loop [] n = []"
  by (subst sort_loop.simps) simp

lemma gathered_agent_state: "ag_state gathered_agent = JUICE_STATE_CONNECTING" "ag_conn gathered_agent"
  "notified gathered_agent = [JUICE_STATE_GATHERING, JUICE_STATE_CONNECTING]"
  by (simp_all add: gathered_agent_def new_agent_def agent_create_def agent_gather_candidates_def Let_def split_def juice_random_def
      agent_change_state_def emit_def ice_sort_candidates_def ice_create_local_description_def description_zero_def
      notified_def map_filter_def)

theorem agent_states_follow_machine_witness:
  "notified gathered_agent = [JUICE_STATE_GATHERING, JUICE_STATE_CONNECTING] \<and> ag_state gathered_agent = JUICE_STATE_CONNECTING
   \<and> juice_next JUICE_STATE_GATHERING JUICE_STATE_CONNECTING"
  using agent_states_follow_machine [OF gathered_agent_run] by (simp add: gathered_agent_state)

theorem agent_pairs_in_order_witness: "length (ag_pairs gathered_agent) \<le> 60"
  using agent_pairs_in_order [OF gathered_agent_run] by simp

theorem agent_failed_does_not_send_witness:
  "ag_state (agent_conn_fail gathered_agent) = JUICE_STATE_FAILED
   \<and> agent_send (agent_conn_fail gathered_agent) [1, 2, 3] 0 = (-1, agent_conn_fail gathered_agent)"
proof -
  have "agent_run (agent_conn_fail gathered_agent)"
    by (rule agent_run.conn_fail [OF gathered_agent_run]) (rule gathered_agent_state)
  moreover have "ag_state (agent_conn_fail gathered_agent) = JUICE_STATE_FAILED"
    by (simp add: agent_conn_fail_def agent_fail_def notified_change)
  ultimately show ?thesis using agent_failed_does_not_send by blast
qed

end
