(* ===== verification/Agent_Sends.thy ===== *)
theory Agent_Sends
  imports Agent_Runs
begin

text \<open>
  Sending leaves most of the agent alone: it uses up random numbers, clock readings and results of the environment, appends
  to the outputs, and writes transaction ids, modes and TURN tables of entries. \<open>shell\<close> blanks these out; sending keeps the
  shell. The rules are in the collection \<open>shell\<close>.
\<close>

named_theorems shell

definition core :: "agent_stun_entry \<Rightarrow> agent_stun_entry" where
  "core e = e\<lparr>se_mode := AGENT_MODE_UNKNOWN, se_transaction_id := [], se_transaction_id_expired := False, se_turn := None\<rparr>"

definition shell :: "agent \<Rightarrow> agent" where
  "shell ag = ag\<lparr>ag_entries := map core (ag_entries ag), ag_out := [], ag_fault := None, ag_ticks := 0, ag_rands := 0,
     ag_loops := 0, ag_sends := 0\<rparr>"

lemma shell_update [simp]:
  "shell (ag\<lparr>ag_out := x1\<rparr>) = shell ag" "shell (ag\<lparr>ag_fault := x2\<rparr>) = shell ag" "shell (ag\<lparr>ag_ticks := x3\<rparr>) = shell ag"
  "shell (ag\<lparr>ag_rands := x4\<rparr>) = shell ag" "shell (ag\<lparr>ag_loops := x5\<rparr>) = shell ag" "shell (ag\<lparr>ag_sends := x6\<rparr>) = shell ag"
  by (simp_all add: shell_def)

lemma core_update [simp]:
  "core (e\<lparr>se_mode := x1\<rparr>) = core e" "core (e\<lparr>se_transaction_id := x2\<rparr>) = core e"
  "core (e\<lparr>se_transaction_id_expired := x3\<rparr>) = core e" "core (e\<lparr>se_turn := x4\<rparr>) = core e"
  by (simp_all add: core_def)

lemma shell_upd_stun:
  assumes "\<And>e. core (f e) = core e"
  shows "shell (upd_stun i f ag) = shell ag"
proof (cases "i < length (ag_entries ag)")
  case True
  then have "(map core (ag_entries ag))[i := core (f (ag_entries ag ! i))] = map core (ag_entries ag)"
    using assms by (metis list_update_id nth_map)
  then show ?thesis by (simp add: shell_def upd_stun_def map_update)
next
  case False
  then show ?thesis by (simp add: shell_def upd_stun_def list_update_beyond)
qed

lemma shell_basic [shell]:
  "shell (emit ev ag) = shell ag" "shell (fault ft ag) = shell ag" "shell (snd (current_timestamp ag)) = shell ag"
  "shell (snd (juice_random n ag)) = shell ag" "shell (snd (random_draws ag)) = shell ag"
  "shell (snd (agent_direct_send ag dst data ds)) = shell ag"
  "shell (set_turn_map i m ag) = shell ag" "shell (set_turn_credentials i c ag) = shell ag"
  by (simp_all add: emit_def fault_def current_timestamp_def juice_random_def random_draws_def agent_direct_send_def
      set_turn_map_def set_turn_credentials_def shell_upd_stun)

lemma shell_write [shell]:
  "shell (snd (snd (agent_stun_size ag msg pw))) = shell ag" "shell (snd (agent_stun_write ag msg pw)) = shell ag"
  by (simp_all add: agent_stun_size_def agent_stun_write_def Let_def split_def shell split: sum.split cerr.split)

lemma shell_send_message [shell]: "shell (snd (send_message ag dst msg pw ds)) = shell ag"
  by (simp add: send_message_def Let_def split_def shell split: option.split)

lemma shell_send_turn_allocate [shell]: "shell (snd (agent_send_turn_allocate_request ag i m)) = shell ag"
  by (simp add: agent_send_turn_allocate_request_def Let_def shell split: option.split)

lemma shell_draws [shell]:
  "shell (snd (draw_turn_tid f ag i m r)) = shell ag" "shell (snd (channel_for ag i m r)) = shell ag"
  by (simp_all add: draw_turn_tid_def channel_for_def Let_def split_def shell split: option.split sum.split)

lemma shell_requests [shell]:
  "shell (snd (agent_send_turn_create_permission_request ag i r ds)) = shell ag"
  "shell (snd (snd (agent_send_turn_channel_bind_request ag i r ds))) = shell ag"
  by (simp_all add: agent_send_turn_create_permission_request_def agent_send_turn_channel_bind_request_def Let_def split_def shell
      split: option.split)

lemma shell_relay [shell]:
  "shell (snd (agent_relay_send ag i dst data ds)) = shell ag" "shell (snd (agent_channel_send ag i dst data ds)) = shell ag"
  by (simp_all add: agent_relay_send_def agent_channel_send_def Let_def split_def shell split: option.split sum.split)

lemma shell_binding [shell]:
  "shell (snd (binding_tid ag i c tid)) = shell ag" "shell (snd (snd (binding_prepare ag i c ec mapped msg))) = shell ag"
  "shell (snd (binding_transmit ag i buf)) = shell ag"
  by (simp_all add: binding_tid_def binding_prepare_def binding_transmit_def shell shell_upd_stun split: option.split)

lemma shell_send_stun_binding [shell]: "shell (snd (agent_send_stun_binding ag i c ec tid mapped)) = shell ag"
  by (simp add: agent_send_stun_binding_def Let_def split_def shell split: option.split)

lemma shell_fresh_tid [shell]: "shell (fresh_tid ag i) = shell ag"
  by (simp add: fresh_tid_def Let_def split_def shell shell_upd_stun)

lemma shell_book_transmit [shell]: "shell (snd (book_transmit ag i)) = shell ag"
  by (simp add: book_transmit_def Let_def shell)

text \<open>What two agents with the same shell share.\<close>

lemma shell_eqD:
  assumes "shell a = shell b"
  shows "ag_mode a = ag_mode b" "ag_state a = ag_state b" "ag_pairs a = ag_pairs b" "ag_ordered_pairs a = ag_ordered_pairs b"
    "ag_local a = ag_local b" "ag_remote a = ag_remote b" "ag_selected_pair a = ag_selected_pair b"
    "ag_selected_entry a = ag_selected_entry b" "ag_ice_tiebreaker a = ag_ice_tiebreaker b"
    "map core (ag_entries a) = map core (ag_entries b)" "ag_env a = ag_env b"
  using arg_cong [OF assms, of ag_mode] arg_cong [OF assms, of ag_state] arg_cong [OF assms, of ag_pairs]
    arg_cong [OF assms, of ag_ordered_pairs] arg_cong [OF assms, of ag_local] arg_cong [OF assms, of ag_remote]
    arg_cong [OF assms, of ag_selected_pair] arg_cong [OF assms, of ag_selected_entry] arg_cong [OF assms, of ag_ice_tiebreaker]
    arg_cong [OF assms, of ag_entries] arg_cong [OF assms, of ag_env]
  by (simp_all add: shell_def)

end
