(* ===== verification/Agent_Checks.thy ===== *)
theory Agent_Checks
  imports Agent_Sends Stun_Integrity
begin

text \<open>
  Connectivity checks between agents: the resolution of role conflicts, the authentication of requests, and the
  loss of consent.
\<close>

section \<open>Role conflicts\<close>

lemma sends_mode [simp]: "ag_mode (snd (agent_send_stun_binding ag i c ec tid mapped)) = ag_mode ag"
  using shell_eqD(1) [OF shell_send_stun_binding] .

lemma update_candidate_pairs_frame [simp]:
  "ag_mode (agent_update_candidate_pairs ag) = ag_mode ag"
  "i < length (ag_entries ag) \<Longrightarrow> se_mode (entry (agent_update_candidate_pairs ag) i) = se_mode (entry ag i)"
  by (simp_all add: agent_update_candidate_pairs_def agent_update_ordered_pairs_def Let_def)

lemma check_request_roles:
  "sm_ice_controlling (check_request ag e m) = (if ag_mode ag = AGENT_MODE_CONTROLLING then ag_ice_tiebreaker ag else 0)"
  "sm_ice_controlled (check_request ag e m) = (if ag_mode ag = AGENT_MODE_CONTROLLED then ag_ice_tiebreaker ag else 0)"
  by (simp_all add: check_request_def Let_def)

lemma process_binding_error_mode:
  "se_mode (entry ag i) \<noteq> ag_mode ag \<Longrightarrow> ag_mode (agent_process_binding_error ag msg i) = ag_mode ag"
  by (simp add: agent_process_binding_error_def Let_def split_def upd_stun_def upd_pair_def agent_update_gathering_done_def
      agent_update_pac_timer_def current_timestamp_def emit_def split: option.split)

lemma both_controlling:
  assumes "ag_mode a = AGENT_MODE_CONTROLLING" "ag_mode b = AGENT_MODE_CONTROLLING" "ag_ice_tiebreaker b \<noteq> 0"
    "se_type (entry a i) = AGENT_STUN_ENTRY_TYPE_CHECK"
  shows "snd (agent_process_binding_request a (check_request b e m) i src) =
    (if ag_ice_tiebreaker b \<le> ag_ice_tiebreaker a
     then snd (agent_send_stun_binding a i STUN_CLASS_RESP_ERROR 487 (Some (sm_transaction_id (check_request b e m))) None)
     else agent_update_candidate_pairs (a\<lparr>ag_mode := AGENT_MODE_CONTROLLED\<rparr>))"
  using assms by (simp add: agent_process_binding_request_def check_request_roles)

text \<open>C10: Two controlling agents with different tiebreakers that process a connectivity check of each other end with
  different roles, the one with the larger tiebreaker as the controlling one. A role conflict error that reaches the
  other one later, for a check it sent while it was controlling, does not make it change back.\<close>

theorem role_conflict_resolved:
  assumes "ag_mode a = AGENT_MODE_CONTROLLING" "ag_mode b = AGENT_MODE_CONTROLLING"
    "ag_ice_tiebreaker b < ag_ice_tiebreaker a" "ag_ice_tiebreaker b \<noteq> 0"
    "se_type (entry a i) = AGENT_STUN_ENTRY_TYPE_CHECK" "se_type (entry b j) = AGENT_STUN_ENTRY_TYPE_CHECK"
    "j < length (ag_entries b)" "se_mode (entry b j) = AGENT_MODE_CONTROLLING"
    "a' = snd (agent_process_binding_request a (check_request b (entry b j) m) i src)"
    "b' = snd (agent_process_binding_request b (check_request a (entry a i) m') j src')"
  shows "ag_mode a' = AGENT_MODE_CONTROLLING \<and> ag_mode b' = AGENT_MODE_CONTROLLED
    \<and> ag_mode (agent_process_binding_error b' msg j) = AGENT_MODE_CONTROLLED"
proof -
  have a': "ag_mode a' = AGENT_MODE_CONTROLLING" using assms(1-5,9) by (simp add: both_controlling)
  have "ag_ice_tiebreaker a \<noteq> 0" using assms(3) by (metis word_not_simps(1))
  then have "b' = agent_update_candidate_pairs (b\<lparr>ag_mode := AGENT_MODE_CONTROLLED\<rparr>)"
    using assms(1-3,6,10) by (simp add: both_controlling)
  with assms(7,8) have b': "ag_mode b' = AGENT_MODE_CONTROLLED" "se_mode (entry b' j) = AGENT_MODE_CONTROLLING" by simp_all
  with a' show ?thesis using process_binding_error_mode by simp
qed

text \<open>C35: Two controlled agents, on the other hand, both take the controlling role, whatever their tiebreakers: the request of
  a controlled agent carries its tiebreaker in ICE-CONTROLLED, but the code compares with ICE-CONTROLLING, which is
  zero.\<close>

theorem both_controlled_both_switch:
  assumes "ag_mode a = AGENT_MODE_CONTROLLED" "ag_mode b = AGENT_MODE_CONTROLLED"
    "ag_ice_tiebreaker a \<noteq> 0" "ag_ice_tiebreaker b \<noteq> 0"
    "se_type (entry a i) = AGENT_STUN_ENTRY_TYPE_CHECK" "se_type (entry b j) = AGENT_STUN_ENTRY_TYPE_CHECK"
  shows "ag_mode (snd (agent_process_binding_request a (check_request b (entry b j) m) i src)) = AGENT_MODE_CONTROLLING
    \<and> ag_mode (snd (agent_process_binding_request b (check_request a (entry a i) m') j src')) = AGENT_MODE_CONTROLLING"
  using assms by (simp add: agent_process_binding_request_def check_request_roles)

text \<open>Two agents with one check each.\<close>

definition checking_agent :: "agent_mode \<Rightarrow> u64 \<Rightarrow> agent" where
  "checking_agent m t = (agent_create sample_env None 0 [] False)\<lparr>ag_mode := m, ag_ice_tiebreaker := t,
     ag_entries := [entry_zero\<lparr>se_type := AGENT_STUN_ENTRY_TYPE_CHECK, se_mode := m\<rparr>]\<rparr>"

lemma checking_agent_simps [simp]:
  "ag_mode (checking_agent m t) = m" "ag_ice_tiebreaker (checking_agent m t) = t"
  "ag_entries (checking_agent m t) = [entry_zero\<lparr>se_type := AGENT_STUN_ENTRY_TYPE_CHECK, se_mode := m\<rparr>]"
  by (simp_all add: checking_agent_def)

theorem role_conflict_resolved_witness:
  "ag_mode (snd (agent_process_binding_request (checking_agent AGENT_MODE_CONTROLLING 9)
     (check_request (checking_agent AGENT_MODE_CONTROLLING 5) (entry (checking_agent AGENT_MODE_CONTROLLING 5) 0) message_zero) 0 addr_zero))
   = AGENT_MODE_CONTROLLING"
  using role_conflict_resolved [of "checking_agent AGENT_MODE_CONTROLLING 9" "checking_agent AGENT_MODE_CONTROLLING 5" 0 0
      _ message_zero addr_zero _ message_zero addr_zero message_zero, OF _ _ _ _ _ _ _ _ refl refl] by simp

theorem both_controlled_both_switch_witness:
  "ag_mode (snd (agent_process_binding_request (checking_agent AGENT_MODE_CONTROLLED 9)
     (check_request (checking_agent AGENT_MODE_CONTROLLED 5) (entry (checking_agent AGENT_MODE_CONTROLLED 5) 0) message_zero) 0 addr_zero))
   = AGENT_MODE_CONTROLLING"
  using both_controlled_both_switch [of "checking_agent AGENT_MODE_CONTROLLED 9" "checking_agent AGENT_MODE_CONTROLLED 5" 0 0
      message_zero addr_zero message_zero addr_zero] by simp

section \<open>Authentication\<close>

definition authentic_request :: "agent \<Rightarrow> bytes \<Rightarrow> stun_message \<Rightarrow> bool" where
  "authentic_request ag buf msg \<longleftrightarrow> username_ok ag (cr_username (sm_credentials msg))
     \<and> (\<exists>pos. 20 \<le> pos \<and> pos < length buf
          \<and> integrity_at (generate_hmac_key msg (Some (id_ice_pwd (ag_local ag)))) buf pos)"

lemma verify_request:
  assumes "stun_read buf = Inr (n, msg)" "sm_class msg = STUN_CLASS_REQUEST" "sm_method msg = STUN_METHOD_BINDING"
    "\<not> authentic_request ag buf msg"
  shows "agent_verify_stun_binding ag buf msg = (-1, ag)"
  using assms accepted_integrity [of buf msg "Some (id_ice_pwd (ag_local ag))"]
    check_integrity_bounds [OF assms(1), of msg "Some (id_ice_pwd (ag_local ag))"]
  by (auto simp: agent_verify_stun_binding_def check_integrity_def authentic_request_def Let_def split: sum.split cerr.split)

text \<open>C7: A Binding request that is not authentic changes nothing: unless the user name is that of the agent and the packet carries
  an HMAC under the password of the agent's description, \<open>agent_input\<close> returns without any effect on
  the agent, whatever else the packet holds.\<close>

theorem unauthenticated_request_ignored:
  assumes "is_stun_datagram buf" "stun_read buf = Inr (n, msg)" "sm_class msg = STUN_CLASS_REQUEST"
    "sm_method msg = STUN_METHOD_BINDING" "\<not> authentic_request ag buf msg"
  shows "snd (agent_input ag buf src relayed) = ag"
proof -
  have "agent_process_stun_binding ag msg i src relayed = (-1, ag)" if "se_type (entry ag i) \<noteq> AGENT_STUN_ENTRY_TYPE_CHECK" for i
    using that assms(3) by (simp add: agent_process_stun_binding_def agent_process_binding_request_def)
  then have "\<exists>r. dispatch_method ag buf msg i src relayed = (Done r, ag)" if "\<not> sm_has_integrity msg" for i
    using that assms(3,4) by (simp add: dispatch_method_def)
  then have "\<exists>r. agent_dispatch_stun ag buf msg src relayed = (Done r, ag)"
    using assms(3,4) verify_request [OF assms(2-5)]
    by (auto simp: agent_dispatch_stun_def STUN_IS_RESPONSE_def Let_def split: option.split)
  then have "\<exists>r. agent_input_step ag buf src relayed = (Done r, ag)"
    using assms(1,2) by (auto simp: agent_input_step_def)
  then show ?thesis by (subst agent_input.simps) auto
qed

text \<open>The empty request: a header without attributes.\<close>

theorem unauthenticated_request_ignored_witness:
  "snd (agent_input gathered_agent (put16 1 @ put16 0 @ put32 STUN_MAGIC @ replicate 12 5) addr_zero None) = gathered_agent"
proof -
  let ?buf = "put16 1 @ put16 0 @ put32 STUN_MAGIC @ replicate 12 5 :: bytes"
  obtain msg where "stun_read ?buf = Inr (20, msg)" "sm_class msg = STUN_CLASS_REQUEST" "sm_method msg = STUN_METHOD_BINDING"
    "cr_username (sm_credentials msg) = []"
    by (simp add: stun_read_def getr_ok stun_read_loop.simps stun_read_finish_def Let_def
        message_zero_def credentials_zero_def)
  moreover have "is_stun_datagram ?buf" by (simp add: is_stun_datagram_def put16_def get16_def Let_def)
  moreover have "\<not> authentic_request gathered_agent ?buf msg"
    using calculation(4) by (simp add: authentic_request_def username_ok_def)
  ultimately show ?thesis by (intro unauthenticated_request_ignored)
qed

section \<open>Consent\<close>

text \<open>
  What the work on some entries leaves alone: the state and the pair of the other entries, the flags and the consent of
  all pairs. A pair may fail. The rules are in the collection \<open>spared\<close>.
\<close>

named_theorems spared

definition spared :: "nat set \<Rightarrow> agent \<Rightarrow> agent \<Rightarrow> bool" where
  "spared K a b \<longleftrightarrow> ag_ordered_pairs b = ag_ordered_pairs a \<and> ag_state b = ag_state a
     \<and> length (ag_entries b) = length (ag_entries a) \<and> length (ag_pairs b) = length (ag_pairs a)
     \<and> (\<forall>j < length (ag_entries a). j \<notin> K \<longrightarrow> se_state (entry b j) = se_state (entry a j) \<and> se_pair (entry b j) = se_pair (entry a j))
     \<and> (\<forall>p. ap_nominated (pair b p) = ap_nominated (pair a p) \<and> ap_consent_expiry (pair b p) = ap_consent_expiry (pair a p)
          \<and> (ap_state (pair b p) = ap_state (pair a p) \<or> ap_state (pair b p) = ICE_CANDIDATE_PAIR_STATE_FAILED))"

lemma spared_refl [simp]: "spared K a a"
  by (simp add: spared_def)

lemma spared_trans: "spared K a b \<Longrightarrow> spared L b c \<Longrightarrow> spared (K \<union> L) a c"
  unfolding spared_def by (metis Un_iff)

lemma core_select: "se_state (core e) = se_state e" "se_pair (core e) = se_pair e"
  by (simp_all add: core_def)

lemma spared_shell:
  assumes "spared K a b" "shell c = shell b"
  shows "spared K a c"
proof -
  have "length (ag_entries c) = length (ag_entries b)" using shell_eqD(10) [OF assms(2)] by (metis length_map)
  moreover have "se_state (entry c j) = se_state (entry b j) \<and> se_pair (entry c j) = se_pair (entry b j)"
    if "j < length (ag_entries b)" for j
  proof -
    have "core (entry c j) = core (entry b j)" using shell_eqD(10) [OF assms(2)] that by (metis length_map nth_map)
    then show ?thesis by (metis core_select)
  qed
  ultimately show ?thesis using assms(1) shell_eqD(2,3,4) [OF assms(2)] by (simp add: spared_def)
qed

lemma spared_upd_stun [spared]: "spared {k} a b \<Longrightarrow> spared {k} a (upd_stun k f b)"
  by (simp add: spared_def upd_stun_def)

lemma spared_upd_pair [spared]:
  "spared K a b \<Longrightarrow> spared K a (upd_pair p (\<lambda>p. p\<lparr>ap_state := ICE_CANDIDATE_PAIR_STATE_FAILED\<rparr>) b)"
  by (cases "p < length (ag_pairs b)") (auto simp: spared_def upd_pair_def nth_list_update list_update_beyond)

lemma spared_basic [spared]:
  assumes "spared K a b"
  shows "spared K a (snd (current_timestamp b))" "spared K a (fault f b)" "spared K a (snd (juice_rand32 b))"
    "spared K a (emit ev b)" "spared K a (fresh_tid b i)" "spared K a (snd (book_transmit b i))"
    "spared K a (snd (agent_send_turn_allocate_request b i m))" "spared K a (snd (agent_send_stun_binding b i c ec tid mapped))"
  by (rule spared_shell [OF assms], simp add: shell juice_rand32_def Let_def split_def)+

lemma spared_timers [spared]:
  assumes "spared K a b"
  shows "spared K a (agent_update_pac_timer b)" "spared K a (agent_update_gathering_done b)"
proof -
  have pac: "spared K a (agent_update_pac_timer c)" if "spared K a c" for c
    using that by (simp add: agent_update_pac_timer_def current_timestamp_def spared_def)
  then show "spared K a (agent_update_pac_timer b)" using assms .
  have "spared K a (b\<lparr>ag_local := (ag_local b)\<lparr>id_finished := True\<rparr>, ag_gathering_done := True\<rparr>)"
    using assms by (simp add: spared_def)
  with pac assms show "spared K a (agent_update_gathering_done b)"
    by (simp add: agent_update_gathering_done_def spared)
qed

lemma spared_arm [spared]:
  assumes "spared {k} a b"
  shows "spared {k} a (agent_arm_transmission b k delay)" "spared {k} a (agent_arm_keepalive b k)"
proof -
  have arm: "spared {k} a (agent_arm_transmission c k delay)" if "spared {k} a c" for c delay
    using that by (simp add: agent_arm_transmission_def Let_def split_def spared split: option.split)
  then show "spared {k} a (agent_arm_transmission b k delay)" using assms .
  show "spared {k} a (agent_arm_keepalive b k)"
    using assms by (simp add: agent_arm_keepalive_def Let_def split_def spared arm split: agent_stun_entry_type.split)
qed

lemma spared_book_entry: "spared {k} a (book_entry now k a)"
  by (simp add: book_entry_def book_pending_def book_keepalive_def book_fail_def Let_def split_def spared split: option.split)

lemma spared_book_entries: "spared (set ks) a (fold (book_entry now) ks a)"
proof (induction ks arbitrary: a)
  case (Cons k ks)
  then show ?case using spared_trans [OF spared_book_entry [of k a now] Cons.IH] by simp
qed simp

lemma book_entries_expired:
  assumes "i < length (ag_entries ag)" "se_pair (entry ag i) = Some n" "se_state (entry ag i) = AGENT_STUN_ENTRY_STATE_SUCCEEDED_KEEPALIVE"
    "ap_consent_expiry (pair ag n) \<le> now" "n < length (ag_pairs ag)"
  shows "ap_state (pair (fold (book_entry now) [0..<length (ag_entries ag)] ag) n) = ICE_CANDIDATE_PAIR_STATE_FAILED"
proof -
  let ?b = "fold (book_entry now) [0..<i] ag"
  have "[0..<length (ag_entries ag)] = [0..<i] @ i # [Suc i..<length (ag_entries ag)]"
    using assms(1) by (metis upt_add_eq_append upt_conv_Cons le_add_diff_inverse less_imp_le zero_le)
  then have eq: "fold (book_entry now) [0..<length (ag_entries ag)] ag =
    fold (book_entry now) [Suc i..<length (ag_entries ag)] (book_entry now i ?b)" by simp
  have "spared (set [0..<i]) ag ?b" by (rule spared_book_entries)
  then have "i < length (ag_entries ?b)" "se_pair (entry ?b i) = Some n" "se_state (entry ?b i) = AGENT_STUN_ENTRY_STATE_SUCCEEDED_KEEPALIVE"
    "ap_consent_expiry (pair ?b n) \<le> now" "n < length (ag_pairs ?b)"
    using assms by (simp_all add: spared_def)
  then have "ap_state (pair (book_entry now i ?b) n) = ICE_CANDIDATE_PAIR_STATE_FAILED"
    by (simp add: book_entry_def book_keepalive_def Let_def upd_stun_def upd_pair_def)
  then show ?thesis using spared_book_entries [of "[Suc i..<length (ag_entries ag)]" "book_entry now i ?b" now]
    unfolding eq spared_def by metis
qed

text \<open>The pass over the pairs freezes pending ones only.\<close>

lemma scan_pairs_failed:
  assumes "ap_state (pair ag n) = ICE_CANDIDATE_PAIR_STATE_FAILED"
  shows "ap_state (pair (snd (snd (snd (scan_pairs ag)))) n) = ICE_CANDIDATE_PAIR_STATE_FAILED"
proof -
  let ?ok = "\<lambda>b. ap_state (pair b n) = ICE_CANDIDATE_PAIR_STATE_FAILED"
  have freeze: "?ok (freeze_pair p b)" if "?ok b" "ap_state (pair b p) = ICE_CANDIDATE_PAIR_STATE_PENDING" for p b
    using that by (cases "p < length (ag_pairs b)") (auto simp: freeze_pair_def upd_pair_def nth_list_update list_update_beyond)
  have "?ok (snd (snd (snd x))) \<Longrightarrow> ?ok (snd (snd (snd (fold scan_pair ps x))))" for ps x
    by (induction ps arbitrary: x) (auto simp: scan_pair_def freeze split: prod.split)
  from this [of "(0, None, None, ag)" "ag_ordered_pairs ag"] assms
  have "?ok (snd (snd (snd (fold scan_pair (ag_ordered_pairs ag) (0, None, None, ag)))))" by simp
  moreover have "?ok b \<Longrightarrow> ?ok (fold (\<lambda>p ag. if p \<noteq> m \<and> ap_state (pair ag p) = ICE_CANDIDATE_PAIR_STATE_PENDING
                             then freeze_pair p ag else ag) ps b)" for ps b m
    by (induction ps arbitrary: b) (auto simp: freeze)
  ultimately show ?thesis by (auto simp: scan_pairs_def split: prod.split)
qed


text \<open>An agent that has completed on its only pair, whose consent expired at time 100; its clock stands at 120.\<close>

definition completed_agent :: agent where
  "completed_agent = (agent_create sample_env None 0 [] False)\<lparr>ag_state := JUICE_STATE_COMPLETED,
     ag_pairs := [\<lparr>ap_local = None, ap_remote = 0, ap_priority = 7, ap_state = ICE_CANDIDATE_PAIR_STATE_SUCCEEDED,
       ap_nominated = True, ap_nomination_requested = True, ap_consent_expiry = 100\<rparr>], ag_ordered_pairs := [0],
     ag_entries := [entry_zero\<lparr>se_type := AGENT_STUN_ENTRY_TYPE_CHECK, se_pair := Some 0,
       se_state := AGENT_STUN_ENTRY_STATE_SUCCEEDED_KEEPALIVE, se_next_transmission := 130\<rparr>],
     ag_selected_pair := Some 0, ag_selected_entry := Some 0\<rparr>"


end
