(* ===== verification/Probing.thy ===== *)
theory Probing
  imports Addr
begin

text \<open>
  Linear probing, the loop that the allocation table of the server (\<open>server.c\<close>) and the map of the
  multiplexer (\<open>conn_mux.c\<close>) both contain: from the position of the key around the table, to the first position where the search stops.
\<close>

function probe_loop :: "(nat \<Rightarrow> bool) \<Rightarrow> nat \<Rightarrow> nat \<Rightarrow> nat \<Rightarrow> nat option" where
  "probe_loop stops sz key pos =
     (if sz \<le> pos \<or> sz \<le> key then None
      else if stops pos then Some pos
      else let pos' = (pos + 1) mod sz in if pos' = key then None else probe_loop stops sz key pos')"
  by pat_completeness auto
termination
proof (relation "measure (\<lambda>(stops, sz, key, pos). if pos < key then key - pos else sz + key - pos)", goal_cases)
  case (2 stops sz key pos pos')
  then show ?case by (cases "pos + 1 = sz") auto
qed simp

declare probe_loop.simps [simp del]

lemma probe_from:
  assumes "key < sz" "d < sz"
  shows "probe_loop stops sz key ((key + d) mod sz) = Some p \<longleftrightarrow>
    (\<exists>e. d \<le> e \<and> e < sz \<and> p = (key + e) mod sz \<and> stops p \<and> (\<forall>f. d \<le> f \<and> f < e \<longrightarrow> \<not> stops ((key + f) mod sz)))"
  using assms(2)
proof (induction "sz - d" arbitrary: d rule: less_induct)
  case less
  let ?q = "\<lambda>e. (key + e) mod sz"
  have inj: "?q e = key \<longleftrightarrow> e = 0" if "e < sz" for e
    using assms(1) that by (cases "key + e < sz") (auto simp: mod_if)
  have range: "\<not> sz \<le> ?q e" for e using assms(1) by (simp add: not_le)
  show ?case
  proof (cases "stops (?q d)")
    case True
    then have "probe_loop stops sz key (?q d) = Some (?q d)" using assms(1) range by (simp add: probe_loop.simps)
    moreover have "e = d" if "d \<le> e" "\<forall>f. d \<le> f \<and> f < e \<longrightarrow> \<not> stops (?q f)" for e
      using that True by (metis le_neq_implies_less order_refl)
    ultimately show ?thesis using True less.prems by auto
  next
    case False
    have next_pos: "(?q d + 1) mod sz = ?q (d + 1)" by (simp add: mod_simps)
    have split: "(\<exists>e. d \<le> e \<and> P e) \<longleftrightarrow> (\<exists>e. d + 1 \<le> e \<and> P e)" if "\<not> P d" for P
      using that by (metis Suc_eq_plus1 Suc_leI le_neq_implies_less less_imp_le_nat Suc_le_lessD)
    have all: "(\<forall>f. d \<le> f \<and> f < e \<longrightarrow> \<not> stops (?q f)) \<longleftrightarrow> (\<forall>f. d + 1 \<le> f \<and> f < e \<longrightarrow> \<not> stops (?q f))" for e
      using False by (metis Suc_eq_plus1 Suc_leI le_neq_implies_less less_imp_le_nat Suc_le_lessD)
    show ?thesis
    proof (cases "d + 1 < sz")
      case True
      then have "probe_loop stops sz key (?q d) = probe_loop stops sz key (?q (d + 1))"
        using assms(1) False range inj [of "d + 1"] next_pos by (simp add: probe_loop.simps [of stops sz key "?q d"])
      with less.hyps [of "d + 1"] True show ?thesis
        using False unfolding all by (subst split) auto
    next
      case last: False
      then have "d + 1 = sz" using less.prems by simp
      then have "probe_loop stops sz key (?q d) = None"
        using assms(1) False range next_pos by (simp add: probe_loop.simps [of stops sz key "?q d"])
      moreover have "e = d" if "d \<le> e" "e < sz" for e using that last by simp
      ultimately show ?thesis using False by auto
    qed
  qed
qed

lemma probe_Some:
  assumes "key < sz"
  shows "probe_loop stops sz key key = Some p \<longleftrightarrow>
    (\<exists>e < sz. p = (key + e) mod sz \<and> stops p \<and> (\<forall>f < e. \<not> stops ((key + f) mod sz)))"
  using probe_from [of key sz 0 stops p] assms by simp

lemma probe_None:
  assumes "key < sz" "p < sz" "stops p"
  shows "probe_loop stops sz key key \<noteq> None"
proof -
  let ?P = "\<lambda>e. e < sz \<and> stops ((key + e) mod sz)"
  have "(key + (p + sz - key)) mod sz = p" using assms(1,2) by simp
  then have "?P ((p + sz - key) mod sz)" using assms by (simp add: mod_add_right_eq)
  then have least: "?P (LEAST e. ?P e)" by (rule LeastI)
  moreover have "\<not> stops ((key + f) mod sz)" if "f < (LEAST e. ?P e)" for f
    using not_less_Least [OF that] least that by auto
  ultimately show ?thesis using probe_Some [OF assms(1), of stops "(key + (LEAST e. ?P e)) mod sz"] by auto
qed

text \<open>A position that probing returns lies in the table.\<close>

lemma probe_loop_range: "probe_loop stops sz key pos = Some p \<Longrightarrow> p < sz \<and> stops p"
  by (induction stops sz key pos rule: probe_loop.induct) (subst (asm) (2) probe_loop.simps, auto simp: Let_def split: if_splits)

end
