(* ===== verification/Server.thy ===== *)
theory Server
  imports Turn Ice Stun_Write Stun_Read Probing
begin

text \<open>
  The STUN and TURN server (\<open>server.h\<close>, \<open>server.c\<close>). The table of allocations is a list, a pointer to an
  allocation is its index, a pointer to a node of the list of credentials is an address, which is
  never used for two nodes; a node that was freed is no longer in the list, and an access through a pointer to it is a fault.

  What the server takes from outside is in the environment, as for the agent: the readings of the
  clock, random bytes, the results of sending, the sockets that \<open>udp_create_socket\<close> returns with their ports and addresses, \<open>getaddrinfo\<close>, the
  bytes of an address structure (\<open>sx_raw\<close>), and uninitialised stack memory. Memory allocation succeeds. What it sends, and
  the sockets it closes, is appended to \<open>sv_out\<close>; undefined behaviour is recorded in \<open>sv_fault\<close>, and the state after it has no
  meaning. An operation runs under the mutex of the server and is one step.
\<close>

section \<open>Data\<close>

abbreviation (input) SERVER_DEFAULT_MAX_ALLOCATIONS :: int where "SERVER_DEFAULT_MAX_ALLOCATIONS \<equiv> 1000"
abbreviation (input) SERVER_DEFAULT_MAX_PEERS :: int where "SERVER_DEFAULT_MAX_PEERS \<equiv> 16"
abbreviation (input) SERVER_NONCE_KEY_SIZE :: nat where "SERVER_NONCE_KEY_SIZE \<equiv> 32"
abbreviation (input) SERVER_NONCE_KEY_LIFETIME :: int where "SERVER_NONCE_KEY_LIFETIME \<equiv> 600 * 1000"
abbreviation (input) ALLOCATION_LIFETIME :: int where "ALLOCATION_LIFETIME \<equiv> 600000"
abbreviation (input) SERVER_PERMISSION_LIFETIME :: int where "SERVER_PERMISSION_LIFETIME \<equiv> 300000"
abbreviation (input) SERVER_BIND_LIFETIME :: int where "SERVER_BIND_LIFETIME \<equiv> 600000"
abbreviation (input) MAX_RELAYED_RECORDS_COUNT :: nat where "MAX_RELAYED_RECORDS_COUNT \<equiv> 8"
abbreviation (input) SERVER_BUFFER_SIZE :: nat where "SERVER_BUFFER_SIZE \<equiv> 4096"

datatype server_turn_alloc_state = SERVER_TURN_ALLOC_EMPTY | SERVER_TURN_ALLOC_DELETED | SERVER_TURN_ALLOC_FULL

record server_turn_alloc =
  al_state :: server_turn_alloc_state
  al_record :: addr_record
  al_credentials :: "nat option"
  al_transaction_id :: bytes
  al_timestamp :: int
  al_sock :: "nat option"
  al_map :: turn_map

record juice_credentials_list =
  cl_address :: nat
  cl_username :: bytes
  cl_password :: bytes
  cl_allocations_quota :: int
  cl_userhash :: bytes
  cl_timestamp :: int

record juice_server_credentials =
  jc_username :: "bytes option"
  jc_password :: "bytes option"
  jc_allocations_quota :: int

record juice_server_config =
  jf_credentials :: "juice_server_credentials list"
  jf_max_allocations :: int
  jf_max_peers :: int
  jf_bind_address :: "bytes option"
  jf_external_address :: "bytes option"
  jf_port :: u16
  jf_relay_port_range_begin :: u16
  jf_relay_port_range_end :: u16
  jf_realm :: "bytes option"

datatype server_output = ToClient addr_record bytes | ToPeer nat addr_record bytes | SocketClosed nat

datatype server_fault = DivisionByZero | NullAccess | UseAfterFree | BufferOverrun

record server_env =
  sx_clock :: "nat \<Rightarrow> int"
  sx_rand :: "nat \<Rightarrow> bytes"
  sx_send :: "nat \<Rightarrow> int"
  sx_socket :: "nat \<Rightarrow> nat option"
  sx_port :: "nat \<Rightarrow> u16"
  sx_addrs :: "nat \<Rightarrow> addr_record list"
  sx_gai :: "bytes \<Rightarrow> bytes \<Rightarrow> (sockaddr \<times> nat) list option"
  sx_raw :: "addr_record \<Rightarrow> bytes"
  sx_stack :: bytes
  sx_junk :: bytes

record server =
  sv_config :: juice_server_config
  sv_credentials :: "juice_credentials_list list"
  sv_nonce_key :: bytes
  sv_nonce_key_timestamp :: int
  sv_thread_stopped :: bool
  sv_allocs :: "server_turn_alloc list"
  sv_next_address :: nat
  sv_out :: "server_output list"
  sv_fault :: "server_fault option"
  sv_env :: server_env
  sv_ticks :: nat
  sv_rands :: nat
  sv_sends :: nat
  sv_socks :: nat

abbreviation (input) empty_map :: turn_map where
  "empty_map \<equiv> \<lparr>tm_map = [], tm_ordered_channels = [], tm_ordered_transaction_ids = []\<rparr>"

definition alloc_zero :: server_turn_alloc where
  "alloc_zero = \<lparr>al_state = SERVER_TURN_ALLOC_EMPTY, al_record = addr_zero, al_credentials = None,
     al_transaction_id = replicate 12 0, al_timestamp = 0, al_sock = Some 0, al_map = empty_map\<rparr>"

abbreviation alloc :: "server \<Rightarrow> nat \<Rightarrow> server_turn_alloc" where "alloc sv i \<equiv> sv_allocs sv ! i"

definition upd_alloc :: "nat \<Rightarrow> (server_turn_alloc \<Rightarrow> server_turn_alloc) \<Rightarrow> server \<Rightarrow> server" where
  "upd_alloc i f sv = sv\<lparr>sv_allocs := (sv_allocs sv)[i := f (alloc sv i)]\<rparr>"

definition sfault :: "server_fault \<Rightarrow> server \<Rightarrow> server" where
  "sfault f sv = sv\<lparr>sv_fault := (case sv_fault sv of None \<Rightarrow> Some f | Some g \<Rightarrow> Some g)\<rparr>"

definition semit :: "server_output \<Rightarrow> server \<Rightarrow> server" where
  "semit ev sv = sv\<lparr>sv_out := sv_out sv @ [ev]\<rparr>"

text \<open>The node at an address, and a change to it.\<close>

definition node_at :: "server \<Rightarrow> nat \<Rightarrow> juice_credentials_list option" where
  "node_at sv a = find (\<lambda>n. cl_address n = a) (sv_credentials sv)"

definition upd_quota :: "nat \<Rightarrow> int \<Rightarrow> server \<Rightarrow> server" where
  "upd_quota a d sv =
     (if node_at sv a = None then sfault UseAfterFree sv
      else sv\<lparr>sv_credentials := map (\<lambda>n. if cl_address n = a
                then n\<lparr>cl_allocations_quota := cl_allocations_quota n + d\<rparr> else n) (sv_credentials sv)\<rparr>)"

section \<open>The environment\<close>

definition server_clock :: "server \<Rightarrow> int \<times> server" where
  "server_clock sv = (sx_clock (sv_env sv) (sv_ticks sv), sv\<lparr>sv_ticks := sv_ticks sv + 1\<rparr>)"

definition server_random :: "nat \<Rightarrow> server \<Rightarrow> bytes \<times> server" where
  "server_random n sv = (take n (sx_rand (sv_env sv) (sv_rands sv) @ replicate n 0), sv\<lparr>sv_rands := sv_rands sv + 1\<rparr>)"

definition server_socket :: "server \<Rightarrow> nat option \<times> server" where
  "server_socket sv = (sx_socket (sv_env sv) (sv_socks sv), sv\<lparr>sv_socks := sv_socks sv + 1\<rparr>)"

text \<open>\<open>udp_sendto\<close> on the socket of the server and on a relay socket.\<close>

definition server_send :: "server \<Rightarrow> addr_record \<Rightarrow> bytes \<Rightarrow> int \<times> server" where
  "server_send sv dst data =
     (sx_send (sv_env sv) (sv_sends sv), semit (ToClient dst data) (sv\<lparr>sv_sends := sv_sends sv + 1\<rparr>))"

definition relay_send :: "server \<Rightarrow> nat option \<Rightarrow> addr_record \<Rightarrow> bytes \<Rightarrow> int \<times> server" where
  "relay_send sv sock dst data =
     (case sock of
        None \<Rightarrow> (-1, sv)
      | Some s \<Rightarrow> (sx_send (sv_env sv) (sv_sends sv), semit (ToPeer s dst data) (sv\<lparr>sv_sends := sv_sends sv + 1\<rparr>)))"

section \<open>Allocations\<close>

definition alloc_stops :: "server_turn_alloc list \<Rightarrow> addr_record \<Rightarrow> bool \<Rightarrow> nat \<Rightarrow> bool" where
  "alloc_stops allocs record allow_deleted pos \<longleftrightarrow>
     al_state (allocs ! pos) = SERVER_TURN_ALLOC_EMPTY
     \<or> allow_deleted \<and> al_state (allocs ! pos) = SERVER_TURN_ALLOC_DELETED
     \<or> addr_record_is_equal (al_record (allocs ! pos)) record True"

definition alloc_key :: "server_turn_alloc list \<Rightarrow> addr_record \<Rightarrow> nat" where
  "alloc_key allocs record = unat (addr_record_hash record True) mod length allocs"

definition find_allocation :: "server \<Rightarrow> addr_record \<Rightarrow> bool \<Rightarrow> nat option \<times> server" where
  "find_allocation sv record allow_deleted =
     (if sv_allocs sv = [] then (None, sfault DivisionByZero sv)
      else (probe_loop (alloc_stops (sv_allocs sv) record allow_deleted) (length (sv_allocs sv))
              (alloc_key (sv_allocs sv) record) (alloc_key (sv_allocs sv) record), sv))"

definition delete_allocation :: "nat \<Rightarrow> server \<Rightarrow> server" where
  "delete_allocation i sv =
     (if al_state (alloc sv i) \<noteq> SERVER_TURN_ALLOC_FULL then sv
      else let sv = (case al_credentials (alloc sv i) of None \<Rightarrow> sfault NullAccess sv | Some c \<Rightarrow> upd_quota c 1 sv);
               sv = (case al_sock (alloc sv i) of None \<Rightarrow> sv | Some s \<Rightarrow> semit (SocketClosed s) sv)
           in upd_alloc i (\<lambda>a. a\<lparr>al_state := SERVER_TURN_ALLOC_DELETED, al_map := empty_map, al_sock := None,
                             al_credentials := None\<rparr>) sv)"

section \<open>Credentials and creation\<close>

definition c_or_empty :: "bytes option \<Rightarrow> bytes" where
  "c_or_empty s = (case s of None \<Rightarrow> [] | Some s \<Rightarrow> s)"

definition server_realm :: "server \<Rightarrow> bytes" where
  "server_realm sv = c_or_empty (jf_realm (sv_config sv))"

text \<open>A new node at the head of the list.\<close>

definition server_do_add_credentials :: "server \<Rightarrow> juice_server_credentials \<Rightarrow> int \<Rightarrow> server" where
  "server_do_add_credentials sv c lifetime =
     (let username = c_or_empty (jc_username c);
          (timestamp, sv) = (if 0 < lifetime then let (now, sv) = server_clock sv in (now + lifetime, sv) else (0, sv))
      in sv\<lparr>sv_credentials := \<lparr>cl_address = sv_next_address sv, cl_username = username,
               cl_password = c_or_empty (jc_password c), cl_allocations_quota = jc_allocations_quota c,
               cl_userhash = stun_compute_userhash username (server_realm sv), cl_timestamp = timestamp\<rparr> # sv_credentials sv,
             sv_next_address := sv_next_address sv + 1\<rparr>)"

definition unlimited :: "int \<Rightarrow> juice_credentials_list \<Rightarrow> juice_credentials_list" where
  "unlimited max_allocations n = (if cl_allocations_quota n = 0 then n\<lparr>cl_allocations_quota := max_allocations\<rparr> else n)"

definition server_raise_max :: "juice_server_credentials \<Rightarrow> server \<Rightarrow> server" where
  "server_raise_max c sv =
     (if jf_max_allocations (sv_config sv) < jc_allocations_quota c
      then sv\<lparr>sv_config := (sv_config sv)\<lparr>jf_max_allocations := jc_allocations_quota c\<rparr>\<rparr> else sv)"

text \<open>The table grows in place; the new entries are zero.\<close>

definition server_grow :: "server \<Rightarrow> server" where
  "server_grow sv = sv\<lparr>sv_allocs := sv_allocs sv
     @ replicate (nat (jf_max_allocations (sv_config sv)) - length (sv_allocs sv)) alloc_zero\<rparr>"

definition server_add_credentials :: "server \<Rightarrow> juice_server_credentials \<Rightarrow> int \<Rightarrow> int \<times> server" where
  "server_add_credentials sv c lifetime =
     (let sv = server_raise_max c sv;
          sv = server_grow sv;
          sv = server_do_add_credentials sv c lifetime
      in (0, sv\<lparr>sv_credentials := (case sv_credentials sv of [] \<Rightarrow> []
                 | n # ns \<Rightarrow> unlimited (jf_max_allocations (sv_config sv)) n # ns)\<rparr>))"

text \<open>A new server, when its socket opens; \<open>port\<close> is the port that socket is bound to. The number of credentials is that of the list.\<close>

definition server_create :: "server_env \<Rightarrow> u16 \<Rightarrow> juice_server_config \<Rightarrow> server" where
  "server_create env port config =
     (let realm = (case jf_realm config of None \<Rightarrow> ascii ''libjuice'' | Some r \<Rightarrow> if r = [] then ascii ''libjuice'' else r);
          max_allocations = (if 0 < jf_max_allocations config then jf_max_allocations config else SERVER_DEFAULT_MAX_ALLOCATIONS);
          sv = \<lparr>sv_config = config\<lparr>jf_credentials := [], jf_max_allocations := max_allocations, jf_realm := Some realm\<rparr>,
                sv_credentials = [], sv_nonce_key = replicate 32 0, sv_nonce_key_timestamp = 0, sv_thread_stopped = False,
                sv_allocs = [], sv_next_address = 0, sv_out = [], sv_fault = None, sv_env = env, sv_ticks = 0, sv_rands = 0,
                sv_sends = 0, sv_socks = 0\<rparr>;
          sv = (if jf_credentials config = [] then sv
                else let sv = sv\<lparr>sv_allocs := replicate (nat max_allocations) alloc_zero\<rparr>;
                         sv = fold (\<lambda>c sv. server_do_add_credentials (server_raise_max c sv) c 0) (jf_credentials config) sv
                     in sv\<lparr>sv_credentials := map (unlimited (jf_max_allocations (sv_config sv))) (sv_credentials sv)\<rparr>)
      in sv\<lparr>sv_config := (sv_config sv)\<lparr>jf_port := port,
             jf_max_peers := (if jf_max_peers config = 0 then SERVER_DEFAULT_MAX_PEERS else jf_max_peers config)\<rparr>\<rparr>)"

definition server_get_port :: "server \<Rightarrow> u16" where
  "server_get_port sv = jf_port (sv_config sv)"

section \<open>Answers\<close>

definition nonce_char :: "u8 \<Rightarrow> u8" where
  "nonce_char d = ascii ''ABCDEFGHIJKLMNOPQRSTUVWXYZabcdefghijklmnopqrstuvwxyz0123456789-_'' ! (unat d mod 64)"

definition server_get_nonce :: "server \<Rightarrow> addr_record \<Rightarrow> bytes \<times> server" where
  "server_get_nonce sv src =
     (let (now, sv) = server_clock sv;
          sv = (if sv_nonce_key_timestamp sv \<le> now
                then let (key, sv) = server_random SERVER_NONCE_KEY_SIZE sv
                     in sv\<lparr>sv_nonce_key := key, sv_nonce_key_timestamp := now + SERVER_NONCE_KEY_LIFETIME\<rparr>
                else sv);
          digest = hmac_sha256 ph_uninit (sx_raw (sv_env sv) src) (sv_nonce_key sv)
      in (stun_prepend_nonce_cookie (map nonce_char digest), sv))"

text \<open>\<open>credentials\<close> is the node that the pointer of the code refers to, or none.\<close>

definition server_prepare_credentials ::
  "server \<Rightarrow> addr_record \<Rightarrow> juice_credentials_list option \<Rightarrow> stun_message \<Rightarrow> stun_message \<times> server" where
  "server_prepare_credentials sv src credentials msg =
     (let (nonce, sv) = server_get_nonce sv src;
          c = (sm_credentials msg)\<lparr>cr_realm := snprintf_str STUN_MAX_REALM_LEN (server_realm sv), cr_nonce := nonce\<rparr>
      in (msg\<lparr>sm_credentials := (case credentials of None \<Rightarrow> c
            | Some n \<Rightarrow> c\<lparr>cr_username := snprintf_str STUN_MAX_USERNAME_LEN (cl_username n)\<rparr>)\<rparr>, sv))"

definition server_stun_send :: "server \<Rightarrow> addr_record \<Rightarrow> stun_message \<Rightarrow> bytes option \<Rightarrow> int \<times> server" where
  "server_stun_send sv dst msg password =
     (case stun_write (take SERVER_BUFFER_SIZE (sx_stack (sv_env sv) @ replicate SERVER_BUFFER_SIZE 0)) msg password (sx_junk (sv_env sv)) of
        Inl OutOfBounds \<Rightarrow> (-1, sfault BufferOverrun sv)
      | Inl Fail \<Rightarrow> (-1, sv)
      | Inr (buffer, sz) \<Rightarrow>
          if sz \<le> 0 then (-1, sv)
          else let (r, sv) = server_send sv dst (take (nat sz) buffer) in (if r < 0 then -1 else 0, sv))"

definition server_answer_stun_binding :: "server \<Rightarrow> bytes \<Rightarrow> addr_record \<Rightarrow> int \<times> server" where
  "server_answer_stun_binding sv tid src =
     server_stun_send sv src (message_zero\<lparr>sm_class := STUN_CLASS_RESP_SUCCESS, sm_method := STUN_METHOD_BINDING,
       sm_mapped := src, sm_transaction_id := tid\<rparr>) None"

definition server_answer_stun_error ::
  "server \<Rightarrow> bytes \<Rightarrow> addr_record \<Rightarrow> u16 \<Rightarrow> u32 \<Rightarrow> juice_credentials_list option \<Rightarrow> int \<times> server" where
  "server_answer_stun_error sv tid src m code credentials =
     (let ans = message_zero\<lparr>sm_class := STUN_CLASS_RESP_ERROR, sm_method := m, sm_error_code := code, sm_transaction_id := tid\<rparr>;
          (ans, sv) = (if m \<noteq> STUN_METHOD_BINDING then server_prepare_credentials sv src credentials ans else (ans, sv))
      in server_stun_send sv src ans (map_option cl_password credentials))"

definition server_process_stun_binding :: "server \<Rightarrow> stun_message \<Rightarrow> addr_record \<Rightarrow> int \<times> server" where
  "server_process_stun_binding sv msg src = server_answer_stun_binding sv (sm_transaction_id msg) src"

text \<open>The error answer to a request, and the success answer that carries the credentials of the client.\<close>

definition refuse :: "server \<Rightarrow> stun_message \<Rightarrow> addr_record \<Rightarrow> u32 \<Rightarrow> juice_credentials_list \<Rightarrow> int \<times> server" where
  "refuse sv msg src code c = server_answer_stun_error sv (sm_transaction_id msg) src (sm_method msg) code (Some c)"

definition accept :: "server \<Rightarrow> stun_message \<Rightarrow> addr_record \<Rightarrow> stun_message \<Rightarrow> juice_credentials_list \<Rightarrow> int \<times> server" where
  "accept sv msg src ans c =
     (let ans = ans\<lparr>sm_class := STUN_CLASS_RESP_SUCCESS, sm_transaction_id := sm_transaction_id msg\<rparr>;
          (ans, sv) = server_prepare_credentials sv src (Some c) ans
      in server_stun_send sv src ans (Some (cl_password c)))"

section \<open>Allocate and Refresh\<close>

definition relayed_records :: "server \<Rightarrow> nat option \<Rightarrow> addr_record list" where
  "relayed_records sv sock =
     (let port = (case sock of None \<Rightarrow> 0 | Some s \<Rightarrow> sx_port (sv_env sv) s)
      in case jf_external_address (sv_config sv) of
           Some host \<Rightarrow>
             (case addr_resolve (sx_gai (sv_env sv)) host (snprintf_str 8 (print_u (unat port))) MAX_RELAYED_RECORDS_COUNT of
                Inl _ \<Rightarrow> [] | Inr (_, rs) \<Rightarrow> rs)
         | None \<Rightarrow> (case sock of None \<Rightarrow> [] | Some s \<Rightarrow> take MAX_RELAYED_RECORDS_COUNT (sx_addrs (sv_env sv) s)))"

text \<open>The first IPv4 record, otherwise the first record.\<close>

definition pick_relayed :: "addr_record list \<Rightarrow> addr_record option" where
  "pick_relayed rs = (case find (\<lambda>r. sa_family (ar_addr r) = AF_INET) rs of
     Some r \<Rightarrow> Some r | None \<Rightarrow> (case rs of [] \<Rightarrow> None | r # _ \<Rightarrow> Some r))"

definition granted_lifetime :: "stun_message \<Rightarrow> u32" where
  "granted_lifetime msg = (if sm_lifetime_set msg \<and> sm_lifetime msg < 600 then sm_lifetime msg else 600)"

definition allocate_answer :: "server \<Rightarrow> stun_message \<Rightarrow> addr_record \<Rightarrow> juice_credentials_list \<Rightarrow> addr_record option \<Rightarrow> int \<times> server" where
  "allocate_answer sv msg src c relayed =
     (let ans = message_zero\<lparr>sm_method := sm_method msg, sm_lifetime := granted_lifetime msg, sm_lifetime_set := True, sm_mapped := src\<rparr>
      in accept sv msg src (case relayed of None \<Rightarrow> ans | Some r \<Rightarrow> ans\<lparr>sm_relayed := r\<rparr>) c)"

text \<open>The second half of the function, for an allocation that exists or was just made.\<close>

definition allocate_finish :: "server \<Rightarrow> stun_message \<Rightarrow> addr_record \<Rightarrow> juice_credentials_list \<Rightarrow> nat \<Rightarrow> int \<times> server" where
  "allocate_finish sv msg src c i =
     (let lifetime = granted_lifetime msg;
          (now, sv) = server_clock sv;
          sv = upd_alloc i (\<lambda>a. a\<lparr>al_timestamp := now + uint lifetime * 1000, al_transaction_id := sm_transaction_id msg\<rparr>) sv
      in if lifetime = 0 then allocate_answer (delete_allocation i sv) msg src c None
         else case pick_relayed (relayed_records sv (al_sock (alloc sv i))) of
                None \<Rightarrow> (-1, snd (refuse (delete_allocation i sv) msg src 500 c))
              | Some r \<Rightarrow> allocate_answer sv msg src c (Some r))"

definition allocate_new :: "nat \<Rightarrow> addr_record \<Rightarrow> juice_credentials_list \<Rightarrow> nat \<Rightarrow> server \<Rightarrow> server" where
  "allocate_new i src c sock sv =
     upd_quota (cl_address c) (-1)
       (upd_alloc i (\<lambda>a. a\<lparr>al_sock := Some sock, al_map := the (turn_init_map True (nat (jf_max_peers (sv_config sv)))),
                       al_state := SERVER_TURN_ALLOC_FULL, al_record := src, al_credentials := Some (cl_address c)\<rparr>) sv)"

definition server_process_turn_allocate :: "server \<Rightarrow> stun_message \<Rightarrow> addr_record \<Rightarrow> juice_credentials_list \<Rightarrow> int \<times> server" where
  "server_process_turn_allocate sv msg src c =
     (if sm_class msg \<noteq> STUN_CLASS_REQUEST then (-1, sv)
      else if sm_method msg \<noteq> STUN_METHOD_ALLOCATE \<and> sm_method msg \<noteq> STUN_METHOD_REFRESH then (-1, sv)
      else case find_allocation sv src True of
        (None, sv) \<Rightarrow> refuse sv msg src 486 c
      | (Some i, sv) \<Rightarrow>
          if al_state (alloc sv i) = SERVER_TURN_ALLOC_FULL
          then if sm_method msg = STUN_METHOD_ALLOCATE \<and> al_transaction_id (alloc sv i) \<noteq> sm_transaction_id msg
               then refuse sv msg src 437 c
               else if al_credentials (alloc sv i) \<noteq> Some (cl_address c) then refuse sv msg src 441 c
               else allocate_finish sv msg src c i
          else if sm_method msg = STUN_METHOD_REFRESH then refuse sv msg src 437 c
          else if cl_allocations_quota c \<le> 0 then refuse sv msg src 486 c
          else case server_socket sv of
                 (None, sv) \<Rightarrow> (-1, snd (refuse (upd_alloc i (\<lambda>a. a\<lparr>al_sock := None\<rparr>) sv) msg src 500 c))
               | (Some sock, sv) \<Rightarrow> allocate_finish (allocate_new i src c sock sv) msg src c i)"

section \<open>Permissions, channels and data\<close>

text \<open>The allocation of a client that its credentials give access to.\<close>

definition with_allocation ::
  "server \<Rightarrow> stun_message \<Rightarrow> addr_record \<Rightarrow> juice_credentials_list \<Rightarrow> (nat \<Rightarrow> server \<Rightarrow> int \<times> server) \<Rightarrow> int \<times> server" where
  "with_allocation sv msg src c f =
     (case find_allocation sv src False of
        (None, sv) \<Rightarrow> refuse sv msg src 437 c
      | (Some i, sv) \<Rightarrow>
          if al_state (alloc sv i) \<noteq> SERVER_TURN_ALLOC_FULL then refuse sv msg src 437 c
          else if al_credentials (alloc sv i) \<noteq> Some (cl_address c) then refuse sv msg src 441 c
          else f i sv)"

definition server_set_permission :: "nat \<Rightarrow> bytes \<Rightarrow> addr_record \<Rightarrow> server \<Rightarrow> bool \<times> server" where
  "server_set_permission i tid peer sv =
     (let (now, sv) = server_clock sv;
          (ok, m) = turn_set_permission (al_map (alloc sv i)) tid (Some peer) now SERVER_PERMISSION_LIFETIME
      in (ok, upd_alloc i (\<lambda>a. a\<lparr>al_map := m\<rparr>) sv))"

fun set_permissions :: "nat \<Rightarrow> bytes \<Rightarrow> addr_record list \<Rightarrow> server \<Rightarrow> bool \<times> server" where
  "set_permissions i tid [] sv = (True, sv)"
| "set_permissions i tid (peer # peers) sv =
     (let (ok, sv) = server_set_permission i tid peer sv in if ok then set_permissions i tid peers sv else (False, sv))"

definition server_process_turn_create_permission ::
  "server \<Rightarrow> stun_message \<Rightarrow> addr_record \<Rightarrow> juice_credentials_list \<Rightarrow> int \<times> server" where
  "server_process_turn_create_permission sv msg src c =
     (if sm_class msg \<noteq> STUN_CLASS_REQUEST then (-1, sv)
      else if sm_peers msg = [] then refuse sv msg src 400 c
      else with_allocation sv msg src c (\<lambda>i sv.
        let (ok, sv) = set_permissions i (sm_transaction_id msg) (sm_peers msg) sv
        in if \<not> ok then (-1, snd (refuse sv msg src 500 c))
           else accept sv msg src (message_zero\<lparr>sm_method := STUN_METHOD_CREATE_PERMISSION\<rparr>) c))"

definition server_bind_channel :: "nat \<Rightarrow> bytes \<Rightarrow> addr_record \<Rightarrow> u16 \<Rightarrow> server \<Rightarrow> bool \<times> server" where
  "server_bind_channel i tid peer channel sv =
     (let (now, sv) = server_clock sv
      in case turn_bind_channel (al_map (alloc sv i)) (Some peer) (Some tid) channel now SERVER_BIND_LIFETIME of
           Inl _ \<Rightarrow> (False, sfault BufferOverrun sv)
         | Inr (ok, m) \<Rightarrow> (ok, upd_alloc i (\<lambda>a. a\<lparr>al_map := m\<rparr>) sv))"

definition server_process_turn_channel_bind ::
  "server \<Rightarrow> stun_message \<Rightarrow> addr_record \<Rightarrow> juice_credentials_list \<Rightarrow> int \<times> server" where
  "server_process_turn_channel_bind sv msg src c =
     (if sm_class msg \<noteq> STUN_CLASS_REQUEST then (-1, sv)
      else if sm_peers msg = [] then refuse sv msg src 400 c
      else if sm_channel_number msg = 0 then refuse sv msg src 400 c
      else with_allocation sv msg src c (\<lambda>i sv.
        if \<not> is_valid_channel (sm_channel_number msg) then refuse sv msg src 400 c
        else let peer = hd (sm_peers msg);
                 (ok, sv) = server_bind_channel i (sm_transaction_id msg) peer (sm_channel_number msg) sv
             in if \<not> ok then (-1, snd (refuse sv msg src 500 c))
                else let (ok, sv) = server_set_permission i (sm_transaction_id msg) peer sv
                     in if \<not> ok then (-1, snd (refuse sv msg src 500 c))
                        else accept sv msg src (message_zero\<lparr>sm_method := STUN_METHOD_CHANNEL_BIND\<rparr>) c))"

definition server_process_turn_send :: "server \<Rightarrow> stun_message \<Rightarrow> addr_record \<Rightarrow> int \<times> server" where
  "server_process_turn_send sv msg src =
     (if sm_class msg \<noteq> STUN_CLASS_INDICATION then (-1, sv)
      else case sm_data msg of
        None \<Rightarrow> (-1, sv)
      | Some data \<Rightarrow>
          if sm_peers msg = [] then (-1, sv)
          else case find_allocation sv src False of
            (None, sv) \<Rightarrow> (-1, sv)
          | (Some i, sv) \<Rightarrow>
              if al_state (alloc sv i) \<noteq> SERVER_TURN_ALLOC_FULL then (-1, sv)
              else let (now, sv) = server_clock sv; peer = hd (sm_peers msg)
                   in if \<not> turn_has_permission (al_map (alloc sv i)) peer now then (-1, sv)
                      else relay_send sv (al_sock (alloc sv i)) peer data)"

definition server_process_channel_data :: "server \<Rightarrow> bytes \<Rightarrow> addr_record \<Rightarrow> int \<times> server" where
  "server_process_channel_data sv buf src =
     (case find_allocation sv src False of
        (None, sv) \<Rightarrow> (-1, sv)
      | (Some i, sv) \<Rightarrow>
          if al_state (alloc sv i) \<noteq> SERVER_TURN_ALLOC_FULL then (-1, sv)
          else if length buf < 4 then (-1, sv)
          else let channel = get16 buf; len = unat (get16 (drop 2 buf))
               in if length buf - 4 < len then (-1, sv)
                  else let (now, sv) = server_clock sv
                       in case turn_find_bound_channel (al_map (alloc sv i)) channel now of
                            None \<Rightarrow> (-1, sv)
                          | Some r \<Rightarrow> (0, snd (relay_send sv (al_sock (alloc sv i)) r (take len (drop 4 buf)))))"

section \<open>Dispatch\<close>

definition node_valid :: "int \<Rightarrow> juice_credentials_list \<Rightarrow> bool" where
  "node_valid now n \<longleftrightarrow> cl_timestamp n = 0 \<or> now < cl_timestamp n"

definition node_matches :: "stun_credentials \<Rightarrow> juice_credentials_list \<Rightarrow> bool" where
  "node_matches c n \<longleftrightarrow>
     (if cr_enable_userhash c then const_time_memcmp (cl_userhash n) (cr_userhash c) USERHASH_SIZE = 0
      else const_time_strcmp (cl_username n @ [0]) (cr_username c @ [0]) = Some 0)"

text \<open>The loop goes on after a match, so the last node that matches is taken.\<close>

definition find_credentials :: "server \<Rightarrow> stun_credentials \<Rightarrow> int \<Rightarrow> juice_credentials_list option" where
  "find_credentials sv c now =
     fold (\<lambda>n found. if node_valid now n \<and> node_matches c n then Some n else found) (sv_credentials sv) None"

text \<open>
  The authentication of a request: \<open>Inl\<close> the result after an error answer, \<open>Inr\<close> the node of the user and the message, in which a user hash
  is replaced by the name.
\<close>

definition server_authenticate ::
  "server \<Rightarrow> bytes \<Rightarrow> stun_message \<Rightarrow> addr_record \<Rightarrow> (int + juice_credentials_list \<times> stun_message) \<times> server" where
  "server_authenticate sv buf msg src =
     (let error = (\<lambda>code sv. server_answer_stun_error sv (sm_transaction_id msg) src (sm_method msg) code None);
          c = sm_credentials msg
      in if \<not> sm_has_integrity msg \<or> cr_realm c = [] \<or> cr_nonce c = [] \<or> (cr_username c = [] \<and> \<not> cr_enable_userhash c)
         then (let (r, sv) = error 401 sv in (Inl r, sv))
         else let (nonce, sv) = server_get_nonce sv src
              in if cr_nonce c \<noteq> nonce \<or> cr_realm c \<noteq> server_realm sv then (let (r, sv) = error 438 sv in (Inl r, sv))
                 else let (now, sv) = server_clock sv
                      in case find_credentials sv c now of
                           None \<Rightarrow> (Inl (-1), snd (error 401 sv))
                         | Some n \<Rightarrow>
                             let msg = (if cr_enable_userhash c
                                        then msg\<lparr>sm_credentials := c\<lparr>cr_username := snprintf_str STUN_MAX_USERNAME_LEN (cl_username n)\<rparr>\<rparr>
                                        else msg)
                             in (case stun_check_integrity buf msg (Some (cl_password n)) of
                                   Inl OutOfBounds \<Rightarrow> (Inl (-1), sfault BufferOverrun sv)
                                 | Inl Fail \<Rightarrow> (Inl (-1), snd (error 401 sv))
                                 | Inr ok \<Rightarrow> if ok then (Inr (n, msg), sv) else (Inl (-1), snd (error 401 sv))))"

text \<open>The methods whose processing takes the credentials of a request.\<close>

definition server_process_turn :: "server \<Rightarrow> stun_message \<Rightarrow> addr_record \<Rightarrow> juice_credentials_list \<Rightarrow> int \<times> server" where
  "server_process_turn sv msg src c =
     (if sm_method msg = STUN_METHOD_ALLOCATE \<or> sm_method msg = STUN_METHOD_REFRESH then server_process_turn_allocate sv msg src c
      else if sm_method msg = STUN_METHOD_CREATE_PERMISSION then server_process_turn_create_permission sv msg src c
      else if sm_method msg = STUN_METHOD_CHANNEL_BIND then server_process_turn_channel_bind sv msg src c
      else if sm_method msg = STUN_METHOD_SEND then server_process_turn_send sv msg src
      else (-1, sv))"

definition server_dispatch_stun :: "server \<Rightarrow> bytes \<Rightarrow> stun_message \<Rightarrow> addr_record \<Rightarrow> int \<times> server" where
  "server_dispatch_stun sv buf msg src =
     (let error = (\<lambda>code. server_answer_stun_error sv (sm_transaction_id msg) src (sm_method msg) code None);
          indication = (sm_class msg = STUN_CLASS_INDICATION)
      in if \<not> (sm_class msg = STUN_CLASS_REQUEST
                \<or> indication \<and> (sm_method msg = STUN_METHOD_BINDING \<or> sm_method msg = STUN_METHOD_SEND)) then (-1, sv)
         else if sv_allocs sv = [] \<and> sm_method msg \<noteq> STUN_METHOD_BINDING then error 400
         else if sm_error_code msg = STUN_ERROR_INTERNAL_VALIDATION_FAILED
         then if sm_class msg = STUN_CLASS_REQUEST then error 400 else (-1, sv)
         else if sm_method msg = STUN_METHOD_BINDING then server_process_stun_binding sv msg src
         else if indication then server_process_turn_send sv msg src
         else case server_authenticate sv buf msg src of
                (Inl r, sv) \<Rightarrow> (r, sv)
              | (Inr (c, msg), sv) \<Rightarrow> server_process_turn sv msg src c)"

definition server_input :: "server \<Rightarrow> bytes \<Rightarrow> addr_record \<Rightarrow> int \<times> server" where
  "server_input sv buf src =
     (if is_stun_datagram buf
      then case stun_read buf of
             Inl OutOfBounds \<Rightarrow> (-1, sfault BufferOverrun sv)
           | Inl Fail \<Rightarrow> (-1, sv)
           | Inr (_, msg) \<Rightarrow> server_dispatch_stun sv buf msg src
      else if is_channel_data buf then server_process_channel_data sv buf src
      else (-1, sv))"

section \<open>Receiving\<close>

text \<open>What \<open>udp_recvfrom\<close> returns: a datagram of at most \<open>BUFFER_SIZE\<close> bytes, an error, or that there is none (the end of a list).\<close>

datatype received = Datagram bytes addr_record | ReceiveError

definition unmap_record :: "addr_record \<Rightarrow> addr_record" where
  "unmap_record r = (case addr_unmap_inet6_v4mapped (ar_addr r) of None \<Rightarrow> r | Some (sa, len) \<Rightarrow> \<lparr>ar_addr = sa, ar_len = len\<rparr>)"

fun server_recv :: "server \<Rightarrow> received list \<Rightarrow> int \<times> server" where
  "server_recv sv [] = (0, sv)"
| "server_recv sv (ReceiveError # xs) = (-1, sv)"
| "server_recv sv (Datagram buf r # xs) =
     (if buf = [] then server_recv sv xs else server_recv (snd (server_input sv buf (unmap_record r))) xs)"

text \<open>The loop of \<open>server_forward\<close> ends with its first datagram in every case.\<close>

definition server_forward :: "server \<Rightarrow> nat \<Rightarrow> received list \<Rightarrow> int \<times> server" where
  "server_forward sv i xs =
     (case xs of
        [] \<Rightarrow> (0, sv)
      | ReceiveError # _ \<Rightarrow> (-1, sv)
      | Datagram buf r # _ \<Rightarrow>
          let r = unmap_record r; m = al_map (alloc sv i);
              (now, sv) = server_clock sv
          in if \<not> turn_has_permission m r now then (-1, sv)
             else let (now, sv) = server_clock sv
                  in case turn_get_bound_channel m r now of
                       Some channel \<Rightarrow>
                         (case turn_wrap_channel_data (take SERVER_BUFFER_SIZE (buf @ replicate SERVER_BUFFER_SIZE 0)) buf channel of
                            Inl _ \<Rightarrow> (-1, sv)
                          | Inr (buffer, len) \<Rightarrow> server_send sv (al_record (alloc sv i)) (take len buffer))
                     | None \<Rightarrow>
                         let (tid, sv) = server_random 12 sv
                         in server_stun_send sv (al_record (alloc sv i))
                              (message_zero\<lparr>sm_class := STUN_CLASS_INDICATION, sm_method := STUN_METHOD_DATA, sm_peers := [r],
                                 sm_data := Some buf, sm_transaction_id := tid\<rparr>) None)"

section \<open>Bookkeeping and the main loop\<close>

definition book_alloc :: "int \<Rightarrow> nat \<Rightarrow> int \<times> server \<Rightarrow> int \<times> server" where
  "book_alloc now i x =
     (case x of (next_timestamp, sv) \<Rightarrow>
        if al_state (alloc sv i) \<noteq> SERVER_TURN_ALLOC_FULL then x
        else if al_timestamp (alloc sv i) \<le> now then (next_timestamp, delete_allocation i sv)
        else (min next_timestamp (al_timestamp (alloc sv i)), sv))"

definition server_bookkeeping :: "server \<Rightarrow> int \<times> server" where
  "server_bookkeeping sv =
     (let (now, sv) = server_clock sv;
          (next_timestamp, sv) = fold (book_alloc now) [0..<length (sv_allocs sv)] (now + 60000, sv)
      in (next_timestamp, sv\<lparr>sv_credentials := filter (node_valid now) (sv_credentials sv)\<rparr>))"

text \<open>
  What \<open>poll\<close> returns: an interruption, a failure, or the events: an error on the socket of the server, the datagrams waiting there, if it is ready,
  and those of the relay sockets, by index. While it waits the mutex is free and other operations run, so the loop is given
  in two halves: \<open>server_run_wait\<close> up to the call, with the number of relay sockets that are polled, and \<open>server_run_events\<close> after it. The
  boolean tells whether the loop goes on.
\<close>

datatype server_poll = PollInterrupted | PollFailed | PollEvents bool "received list option" "nat \<Rightarrow> received list option"

definition server_run_wait :: "server \<Rightarrow> int \<times> nat \<times> server" where
  "server_run_wait sv =
     (let (next_timestamp, sv) = server_bookkeeping sv; (now, sv) = server_clock sv
      in (max 0 (next_timestamp - now), length (sv_allocs sv), sv))"

definition forward_ready :: "nat \<Rightarrow> (nat \<Rightarrow> received list option) \<Rightarrow> nat \<Rightarrow> server \<Rightarrow> server" where
  "forward_ready nfd relays i sv =
     (if al_state (alloc sv i) \<noteq> SERVER_TURN_ALLOC_FULL then sv
      else if nfd \<le> i then sfault BufferOverrun sv
      else case relays i of None \<Rightarrow> sv | Some xs \<Rightarrow> snd (server_forward sv i xs))"

definition server_run_events :: "nat \<Rightarrow> server_poll \<Rightarrow> server \<Rightarrow> bool \<times> server" where
  "server_run_events nfd p sv =
     (case p of
        PollInterrupted \<Rightarrow> (True, sv)
      | PollFailed \<Rightarrow> (False, sv)
      | PollEvents bad main relays \<Rightarrow>
          if sv_thread_stopped sv \<or> bad then (False, sv)
          else let (r, sv) = (case main of None \<Rightarrow> (0, sv) | Some xs \<Rightarrow> server_recv sv xs)
               in if r < 0 then (False, sv)
                  else (True, fold (forward_ready nfd relays) [0..<length (sv_allocs sv)] sv))"

text \<open>Destruction: the thread is told to stop, and the allocations are deleted once it has.\<close>

definition server_stop :: "server \<Rightarrow> server" where
  "server_stop sv = sv\<lparr>sv_thread_stopped := True\<rparr>"

definition server_do_destroy :: "server \<Rightarrow> server" where
  "server_do_destroy sv = (fold delete_allocation [0..<length (sv_allocs sv)] sv)\<lparr>sv_allocs := [], sv_credentials := []\<rparr>"

end
