(* ===== verification/Stun_Shape.thy ===== *)
theory Stun_Shape
  imports Stun_Read
begin

text \<open>The shape of the messages that \<open>stun_read\<close> returns, for the tables that keep their transaction ids and peers.\<close>

section \<open>Messages as they are read\<close>

text \<open>A message that was read has a transaction id of twelve bytes and peers of the two address families.\<close>

definition msg_ok :: "stun_message \<Rightarrow> bool" where
  "msg_ok msg \<longleftrightarrow> length (sm_transaction_id msg) = 12 \<and> (\<forall>r \<in> set (sm_peers msg). addr_known (ar_addr r))"

lemma msg_ok_update [simp]:
  "msg_ok (msg\<lparr>sm_credentials := c\<rparr>) = msg_ok msg" "msg_ok (msg\<lparr>sm_mapped := r\<rparr>) = msg_ok msg"
  "msg_ok (msg\<lparr>sm_alternate_server := r\<rparr>) = msg_ok msg" "msg_ok (msg\<lparr>sm_error_code := e\<rparr>) = msg_ok msg"
  "msg_ok (msg\<lparr>sm_has_integrity := x\<rparr>) = msg_ok msg" "msg_ok (msg\<lparr>sm_has_fingerprint := x\<rparr>) = msg_ok msg"
  "msg_ok (msg\<lparr>sm_priority := p\<rparr>) = msg_ok msg" "msg_ok (msg\<lparr>sm_use_candidate := x\<rparr>) = msg_ok msg"
  "msg_ok (msg\<lparr>sm_ice_controlling := t\<rparr>) = msg_ok msg" "msg_ok (msg\<lparr>sm_ice_controlled := t\<rparr>) = msg_ok msg"
  "msg_ok (msg\<lparr>sm_channel_number := n\<rparr>) = msg_ok msg" "msg_ok (msg\<lparr>sm_lifetime := l, sm_lifetime_set := x\<rparr>) = msg_ok msg"
  "msg_ok (msg\<lparr>sm_relayed := r\<rparr>) = msg_ok msg" "msg_ok (msg\<lparr>sm_data := d\<rparr>) = msg_ok msg"
  "msg_ok (msg\<lparr>sm_even_port := x, sm_next_port := y\<rparr>) = msg_ok msg" "msg_ok (msg\<lparr>sm_requested_transport := x\<rparr>) = msg_ok msg"
  "msg_ok (msg\<lparr>sm_dont_fragment := x\<rparr>) = msg_ok msg" "msg_ok (msg\<lparr>sm_reservation_token := t\<rparr>) = msg_ok msg"
  by (simp_all add: msg_ok_def)

lemma pa_loop_ok: "pa_loop rest msg = Inr m \<Longrightarrow> msg_ok m = msg_ok msg"
  by (induction rest msg arbitrary: m rule: pa_loop.induct)
    (subst (asm) (2) pa_loop.simps, auto simp: Let_def split: if_splits)

lemma read_nonce_ok: "read_nonce val msg bits = Inr (m, b) \<Longrightarrow> msg_ok m = msg_ok msg"
  by (auto simp: read_nonce_def Let_def split: if_splits sum.splits cerr.splits)

lemma read_password_algorithms_ok: "read_password_algorithms val msg = Inr m \<Longrightarrow> msg_ok m = msg_ok msg"
  by (auto simp: read_password_algorithms_def Let_def split: if_splits dest: pa_loop_ok)

lemma mapped_address_known:
  "stun_read_value_mapped_address val m msk = Inr (n, r) \<Longrightarrow> r = m \<or> addr_known (ar_addr r)"
  by (auto simp: stun_read_value_mapped_address_def bindr_eq_Inr split: if_splits)

lemma read_xor_peer_ok: "read_xor_peer val msg = Inr m \<Longrightarrow> msg_ok msg \<Longrightarrow> msg_ok m"
  by (auto simp: read_xor_peer_def bindr_eq_Inr msg_ok_def addr_zero_def dest!: mapped_address_known split: if_splits)

lemmas read_other_defs = read_mapped_def read_alternate_server_def read_error_code_def read_unknown_attributes_def
  read_username_def read_integrity_def read_fingerprint_def read_realm_def read_password_algorithm_def
  read_userhash_def read_software_def read_priority_def read_ice_controlling_def read_ice_controlled_def
  read_channel_number_def read_lifetime_def read_xor_relayed_def read_even_port_def
  read_requested_transport_def read_reservation_token_def

lemma stun_read_value_ok:
  assumes "stun_read_value buf pos type val msg bits = Inr (m, b)" "msg_ok msg"
  shows "msg_ok m"
proof -
  have keep: "bindr r (\<lambda>msg. Inr (msg, bits)) = Inr (m, b) \<longleftrightarrow> r = Inr m \<and> b = bits" for r :: "stun_message res"
    by (cases r) auto
  show ?thesis
    using assms unfolding stun_read_value_def Let_def keep
    by (simp split: if_splits add: read_nonce_ok;
       (auto simp: read_other_defs bindr_eq_Inr dest: read_password_algorithms_ok read_xor_peer_ok split: if_splits)?)
qed

lemma stun_read_attr_ok:
  assumes "stun_read_attr buf pos sz msg bits = Inr (ret, m, b)" "msg_ok msg"
  shows "msg_ok m"
  using assms by (auto simp: stun_read_attr_def Let_def bindr_eq_Inr split: if_splits dest: stun_read_value_ok)

lemma stun_read_loop_ok: "stun_read_loop buf pos en msg bits = Inr (m, b) \<Longrightarrow> msg_ok msg \<Longrightarrow> msg_ok m"
proof (induction buf pos en msg bits rule: stun_read_loop.induct)
  case (1 buf pos en msg bits)
  show ?case
  proof (cases "pos < en")
    case True
    with 1(2) obtain ret msg' bits' where r: "stun_read_attr buf pos (en - pos) msg bits = Inr (ret, msg', bits')"
      and rest: "ret \<noteq> 0" "stun_read_loop buf (pos + ret) en msg' bits' = Inr (m, b)"
      by (auto simp: stun_read_loop.simps [of buf pos] split: sum.splits if_splits prod.splits)
    then show ?thesis using 1(1) [OF True r refl refl rest] stun_read_attr_ok [OF r 1(3)] by blast
  next
    case False
    with 1 show ?thesis by (simp add: stun_read_loop.simps)
  qed
qed

lemma stun_read_ok:
  assumes "stun_read buf = Inr (n, m)"
  shows "msg_ok m"
proof -
  have fin: "msg_ok (stun_read_finish msg bits) = msg_ok msg" for msg bits
    by (simp add: stun_read_finish_def Let_def)
  from assms obtain h c t msg bits where "getr buf 0 20 = Inr h" and m: "m = stun_read_finish msg bits"
    and loop: "stun_read_loop buf 20 (20 + unat (get16 (drop 2 h))) (message_zero\<lparr>sm_class := c, sm_method := t, sm_transaction_id := drop 8 h\<rparr>) 0 = Inr (msg, bits)"
    unfolding stun_read_def Let_def by (fastforce simp: bindr_eq_Inr split: if_splits)
  then have "length h = 20" by (auto simp: getr_eq_Inr)
  then have "msg_ok (message_zero\<lparr>sm_class := c, sm_method := t, sm_transaction_id := drop 8 h\<rparr>)"
    by (simp add: msg_ok_def message_zero_def)
  with stun_read_loop_ok [OF loop] fin m show ?thesis by simp
qed

end
