(* ===== verification/Server_Runs.thy ===== *)
theory Server_Runs
  imports Server Turn_Runs Stun_Shape Stun_Integrity
begin

text \<open>
  What every operation of the server keeps of the tables of allocations and credentials. Two states are in the
  relation \<open>sound\<close> when the second is well-formed if the first is, and every user that is still known has as many allocations, in use or
  left in the quota, as before. The rules are in the collection \<open>sound\<close>.
\<close>

section \<open>What sending leaves alone\<close>

named_theorems tables

lemma tables_basic [tables, simp]:
  "sv_allocs (sfault f sv) = sv_allocs sv" "sv_credentials (sfault f sv) = sv_credentials sv"
  "sv_config (sfault f sv) = sv_config sv" "sv_next_address (sfault f sv) = sv_next_address sv"
  "sv_allocs (semit ev sv) = sv_allocs sv" "sv_credentials (semit ev sv) = sv_credentials sv"
  "sv_config (semit ev sv) = sv_config sv" "sv_next_address (semit ev sv) = sv_next_address sv"
  "sv_allocs (snd (server_clock sv)) = sv_allocs sv" "sv_credentials (snd (server_clock sv)) = sv_credentials sv"
  "sv_config (snd (server_clock sv)) = sv_config sv" "sv_next_address (snd (server_clock sv)) = sv_next_address sv"
  "sv_allocs (snd (server_random n sv)) = sv_allocs sv" "sv_credentials (snd (server_random n sv)) = sv_credentials sv"
  "sv_config (snd (server_random n sv)) = sv_config sv" "sv_next_address (snd (server_random n sv)) = sv_next_address sv"
  "sv_allocs (snd (server_socket sv)) = sv_allocs sv" "sv_credentials (snd (server_socket sv)) = sv_credentials sv"
  "sv_config (snd (server_socket sv)) = sv_config sv" "sv_next_address (snd (server_socket sv)) = sv_next_address sv"
  by (simp_all add: sfault_def semit_def server_clock_def server_random_def server_socket_def)

definition same_tables :: "server \<Rightarrow> server \<Rightarrow> bool" where
  "same_tables a b \<longleftrightarrow> sv_allocs b = sv_allocs a \<and> sv_credentials b = sv_credentials a \<and> sv_config b = sv_config a
     \<and> sv_next_address b = sv_next_address a"

lemma same_tables_refl [simp]: "same_tables a a"
  by (simp add: same_tables_def)

lemma same_tables_basic [tables]:
  assumes "same_tables a b"
  shows "same_tables a (sfault f b)" "same_tables a (semit ev b)" "same_tables a (snd (server_clock b))"
    "same_tables a (snd (server_random n b))" "same_tables a (snd (server_socket b))"
    "same_tables a (snd (server_send b dst data))" "same_tables a (snd (relay_send b sock dst data))"
    "same_tables a (snd (find_allocation b r d))"
  using assms by (simp_all add: same_tables_def server_send_def relay_send_def find_allocation_def semit_def split: option.split)

lemma same_tables_nonce [tables]: "same_tables a b \<Longrightarrow> same_tables a (snd (server_get_nonce b src))"
  by (simp add: server_get_nonce_def Let_def split_def same_tables_def)

lemma same_tables_answers [tables]:
  assumes "same_tables a b"
  shows "same_tables a (snd (server_stun_send b dst msg pw))" "same_tables a (snd (server_prepare_credentials b src c msg))"
  using assms by (simp_all add: server_stun_send_def server_prepare_credentials_def Let_def split_def tables split: sum.split cerr.split)

lemma same_tables_error [tables]: "same_tables a b \<Longrightarrow> same_tables a (snd (server_answer_stun_error b tid src m code c))"
  by (simp add: server_answer_stun_error_def Let_def split_def tables)

lemma same_tables_refuse [tables]:
  assumes "same_tables a b"
  shows "same_tables a (snd (refuse b msg src code c))" "same_tables a (snd (accept b msg src ans c))"
    "same_tables a (snd (allocate_answer b msg src c r))" "same_tables a (snd (server_process_stun_binding b msg src))"
  using assms by (simp_all add: refuse_def accept_def allocate_answer_def server_process_stun_binding_def
      server_answer_stun_binding_def Let_def split_def tables)

lemma same_tables_data [tables]:
  assumes "same_tables a b"
  shows "same_tables a (snd (server_process_turn_send b msg src))" "same_tables a (snd (server_process_channel_data b buf src))"
    "same_tables a (snd (server_forward b i xs))"
  using assms by (simp_all add: server_process_turn_send_def server_process_channel_data_def server_forward_def Let_def split_def tables
      split: option.split sum.split list.split received.split)

lemma same_tables_authenticate [tables]:
  "same_tables a b \<Longrightarrow> same_tables a (snd (server_authenticate b buf msg src))"
  by (simp add: server_authenticate_def Let_def split_def tables split: option.split sum.split cerr.split)

section \<open>Well-formed tables and quotas\<close>

definition alloc_ok :: "nat \<Rightarrow> server_turn_alloc \<Rightarrow> bool" where
  "alloc_ok next x \<longleftrightarrow> (al_state x = SERVER_TURN_ALLOC_FULL \<longrightarrow> server_table (al_map x) \<and> al_sock x \<noteq> None
     \<and> addr_known (ar_addr (al_record x)) \<and> (\<exists>a < next. al_credentials x = Some a))"

definition server_ok :: "server \<Rightarrow> bool" where
  "server_ok sv \<longleftrightarrow> distinct (map cl_address (sv_credentials sv)) \<and> (\<forall>n \<in> set (sv_credentials sv). cl_address n < sv_next_address sv)
     \<and> 0 < jf_max_peers (sv_config sv) \<and> (\<forall>x \<in> set (sv_allocs sv). alloc_ok (sv_next_address sv) x)"

text \<open>The number of allocations that a user has.\<close>

abbreviation owns :: "nat \<Rightarrow> server_turn_alloc \<Rightarrow> bool" where
  "owns a x \<equiv> al_state x = SERVER_TURN_ALLOC_FULL \<and> al_credentials x = Some a"

definition owned :: "server_turn_alloc list \<Rightarrow> nat \<Rightarrow> int" where
  "owned xs a = sum_list (map (\<lambda>x. of_bool (owns a x)) xs)"

lemma owned_update: "i < length xs \<Longrightarrow> owned (xs[i := x]) a = owned xs a + of_bool (owns a x) - of_bool (owns a (xs ! i))"
  by (induction xs arbitrary: i) (auto simp: owned_def nth_Cons' split: nat.splits)

lemma owned_append: "owned (xs @ ys) a = owned xs a + owned ys a"
  by (simp add: owned_def)

definition kept_user :: "server \<Rightarrow> server_turn_alloc list \<Rightarrow> juice_credentials_list \<Rightarrow> bool" where
  "kept_user a xs n' \<longleftrightarrow> sv_next_address a \<le> cl_address n' \<or> (\<exists>n \<in> set (sv_credentials a). cl_address n = cl_address n'
     \<and> cl_allocations_quota n' + owned xs (cl_address n') = cl_allocations_quota n + owned (sv_allocs a) (cl_address n')
     \<and> (0 \<le> cl_allocations_quota n \<longrightarrow> 0 \<le> cl_allocations_quota n'))"

definition sound :: "server \<Rightarrow> server \<Rightarrow> bool" where
  "sound a b \<longleftrightarrow> (server_ok a \<longrightarrow> server_ok b \<and> sv_next_address a \<le> sv_next_address b
     \<and> (\<forall>n \<in> set (sv_credentials b). kept_user a (sv_allocs b) n))"

named_theorems sound

lemma sound_refl [simp]: "sound a a"
  by (auto simp: sound_def kept_user_def)

lemma sound_trans: "sound a b \<Longrightarrow> sound b c \<Longrightarrow> sound a c"
  unfolding sound_def kept_user_def by (metis (no_types, lifting) order_trans)

lemma sound_tables: "sound a b \<Longrightarrow> same_tables b c \<Longrightarrow> sound a c"
  by (simp add: sound_def kept_user_def same_tables_def server_ok_def)

lemma sound_upd_alloc:
  assumes "sound a b" "\<And>x. al_state (f x) = al_state x" "\<And>x. al_credentials (f x) = al_credentials x"
    "server_ok b \<Longrightarrow> i < length (sv_allocs b) \<Longrightarrow> alloc_ok (sv_next_address b) (f (alloc b i))"
  shows "sound a (upd_alloc i f b)"
proof -
  have "sound b (upd_alloc i f b)"
  proof (cases "i < length (sv_allocs b)")
    case True
    then have "owned ((sv_allocs b)[i := f (alloc b i)]) u = owned (sv_allocs b) u" for u
      using assms(2,3) by (simp add: owned_update)
    with True assms(4) show ?thesis
      by (auto simp: sound_def kept_user_def upd_alloc_def server_ok_def dest!: set_update_subset_insert [THEN subsetD])
  next
    case False
    then show ?thesis by (simp add: upd_alloc_def list_update_beyond)
  qed
  with assms(1) show ?thesis by (rule sound_trans)
qed

lemma node_at_None: "node_at sv a = None \<longleftrightarrow> a \<notin> cl_address ` set (sv_credentials sv)"
  by (auto simp: node_at_def find_None_iff)

lemma upd_quota_tables [simp]:
  "sv_allocs (upd_quota a d sv) = sv_allocs sv" "sv_config (upd_quota a d sv) = sv_config sv"
  "sv_next_address (upd_quota a d sv) = sv_next_address sv"
  "map cl_address (sv_credentials (upd_quota a d sv)) = map cl_address (sv_credentials sv)"
  by (simp_all add: upd_quota_def comp_def if_distrib)

lemma upd_quota_nodes:
  assumes "n' \<in> set (sv_credentials (upd_quota a d sv))"
  obtains n where "n \<in> set (sv_credentials sv)" "cl_address n = cl_address n'"
    "cl_allocations_quota n' = cl_allocations_quota n + (if cl_address n = a then d else 0)"
proof (cases "node_at sv a = None")
  case True
  with assms show ?thesis by (intro that [of n']) (auto simp: upd_quota_def node_at_None)
next
  case False
  with assms obtain n where "n \<in> set (sv_credentials sv)" "n' = (if cl_address n = a then n\<lparr>cl_allocations_quota := cl_allocations_quota n + d\<rparr> else n)"
    by (auto simp: upd_quota_def)
  then show ?thesis by (intro that [of n]) (auto split: if_splits)
qed

text \<open>An entry of the table changes, and the quota of its old or new owner makes up for it.\<close>

lemma sound_change:
  assumes "server_ok b \<Longrightarrow> i < length (sv_allocs b) \<Longrightarrow> alloc_ok (sv_next_address b) x"
    "\<And>n. n \<in> set (sv_credentials b) \<Longrightarrow> of_bool (owns (cl_address n) x) - of_bool (owns (cl_address n) (alloc b i))
       = (if cl_address n = a then - d else 0)"
    "\<And>n. n \<in> set (sv_credentials b) \<Longrightarrow> cl_address n = a \<Longrightarrow> 0 \<le> cl_allocations_quota n \<Longrightarrow> 0 \<le> cl_allocations_quota n + d"
    "i < length (sv_allocs b)"
    "sv_allocs c = (sv_allocs b)[i := x]" "sv_credentials c = sv_credentials (upd_quota a d b)" "sv_config c = sv_config b"
    "sv_next_address c = sv_next_address b"
  shows "sound b c"
proof -
  have "kept_user b (sv_allocs c) n'" if "n' \<in> set (sv_credentials c)" for n'
  proof -
    from that assms(6) obtain n where n: "n \<in> set (sv_credentials b)" "cl_address n = cl_address n'"
      "cl_allocations_quota n' = cl_allocations_quota n + (if cl_address n = a then d else 0)"
      by (metis upd_quota_nodes)
    then show ?thesis using assms(2) [OF n(1)] assms(3) [OF n(1)] owned_update [OF assms(4), of x "cl_address n'"] assms(5)
      unfolding kept_user_def by (intro disjI2 bexI [of _ n]) auto
  qed
  moreover have "server_ok c" if "server_ok b"
  proof -
    have addrs: "map cl_address (sv_credentials c) = map cl_address (sv_credentials b)" using assms(6) by simp
    have "cl_address ` set (sv_credentials c) = cl_address ` set (sv_credentials b)" using arg_cong [OF addrs, of set] by simp
    moreover have "\<forall>u \<in> cl_address ` set (sv_credentials b). u < sv_next_address b" using that by (simp add: server_ok_def)
    ultimately have "\<forall>u \<in> cl_address ` set (sv_credentials c). u < sv_next_address b" by (simp only:)
    then have "\<forall>n \<in> set (sv_credentials c). cl_address n < sv_next_address b" by simp
    moreover have "\<forall>y \<in> set (sv_allocs c). alloc_ok (sv_next_address b) y"
      using that assms(1,4,5) by (auto simp: server_ok_def dest!: set_update_subset_insert [THEN subsetD])
    ultimately show ?thesis using that assms(7,8) addrs by (simp add: server_ok_def)
  qed
  ultimately show ?thesis by (simp add: sound_def assms(8))
qed

lemma delete_sound: "sound b (delete_allocation i b)" if "i < length (sv_allocs b)"
proof (cases "al_state (alloc b i) = SERVER_TURN_ALLOC_FULL \<and> (\<exists>u. al_credentials (alloc b i) = Some u)")
  case True
  then obtain u where u: "al_state (alloc b i) = SERVER_TURN_ALLOC_FULL" "al_credentials (alloc b i) = Some u" by blast
  let ?x = "(alloc b i)\<lparr>al_state := SERVER_TURN_ALLOC_DELETED, al_map := empty_map, al_sock := None, al_credentials := None\<rparr>"
  have "sv_allocs (delete_allocation i b) = (sv_allocs b)[i := ?x]"
    "sv_credentials (delete_allocation i b) = sv_credentials (upd_quota u 1 b)"
    "sv_config (delete_allocation i b) = sv_config b" "sv_next_address (delete_allocation i b) = sv_next_address b"
    using u by (simp_all add: delete_allocation_def upd_alloc_def Let_def split: option.split)
  then show ?thesis using that u by (intro sound_change [where x = ?x and a = u and d = 1]) (auto simp: alloc_ok_def)
next
  case False
  moreover have "server_ok b \<Longrightarrow> alloc_ok (sv_next_address b) (alloc b i)" using that by (simp add: server_ok_def)
  ultimately have "\<not> server_ok b \<or> delete_allocation i b = b"
    unfolding alloc_ok_def delete_allocation_def by auto
  then show ?thesis by (auto simp: sound_def kept_user_def)
qed

lemma sound_delete [sound]: "sound a b \<Longrightarrow> i < length (sv_allocs b) \<Longrightarrow> sound a (delete_allocation i b)"
  using sound_trans delete_sound by blast

lemma sound_allocate_new:
  assumes "sound a b" "i < length (sv_allocs b)" "al_state (alloc b i) \<noteq> SERVER_TURN_ALLOC_FULL" "addr_known (ar_addr src)"
    "c \<in> set (sv_credentials b)" "0 < cl_allocations_quota c" "server_ok b"
  shows "sound a (allocate_new i src c sock b)"
proof -
  let ?m = "the (turn_init_map True (nat (jf_max_peers (sv_config b))))"
  let ?x = "(alloc b i)\<lparr>al_sock := Some sock, al_map := ?m,
    al_state := SERVER_TURN_ALLOC_FULL, al_record := src, al_credentials := Some (cl_address c)\<rparr>"
  have only: "n = c" if "n \<in> set (sv_credentials b)" "cl_address n = cl_address c" for n
    using that assms(5,7) by (auto simp: server_ok_def distinct_map dest: inj_onD)
  have "server_table ?m" using assms(7) by (auto simp: turn_init_map_def server_ok_def intro!: server_table.init [of "nat (jf_max_peers (sv_config b))"])
  then have "alloc_ok (sv_next_address b) ?x" using assms(4,5,7) by (simp add: alloc_ok_def server_ok_def)
  moreover have "sv_allocs (allocate_new i src c sock b) = (sv_allocs b)[i := ?x]"
    "sv_credentials (allocate_new i src c sock b) = sv_credentials (upd_quota (cl_address c) (- 1) b)"
    "sv_config (allocate_new i src c sock b) = sv_config b" "sv_next_address (allocate_new i src c sock b) = sv_next_address b"
    by (simp_all add: allocate_new_def upd_alloc_def upd_quota_def node_at_def)
  ultimately have "sound b (allocate_new i src c sock b)"
    using assms(2,3,6) only by (intro sound_change [where x = ?x and a = "cl_address c" and d = "- 1"]) auto
  with assms(1) show ?thesis by (rule sound_trans)
qed

section \<open>The operations\<close>

lemma find_allocation_range:
  "find_allocation sv r d = (Some i, sv') \<Longrightarrow> i < length (sv_allocs sv) \<and> sv' = sv \<and> alloc_stops (sv_allocs sv) r d i"
  by (auto simp: find_allocation_def dest: probe_loop_range split: if_splits)

lemma find_allocation_None: "find_allocation sv r d = (None, sv') \<Longrightarrow> same_tables sv sv'"
  by (auto simp: find_allocation_def same_tables_def split: if_splits)

lemma upd_alloc_length [simp]: "length (sv_allocs (upd_alloc i f sv)) = length (sv_allocs sv)"
  by (simp add: upd_alloc_def)

lemma sound_allocate_finish:
  assumes "sound a b" "i < length (sv_allocs b)"
  shows "sound a (snd (allocate_finish b msg src c i))"
proof -
  let ?b = "\<lambda>t. upd_alloc i (\<lambda>x. x\<lparr>al_timestamp := t, al_transaction_id := sm_transaction_id msg\<rparr>) (snd (server_clock b))"
  have b: "sound a (?b t)" for t
  proof (rule sound_upd_alloc)
    show "sound a (snd (server_clock b))" by (rule sound_tables [OF assms(1)]) (simp add: tables)
  qed (auto simp: server_ok_def alloc_ok_def)
  then have "sound a (delete_allocation i (?b t))" for t using assms(2) by (intro sound_delete) simp_all
  with b show ?thesis
    unfolding allocate_finish_def Let_def split_def
    by (auto split: option.split intro: sound_tables tables same_tables_refl)
qed

lemma sound_process_allocate [sound]:
  assumes "sound a b" "addr_known (ar_addr src)" "c \<in> set (sv_credentials b)" "server_ok b"
  shows "sound a (snd (server_process_turn_allocate b msg src c))"
proof -
  have refuse: "sound a (snd (refuse b' msg src code c))" if "same_tables b b'" for b' code
    by (rule sound_tables [OF assms(1)]) (simp add: that tables)
  have keep: "sound a (snd (refuse (upd_alloc i (\<lambda>x. x\<lparr>al_sock := None\<rparr>) b') msg src code c))"
    if "same_tables b b'" "al_state (alloc b i) \<noteq> SERVER_TURN_ALLOC_FULL" for b' i code
  proof -
    have "sound a b'" using assms(1) that(1) by (rule sound_tables)
    then have "sound a (upd_alloc i (\<lambda>x. x\<lparr>al_sock := None\<rparr>) b')"
      by (rule sound_upd_alloc) (use that in \<open>auto simp: alloc_ok_def same_tables_def\<close>)
    then show ?thesis by (rule sound_tables) (simp add: tables)
  qed
  have new: "sound a (snd (allocate_finish (allocate_new i src c sock b') msg src c i))"
    if "same_tables b b'" "al_state (alloc b i) \<noteq> SERVER_TURN_ALLOC_FULL" "0 < cl_allocations_quota c" "i < length (sv_allocs b)" for b' i sock
  proof (rule sound_allocate_finish)
    show "sound a (allocate_new i src c sock b')"
      using that assms sound_tables [OF assms(1) that(1)]
      by (intro sound_allocate_new) (auto simp: same_tables_def server_ok_def)
    show "i < length (sv_allocs (allocate_new i src c sock b'))" using that by (simp add: allocate_new_def same_tables_def)
  qed
  obtain p b' where f: "find_allocation b src True = (p, b')" by fastforce
  show ?thesis
  proof (cases p)
    case None
    then show ?thesis using f assms(1) refuse [OF find_allocation_None] by (simp add: server_process_turn_allocate_def)
  next
    case (Some i)
    with f have i: "b' = b" "i < length (sv_allocs b)" using find_allocation_range by blast+
    obtain sock b'' where s: "server_socket b = (sock, b'')" by fastforce
    then have "same_tables b b''" by (auto simp: server_socket_def same_tables_def)
    then show ?thesis
      using f Some i s assms(1) refuse [of b] keep new sound_allocate_finish [OF assms(1) i(2)]
      by (cases sock) (simp_all add: server_process_turn_allocate_def)
  qed
qed

lemma sound_upd_map:
  assumes "sound a b" "server_table (al_map (alloc b i)) \<Longrightarrow> server_table m"
  shows "sound a (upd_alloc i (\<lambda>x. x\<lparr>al_map := m\<rparr>) b)"
  using assms by (intro sound_upd_alloc) (auto simp: server_ok_def alloc_ok_def)

lemma sound_set_permission [sound]:
  assumes "sound a b" "addr_known (ar_addr peer)" "length tid = 12"
  shows "sound a (snd (server_set_permission i tid peer b))"
proof -
  obtain ok m where m: "turn_set_permission (al_map (alloc b i)) tid (Some peer) (fst (server_clock b)) 300000 = (ok, m)" by fastforce
  have "sound a (upd_alloc i (\<lambda>x. x\<lparr>al_map := m\<rparr>) (snd (server_clock b)))"
  proof (rule sound_upd_map)
    show "sound a (snd (server_clock b))" by (rule sound_tables [OF assms(1)]) (simp add: tables)
  qed (use m assms(2,3) in \<open>auto intro: server_table.set_permission\<close>)
  with m show ?thesis by (simp add: server_set_permission_def Let_def split_def)
qed

lemma sound_set_permissions [sound]:
  "sound a b \<Longrightarrow> \<forall>r \<in> set peers. addr_known (ar_addr r) \<Longrightarrow> length tid = 12 \<Longrightarrow> sound a (snd (set_permissions i tid peers b))"
  by (induction peers arbitrary: b) (simp_all add: Let_def split_def sound)

lemma sound_bind_channel [sound]:
  assumes "sound a b" "addr_known (ar_addr peer)" "length tid = 12"
  shows "sound a (snd (server_bind_channel i tid peer channel b))"
proof -
  have c: "sound a (snd (server_clock b))" by (rule sound_tables [OF assms(1)]) (simp add: tables)
  show ?thesis
  proof (cases "turn_bind_channel (al_map (alloc b i)) (Some peer) (Some tid) channel (fst (server_clock b)) 600000")
    case (Inl e)
    have "sound a (sfault BufferOverrun (snd (server_clock b)))" by (rule sound_tables [OF c]) (simp add: tables)
    with Inl show ?thesis by (simp add: server_bind_channel_def Let_def split_def)
  next
    case (Inr y)
    then obtain ok m where m: "turn_bind_channel (al_map (alloc b i)) (Some peer) (Some tid) channel (fst (server_clock b)) 600000 = Inr (ok, m)"
      by (cases y) auto
    have "sound a (upd_alloc i (\<lambda>x. x\<lparr>al_map := m\<rparr>) (snd (server_clock b)))"
      by (rule sound_upd_map [OF c]) (use m assms(2,3) in \<open>auto intro: server_table.bind_channel\<close>)
    with m show ?thesis by (simp add: server_bind_channel_def Let_def split_def)
  qed
qed

lemma sound_answers [sound]:
  assumes "sound a b"
  shows "sound a (snd (refuse b msg src code c))" "sound a (snd (accept b msg src ans c))"
  by (rule sound_tables [OF assms], simp add: tables)+

lemma sound_with_allocation:
  assumes "sound a b" "\<And>i. i < length (sv_allocs b) \<Longrightarrow> sound a (snd (f i b))"
  shows "sound a (snd (with_allocation b msg src c f))"
proof -
  obtain p b' where f: "find_allocation b src False = (p, b')" by fastforce
  show ?thesis
  proof (cases p)
    case None
    then have "sound a b'" using f assms(1) find_allocation_None sound_tables by blast
    with f None show ?thesis by (simp add: with_allocation_def sound)
  next
    case (Some i)
    with f have "b' = b" "i < length (sv_allocs b)" using find_allocation_range by blast+
    with f Some assms show ?thesis by (simp add: with_allocation_def sound)
  qed
qed

lemma sound_create_permission [sound]:
  assumes "sound a b" "msg_ok msg"
  shows "sound a (snd (server_process_turn_create_permission b msg src c))"
  using assms unfolding server_process_turn_create_permission_def
  by (auto intro!: sound_with_allocation sound simp: Let_def split_def msg_ok_def)

lemma sound_channel_bind [sound]:
  assumes "sound a b" "msg_ok msg"
  shows "sound a (snd (server_process_turn_channel_bind b msg src c))"
proof -
  have "addr_known (ar_addr (hd (sm_peers msg)))" if "sm_peers msg \<noteq> []" using that assms(2) by (simp add: msg_ok_def)
  then show ?thesis using assms unfolding server_process_turn_channel_bind_def
    by (auto intro!: sound_with_allocation sound simp: Let_def split_def msg_ok_def)
qed

lemma find_credentials_member: "find_credentials sv c now = Some n \<Longrightarrow> n \<in> set (sv_credentials sv) \<and> node_valid now n \<and> node_matches c n"
proof -
  have "fold (\<lambda>n found. if node_valid now n \<and> node_matches c n then Some n else found) ns x = Some n
    \<Longrightarrow> x = Some n \<or> n \<in> set ns \<and> node_valid now n \<and> node_matches c n" for ns x
    by (induction ns arbitrary: x) (auto split: if_splits)
  then show "find_credentials sv c now = Some n \<Longrightarrow> ?thesis" by (fastforce simp: find_credentials_def)
qed

text \<open>A request that passes the authentication.\<close>

definition authentic :: "server \<Rightarrow> bytes \<Rightarrow> stun_message \<Rightarrow> juice_credentials_list \<Rightarrow> bool" where
  "authentic sv buf msg n \<longleftrightarrow> n \<in> set (sv_credentials sv) \<and> node_matches (sm_credentials msg) n \<and> cr_realm (sm_credentials msg) = server_realm sv
     \<and> (\<exists>msg' pos. (msg' = msg \<or> cr_enable_userhash (sm_credentials msg)
             \<and> msg' = msg\<lparr>sm_credentials := (sm_credentials msg)\<lparr>cr_username := snprintf_str STUN_MAX_USERNAME_LEN (cl_username n)\<rparr>\<rparr>)
          \<and> 20 \<le> pos \<and> pos < length buf \<and> integrity_at (generate_hmac_key msg' (Some (cl_password n))) buf pos)"

lemma authenticate_cases:
  obtains (error) r where "fst (server_authenticate sv buf msg src) = Inl r"
  | (user) n msg' where "fst (server_authenticate sv buf msg src) = Inr (n, msg')" "n \<in> set (sv_credentials sv)"
      "msg_ok msg' = msg_ok msg" "sm_class msg' = sm_class msg" "authentic sv buf msg n" "cr_nonce (sm_credentials msg) = fst (server_get_nonce sv src)"
proof (cases "fst (server_authenticate sv buf msg src)")
  case (Inr y)
  let ?c = "sm_credentials msg"
  obtain n msg' where y: "y = (n, msg')" by fastforce
  let ?sv = "snd (server_get_nonce sv src)"
  have t: "sv_credentials ?sv = sv_credentials sv" "server_realm ?sv = server_realm sv"
    using same_tables_nonce [OF same_tables_refl, of sv src] by (simp_all add: same_tables_def server_realm_def)
  from Inr y have nonce: "cr_nonce ?c = fst (server_get_nonce sv src)" "cr_realm ?c = server_realm sv"
    and f: "find_credentials (snd (server_clock ?sv)) ?c (fst (server_clock ?sv)) = Some n"
    and msg': "msg' = (if cr_enable_userhash ?c then msg\<lparr>sm_credentials := ?c\<lparr>cr_username := snprintf_str STUN_MAX_USERNAME_LEN (cl_username n)\<rparr>\<rparr> else msg)"
    and ok: "stun_check_integrity buf msg' (Some (cl_password n)) = Inr True"
    using t(2) by (auto simp: server_authenticate_def Let_def split_def split: if_splits option.splits sum.splits cerr.splits)
  have n: "n \<in> set (sv_credentials sv)" "node_matches ?c n" using find_credentials_member [OF f] t(1) by simp_all
  with accepted_integrity [OF ok] msg' nonce(2) have "authentic sv buf msg n"
    unfolding authentic_def by (auto split: if_splits)
  with Inr y n nonce msg' show thesis by (intro user [of n msg']) simp_all
qed (rule error)

lemma sound_process_turn [sound]:
  assumes "sound a b" "msg_ok msg" "addr_known (ar_addr src)" "c \<in> set (sv_credentials b)" "server_ok b"
  shows "sound a (snd (server_process_turn b msg src c))"
proof -
  have "sound a (snd (server_process_turn_send b msg src))" by (rule sound_tables [OF assms(1)]) (simp add: tables)
  then show ?thesis using assms by (simp add: server_process_turn_def sound)
qed

lemma sound_dispatch [sound]:
  assumes "server_ok a" "msg_ok msg" "addr_known (ar_addr src)"
  shows "sound a (snd (server_dispatch_stun a buf msg src))"
proof -
  have keep: "sound a b" if "same_tables a b" for b by (rule sound_tables [OF sound_refl that])
  obtain x b where x: "server_authenticate a buf msg src = (x, b)" by fastforce
  have b: "same_tables a b" using same_tables_authenticate [OF same_tables_refl, of a buf msg src] x by simp
  show ?thesis
  proof (cases x)
    case (Inl r)
    with x b show ?thesis by (simp add: server_dispatch_stun_def Let_def keep tables)
  next
    case (Inr y)
    then obtain n msg' where y: "y = (n, msg')" by fastforce
    have n: "n \<in> set (sv_credentials a)" "msg_ok msg'"
      using authenticate_cases [of a buf msg src] assms(2) Inr x y by auto
    with b assms have "sound a (snd (server_process_turn b msg' src n))"
      by (intro sound_process_turn keep) (auto simp: same_tables_def server_ok_def)
    with x Inr y show ?thesis by (simp add: server_dispatch_stun_def Let_def keep tables)
  qed
qed

lemma sound_input [sound]:
  assumes "server_ok a" "addr_known (ar_addr src)"
  shows "sound a (snd (server_input a buf src))"
proof -
  have "sound a b" if "same_tables a b" for b by (rule sound_tables [OF sound_refl that])
  then show ?thesis
    using assms by (auto simp: server_input_def tables intro!: sound stun_read_ok split: sum.split cerr.split)
qed

lemma sound_ok: "sound a b \<Longrightarrow> server_ok a \<Longrightarrow> server_ok b"
  by (simp add: sound_def)

lemma unmap_known: "addr_known (ar_addr r) \<Longrightarrow> addr_known (ar_addr (unmap_record r))"
  by (cases "ar_addr r") (auto simp: unmap_record_def)

text \<open>Datagrams come from addresses of the two families.\<close>

definition received_ok :: "received list \<Rightarrow> bool" where
  "received_ok xs \<longleftrightarrow> (\<forall>buf r. Datagram buf r \<in> set xs \<longrightarrow> addr_known (ar_addr r))"

lemma sound_recv [sound]: "server_ok a \<Longrightarrow> received_ok xs \<Longrightarrow> sound a (snd (server_recv a xs))"
proof (induction a xs rule: server_recv.induct)
  case (3 sv buf r xs)
  have rest: "received_ok xs" using 3(4) by (auto simp: received_ok_def)
  have input: "sound sv (snd (server_input sv buf (unmap_record r)))"
    using 3(3,4) by (intro sound_input unmap_known) (auto simp: received_ok_def)
  show ?case
  proof (cases "buf = []")
    case False
    have "sound (snd (server_input sv buf (unmap_record r))) (snd (server_recv (snd (server_input sv buf (unmap_record r))) xs))"
      using 3(2) [OF False sound_ok [OF input 3(3)] rest] .
    with sound_trans [OF input] False show ?thesis by simp
  qed (use 3 rest in simp)
qed simp_all

lemma delete_length [simp]: "length (sv_allocs (delete_allocation i b)) = length (sv_allocs b)"
  by (simp add: delete_allocation_def Let_def split: option.split)

lemma sound_book_allocs:
  "sound b (snd (fold (book_alloc now) is (t, b)))" if "\<forall>i \<in> set is. i < length (sv_allocs b)"
  using that
proof (induction "is" arbitrary: t b)
  case (Cons i "is")
  have one: "sound b (snd (book_alloc now i (t, b)))" "length (sv_allocs (snd (book_alloc now i (t, b)))) = length (sv_allocs b)"
    using Cons.prems by (auto simp: book_alloc_def intro: delete_sound)
  obtain t' b' where x: "book_alloc now i (t, b) = (t', b')" by fastforce
  with one Cons have "sound b' (snd (fold (book_alloc now) is (t', b')))" by simp
  with one x sound_trans show ?case by simp
qed simp

lemma sound_bookkeeping [sound]: "sound a (snd (server_bookkeeping a))"
proof -
  let ?a = "snd (server_clock a)"
  let ?b = "snd (fold (book_alloc (fst (server_clock a))) [0..<length (sv_allocs a)] (fst (server_clock a) + 60000, ?a))"
  have "sound a ?a" by (rule sound_tables [OF sound_refl]) (simp add: tables)
  moreover have "sound ?a ?b" by (rule sound_book_allocs) simp
  moreover have "sound ?b (?b\<lparr>sv_credentials := filter (node_valid now) (sv_credentials ?b)\<rparr>)" for now
    by (auto simp: sound_def server_ok_def kept_user_def distinct_map_filter)
  ultimately show ?thesis unfolding server_bookkeeping_def Let_def split_def using sound_trans by auto
qed

lemma sound_wait [sound]: "sound a (snd (snd (server_run_wait a)))"
proof -
  have "sound a (snd (server_clock (snd (server_bookkeeping a))))" by (rule sound_tables [OF sound_bookkeeping]) (simp add: tables)
  then show ?thesis by (simp add: server_run_wait_def Let_def split_def)
qed

lemma sound_events [sound]:
  assumes "server_ok a" "\<And>bad main relays xs. p = PollEvents bad main relays \<Longrightarrow> main = Some xs \<Longrightarrow> received_ok xs"
  shows "sound a (snd (server_run_events nfd p a))"
proof -
  have fwd: "same_tables c (forward_ready nfd relays i c)" for relays i c
    by (simp add: forward_ready_def tables split: option.split)
  have "same_tables c (fold (forward_ready nfd relays) is c)" for relays "is" c
  proof (induction "is" arbitrary: c)
    case (Cons i "is")
    then show ?case using fwd [of c relays i] by (simp add: same_tables_def)
  qed simp
  then have all: "sound a (fold (forward_ready nfd relays) is c)" if "sound a c" for relays "is" c
    using sound_tables that by blast
  show ?thesis
  proof (cases p)
    case (PollEvents bad main relays)
    have "sound a (snd (case main of None \<Rightarrow> (0, a) | Some xs \<Rightarrow> server_recv a xs))"
      using assms PollEvents by (auto split: option.split intro: sound)
    with all show ?thesis by (simp add: server_run_events_def PollEvents Let_def split_def)
  qed (simp_all add: server_run_events_def)
qed

section \<open>Users\<close>

definition users_ok :: "server \<Rightarrow> bool" where
  "users_ok sv \<longleftrightarrow> distinct (map cl_address (sv_credentials sv)) \<and> (\<forall>n \<in> set (sv_credentials sv). cl_address n < sv_next_address sv)"

lemma add_node:
  obtains n where "sv_credentials (server_do_add_credentials sv c l) = n # sv_credentials sv" "cl_address n = sv_next_address sv"
    "sv_next_address (server_do_add_credentials sv c l) = sv_next_address sv + 1"
    "sv_allocs (server_do_add_credentials sv c l) = sv_allocs sv" "sv_config (server_do_add_credentials sv c l) = sv_config sv"
  by (auto simp: server_do_add_credentials_def Let_def split_def)

lemma users_ok_add: "users_ok sv \<Longrightarrow> users_ok (server_do_add_credentials sv c l)"
  by (rule add_node [of sv c l]) (auto simp: users_ok_def less_Suc_eq)

lemma unlimited_address [simp]: "cl_address (unlimited m n) = cl_address n"
  by (simp add: unlimited_def)

lemma raise_max [simp]:
  "sv_credentials (server_raise_max c sv) = sv_credentials sv" "sv_allocs (server_raise_max c sv) = sv_allocs sv"
  "sv_next_address (server_raise_max c sv) = sv_next_address sv"
  "jf_max_peers (sv_config (server_raise_max c sv)) = jf_max_peers (sv_config sv)"
  by (simp_all add: server_raise_max_def)

lemma sound_add_credentials [sound]: "sound a (snd (server_add_credentials a c l))"
proof -
  let ?b = "server_grow (server_raise_max c a)"
  have b: "sv_credentials ?b = sv_credentials a" "sv_next_address ?b = sv_next_address a"
    "jf_max_peers (sv_config ?b) = jf_max_peers (sv_config a)" by (simp_all add: server_grow_def)
  obtain k where allocs: "sv_allocs ?b = sv_allocs a @ replicate k alloc_zero" by (simp add: server_grow_def)
  have "owned (sv_allocs ?b) u = owned (sv_allocs a) u" for u
    unfolding allocs owned_append by (simp add: owned_def alloc_zero_def map_replicate_const sum_list_replicate)
  moreover have "alloc_ok (Suc (sv_next_address a)) x" if "server_ok a" "x \<in> set (sv_allocs ?b)" for x
    using that unfolding allocs by (force simp: server_ok_def alloc_ok_def alloc_zero_def)
  ultimately show ?thesis
    using b by (rule_tac add_node [of ?b c l]) (auto simp: server_add_credentials_def sound_def server_ok_def kept_user_def less_Suc_eq)
qed

text \<open>A new server.\<close>

lemma server_ok_create:
  assumes "0 \<le> jf_max_peers config"
  shows "server_ok (server_create env port config)"
proof -
  let ?P = "\<lambda>sv. users_ok sv \<and> set (sv_allocs sv) \<subseteq> {alloc_zero}"
  let ?add = "\<lambda>c sv. server_do_add_credentials (server_raise_max c sv) c 0"
  have step: "?P (?add c sv)" if "?P sv" for c sv
  proof -
    have "users_ok (server_raise_max c sv)" using that by (simp add: users_ok_def)
    then show ?thesis using users_ok_add that by (rule_tac add_node [of "server_raise_max c sv" c 0]) auto
  qed
  have fold: "?P sv \<Longrightarrow> ?P (fold ?add cs sv)" for cs sv
    by (induction cs arbitrary: sv) (use step in auto)
  have final: "server_ok (sv\<lparr>sv_credentials := map (unlimited m) (sv_credentials sv),
      sv_config := cf\<lparr>jf_port := port, jf_max_peers := p\<rparr>\<rparr>)" if "?P sv" "0 < p" for sv m cf p
    using that by (auto simp: server_ok_def users_ok_def comp_def alloc_ok_def alloc_zero_def)
  have p: "0 < (if jf_max_peers config = 0 then 16 else jf_max_peers config)" using assms by auto
  show ?thesis
  proof (cases "jf_credentials config = []")
    case True
    show ?thesis unfolding server_create_def Let_def using True p by (simp add: server_ok_def)
  next
    case False
    show ?thesis unfolding server_create_def Let_def if_not_P [OF False]
      using final [OF fold p] by (simp add: users_ok_def)
  qed
qed

section \<open>Runs\<close>

text \<open>
  The states of a server: it is created, its thread does bookkeeping and waits, the waiting ends with events, and users are
  added or the thread is told to stop in between.
\<close>

inductive server_step :: "server \<Rightarrow> server \<Rightarrow> bool" where
  wait: "server_step sv (snd (snd (server_run_wait sv)))"
| events: "(\<And>bad main relays xs. p = PollEvents bad main relays \<Longrightarrow> main = Some xs \<Longrightarrow> received_ok xs) \<Longrightarrow>
    server_step sv (snd (server_run_events nfd p sv))"
| add_credentials: "server_step sv (snd (server_add_credentials sv c lifetime))"
| stop: "server_step sv (server_stop sv)"

inductive server_run :: "server \<Rightarrow> bool" where
  create: "0 \<le> jf_max_peers config \<Longrightarrow> server_run (server_create env port config)"
| step: "server_run sv \<Longrightarrow> server_step sv sv' \<Longrightarrow> server_run sv'"

lemma step_sound: "server_step a b \<Longrightarrow> server_ok a \<Longrightarrow> sound a b"
proof (induction rule: server_step.induct)
  case (stop sv)
  show ?case by (rule sound_tables [OF sound_refl]) (simp add: same_tables_def server_stop_def)
qed (auto intro: sound)

lemma server_run_ok: "server_run sv \<Longrightarrow> server_ok sv"
  by (induction rule: server_run.induct) (auto intro: server_ok_create dest: step_sound sound_ok)

end
