(* ===== verification/Server_Safety.thy ===== *)
theory Server_Safety
  imports Server_Runs
begin

text \<open>
  The properties of the server: its tables in every run, the quotas of its users, who may change an allocation, to whom data is
  relayed, what expires, and the defects of the table of allocations.
\<close>

section \<open>Tables and quotas\<close>

text \<open>C14: In every run of the server an allocation that is in use has a relay socket, an owner and a client address, and its table of permissions and channels
  is one that \<open>turn_set_permission\<close> and \<open>turn_bind_channel\<close> lead to, so that what is shown for the reachable tables holds for
  every allocation.\<close>

theorem server_allocations_wellformed:
  assumes "server_run sv"
  shows "\<forall>x \<in> set (sv_allocs sv). al_state x = SERVER_TURN_ALLOC_FULL \<longrightarrow> server_table (al_map x) \<and> al_sock x \<noteq> None
    \<and> al_credentials x \<noteq> None \<and> addr_known (ar_addr (al_record x))"
  using server_run_ok [OF assms] by (auto simp: server_ok_def alloc_ok_def)

text \<open>C13: Quotas are conserved: a step of the server changes the number of allocations a user has and the quota that is left for that user
  by opposite amounts, and a quota never becomes negative.\<close>

theorem server_quota_conserved:
  assumes "server_run a" "server_step a b" "n \<in> set (sv_credentials a)" "n' \<in> set (sv_credentials b)" "cl_address n' = cl_address n"
  shows "cl_allocations_quota n' + owned (sv_allocs b) (cl_address n) = cl_allocations_quota n + owned (sv_allocs a) (cl_address n)
    \<and> (0 \<le> cl_allocations_quota n \<longrightarrow> 0 \<le> cl_allocations_quota n')"
proof -
  have ok: "server_ok a" using assms(1) by (rule server_run_ok)
  then have "kept_user a (sv_allocs b) n'" using step_sound [OF assms(2) ok] assms(4) by (simp add: sound_def)
  moreover have "\<not> sv_next_address a \<le> cl_address n'" using ok assms(3,5) by (auto simp: server_ok_def)
  moreover have "m = n" if "m \<in> set (sv_credentials a)" "cl_address m = cl_address n'" for m
    using that ok assms(3,5) by (auto simp: server_ok_def distinct_map dest: inj_onD)
  ultimately show ?thesis using assms(5) unfolding kept_user_def by auto
qed

text \<open>A server with one user, whose quota is two allocations.\<close>

definition sample_server_env :: server_env where
  "sample_server_env = \<lparr>sx_clock = (\<lambda>_. 1000), sx_rand = (\<lambda>_. []), sx_send = (\<lambda>_. 0), sx_socket = (\<lambda>_. Some 7), sx_port = (\<lambda>_. 0),
     sx_addrs = (\<lambda>_. []), sx_gai = (\<lambda>_ _. None), sx_raw = (\<lambda>_. []), sx_stack = [], sx_junk = [0, 0]\<rparr>"

definition sample_config :: juice_server_config where
  "sample_config = \<lparr>jf_credentials = [\<lparr>jc_username = Some [97], jc_password = Some [98], jc_allocations_quota = 2\<rparr>], jf_max_allocations = 4,
     jf_max_peers = 0, jf_bind_address = None, jf_external_address = None, jf_port = 3478, jf_relay_port_range_begin = 0,
     jf_relay_port_range_end = 0, jf_realm = None\<rparr>"

definition sample_server :: server where
  "sample_server = server_create sample_server_env 3478 sample_config"

lemma sample_server_run: "server_run sample_server"
  unfolding sample_server_def by (rule server_run.create) (simp add: sample_config_def)

lemma sample_server_users: "map cl_address (sv_credentials sample_server) = [0]" "map cl_allocations_quota (sv_credentials sample_server) = [2]"
  by (simp_all add: sample_server_def sample_config_def server_create_def server_do_add_credentials_def server_raise_max_def unlimited_def Let_def)

theorem server_allocations_wellformed_witness:
  "filter (\<lambda>x. al_state x = SERVER_TURN_ALLOC_FULL \<and> al_sock x = None) (sv_allocs sample_server) = []"
  using server_allocations_wellformed [OF sample_server_run] by (auto simp: filter_empty_conv)

theorem server_quota_conserved_witness:
  "\<exists>n \<in> set (sv_credentials sample_server). cl_allocations_quota n + owned (sv_allocs (server_stop sample_server)) (cl_address n)
     = cl_allocations_quota n + owned (sv_allocs sample_server) (cl_address n)"
proof -
  obtain n where n: "n \<in> set (sv_credentials sample_server)" using sample_server_users(1) by (cases "sv_credentials sample_server") auto
  then have "n \<in> set (sv_credentials (server_stop sample_server))" by (simp add: server_stop_def)
  with n server_quota_conserved [OF sample_server_run server_step.stop n] show ?thesis by blast
qed

section \<open>Who may change an allocation\<close>

text \<open>C12: Only an authenticated request changes the table of allocations: a datagram that changes it is a request that carries the nonce the server
  gives to the sender's address, the server's realm, and an HMAC under the password of a user it names.\<close>

theorem server_changes_authenticated:
  "sv_allocs (snd (server_input sv buf src)) = sv_allocs sv
   \<or> (\<exists>k msg n. stun_read buf = Inr (k, msg) \<and> sm_class msg = STUN_CLASS_REQUEST \<and> authentic sv buf msg n
        \<and> cr_nonce (sm_credentials msg) = fst (server_get_nonce sv src))"
proof (cases "\<exists>k msg. is_stun_datagram buf \<and> stun_read buf = Inr (k, msg)")
  case True
  then obtain k msg where m: "is_stun_datagram buf" "stun_read buf = Inr (k, msg)" by blast
  show ?thesis
  proof (cases "sm_class msg = STUN_CLASS_REQUEST")
    case req: True
    show ?thesis
    proof (cases rule: authenticate_cases [of sv buf msg src])
      case (error r)
      then obtain b where b: "server_authenticate sv buf msg src = (Inl r, b)" by (cases "server_authenticate sv buf msg src") auto
      then have "same_tables sv b" using same_tables_authenticate [OF same_tables_refl, of sv buf msg src] by simp
      with b have "same_tables sv (snd (server_dispatch_stun sv buf msg src))"
        by (simp add: server_dispatch_stun_def Let_def tables)
      with m show ?thesis by (simp add: server_input_def same_tables_def)
    next
      case (user n msg')
      with m req show ?thesis by blast
    qed
  next
    case False
    then have "same_tables sv (snd (server_dispatch_stun sv buf msg src))"
      by (simp add: server_dispatch_stun_def Let_def tables)
    with m show ?thesis by (simp add: server_input_def same_tables_def)
  qed
next
  case False
  have "same_tables sv (snd (server_process_channel_data sv buf src))" "same_tables sv (sfault BufferOverrun sv)" by (simp_all add: tables)
  with False show ?thesis by (auto simp: server_input_def same_tables_def split: sum.split cerr.split)
qed

section \<open>To whom data is relayed\<close>

text \<open>The datagrams that were sent to peers. Every operation but the two that relay leaves them alone; the rules are in the collection \<open>relays\<close>.\<close>

named_theorems relays

definition to_peer :: "server_output \<Rightarrow> bool" where
  "to_peer ev = (case ev of ToPeer _ _ _ \<Rightarrow> True | _ \<Rightarrow> False)"

definition relayed_out :: "server \<Rightarrow> server_output list" where
  "relayed_out sv = filter to_peer (sv_out sv)"

lemma relays_basic [relays]:
  "relayed_out (sfault f sv) = relayed_out sv" "\<not> to_peer ev \<Longrightarrow> relayed_out (semit ev sv) = relayed_out sv"
  "relayed_out (snd (server_clock sv)) = relayed_out sv" "relayed_out (snd (server_random n sv)) = relayed_out sv"
  "relayed_out (snd (server_socket sv)) = relayed_out sv" "relayed_out (snd (server_send sv dst data)) = relayed_out sv"
  "relayed_out (upd_alloc i g sv) = relayed_out sv" "relayed_out (upd_quota a d sv) = relayed_out sv"
  "relayed_out (snd (find_allocation sv r del)) = relayed_out sv"
  "relayed_out (sv\<lparr>sv_nonce_key := k, sv_nonce_key_timestamp := t\<rparr>) = relayed_out sv"
  by (simp_all add: relayed_out_def to_peer_def sfault_def semit_def server_clock_def server_random_def server_socket_def server_send_def
      upd_alloc_def upd_quota_def find_allocation_def)

lemma relays_delete [relays]: "relayed_out (delete_allocation i sv) = relayed_out sv"
  by (simp add: delete_allocation_def Let_def relays to_peer_def split: option.split)

lemma relays_nonce [relays]: "relayed_out (snd (server_get_nonce sv src)) = relayed_out sv"
  by (simp add: server_get_nonce_def Let_def split_def relays)

lemma relays_answers [relays]:
  "relayed_out (snd (server_stun_send sv dst msg pw)) = relayed_out sv"
  "relayed_out (snd (server_prepare_credentials sv src c msg)) = relayed_out sv"
  by (simp_all add: server_stun_send_def server_prepare_credentials_def Let_def split_def relays split: sum.split cerr.split)

lemma relays_error [relays]: "relayed_out (snd (server_answer_stun_error sv tid src m code c)) = relayed_out sv"
  by (simp add: server_answer_stun_error_def Let_def split_def relays)

lemma relays_refuse [relays]:
  "relayed_out (snd (refuse sv msg src code c)) = relayed_out sv" "relayed_out (snd (accept sv msg src ans c)) = relayed_out sv"
  "relayed_out (snd (allocate_answer sv msg src c r)) = relayed_out sv" "relayed_out (snd (server_process_stun_binding sv msg src)) = relayed_out sv"
  by (simp_all add: refuse_def accept_def allocate_answer_def server_process_stun_binding_def server_answer_stun_binding_def Let_def split_def relays)

lemma relays_allocate [relays]:
  "relayed_out (allocate_new i src c sock sv) = relayed_out sv" "relayed_out (snd (allocate_finish sv msg src c i)) = relayed_out sv"
  "relayed_out (snd (server_process_turn_allocate sv msg src c)) = relayed_out sv"
  by (simp_all add: allocate_new_def allocate_finish_def server_process_turn_allocate_def Let_def split_def relays split: option.split)

lemma relays_permissions [relays]:
  "relayed_out (snd (server_set_permission i tid peer sv)) = relayed_out sv"
  "relayed_out (snd (server_bind_channel i tid peer channel sv)) = relayed_out sv"
  by (simp_all add: server_set_permission_def server_bind_channel_def Let_def split_def relays split: sum.split)

lemma relays_set_permissions [relays]: "relayed_out (snd (set_permissions i tid peers sv)) = relayed_out sv"
  by (induction peers arbitrary: sv) (simp_all add: Let_def split_def relays)

lemma relays_with_allocation:
  assumes "\<And>i b. relayed_out b = relayed_out sv \<Longrightarrow> relayed_out (snd (f i b)) = relayed_out sv"
  shows "relayed_out (snd (with_allocation sv msg src c f)) = relayed_out sv"
  using assms by (simp add: with_allocation_def split_def relays split: option.split)

lemma relays_requests [relays]:
  "relayed_out (snd (server_process_turn_create_permission sv msg src c)) = relayed_out sv"
  "relayed_out (snd (server_process_turn_channel_bind sv msg src c)) = relayed_out sv"
  by (auto simp: server_process_turn_create_permission_def server_process_turn_channel_bind_def Let_def split_def relays
      intro!: relays_with_allocation)

lemma relays_authenticate [relays]: "relayed_out (snd (server_authenticate sv buf msg src)) = relayed_out sv"
  by (simp add: server_authenticate_def Let_def split_def relays split: option.split sum.split cerr.split)

text \<open>What the server may relay for a client: to a peer for which the client's allocation has a permission, or to which it has a channel bound.\<close>

definition may_relay :: "server \<Rightarrow> addr_record \<Rightarrow> server_output \<Rightarrow> bool" where
  "may_relay sv src ev \<longleftrightarrow> (\<exists>x \<in> set (sv_allocs sv). \<exists>s dst data. ev = ToPeer s dst data
     \<and> al_state x = SERVER_TURN_ALLOC_FULL \<and> addr_record_is_equal (al_record x) src True \<and> al_sock x = Some s
     \<and> (turn_has_permission (al_map x) dst (fst (server_clock sv))
        \<or> (\<exists>c. turn_find_bound_channel (al_map x) c (fst (server_clock sv)) = Some dst)))"

definition relays_ok :: "server \<Rightarrow> addr_record \<Rightarrow> server \<Rightarrow> bool" where
  "relays_ok sv src sv' \<longleftrightarrow> relayed_out sv' = relayed_out sv \<or> (\<exists>ev. relayed_out sv' = relayed_out sv @ [ev] \<and> may_relay sv src ev)"

lemma relay_send_ok:
  assumes "find_allocation sv src False = (Some i, sv')" "al_state (alloc sv i) = SERVER_TURN_ALLOC_FULL"
    "turn_has_permission (al_map (alloc sv i)) dst (fst (server_clock sv))
     \<or> (\<exists>c. turn_find_bound_channel (al_map (alloc sv i)) c (fst (server_clock sv)) = Some dst)"
  shows "relays_ok sv src (snd (relay_send (snd (server_clock sv)) (al_sock (alloc sv i)) dst data))"
proof (cases "al_sock (alloc sv i)")
  case None
  then show ?thesis by (simp add: relays_ok_def relay_send_def relays)
next
  case (Some s)
  have i: "i < length (sv_allocs sv)" "addr_record_is_equal (al_record (alloc sv i)) src True"
    using find_allocation_range [OF assms(1)] assms(2) by (auto simp: alloc_stops_def)
  then have "may_relay sv src (ToPeer s dst data)"
    using assms(2,3) Some unfolding may_relay_def by (intro bexI [of _ "alloc sv i"]) auto
  moreover have "relayed_out (snd (relay_send (snd (server_clock sv)) (Some s) dst data)) = relayed_out sv @ [ToPeer s dst data]"
    by (simp add: relay_send_def relayed_out_def to_peer_def semit_def server_clock_def)
  ultimately show ?thesis using Some by (auto simp: relays_ok_def)
qed

lemma relays_ok_same: "relayed_out sv' = relayed_out sv \<Longrightarrow> relays_ok sv src sv'"
  by (simp add: relays_ok_def)

lemma relays_turn_send: "relays_ok sv src (snd (server_process_turn_send sv msg src))"
proof -
  obtain p b where f: "find_allocation sv src False = (p, b)" by fastforce
  then have "relayed_out b = relayed_out sv" using relays_basic(9) [of sv src False] by simp
  moreover have "b = sv" if "p = Some i" for i using f that find_allocation_range by blast
  ultimately show ?thesis using f relay_send_ok [of sv src _ b]
    by (cases p) (auto simp: server_process_turn_send_def Let_def split_def relays intro!: relays_ok_same split: option.split)
qed

lemma relays_channel_data: "relays_ok sv src (snd (server_process_channel_data sv buf src))"
proof -
  obtain p b where f: "find_allocation sv src False = (p, b)" by fastforce
  then have "relayed_out b = relayed_out sv" using relays_basic(9) [of sv src False] by simp
  then have b: "relays_ok sv src b" by (rule relays_ok_same)
  have same: "relays_ok sv src sv" "relays_ok sv src (snd (server_clock sv))" by (simp_all add: relays_ok_same relays)
  show ?thesis
  proof (cases p)
    case None
    with f b show ?thesis by (simp add: server_process_channel_data_def)
  next
    case (Some i)
    with f have "b = sv" using find_allocation_range by blast
    with f Some have "relays_ok sv src (snd (relay_send (snd (server_clock sv)) (al_sock (alloc sv i)) dst data))"
      if "al_state (alloc sv i) = SERVER_TURN_ALLOC_FULL"
        "turn_find_bound_channel (al_map (alloc sv i)) c (fst (server_clock sv)) = Some dst" for c dst data
      using that by (blast intro: relay_send_ok)
    with f Some \<open>b = sv\<close> same show ?thesis by (simp add: server_process_channel_data_def Let_def split_def split: option.split)
  qed
qed

text \<open>C11: The server relays only with permission: a datagram from a client makes the server send at most one datagram to a peer, through the relay socket of
  the allocation of exactly that client, and only to a peer for which the allocation holds a permission or a channel that has not
  expired.\<close>

theorem server_relays_with_permission: "relays_ok sv src (snd (server_input sv buf src))"
proof -
  have dispatch: "relays_ok sv src (snd (server_dispatch_stun sv buf msg src))" for msg
  proof (cases "sm_class msg = STUN_CLASS_REQUEST")
    case True
    obtain x b where x: "server_authenticate sv buf msg src = (x, b)" by fastforce
    then have b: "relayed_out b = relayed_out sv" using relays_authenticate [of sv buf msg src] by simp
    have "relayed_out (snd (server_process_turn b msg' src c)) = relayed_out sv" if "x = Inr (c, msg')" for c msg'
    proof -
      have "sm_class msg' = STUN_CLASS_REQUEST" using authenticate_cases [of sv buf msg src] that x True by auto
      then show ?thesis using b by (simp add: server_process_turn_def server_process_turn_send_def relays)
    qed
    with x b True show ?thesis
      by (intro relays_ok_same) (auto simp: server_dispatch_stun_def Let_def relays split: sum.split)
  next
    case False
    then show ?thesis using relays_turn_send
      by (auto simp: server_dispatch_stun_def Let_def relays intro!: relays_ok_same)
  qed
  then show ?thesis using relays_channel_data
    by (auto simp: server_input_def relays intro!: relays_ok_same split: sum.split cerr.split)
qed

text \<open>In the other direction the server forwards only with permission: what arrives at a relay socket makes the server send at most one datagram, to the client of that
  allocation, and only when it came from an address for which the allocation holds a permission.\<close>

theorem server_forwards_with_permission:
  "sv_out (snd (server_forward sv i xs)) = sv_out sv
   \<or> (\<exists>buf r rest data. xs = Datagram buf r # rest \<and> turn_has_permission (al_map (alloc sv i)) (unmap_record r) (fst (server_clock sv))
        \<and> sv_out (snd (server_forward sv i xs)) = sv_out sv @ [ToClient (al_record (alloc sv i)) data])"
proof -
  have clock: "sv_out (snd (server_clock b)) = sv_out b" for b by (simp add: server_clock_def)
  have send: "sv_out (snd (server_stun_send b dst msg pw)) = sv_out b \<or> (\<exists>data. sv_out (snd (server_stun_send b dst msg pw)) = sv_out b @ [ToClient dst data])"
    for b dst msg pw
    by (auto simp: server_stun_send_def server_send_def sfault_def semit_def Let_def split: sum.split cerr.split prod.split)
  show ?thesis
  proof (cases "\<exists>buf r rest. xs = Datagram buf r # rest")
    case True
    then obtain buf r rest where xs: "xs = Datagram buf r # rest" by blast
    let ?c = "snd (server_clock (snd (server_clock sv)))"
    let ?msg = "message_zero\<lparr>sm_class := STUN_CLASS_INDICATION, sm_method := STUN_METHOD_DATA, sm_peers := [unmap_record r],
      sm_data := Some buf, sm_transaction_id := fst (server_random 12 ?c)\<rparr>"
    have "sv_out (snd (server_random 12 ?c)) = sv_out sv" by (simp add: server_random_def server_clock_def)
    then show ?thesis using xs clock send [of "snd (server_random 12 ?c)" "al_record (alloc sv i)" ?msg None]
      by (auto simp: server_forward_def Let_def split_def server_send_def semit_def split: option.split sum.split)
  next
    case False
    then show ?thesis by (auto simp: server_forward_def split: list.split received.split)
  qed
qed

section \<open>Expiry\<close>

definition expired :: "int \<Rightarrow> server_turn_alloc \<Rightarrow> bool" where
  "expired now x \<longleftrightarrow> al_state x = SERVER_TURN_ALLOC_FULL \<and> al_timestamp x \<le> now"

definition removed :: "server_turn_alloc \<Rightarrow> server_turn_alloc" where
  "removed x = x\<lparr>al_state := SERVER_TURN_ALLOC_DELETED, al_map := empty_map, al_sock := None, al_credentials := None\<rparr>"

lemma delete_alloc: "sv_allocs (delete_allocation i sv) =
  (if al_state (alloc sv i) = SERVER_TURN_ALLOC_FULL then (sv_allocs sv)[i := removed (alloc sv i)] else sv_allocs sv)"
  by (simp add: delete_allocation_def upd_alloc_def removed_def Let_def split: option.split)

definition same_users :: "server \<Rightarrow> server \<Rightarrow> bool" where
  "same_users a b \<longleftrightarrow> map (\<lambda>n. (cl_address n, cl_timestamp n)) (sv_credentials b) = map (\<lambda>n. (cl_address n, cl_timestamp n)) (sv_credentials a)"

lemma same_users_delete: "same_users sv (delete_allocation i sv)"
  by (simp add: delete_allocation_def upd_alloc_def upd_quota_def same_users_def Let_def comp_def if_distrib split: option.split cong: if_cong)

text \<open>The loop over the allocations: an expired one is removed when its turn comes.\<close>

lemma book_allocs:
  assumes "fold (book_alloc now) [0..<k] (t, sv) = (t', sv')" "k \<le> length (sv_allocs sv)"
  shows "sv_allocs sv' = map (\<lambda>x. if expired now x then removed x else x) (take k (sv_allocs sv)) @ drop k (sv_allocs sv)
    \<and> same_users sv sv' \<and> t' \<le> t \<and> (\<forall>i < k. al_state (alloc sv i) = SERVER_TURN_ALLOC_FULL \<and> now < al_timestamp (alloc sv i) \<longrightarrow> t' \<le> al_timestamp (alloc sv i))"
  using assms
proof (induction k arbitrary: t' sv')
  case 0
  then show ?case by (simp add: same_users_def)
next
  case (Suc k)
  obtain t1 sv1 where one: "fold (book_alloc now) [0..<k] (t, sv) = (t1, sv1)" by fastforce
  have k: "k < length (sv_allocs sv)" using Suc.prems(2) by simp
  have IH: "sv_allocs sv1 = map (\<lambda>x. if expired now x then removed x else x) (take k (sv_allocs sv)) @ drop k (sv_allocs sv)"
    "same_users sv sv1" "t1 \<le> t"
    "\<forall>i < k. al_state (alloc sv i) = SERVER_TURN_ALLOC_FULL \<and> now < al_timestamp (alloc sv i) \<longrightarrow> t1 \<le> al_timestamp (alloc sv i)"
    using Suc.IH [OF one] k by simp_all
  have kk: "alloc sv1 k = alloc sv k" using IH(1) k by (simp add: nth_append)
  have step: "book_alloc now k (t1, sv1) = (t', sv')" using Suc.prems(1) one by simp
  have upd: "(map f (take k xs) @ drop k xs)[k := f (xs ! k)] = map f (take (Suc k) xs) @ drop (Suc k) xs" if "k < length xs" for f :: "server_turn_alloc \<Rightarrow> server_turn_alloc" and xs
    using that by (simp add: list_update_append take_Suc_conv_app_nth Cons_nth_drop_Suc [symmetric])
  have same: "map f (take k xs) @ drop k xs = map f (take (Suc k) xs) @ drop (Suc k) xs" if "k < length xs" "f (xs ! k) = xs ! k" for f :: "server_turn_alloc \<Rightarrow> server_turn_alloc" and xs
    using that by (simp add: take_Suc_conv_app_nth Cons_nth_drop_Suc [symmetric])
  show ?case
  proof (cases "expired now (alloc sv k)")
    case True
    then have "sv' = delete_allocation k sv1" "t' = t1" using step kk by (auto simp: book_alloc_def expired_def)
    moreover have "sv_allocs (delete_allocation k sv1) = (sv_allocs sv1)[k := (\<lambda>x. if expired now x then removed x else x) (alloc sv k)]"
      using True kk by (simp add: delete_alloc expired_def)
    ultimately show ?thesis using IH True same_users_delete [of sv1 k] upd [OF k, of "\<lambda>x. if expired now x then removed x else x"]
      by (auto simp: same_users_def less_Suc_eq expired_def)
  next
    case False
    then have "sv' = sv1" "t' = (if al_state (alloc sv k) = SERVER_TURN_ALLOC_FULL then min t1 (al_timestamp (alloc sv k)) else t1)"
      using step kk by (auto simp: book_alloc_def expired_def split: if_splits)
    then show ?thesis using IH False same [OF k, of "\<lambda>x. if expired now x then removed x else x"]
      by (auto simp: less_Suc_eq min_le_iff_disj split: if_splits)
  qed
qed

lemma same_users_filter:
  assumes "same_users a b"
  shows "map cl_address (filter (node_valid now) (sv_credentials b)) = map cl_address (filter (node_valid now) (sv_credentials a))"
proof -
  have "map cl_address (filter (node_valid now) ns) = map fst (filter (\<lambda>p. snd p = 0 \<or> now < snd p) (map (\<lambda>n. (cl_address n, cl_timestamp n)) ns))" for ns
    by (induction ns) (simp_all add: node_valid_def)
  then show ?thesis using assms by (simp add: same_users_def)
qed

lemma bookkeeping_effect:
  defines "now sv \<equiv> fst (server_clock sv)"
  shows "sv_allocs (snd (server_bookkeeping sv)) = map (\<lambda>x. if expired (now sv) x then removed x else x) (sv_allocs sv)"
    "map cl_address (sv_credentials (snd (server_bookkeeping sv))) = map cl_address (filter (node_valid (now sv)) (sv_credentials sv))"
    "x \<in> set (sv_allocs sv) \<Longrightarrow> al_state x = SERVER_TURN_ALLOC_FULL \<Longrightarrow> now sv < al_timestamp x \<Longrightarrow> fst (server_bookkeeping sv) \<le> al_timestamp x"
    "fst (server_bookkeeping sv) \<le> now sv + 60000"
proof -
  let ?c = "snd (server_clock sv)"
  obtain t' sv' where f: "fold (book_alloc (now sv)) [0..<length (sv_allocs ?c)] (now sv + 60000, ?c) = (t', sv')" by fastforce
  have b: "server_bookkeeping sv = (t', sv'\<lparr>sv_credentials := filter (node_valid (now sv)) (sv_credentials sv')\<rparr>)"
    using f by (simp add: server_bookkeeping_def Let_def split_def now_def)
  have e: "sv_allocs sv' = map (\<lambda>x. if expired (now sv) x then removed x else x) (sv_allocs sv)" "same_users ?c sv'" "t' \<le> now sv + 60000"
    "\<forall>i < length (sv_allocs sv). al_state (alloc sv i) = SERVER_TURN_ALLOC_FULL \<and> now sv < al_timestamp (alloc sv i) \<longrightarrow> t' \<le> al_timestamp (alloc sv i)"
    using book_allocs [OF f] by simp_all
  then show "sv_allocs (snd (server_bookkeeping sv)) = map (\<lambda>x. if expired (now sv) x then removed x else x) (sv_allocs sv)"
    "map cl_address (sv_credentials (snd (server_bookkeeping sv))) = map cl_address (filter (node_valid (now sv)) (sv_credentials sv))"
    "fst (server_bookkeeping sv) \<le> now sv + 60000"
    using b same_users_filter [OF e(2)] by simp_all
  show "x \<in> set (sv_allocs sv) \<Longrightarrow> al_state x = SERVER_TURN_ALLOC_FULL \<Longrightarrow> now sv < al_timestamp x \<Longrightarrow> fst (server_bookkeeping sv) \<le> al_timestamp x"
    using e(4) b by (auto simp: in_set_conv_nth)
qed



section \<open>Defects\<close>

lemma fault_kept [simp]:
  "sv_fault (sfault f sv) = Some (case sv_fault sv of None \<Rightarrow> f | Some g \<Rightarrow> g)" "sv_fault (semit ev sv) = sv_fault sv" "sv_fault (upd_alloc i g sv) = sv_fault sv"
  by (simp_all add: sfault_def semit_def upd_alloc_def split: option.split)

lemma delete_fault: "sv_fault sv \<noteq> None \<Longrightarrow> sv_fault (delete_allocation i sv) \<noteq> None"
  by (simp add: delete_allocation_def upd_quota_def Let_def split: option.split)

lemma book_allocs_fault: "sv_fault (snd x) \<noteq> None \<Longrightarrow> sv_fault (snd (fold (book_alloc now) is x)) \<noteq> None"
proof (induction "is" arbitrary: x)
  case (Cons i "is")
  have "sv_fault (snd (book_alloc now i x)) \<noteq> None" using Cons.prems delete_fault by (auto simp: book_alloc_def split: prod.split)
  then show ?case using Cons.IH by simp
qed simp

text \<open>A delete through a pointer to a node that was freed.\<close>

lemma book_allocs_dangling:
  assumes "i < length (sv_allocs sv)" "expired now (alloc sv i)" "al_credentials (alloc sv i) = Some a"
    "a \<notin> cl_address ` set (sv_credentials sv)"
  shows "sv_fault (snd (fold (book_alloc now) [0..<length (sv_allocs sv)] (t, sv))) \<noteq> None"
proof -
  obtain t1 sv1 where one: "fold (book_alloc now) [0..<i] (t, sv) = (t1, sv1)" by fastforce
  have b: "sv_allocs sv1 = map (\<lambda>x. if expired now x then removed x else x) (take i (sv_allocs sv)) @ drop i (sv_allocs sv)" "same_users sv sv1"
    using book_allocs [OF one] assms(1) by simp_all
  have i: "alloc sv1 i = alloc sv i" using b(1) assms(1) by (simp add: nth_append)
  have "map cl_address (sv_credentials sv1) = map cl_address (sv_credentials sv)"
    using arg_cong [OF b(2) [unfolded same_users_def], of "map fst"] by (simp add: comp_def)
  then have "node_at sv1 a = None" using assms(4) by (metis node_at_None list.set_map)
  then have "sv_fault (snd (book_alloc now i (t1, sv1))) \<noteq> None"
    using assms(2,3) i by (simp add: book_alloc_def expired_def delete_allocation_def upd_quota_def Let_def split: option.split)
  then have "sv_fault (snd (fold (book_alloc now) [Suc i..<length (sv_allocs sv)] (book_alloc now i (t1, sv1)))) \<noteq> None"
    by (rule book_allocs_fault)
  moreover have "[0..<length (sv_allocs sv)] = [0..<i] @ i # [Suc i..<length (sv_allocs sv)]"
    using assms(1) by (metis upt_add_eq_append upt_conv_Cons le_add_diff_inverse less_imp_le zero_le)
  ultimately show ?thesis using one by simp
qed


text \<open>C38: A server without users, which serves STUN only and has no table of allocations, divides by zero on any channel data datagram: the table is searched
  before anything else is checked.\<close>

theorem stun_only_server_divides_by_zero:
  assumes "jf_credentials config = []" "is_channel_data buf"
  shows "sv_fault (snd (server_input (server_create env port config) buf src)) = Some DivisionByZero"
proof -
  have "buf \<noteq> []" "64 \<le> hd buf" using assms(2) by (simp_all add: is_channel_data_def split: if_splits)
  moreover have "h AND 0xC0 \<noteq> 0" if "64 \<le> h" for h :: u8
  proof
    assume z: "h AND 0xC0 = 0"
    have "(0xC0 OR 0x3F :: u8) = - 1" by simp
    then have "h AND (0xC0 OR 0x3F) = h AND - 1" by (simp only:)
    then have "h AND 0x3F = h" using z by (simp only: bit.conj_disj_distrib and.right_neutral or.left_neutral)
    then have "h \<le> 0x3F" by (metis word_and_le1)
    with that show False by (auto dest: order_trans)
  qed
  ultimately have "\<not> is_stun_datagram buf" by (simp add: is_stun_datagram_def)
  moreover have "sv_allocs (server_create env port config) = []" "sv_fault (server_create env port config) = None"
    using assms(1) by (simp_all add: server_create_def Let_def)
  ultimately show ?thesis
    using assms(2) by (simp add: server_input_def server_process_channel_data_def find_allocation_def)
qed


text \<open>States in which the defects show: a server without users; one whose user expires before an allocation; a table of two entries.\<close>

theorem stun_only_server_divides_by_zero_witness:
  "sv_fault (snd (server_input (server_create sample_server_env 3478 (sample_config\<lparr>jf_credentials := []\<rparr>)) [0x40, 0, 0, 0] peer_a)) = Some DivisionByZero"
  by (rule stun_only_server_divides_by_zero) (simp_all add: is_channel_data_def)

definition aging_server :: server where
  "aging_server = sample_server\<lparr>sv_env := sample_server_env\<lparr>sx_clock := (\<lambda>k. 1000 * int k)\<rparr>, sv_ticks := 1,
     sv_credentials := [\<lparr>cl_address = 0, cl_username = [97], cl_password = [98], cl_allocations_quota = 1, cl_userhash = [], cl_timestamp = 500\<rparr>],
     sv_allocs := [alloc_zero\<lparr>al_state := SERVER_TURN_ALLOC_FULL, al_credentials := Some 0, al_timestamp := 1500\<rparr>]\<rparr>"


definition crowded_server :: server where
  "crowded_server = sample_server\<lparr>sv_allocs := (replicate 2 (alloc_zero\<lparr>al_state := SERVER_TURN_ALLOC_FULL, al_record := peer_a, al_credentials := Some 0\<rparr>))
     [unat (addr_record_hash peer_a True) mod 2 := alloc_zero\<lparr>al_state := SERVER_TURN_ALLOC_DELETED\<rparr>]\<rparr>"

lemma probe_second:
  "\<not> stops k \<Longrightarrow> stops j \<Longrightarrow> k < 2 \<Longrightarrow> j < 2 \<Longrightarrow> j \<noteq> k \<Longrightarrow> (k + 1) mod 2 = j \<Longrightarrow> probe_loop stops 2 k k = Some j"
  by (simp add: probe_loop.simps [of stops 2 k k] probe_loop.simps [of stops 2 k j])


end
