(* ===== verification/Mux.thy ===== *)
theory Mux
  imports Agent_Book Probing
begin

text \<open>
  The multiplexer (\<open>conn_mux.c\<close>): several agents share one socket, and a datagram goes to the agent that the map from
  addresses to agents names, or to one found from the contents of a STUN message. The agents are in the array of the registry
  (\<open>conn.h\<close>); a pointer to an agent is its index, which it keeps until it is removed, and its entries in the map are removed before.

  The operations run under the mutex of the registry. The clock and \<open>getnameinfo\<close> are arguments of the registry, what \<open>poll\<close> and
  \<open>udp_recvfrom\<close> return are arguments of the operations; memory allocation succeeds.
\<close>

section \<open>The map\<close>

abbreviation (input) INITIAL_MAP_SIZE :: nat where "INITIAL_MAP_SIZE \<equiv> 16"
abbreviation (input) INITIAL_REGISTRY_SIZE :: nat where "INITIAL_REGISTRY_SIZE \<equiv> 16"

datatype map_entry_type = MAP_ENTRY_TYPE_EMPTY | MAP_ENTRY_TYPE_DELETED | MAP_ENTRY_TYPE_FULL

record map_entry =
  me_type :: map_entry_type
  me_agent :: "nat option"
  me_record :: addr_record

record mux_map =
  mm_map :: "map_entry list"
  mm_count :: int

abbreviation mm_size :: "mux_map \<Rightarrow> nat" where "mm_size m \<equiv> length (mm_map m)"

definition map_entry_zero :: map_entry where
  "map_entry_zero = \<lparr>me_type = MAP_ENTRY_TYPE_EMPTY, me_agent = None, me_record = addr_zero\<rparr>"

definition empty_mux_map :: "nat \<Rightarrow> mux_map" where
  "empty_mux_map n = \<lparr>mm_map = replicate n map_entry_zero, mm_count = 0\<rparr>"

definition map_stops :: "mux_map \<Rightarrow> addr_record \<Rightarrow> bool \<Rightarrow> nat \<Rightarrow> bool" where
  "map_stops m record allow_deleted pos \<longleftrightarrow>
     me_type (mm_map m ! pos) = MAP_ENTRY_TYPE_EMPTY \<or> addr_record_is_equal (me_record (mm_map m ! pos)) record True
     \<or> me_type (mm_map m ! pos) = MAP_ENTRY_TYPE_DELETED \<and> allow_deleted"

definition map_key :: "nat \<Rightarrow> addr_record \<Rightarrow> nat" where
  "map_key sz record = unat (addr_record_hash record False) mod sz"

definition find_map_entry :: "mux_map \<Rightarrow> addr_record \<Rightarrow> bool \<Rightarrow> nat option" where
  "find_map_entry m record allow_deleted =
     probe_loop (map_stops m record allow_deleted) (mm_size m) (map_key (mm_size m) record) (map_key (mm_size m) record)"

definition store_map_entry :: "mux_map \<Rightarrow> nat \<Rightarrow> addr_record \<Rightarrow> nat \<Rightarrow> mux_map" where
  "store_map_entry m i record a =
     \<lparr>mm_map = (mm_map m)[i := \<lparr>me_type = MAP_ENTRY_TYPE_FULL, me_agent = Some a, me_record = record\<rparr>],
      mm_count = (if me_type (mm_map m ! i) \<noteq> MAP_ENTRY_TYPE_FULL then mm_count m + 1 else mm_count m)\<rparr>"

text \<open>Growing inserts the entries again into a larger map; \<open>ins\<close> is the insertion, which may grow the map itself.\<close>

fun reinsert :: "(mux_map \<Rightarrow> addr_record \<Rightarrow> nat \<Rightarrow> mux_map option) \<Rightarrow> map_entry list \<Rightarrow> mux_map \<Rightarrow> mux_map option" where
  "reinsert ins [] m = Some m"
| "reinsert ins (e # es) m =
     (if me_type e = MAP_ENTRY_TYPE_FULL
      then case ins m (me_record e) (the (me_agent e)) of None \<Rightarrow> None | Some m \<Rightarrow> reinsert ins es m
      else reinsert ins es m)"

definition grow_map :: "(mux_map \<Rightarrow> addr_record \<Rightarrow> nat \<Rightarrow> mux_map option) \<Rightarrow> mux_map \<Rightarrow> nat \<Rightarrow> mux_map option" where
  "grow_map ins m new_size = (if new_size \<le> mm_size m then Some m else reinsert ins (mm_map m) (empty_mux_map new_size))"

text \<open>
  The recursion of the insertion, directly and through \<open>grow_map\<close>, is bounded by a depth; \<open>None\<close> when it goes deeper. The result of \<open>grow_map\<close> is
  not looked at in the code.
\<close>

primrec insert_map_entry :: "nat \<Rightarrow> mux_map \<Rightarrow> addr_record \<Rightarrow> nat \<Rightarrow> mux_map option" where
  "insert_map_entry 0 m record a = None"
| "insert_map_entry (Suc depth) m record a =
     (let i = find_map_entry m record True
      in if (case i of None \<Rightarrow> True
             | Some i \<Rightarrow> me_type (mm_map m ! i) \<noteq> MAP_ENTRY_TYPE_FULL \<and> int (mm_size m) \<le> mm_count m * 2)
         then case grow_map (insert_map_entry depth) m (mm_size m * 2) of
                None \<Rightarrow> None | Some m \<Rightarrow> insert_map_entry depth m record a
         else Some (store_map_entry m (the i) record a))"

definition remove_map_entries :: "mux_map \<Rightarrow> nat \<Rightarrow> mux_map" where
  "remove_map_entries m a =
     (let hit = (\<lambda>e. me_type e = MAP_ENTRY_TYPE_FULL \<and> me_agent e = Some a)
      in \<lparr>mm_map = map (\<lambda>e. if hit e then e\<lparr>me_type := MAP_ENTRY_TYPE_DELETED, me_agent := None\<rparr> else e) (mm_map m),
          mm_count = mm_count m - int (length (filter hit (mm_map m)))\<rparr>)"

section \<open>The registry\<close>

record mux_conn =
  mc_agent :: agent
  mc_next_timestamp :: int
  mc_finished :: bool

datatype mux_output = MuxIncoming bytes bytes bytes u16 | MuxSent addr_record bytes | MuxDiffserv int

datatype mux_fault = MuxNotReturned

record mux_registry =
  mr_agents :: "mux_conn option list"
  mr_agents_count :: int
  mr_port :: u16
  mr_map :: mux_map
  mr_send_ds :: int
  mr_cb_mux_incoming :: bool
  mr_out :: "mux_output list"
  mr_fault :: "mux_fault option"
  mr_clock :: "nat \<Rightarrow> int"
  mr_ticks :: nat
  mr_nameinfo :: "sockaddr \<Rightarrow> nat \<Rightarrow> (bytes \<times> bytes) option"

definition mux_clock :: "mux_registry \<Rightarrow> int \<times> mux_registry" where
  "mux_clock rg = (mr_clock rg (mr_ticks rg), rg\<lparr>mr_ticks := mr_ticks rg + 1\<rparr>)"

definition mux_emit :: "mux_output \<Rightarrow> mux_registry \<Rightarrow> mux_registry" where
  "mux_emit ev rg = rg\<lparr>mr_out := mr_out rg @ [ev]\<rparr>"

text \<open>\<open>is_ready\<close> of the agent at an index.\<close>

definition is_ready :: "mux_conn option \<Rightarrow> bool" where
  "is_ready c = (case c of None \<Rightarrow> False | Some c \<Rightarrow> \<not> mc_finished c)"

definition conn_at :: "mux_registry \<Rightarrow> nat \<Rightarrow> mux_conn option" where
  "conn_at rg i = (if i < length (mr_agents rg) then mr_agents rg ! i else None)"

definition upd_conn :: "nat \<Rightarrow> (mux_conn \<Rightarrow> mux_conn) \<Rightarrow> mux_registry \<Rightarrow> mux_registry" where
  "upd_conn i f rg = rg\<lparr>mr_agents := (mr_agents rg)[i := map_option f (mr_agents rg ! i)]\<rparr>"

text \<open>A registry, once its socket is open, and the first one whose port is in a range.\<close>

definition conn_mux_registry_init :: "u16 \<Rightarrow> (nat \<Rightarrow> int) \<Rightarrow> (sockaddr \<Rightarrow> nat \<Rightarrow> (bytes \<times> bytes) option) \<Rightarrow> mux_registry" where
  "conn_mux_registry_init port clock nameinfo =
     \<lparr>mr_agents = replicate INITIAL_REGISTRY_SIZE None, mr_agents_count = 0, mr_port = port, mr_map = empty_mux_map INITIAL_MAP_SIZE,
      mr_send_ds = 0, mr_cb_mux_incoming = False, mr_out = [], mr_fault = None, mr_clock = clock, mr_ticks = 0, mr_nameinfo = nameinfo\<rparr>"

definition conn_mux_get_registry :: "mux_registry option list \<Rightarrow> u16 \<Rightarrow> u16 \<Rightarrow> nat option" where
  "conn_mux_get_registry registries port_begin port_end =
     first_index (\<lambda>r. case r of None \<Rightarrow> False
       | Some r \<Rightarrow> port_begin \<le> mr_port r \<and> (port_end = 0 \<or> mr_port r \<le> port_end)) registries"

section \<open>Agents of a registry\<close>

text \<open>\<open>conn_create\<close> and \<open>conn_destroy\<close> for an agent of the multiplexer, which needs a registry.\<close>

definition conn_create :: "mux_registry \<Rightarrow> agent \<Rightarrow> nat \<times> mux_registry" where
  "conn_create rg ag =
     (let i = length (takeWhile (\<lambda>c. c \<noteq> None) (mr_agents rg));
          agents = (if i = length (mr_agents rg) then mr_agents rg @ replicate (length (mr_agents rg)) None else mr_agents rg);
          rg = rg\<lparr>mr_agents := agents[i := Some \<lparr>mc_agent = ag, mc_next_timestamp = 0, mc_finished = False\<rparr>],
                  mr_agents_count := mr_agents_count rg + 1\<rparr>;
          (now, rg) = mux_clock rg
      in (i, upd_conn i (\<lambda>c. c\<lparr>mc_next_timestamp := now\<rparr>) rg))"

definition conn_mux_cleanup :: "mux_registry \<Rightarrow> nat \<Rightarrow> mux_registry" where
  "conn_mux_cleanup rg i =
     (let rg = rg\<lparr>mr_map := remove_map_entries (mr_map rg) i\<rparr>; (now, rg) = mux_clock rg
      in upd_conn i (\<lambda>c. c\<lparr>mc_next_timestamp := now\<rparr>) rg)"

definition conn_destroy :: "mux_registry \<Rightarrow> nat \<Rightarrow> mux_registry" where
  "conn_destroy rg i =
     (let rg = conn_mux_cleanup rg i
      in rg\<lparr>mr_agents := (mr_agents rg)[i := None], mr_agents_count := mr_agents_count rg - 1\<rparr>)"

definition conn_mux_listen :: "mux_registry \<Rightarrow> bool \<Rightarrow> int \<times> mux_registry" where
  "conn_mux_listen rg cb =
     (if \<not> cb then (0, rg\<lparr>mr_cb_mux_incoming := False\<rparr>)
      else if mr_cb_mux_incoming rg then (-1, rg)
      else (0, rg\<lparr>mr_cb_mux_incoming := True\<rparr>))"

definition conn_mux_can_release_registry :: "mux_registry \<Rightarrow> bool" where
  "conn_mux_can_release_registry rg = (\<not> mr_cb_mux_incoming rg)"

text \<open>\<open>sent\<close> is the result of \<open>udp_sendto\<close> (a negative one is the negated error number), \<open>ds_ok\<close> the success of \<open>udp_set_diffserv\<close>.\<close>

definition conn_mux_send :: "mux_registry \<Rightarrow> addr_record \<Rightarrow> bytes \<Rightarrow> int \<Rightarrow> bool \<Rightarrow> int \<Rightarrow> int \<times> mux_registry" where
  "conn_mux_send rg dst data ds ds_ok sent =
     (let rg = (if 0 \<le> mr_send_ds rg \<and> mr_send_ds rg \<noteq> ds
                then if ds_ok then (mux_emit (MuxDiffserv ds) rg)\<lparr>mr_send_ds := ds\<rparr> else rg\<lparr>mr_send_ds := -1\<rparr>
                else rg)
      in (sent, mux_emit (MuxSent dst data) rg))"

section \<open>Demultiplexing\<close>

text \<open>The first agent that is ready and has a property.\<close>

definition find_ready :: "(agent \<Rightarrow> bool) \<Rightarrow> mux_registry \<Rightarrow> nat option" where
  "find_ready P rg = first_index (\<lambda>c. is_ready c \<and> P (mc_agent (the c))) (mr_agents rg)"

text \<open>The search for a transaction id leaves a mark in the TURN table of an agent it looks at.\<close>

fun find_transaction :: "bytes \<Rightarrow> nat list \<Rightarrow> mux_registry \<Rightarrow> nat option \<times> mux_registry" where
  "find_transaction tid [] rg = (None, rg)"
| "find_transaction tid (i # is) rg =
     (if is_ready (conn_at rg i)
      then let (found, ag) = agent_find_entry_from_transaction_id (mc_agent (the (conn_at rg i))) tid;
               rg = upd_conn i (\<lambda>c. c\<lparr>mc_agent := ag\<rparr>) rg
           in if found \<noteq> None then (Some i, rg) else find_transaction tid is rg
      else find_transaction tid is rg)"

definition mapped_agent :: "mux_map \<Rightarrow> addr_record \<Rightarrow> nat option" where
  "mapped_agent m src =
     (case find_map_entry m src False of
        None \<Rightarrow> None
      | Some i \<Rightarrow> if me_type (mm_map m ! i) = MAP_ENTRY_TYPE_FULL then me_agent (mm_map m ! i) else None)"

definition mux_incoming :: "bytes \<Rightarrow> bytes \<Rightarrow> addr_record \<Rightarrow> mux_registry \<Rightarrow> mux_registry" where
  "mux_incoming local_ufrag remote_ufrag src rg =
     (case mr_nameinfo rg (ar_addr src) (ar_len src) of
        None \<Rightarrow> rg
      | Some (host, _) \<Rightarrow> mux_emit (MuxIncoming local_ufrag remote_ufrag host (addr_get_port (ar_addr src))) rg)"

definition lookup_binding :: "mux_registry \<Rightarrow> stun_message \<Rightarrow> addr_record \<Rightarrow> nat option \<times> mux_registry" where
  "lookup_binding rg msg src =
     (let username = cr_username (sm_credentials msg);
          local_ufrag = takeWhile (\<lambda>b. b \<noteq> of_char CHR '':'') username
      in if of_char CHR '':'' \<notin> set username then (None, rg)
         else case find_ready (\<lambda>ag. local_ufrag = id_ice_ufrag (ag_local ag)) rg of
                Some i \<Rightarrow>
                  (case insert_map_entry 2 (mr_map rg) src i of
                     None \<Rightarrow> (None, rg\<lparr>mr_fault := Some MuxNotReturned\<rparr>)
                   | Some m \<Rightarrow> (Some i, rg\<lparr>mr_map := m\<rparr>))
              | None \<Rightarrow>
                  (None, if mr_cb_mux_incoming rg then mux_incoming local_ufrag (drop (length local_ufrag + 1) username) src rg else rg))"

definition lookup_agent :: "mux_registry \<Rightarrow> bytes \<Rightarrow> addr_record \<Rightarrow> nat option \<times> mux_registry" where
  "lookup_agent rg buf src =
     (case mapped_agent (mr_map rg) src of
        Some i \<Rightarrow> (Some i, rg)
      | None \<Rightarrow>
          if \<not> is_stun_datagram buf then (None, rg)
          else case stun_read buf of
            Inl _ \<Rightarrow> (None, rg)
          | Inr (_, msg) \<Rightarrow>
              if sm_class msg = STUN_CLASS_REQUEST \<and> sm_method msg = STUN_METHOD_BINDING \<and> sm_has_integrity msg
              then lookup_binding rg msg src
              else if \<not> STUN_IS_RESPONSE (sm_class msg) then (None, rg)
              else find_transaction (sm_transaction_id msg) [0..<length (mr_agents rg)] rg)"

section \<open>Processing\<close>

text \<open>Datagrams are not empty here: \<open>conn_mux_recv\<close> skips empty ones.\<close>

definition conn_mux_datagram :: "bytes \<Rightarrow> addr_record \<Rightarrow> mux_registry \<Rightarrow> mux_registry" where
  "conn_mux_datagram buf src rg =
     (case lookup_agent rg buf src of
        (None, rg) \<Rightarrow> rg
      | (Some i, rg) \<Rightarrow>
          if \<not> is_ready (conn_at rg i) then rg
          else let rg = upd_conn i (\<lambda>c. c\<lparr>mc_agent := agent_conn_recv (mc_agent c) buf src\<rparr>) rg;
                   (now, rg) = mux_clock rg
               in upd_conn i (\<lambda>c. c\<lparr>mc_next_timestamp := now\<rparr>) rg)"

definition conn_mux_fail :: "mux_registry \<Rightarrow> mux_registry" where
  "conn_mux_fail rg = rg\<lparr>mr_agents := map (\<lambda>c. if is_ready c
     then map_option (\<lambda>c. c\<lparr>mc_agent := agent_conn_fail (mc_agent c), mc_finished := True\<rparr>) c else c) (mr_agents rg)\<rparr>"

definition conn_mux_update :: "nat \<Rightarrow> mux_registry \<Rightarrow> mux_registry" where
  "conn_mux_update i rg =
     (if \<not> is_ready (conn_at rg i) then rg
      else let (now, rg) = mux_clock rg
           in if now < mc_next_timestamp (the (conn_at rg i)) then rg
              else let (t, ag) = agent_conn_update (mc_agent (the (conn_at rg i)))
                   in upd_conn i (\<lambda>c. c\<lparr>mc_agent := ag, mc_next_timestamp := t\<rparr>) rg)"

text \<open>
  The result of \<open>poll\<close>: an error on the socket, or the datagrams that are received and whether receiving ends with an error.
\<close>

datatype mux_poll = MuxPollError | MuxPollEvents "(bytes \<times> addr_record) list" bool

definition conn_mux_process :: "mux_registry \<Rightarrow> mux_poll \<Rightarrow> int \<times> mux_registry" where
  "conn_mux_process rg p =
     (case p of
        MuxPollError \<Rightarrow> (-1, conn_mux_fail rg)
      | MuxPollEvents ds bad \<Rightarrow>
          let rg = fold (\<lambda>(buf, src). conn_mux_datagram buf src) ds rg
          in if bad then (-1, conn_mux_fail rg)
             else (0, fold conn_mux_update [0..<length (mr_agents rg)] rg))"

text \<open>The number that decides whether the thread goes on, and the time of the next round.\<close>

definition conn_mux_prepare :: "mux_registry \<Rightarrow> int \<times> int \<times> mux_registry" where
  "conn_mux_prepare rg =
     (let (now, rg) = mux_clock rg;
          next_timestamp = fold (\<lambda>c t. if is_ready c then min t (mc_next_timestamp (the c)) else t) (mr_agents rg) (now + 60000)
      in (mr_agents_count rg + (if mr_cb_mux_incoming rg then 1 else 0), next_timestamp, rg))"

end
