(* ===== verification/Mux_Map.thy ===== *)
theory Mux_Map
  imports Mux
begin

text \<open>
  The map of the multiplexer refines a finite map from addresses with ports to agents: insertion and removal have the effect of an update and
  a restriction on what \<open>mapped_agent\<close> returns, growing has none, and the recursion of the insertion ends at depth two.
\<close>

abbreviation same_peer :: "addr_record \<Rightarrow> addr_record \<Rightarrow> bool" where "same_peer a b \<equiv> addr_record_is_equal a b True"
abbreviation known_peer :: "addr_record \<Rightarrow> bool" where "known_peer r \<equiv> addr_known (ar_addr r)"

text \<open>The hash leaves the port out, the comparison does not.\<close>

lemma same_peer_hash: "same_peer a b \<Longrightarrow> addr_record_hash a False = addr_record_hash b False"
proof -
  assume "same_peer a b"
  then have "addr_record_is_equal a b False" by (auto simp: addr_record_is_equal_def addr_is_equal_cases)
  then show ?thesis by (rule record_key.eq_hash)
qed

interpretation peer_key: hash_key "\<lambda>a b. addr_record_is_equal a b True" "\<lambda>a. addr_record_hash a False" "\<lambda>r. addr_known (ar_addr r)"
  by unfold_locales (auto intro: record_key.eq_refl record_key.eq_sym same_peer_hash dest: record_key.eq_trans)

declare insert_map_entry.simps(2) [simp del]

section \<open>The invariant\<close>

abbreviation full :: "map_entry \<Rightarrow> bool" where "full e \<equiv> me_type e = MAP_ENTRY_TYPE_FULL"
abbreviation at :: "mux_map \<Rightarrow> nat \<Rightarrow> map_entry" where "at m p \<equiv> mm_map m ! p"

text \<open>Position \<open>e\<close> of the probe sequence of a record.\<close>

definition probe_pos :: "mux_map \<Rightarrow> addr_record \<Rightarrow> nat \<Rightarrow> nat" where
  "probe_pos m r e = (map_key (mm_size m) r + e) mod mm_size m"

definition chain :: "mux_map \<Rightarrow> nat \<Rightarrow> bool" where
  "chain m p \<longleftrightarrow> (\<exists>d < mm_size m. p = probe_pos m (me_record (at m p)) d
     \<and> (\<forall>e < d. me_type (at m (probe_pos m (me_record (at m p)) e)) \<noteq> MAP_ENTRY_TYPE_EMPTY
          \<and> \<not> same_peer (me_record (at m (probe_pos m (me_record (at m p)) e))) (me_record (at m p))))"

definition map_inv :: "mux_map \<Rightarrow> bool" where
  "map_inv m \<longleftrightarrow> 0 < mm_size m \<and> even (mm_size m) \<and> mm_count m = int (length (filter full (mm_map m)))
     \<and> 2 * mm_count m \<le> int (mm_size m)
     \<and> (\<forall>p < mm_size m. full (at m p) \<longrightarrow> known_peer (me_record (at m p)) \<and> me_agent (at m p) \<noteq> None \<and> chain m p)"

lemma find_map_entry_Some:
  assumes "0 < mm_size m"
  shows "find_map_entry m r d = Some p \<longleftrightarrow>
    (\<exists>e < mm_size m. p = probe_pos m r e \<and> map_stops m r d p \<and> (\<forall>f < e. \<not> map_stops m r d (probe_pos m r f)))"
  unfolding find_map_entry_def probe_pos_def using assms by (subst probe_Some) (auto simp: map_key_def)

lemma probe_pos_less: "0 < mm_size m \<Longrightarrow> probe_pos m r e < mm_size m"
  by (simp add: probe_pos_def)

lemma probe_pos_same: "same_peer a b \<Longrightarrow> probe_pos m a e = probe_pos m b e"
  by (simp add: probe_pos_def map_key_def same_peer_hash)

lemma find_full:
  assumes "map_inv m" "p < mm_size m" "full (at m p)" "same_peer (me_record (at m p)) r"
  shows "find_map_entry m r False = Some p"
proof -
  let ?r = "me_record (at m p)"
  obtain d where d: "d < mm_size m" "p = probe_pos m ?r d" "\<forall>e < d. me_type (at m (probe_pos m ?r e)) \<noteq> MAP_ENTRY_TYPE_EMPTY
      \<and> \<not> same_peer (me_record (at m (probe_pos m ?r e))) ?r"
    using assms unfolding map_inv_def chain_def by blast
  have "\<not> map_stops m r False (probe_pos m r f)" if "f < d" for f
    using d(3) that assms(4) peer_key.eq_right [OF assms(4)] by (auto simp: map_stops_def probe_pos_same [OF assms(4)])
  moreover have "map_stops m r False p" using assms(4) by (simp add: map_stops_def)
  ultimately show ?thesis
    using assms(1) d(1,2) probe_pos_same [OF assms(4)] by (subst find_map_entry_Some) (auto simp: map_inv_def)
qed

lemma mapped_agent_iff:
  assumes "map_inv m"
  shows "mapped_agent m r = Some a \<longleftrightarrow> (\<exists>p < mm_size m. full (at m p) \<and> same_peer (me_record (at m p)) r \<and> me_agent (at m p) = Some a)"
proof
  assume "mapped_agent m r = Some a"
  then obtain p where p: "find_map_entry m r False = Some p" "full (at m p)" "me_agent (at m p) = Some a"
    by (auto simp: mapped_agent_def split: option.splits if_splits)
  have sz: "0 < mm_size m" using assms by (simp add: map_inv_def)
  then have "p < mm_size m" "map_stops m r False p" using p(1) by (auto simp: find_map_entry_Some probe_pos_less)
  with p show "\<exists>p < mm_size m. full (at m p) \<and> same_peer (me_record (at m p)) r \<and> me_agent (at m p) = Some a"
    by (auto simp: map_stops_def)
next
  assume "\<exists>p < mm_size m. full (at m p) \<and> same_peer (me_record (at m p)) r \<and> me_agent (at m p) = Some a"
  then show "mapped_agent m r = Some a" using find_full [OF assms] by (auto simp: mapped_agent_def)
qed

lemma mapped_agent_None:
  assumes "map_inv m"
  shows "mapped_agent m r = None \<longleftrightarrow> (\<forall>p < mm_size m. full (at m p) \<longrightarrow> \<not> same_peer (me_record (at m p)) r)"
proof -
  have "mapped_agent m r = None \<longleftrightarrow> (\<forall>a. mapped_agent m r \<noteq> Some a)" by (cases "mapped_agent m r") auto
  also have "\<dots> \<longleftrightarrow> (\<forall>p < mm_size m. full (at m p) \<longrightarrow> \<not> same_peer (me_record (at m p)) r)"
    using assms unfolding mapped_agent_iff [OF assms] map_inv_def by blast
  finally show ?thesis .
qed

section \<open>Insertion without growth\<close>

lemma not_all_full:
  assumes "map_inv m"
  obtains p where "p < mm_size m" "\<not> full (at m p)"
proof -
  have "0 < mm_size m" "2 * int (length (filter full (mm_map m))) \<le> int (mm_size m)" using assms by (simp_all add: map_inv_def)
  then have "length (filter full (mm_map m)) < mm_size m" by linarith
  then have "filter full (mm_map m) \<noteq> mm_map m" by auto
  then obtain e where "e \<in> set (mm_map m)" "\<not> full e" by (auto simp: filter_id_conv)
  then show thesis using that by (auto simp: in_set_conv_nth)
qed

lemma filter_update:
  "i < length xs \<Longrightarrow> \<not> P (xs ! i) \<Longrightarrow> P x \<Longrightarrow> length (filter P (xs[i := x])) = Suc (length (filter P xs))"
  by (induction xs arbitrary: i) (auto simp: nth_Cons' split: nat.splits)

definition inserted :: "mux_map \<Rightarrow> addr_record \<Rightarrow> nat \<Rightarrow> mux_map \<Rightarrow> bool" where
  "inserted m r a m' \<longleftrightarrow> map_inv m' \<and> (\<forall>r'. mapped_agent m' r' = (if same_peer r r' then Some a else mapped_agent m r'))"

lemma store_inserted:
  assumes inv: "map_inv m" and find: "find_map_entry m r True = Some i" and new: "mapped_agent m r = None"
    and known: "known_peer r" and room: "2 * mm_count m < int (mm_size m)"
  shows "inserted m r a (store_map_entry m i r a) \<and> mm_size (store_map_entry m i r a) = mm_size m
    \<and> mm_count (store_map_entry m i r a) = mm_count m + 1"
proof -
  let ?e = "\<lparr>me_type = MAP_ENTRY_TYPE_FULL, me_agent = Some a, me_record = r\<rparr>"
  let ?m = "store_map_entry m i r a"
  have sz: "0 < mm_size m" using inv by (simp add: map_inv_def)
  obtain d where d: "d < mm_size m" "i = probe_pos m r d" "map_stops m r True i" "\<forall>f < d. \<not> map_stops m r True (probe_pos m r f)"
    using find by (auto simp: find_map_entry_Some [OF sz])
  have i: "i < mm_size m" using d(2) probe_pos_less [OF sz] by simp
  have none: "\<not> same_peer (me_record (at m p)) r" if "p < mm_size m" "full (at m p)" for p
    using new that unfolding mapped_agent_None [OF inv] by blast
  have free: "\<not> full (at m i)" using d(3) none [OF i] by (auto simp: map_stops_def)
  have m: "mm_map ?m = (mm_map m)[i := ?e]" "mm_count ?m = mm_count m + 1" "mm_size ?m = mm_size m" "\<And>r e. probe_pos ?m r e = probe_pos m r e"
    using free by (simp_all add: store_map_entry_def probe_pos_def)
  have at: "at ?m q = (if q = i then ?e else at m q)" for q using i by (simp add: m(1) nth_list_update)
  have at_i: "at ?m i = ?e" by (simp add: at)
  have "chain ?m i" unfolding chain_def at_i m(3,4)
  proof (intro exI [of _ d] conjI allI impI)
    fix f assume "f < d"
    then have "probe_pos m r f \<noteq> i" using d(3,4) by metis
    then show "me_type (at ?m (probe_pos m (me_record ?e) f)) \<noteq> MAP_ENTRY_TYPE_EMPTY"
      "\<not> same_peer (me_record (at ?m (probe_pos m (me_record ?e) f))) (me_record ?e)"
      using d(4) \<open>f < d\<close> by (simp_all add: at map_stops_def)
  qed (use d in simp_all)
  moreover have "chain ?m p" if "p < mm_size m" "full (at m p)" for p
  proof -
    have "p \<noteq> i" using that free by auto
    then have p: "at ?m p = at m p" by (simp add: at)
    have "\<not> same_peer r (me_record (at m p))" using none [OF that] peer_key.eq_sym by blast
    moreover have "chain m p" using inv that by (simp add: map_inv_def)
    ultimately show ?thesis unfolding chain_def p m(3,4) by (auto simp: at)
  qed
  moreover have "mm_count ?m = int (length (filter full (mm_map ?m)))"
    using inv i free filter_update [of i "mm_map m" full ?e] by (simp add: m map_inv_def)
  moreover have "2 * mm_count ?m \<le> int (mm_size m)"
  proof -
    obtain k where "mm_size m = 2 * k" using inv by (auto simp: map_inv_def elim: evenE)
    then show ?thesis using room m(2) by simp
  qed
  ultimately have inv': "map_inv ?m"
    using inv known unfolding map_inv_def m(3) by (auto simp: at)
  have "mapped_agent ?m r' = Some b \<longleftrightarrow> (if same_peer r r' then Some a else mapped_agent m r') = Some b" for r' b
  proof -
    have "mapped_agent ?m r' = Some b \<longleftrightarrow> same_peer r r' \<and> a = b \<or> mapped_agent m r' = Some b"
      using i free unfolding mapped_agent_iff [OF inv'] mapped_agent_iff [OF inv] m(3) by (auto simp: at)
    moreover have "mapped_agent m r' = None" if "same_peer r r'"
      using none peer_key.eq_right [OF that] unfolding mapped_agent_None [OF inv] by blast
    ultimately show ?thesis by auto
  qed
  then have "mapped_agent ?m r' = (if same_peer r r' then Some a else mapped_agent m r')" for r'
    by (metis option.exhaust)
  with inv' m show ?thesis by (simp add: inserted_def)
qed

lemma find_free:
  assumes "map_inv m" "mapped_agent m r = None"
  obtains i where "find_map_entry m r True = Some i" "\<not> full (at m i)"
proof -
  have sz: "0 < mm_size m" using assms(1) by (simp add: map_inv_def)
  obtain p where p: "p < mm_size m" "\<not> full (at m p)" using assms(1) by (rule not_all_full)
  then have "map_stops m r True p" by (cases "me_type (at m p)") (auto simp: map_stops_def)
  then obtain i where i: "find_map_entry m r True = Some i"
    using probe_None [of "map_key (mm_size m) r" "mm_size m" p "map_stops m r True"] p(1) sz by (auto simp: find_map_entry_def map_key_def)
  then have "i < mm_size m" "map_stops m r True i" using sz by (auto simp: find_map_entry_Some probe_pos_less)
  moreover have "\<not> same_peer (me_record (at m i)) r" if "full (at m i)"
    using assms \<open>i < mm_size m\<close> that by (simp add: mapped_agent_None)
  ultimately have "\<not> full (at m i)" by (auto simp: map_stops_def)
  with i show thesis by (rule that)
qed

lemma insert_small:
  assumes "map_inv m" "mapped_agent m r = None" "known_peer r" "2 * mm_count m < int (mm_size m)"
  obtains m' where "insert_map_entry (Suc n) m r a = Some m'" "inserted m r a m'" "mm_size m' = mm_size m" "mm_count m' = mm_count m + 1"
proof -
  obtain i where i: "find_map_entry m r True = Some i" using assms(1,2) by (rule find_free)
  then have "insert_map_entry (Suc n) m r a = Some (store_map_entry m i r a)" using assms(4) by (simp add: insert_map_entry.simps(2))
  with store_inserted [OF assms(1) i assms(2-4), of a] that show thesis by blast
qed

section \<open>Growth\<close>

lemma empty_map:
  assumes "0 < k" "even k"
  shows "map_inv (empty_mux_map k)" "mapped_agent (empty_mux_map k) r = None"
proof -
  show "map_inv (empty_mux_map k)"
    using assms by (simp add: map_inv_def empty_mux_map_def map_entry_zero_def filter_empty_conv)
  then show "mapped_agent (empty_mux_map k) r = None"
    by (simp add: mapped_agent_None) (simp add: empty_mux_map_def map_entry_zero_def)
qed

lemma mapped_agent_same: "map_inv m \<Longrightarrow> same_peer r r' \<Longrightarrow> mapped_agent m r = mapped_agent m r'"
proof -
  assume "map_inv m" "same_peer r r'"
  then have "mapped_agent m r = Some a \<longleftrightarrow> mapped_agent m r' = Some a" for a
    by (simp add: mapped_agent_iff peer_key.eq_right)
  then show ?thesis by (metis option.exhaust)
qed

lemma full_unique:
  assumes "map_inv m" "p < mm_size m" "q < mm_size m" "full (at m p)" "full (at m q)" "same_peer (me_record (at m p)) (me_record (at m q))"
  shows "p = q"
proof -
  have "same_peer (me_record (at m q)) (me_record (at m q))"
    using assms by (auto simp: map_inv_def intro: peer_key.eq_refl)
  then show ?thesis using find_full [OF assms(1,2,4,6)] find_full [OF assms(1,3,5)] by simp
qed

definition holds :: "map_entry list \<Rightarrow> addr_record \<Rightarrow> nat \<Rightarrow> bool" where
  "holds es r a \<longleftrightarrow> (\<exists>e \<in> set es. full e \<and> same_peer (me_record e) r \<and> me_agent e = Some a)"

lemma reinsert_all:
  assumes "map_inv m" "\<And>e. e \<in> set es \<Longrightarrow> full e \<Longrightarrow> known_peer (me_record e) \<and> me_agent e \<noteq> None \<and> mapped_agent m (me_record e) = None"
    and "sorted_wrt (\<lambda>e f. full e \<longrightarrow> full f \<longrightarrow> \<not> same_peer (me_record e) (me_record f)) es"
    and "2 * (mm_count m + int (length (filter full es))) \<le> int (mm_size m)"
  obtains m' where "reinsert (insert_map_entry (Suc n)) es m = Some m'" "map_inv m'" "mm_size m' = mm_size m"
    "mm_count m' = mm_count m + int (length (filter full es))"
    "\<And>r a. mapped_agent m' r = Some a \<longleftrightarrow> mapped_agent m r = Some a \<or> holds es r a"
  using assms
proof (induction es arbitrary: m thesis)
  case Nil
  then show ?case by (simp add: holds_def)
next
  case (Cons e es)
  show ?case
  proof (cases "full e")
    case False
    show ?thesis by (rule Cons.IH [of m]) (use Cons.prems False in \<open>auto simp: holds_def\<close>)
  next
    case True
    obtain a where e: "known_peer (me_record e)" "me_agent e = Some a" "mapped_agent m (me_record e) = None"
      using Cons.prems(3) [of e] True by auto
    obtain m1 where m1: "insert_map_entry (Suc n) m (me_record e) a = Some m1" "inserted m (me_record e) a m1"
        "mm_size m1 = mm_size m" "mm_count m1 = mm_count m + 1"
      using insert_small [OF Cons.prems(2) e(3,1)] Cons.prems(5) True by auto
    have map1: "mapped_agent m1 r = (if same_peer (me_record e) r then Some a else mapped_agent m r)" for r
      using m1(2) by (simp add: inserted_def)
    have none: "mapped_agent m r = None" if "same_peer (me_record e) r" for r
      using mapped_agent_same [OF Cons.prems(2) that] e(3) by simp
    obtain m' where m': "reinsert (insert_map_entry (Suc n)) es m1 = Some m'" "map_inv m'" "mm_size m' = mm_size m1"
        "mm_count m' = mm_count m1 + int (length (filter full es))"
        "\<And>r a. mapped_agent m' r = Some a \<longleftrightarrow> mapped_agent m1 r = Some a \<or> holds es r a"
      by (rule Cons.IH [of m1]) (use Cons.prems True m1 in \<open>auto simp: map1 inserted_def\<close>)
    show ?thesis
    proof (rule Cons.prems(1) [of m'])
      fix r b
      have "holds (e # es) r b \<longleftrightarrow> same_peer (me_record e) r \<and> a = b \<or> holds es r b"
        using True e(2) by (auto simp: holds_def)
      then show "mapped_agent m' r = Some b \<longleftrightarrow> mapped_agent m r = Some b \<or> holds (e # es) r b"
        using none [of r] by (auto simp: m'(5) map1)
    qed (use m' m1 True e in auto)
  qed
qed

lemma grow_map_same:
  assumes "map_inv m"
  obtains m' where "grow_map (insert_map_entry (Suc n)) m (mm_size m * 2) = Some m'" "map_inv m'" "mm_size m' = mm_size m * 2"
    "mm_count m' = mm_count m" "mapped_agent m' = mapped_agent m"
proof -
  let ?m = "empty_mux_map (mm_size m * 2)"
  have sz: "0 < mm_size m" and cnt: "mm_count m = int (length (filter full (mm_map m)))" "2 * mm_count m \<le> int (mm_size m)"
    using assms by (simp_all add: map_inv_def)
  have entries: "known_peer (me_record e) \<and> me_agent e \<noteq> None" if "e \<in> set (mm_map m)" "full e" for e
    using assms that by (auto simp: map_inv_def in_set_conv_nth)
  have sorted: "sorted_wrt (\<lambda>e f. full e \<longrightarrow> full f \<longrightarrow> \<not> same_peer (me_record e) (me_record f)) (mm_map m)"
    unfolding sorted_wrt_iff_nth_less
  proof (intro allI impI notI)
    fix i j assume "i < j" "j < mm_size m" "full (at m i)" "full (at m j)" "same_peer (me_record (at m i)) (me_record (at m j))"
    then show False using full_unique [OF assms, of i j] by simp
  qed
  have m: "map_inv ?m" "mapped_agent ?m r = None" "mm_count ?m = 0" "mm_size ?m = mm_size m * 2" for r
    using empty_map [of "mm_size m * 2"] sz by (simp_all add: empty_mux_map_def)
  obtain m' where m': "reinsert (insert_map_entry (Suc n)) (mm_map m) ?m = Some m'" "map_inv m'" "mm_size m' = mm_size ?m"
      "mm_count m' = mm_count ?m + int (length (filter full (mm_map m)))"
      "\<And>r a. mapped_agent m' r = Some a \<longleftrightarrow> mapped_agent ?m r = Some a \<or> holds (mm_map m) r a"
    by (rule reinsert_all [OF m(1) _ sorted]) (use entries m(2-4) cnt in auto)
  have "mapped_agent m' r = Some a \<longleftrightarrow> mapped_agent m r = Some a" for r a
    unfolding m'(5) m(2) mapped_agent_iff [OF assms] holds_def by (auto simp: in_set_conv_nth intro!: bexI [OF _ nth_mem])
  then have "mapped_agent m' = mapped_agent m" by (intro ext) (metis option.exhaust)
  with m' m cnt sz show thesis by (intro that [of m']) (simp_all add: grow_map_def)
qed

text \<open>Depth two is enough: after growing there is room.\<close>

lemma insert_ok:
  assumes "map_inv m" "mapped_agent m r = None" "known_peer r"
  obtains m' where "insert_map_entry (Suc (Suc n)) m r a = Some m'" "inserted m r a m'"
proof (cases "2 * mm_count m < int (mm_size m)")
  case True
  with assms that show thesis by (meson insert_small)
next
  case False
  obtain i where i: "find_map_entry m r True = Some i" "\<not> full (at m i)" using assms(1,2) by (rule find_free)
  obtain m1 where m1: "grow_map (insert_map_entry (Suc n)) m (mm_size m * 2) = Some m1" "map_inv m1" "mm_size m1 = mm_size m * 2"
      "mm_count m1 = mm_count m" "mapped_agent m1 = mapped_agent m"
    using assms(1) by (rule grow_map_same)
  have step: "insert_map_entry (Suc (Suc n)) m r a = insert_map_entry (Suc n) m1 r a"
    using False i m1(1) by (simp add: insert_map_entry.simps(2) mult.commute)
  have "0 < mm_size m" "2 * mm_count m \<le> int (mm_size m)" using assms(1) by (simp_all add: map_inv_def)
  then have "2 * mm_count m1 < int (mm_size m1)" unfolding m1(3,4) by linarith
  then obtain m' where "insert_map_entry (Suc n) m1 r a = Some m'" "inserted m1 r a m'"
    using insert_small [OF m1(2) _ assms(3)] assms(2) m1(5) by metis
  with that step m1(5) show thesis by (simp add: inserted_def)
qed

section \<open>Removal\<close>

lemma remove_map_entries_inv:
  assumes "map_inv m"
  shows "map_inv (remove_map_entries m a)"
    and "mapped_agent (remove_map_entries m a) r = (if mapped_agent m r = Some a then None else mapped_agent m r)"
proof -
  let ?m = "remove_map_entries m a"
  let ?hit = "\<lambda>e. full e \<and> me_agent e = Some a"
  have sz: "mm_size ?m = mm_size m" by (simp add: remove_map_entries_def Let_def)
  have at: "at ?m p = (if ?hit (at m p) then (at m p)\<lparr>me_type := MAP_ENTRY_TYPE_DELETED, me_agent := None\<rparr> else at m p)"
    if "p < mm_size m" for p using that by (simp add: remove_map_entries_def Let_def)
  have rec: "me_record (at ?m p) = me_record (at m p)" if "p < mm_size m" for p using that by (simp add: at)
  have empty: "me_type (at ?m p) = MAP_ENTRY_TYPE_EMPTY \<longleftrightarrow> me_type (at m p) = MAP_ENTRY_TYPE_EMPTY" if "p < mm_size m" for p
    using that by (simp add: at)
  have pos: "probe_pos ?m r e = probe_pos m r e" for r e by (simp add: probe_pos_def sz)
  have chain: "chain ?m p \<longleftrightarrow> chain m p" if "p < mm_size m" for p
  proof -
    have "probe_pos m r e < mm_size m" for r e using that by (intro probe_pos_less) linarith
    then show ?thesis unfolding chain_def sz pos rec [OF that] by (simp add: rec empty)
  qed
  have "filter full (map (\<lambda>e. if ?hit e then e\<lparr>me_type := MAP_ENTRY_TYPE_DELETED, me_agent := None\<rparr> else e) xs)
      = filter (\<lambda>e. full e \<and> \<not> ?hit e) xs" for xs by (induction xs) auto
  then have "filter full (mm_map ?m) = filter (\<lambda>e. full e \<and> \<not> ?hit e) (mm_map m)"
    by (simp only: remove_map_entries_def Let_def mux_map.simps)
  moreover have "length (filter full xs) = length (filter ?hit xs) + length (filter (\<lambda>e. full e \<and> \<not> ?hit e) xs)" for xs
    by (induction xs) auto
  ultimately have "mm_count ?m = int (length (filter full (mm_map ?m)))" "mm_count ?m \<le> mm_count m"
    using assms by (simp_all add: map_inv_def remove_map_entries_def Let_def)
  then show inv: "map_inv ?m" using assms unfolding map_inv_def sz by (auto simp: at chain split: if_splits)
  have "mapped_agent ?m r = Some b \<longleftrightarrow> mapped_agent m r = Some b \<and> b \<noteq> a" for b
    unfolding mapped_agent_iff [OF inv] mapped_agent_iff [OF assms] sz by (auto simp: at split: if_splits)
  then show "mapped_agent ?m r = (if mapped_agent m r = Some a then None else mapped_agent m r)"
    by (metis option.exhaust)
qed

end
