(* ===== verification/Mux_Runs.thy ===== *)
theory Mux_Runs
  imports Mux_Map Agent_Runs
begin

text \<open>
  Runs of the multiplexer: the sequences of operations that the API and the thread perform on a registry, with an invariant of all of them.
  The map never names an agent that is gone, the number of agents is right, and looking up a source always returns.
\<close>

section \<open>Which slots of the registry are taken\<close>

definition slots :: "mux_registry \<Rightarrow> bool list" where
  "slots rg = map (\<lambda>c. c \<noteq> None) (mr_agents rg)"

definition mux_ok :: "mux_registry \<Rightarrow> bool" where
  "mux_ok rg \<longleftrightarrow> map_inv (mr_map rg) \<and> mr_fault rg = None \<and> slots rg \<noteq> []
     \<and> mr_agents_count rg = int (length (filter id (slots rg)))
     \<and> (\<forall>r i. mapped_agent (mr_map rg) r = Some i \<longrightarrow> i < length (slots rg) \<and> slots rg ! i)"

text \<open>Operations that keep what the invariant looks at.\<close>

definition mux_same :: "mux_registry \<Rightarrow> mux_registry \<Rightarrow> bool" where
  "mux_same rg rg' \<longleftrightarrow> slots rg' = slots rg \<and> mr_map rg' = mr_map rg \<and> mr_agents_count rg' = mr_agents_count rg \<and> mr_fault rg' = mr_fault rg"

named_theorems mux_keeps

lemma mux_same_refl [mux_keeps]: "mux_same rg rg"
  by (simp add: mux_same_def)

lemma mux_same_trans: "mux_same a b \<Longrightarrow> mux_same b c \<Longrightarrow> mux_same a c"
  by (simp add: mux_same_def)

lemma mux_same_ok: "mux_same rg rg' \<Longrightarrow> mux_ok rg \<Longrightarrow> mux_ok rg'"
  by (simp add: mux_same_def mux_ok_def)

lemma slots_upd_conn: "slots (upd_conn i f rg) = slots rg"
proof (rule nth_equalityI)
  fix j assume "j < length (slots (upd_conn i f rg))"
  then show "slots (upd_conn i f rg) ! j = slots rg ! j" by (cases "j = i") (simp_all add: slots_def upd_conn_def)
qed (simp add: slots_def upd_conn_def)

lemma mux_same_upd [mux_keeps]: "mux_same rg rg' \<Longrightarrow> mux_same rg (upd_conn i f rg')"
  unfolding mux_same_def slots_upd_conn by (simp add: upd_conn_def)

lemma mux_same_clock [mux_keeps]: "mux_same rg rg' \<Longrightarrow> mux_same rg (snd (mux_clock rg'))"
  by (simp add: mux_same_def mux_clock_def slots_def)

lemma mux_same_emit [mux_keeps]: "mux_same rg rg' \<Longrightarrow> mux_same rg (mux_emit ev rg')"
  by (simp add: mux_same_def mux_emit_def slots_def)

lemma mux_same_ds [mux_keeps]: "mux_same rg rg' \<Longrightarrow> mux_same rg (rg'\<lparr>mr_send_ds := d\<rparr>)"
  by (simp add: mux_same_def slots_def)

lemma mux_same_cb [mux_keeps]: "mux_same rg rg' \<Longrightarrow> mux_same rg (rg'\<lparr>mr_cb_mux_incoming := b\<rparr>)"
  by (simp add: mux_same_def slots_def)

lemma mux_same_incoming [mux_keeps]: "mux_same rg rg' \<Longrightarrow> mux_same rg (mux_incoming l r src rg')"
  by (simp add: mux_incoming_def mux_keeps split: option.split)

lemma mux_same_find_transaction [mux_keeps]: "mux_same rg rg' \<Longrightarrow> mux_same rg (snd (find_transaction tid is rg'))"
proof (induction "is" arbitrary: rg')
  case (Cons i "is")
  show ?case using Cons.prems by (simp add: Let_def split_def mux_keeps Cons.IH)
qed simp

lemma mux_same_send [mux_keeps]: "mux_same rg (snd (conn_mux_send rg dst data ds ds_ok sent))"
  by (simp add: conn_mux_send_def Let_def mux_keeps)

lemma mux_same_listen [mux_keeps]: "mux_same rg (snd (conn_mux_listen rg cb))"
  by (simp add: conn_mux_listen_def mux_keeps)

lemma mux_same_prepare [mux_keeps]: "mux_same rg (snd (snd (conn_mux_prepare rg)))"
  by (simp add: conn_mux_prepare_def Let_def split_def mux_keeps)

lemma mux_same_update [mux_keeps]: "mux_same rg rg' \<Longrightarrow> mux_same rg (conn_mux_update i rg')"
  by (simp add: conn_mux_update_def Let_def split_def mux_keeps)

lemma mux_same_fail [mux_keeps]: "mux_same rg rg' \<Longrightarrow> mux_same rg (conn_mux_fail rg')"
proof -
  have "slots (conn_mux_fail rg) = slots rg" for rg by (rule nth_equalityI) (simp_all add: slots_def conn_mux_fail_def)
  then show "mux_same rg rg' \<Longrightarrow> mux_same rg (conn_mux_fail rg')" by (simp add: mux_same_def) (simp add: conn_mux_fail_def)
qed

lemma mux_same_updates: "mux_same rg rg' \<Longrightarrow> mux_same rg (fold conn_mux_update is rg')"
  by (induction "is" arbitrary: rg') (simp_all add: mux_keeps)

section \<open>Looking up a source\<close>

lemma first_index_Some: "first_index P xs = Some i \<Longrightarrow> i < length xs \<and> P (xs ! i)"
  using nth_length_takeWhile [of "\<lambda>x. \<not> P x" xs] by (auto simp: first_index_def Let_def split: if_splits)

lemma find_ready_slot: "find_ready P rg = Some i \<Longrightarrow> i < length (slots rg) \<and> slots rg ! i"
  unfolding find_ready_def by (drule first_index_Some) (auto simp: is_ready_def slots_def split: option.splits)

lemma lookup_binding_insert:
  assumes "mux_ok rg" "known_peer src" "mapped_agent (mr_map rg) src = None"
    and "of_char CHR '':'' \<in> set (cr_username (sm_credentials msg))"
    and "find_ready (\<lambda>ag. takeWhile (\<lambda>b. b \<noteq> of_char CHR '':'') (cr_username (sm_credentials msg)) = id_ice_ufrag (ag_local ag)) rg = Some i"
  obtains m where "lookup_binding rg msg src = (Some i, rg\<lparr>mr_map := m\<rparr>)" "inserted (mr_map rg) src i m"
proof -
  have "map_inv (mr_map rg)" using assms(1) by (simp add: mux_ok_def)
  then obtain m where "insert_map_entry (Suc (Suc 0)) (mr_map rg) src i = Some m" "inserted (mr_map rg) src i m"
    using insert_ok [OF _ assms(3,2)] by metis
  with assms(4,5) that show thesis by (simp add: lookup_binding_def Let_def numeral_2_eq_2)
qed

lemma mux_ok_inserted:
  assumes "mux_ok rg" "inserted (mr_map rg) src i m" "i < length (slots rg)" "slots rg ! i"
  shows "mux_ok (rg\<lparr>mr_map := m\<rparr>)"
proof -
  have "slots (rg\<lparr>mr_map := m\<rparr>) = slots rg" by (simp add: slots_def)
  with assms show ?thesis by (auto simp: mux_ok_def inserted_def)
qed

lemma lookup_binding_ok:
  assumes "mux_ok rg" "known_peer src" "mapped_agent (mr_map rg) src = None"
  shows "mux_ok (snd (lookup_binding rg msg src))"
proof (cases "find_ready (\<lambda>ag. takeWhile (\<lambda>b. b \<noteq> of_char CHR '':'') (cr_username (sm_credentials msg)) = id_ice_ufrag (ag_local ag)) rg")
  case None
  then show ?thesis using assms(1)
    by (auto simp: lookup_binding_def Let_def intro: mux_same_ok [OF mux_same_incoming [OF mux_same_refl]])
next
  case (Some i)
  show ?thesis
  proof (cases "of_char CHR '':'' \<in> set (cr_username (sm_credentials msg))")
    case True
    obtain m where "lookup_binding rg msg src = (Some i, rg\<lparr>mr_map := m\<rparr>)" "inserted (mr_map rg) src i m"
      using assms True Some by (rule lookup_binding_insert)
    with find_ready_slot [OF Some] assms(1) show ?thesis by (auto intro: mux_ok_inserted)
  qed (simp add: lookup_binding_def Let_def assms(1))
qed

lemma lookup_agent_ok:
  assumes "mux_ok rg" "known_peer src"
  shows "mux_ok (snd (lookup_agent rg buf src))"
proof -
  have "mux_ok (snd (find_transaction tid is rg))" for tid "is"
    using mux_same_ok [OF mux_same_find_transaction [OF mux_same_refl] assms(1)] .
  then show ?thesis
    using assms(1) lookup_binding_ok [OF assms] by (auto simp: lookup_agent_def split: option.split sum.split prod.split)
qed

lemma conn_mux_datagram_ok:
  assumes "mux_ok rg" "known_peer src"
  shows "mux_ok (conn_mux_datagram buf src rg)"
proof -
  obtain found rg' where l: "lookup_agent rg buf src = (found, rg')" by fastforce
  have "mux_same rg' (conn_mux_datagram buf src rg)"
    by (cases found) (simp_all add: conn_mux_datagram_def l Let_def split_def mux_keeps)
  moreover have "mux_ok rg'" using lookup_agent_ok [OF assms, of buf] l by simp
  ultimately show ?thesis by (rule mux_same_ok)
qed

section \<open>Runs\<close>

inductive mux_step :: "mux_registry \<Rightarrow> mux_registry \<Rightarrow> bool" where
  create: "mux_step rg (snd (conn_create rg ag))"
| destroy: "conn_at rg i \<noteq> None \<Longrightarrow> mux_step rg (conn_destroy rg i)"
| agent: "mux_step rg (upd_conn i (\<lambda>c. c\<lparr>mc_agent := ag\<rparr>) rg)"
| listen: "mux_step rg (snd (conn_mux_listen rg cb))"
| send: "mux_step rg (snd (conn_mux_send rg dst data ds ds_ok sent))"
| prepare: "mux_step rg (snd (snd (conn_mux_prepare rg)))"
| process_error: "mux_step rg (snd (conn_mux_process rg MuxPollError))"
| process: "(\<And>buf src. (buf, src) \<in> set ds \<Longrightarrow> known_peer src) \<Longrightarrow> mux_step rg (snd (conn_mux_process rg (MuxPollEvents ds bad)))"

inductive mux_run :: "mux_registry \<Rightarrow> bool" where
  init: "mux_run (conn_mux_registry_init port clock nameinfo)"
| step: "mux_run rg \<Longrightarrow> mux_step rg rg' \<Longrightarrow> mux_run rg'"

lemma mux_ok_init: "mux_ok (conn_mux_registry_init port clock nameinfo)"
  using empty_map [of 16] by (simp add: mux_ok_def conn_mux_registry_init_def slots_def)

lemma filter_id_update: "i < length bs \<Longrightarrow> \<not> bs ! i \<Longrightarrow> length (filter id (bs[i := True])) = Suc (length (filter id bs))"
  using filter_update [of i bs id True] by simp

lemma filter_id_clear: "i < length bs \<Longrightarrow> bs ! i \<Longrightarrow> Suc (length (filter id (bs[i := False]))) = length (filter id bs)"
  using filter_id_update [of i "bs[i := False]"] by (simp add: list_update_same_conv [THEN iffD2])

text \<open>A new agent takes a free slot, of an array that is doubled if it has none.\<close>

lemma conn_create_slots:
  assumes "slots rg \<noteq> []"
  obtains i bs where "i < length bs" "\<not> bs ! i" "slots (snd (conn_create rg ag)) = bs[i := True]"
    "bs = slots rg \<or> bs = slots rg @ replicate (length (slots rg)) False"
    "mr_map (snd (conn_create rg ag)) = mr_map rg" "mr_fault (snd (conn_create rg ag)) = mr_fault rg"
    "mr_agents_count (snd (conn_create rg ag)) = mr_agents_count rg + 1"
proof -
  let ?i = "length (takeWhile (\<lambda>c. c \<noteq> None) (mr_agents rg))"
  let ?agents = "if ?i = length (mr_agents rg) then mr_agents rg @ replicate (length (mr_agents rg)) None else mr_agents rg"
  let ?bs = "map (\<lambda>c. c \<noteq> None) ?agents"
  have n: "?i \<le> length (mr_agents rg)" by (rule length_takeWhile_le)
  have ne: "0 < length (mr_agents rg)" using assms by (simp add: slots_def)
  have "?i < length ?agents" "?agents ! ?i = None"
    using n ne nth_length_takeWhile [of "\<lambda>c. c \<noteq> None" "mr_agents rg"] by (auto simp: nth_append)
  then show thesis
    by (intro that [of ?i ?bs])
      (simp_all add: conn_create_def Let_def split_def slots_upd_conn, simp_all add: upd_conn_def mux_clock_def slots_def map_update)
qed

lemma conn_create_ok:
  assumes "mux_ok rg"
  shows "mux_ok (snd (conn_create rg ag))"
proof -
  have ne: "slots rg \<noteq> []" using assms by (simp add: mux_ok_def)
  obtain i bs where c: "i < length bs" "\<not> bs ! i" "slots (snd (conn_create rg ag)) = bs[i := True]"
      "bs = slots rg \<or> bs = slots rg @ replicate (length (slots rg)) False"
      "mr_map (snd (conn_create rg ag)) = mr_map rg" "mr_fault (snd (conn_create rg ag)) = mr_fault rg"
      "mr_agents_count (snd (conn_create rg ag)) = mr_agents_count rg + 1"
    using ne by (rule conn_create_slots [where ag = ag])
  have "length (filter id bs) = length (filter id (slots rg))" using c(4) by auto
  moreover have "bs[i := True] ! j" "j < length (bs[i := True])" if "j < length (slots rg)" "slots rg ! j" for j
    using c(1,4) that by (auto simp: nth_list_update nth_append)
  ultimately show ?thesis
    using assms c(1) filter_id_update [OF c(1,2)] unfolding mux_ok_def c(3,5-7) by auto
qed

lemma conn_destroy_ok:
  assumes "mux_ok rg" "conn_at rg i \<noteq> None"
  shows "mux_ok (conn_destroy rg i)"
proof -
  have i: "i < length (slots rg)" "slots rg ! i" using assms(2) by (auto simp: conn_at_def slots_def split: if_splits)
  have d: "slots (conn_destroy rg i) = (slots rg)[i := False]" "mr_map (conn_destroy rg i) = remove_map_entries (mr_map rg) i"
      "mr_fault (conn_destroy rg i) = mr_fault rg" "mr_agents_count (conn_destroy rg i) = mr_agents_count rg - 1"
    by (simp_all add: conn_destroy_def conn_mux_cleanup_def Let_def split_def upd_conn_def mux_clock_def slots_def map_update)
  have inv: "map_inv (mr_map rg)" using assms(1) by (simp add: mux_ok_def)
  show ?thesis
    using assms(1) i filter_id_clear [OF i] remove_map_entries_inv [OF inv, of i]
    unfolding mux_ok_def d by (auto split: if_splits)
qed

lemma mux_step_ok: "mux_step rg rg' \<Longrightarrow> mux_ok rg \<Longrightarrow> mux_ok rg'"
proof (induction rule: mux_step.induct)
  case (process ds rg bad)
  then have "mux_ok (fold (\<lambda>(buf, src). conn_mux_datagram buf src) ds rg)"
  proof (induction ds arbitrary: rg)
    case (Cons d ds)
    obtain buf src where d: "d = (buf, src)" by fastforce
    show ?case using Cons.prems(2) by (simp add: d) (rule Cons.IH, use Cons.prems(1) in \<open>auto simp: d intro: conn_mux_datagram_ok\<close>)
  qed simp
  then show ?case
    by (auto simp: conn_mux_process_def Let_def intro: mux_same_ok [OF mux_same_fail [OF mux_same_refl]] mux_same_ok [OF mux_same_updates [OF mux_same_refl]])
next
  case (process_error rg)
  then show ?case by (simp add: conn_mux_process_def mux_same_ok [OF mux_same_fail [OF mux_same_refl]])
qed (auto intro: conn_create_ok conn_destroy_ok mux_same_ok mux_keeps)

lemma mux_run_ok: "mux_run rg \<Longrightarrow> mux_ok rg"
  by (induction rule: mux_run.induct) (auto intro: mux_ok_init mux_step_ok)

section \<open>Properties\<close>

text \<open>C5: 
  The agent map never names an agent that is gone: in every run, an address that the map knows names a slot of the registry
  that holds an agent.
\<close>

theorem mux_map_no_dangling:
  assumes "mux_run rg" "mapped_agent (mr_map rg) src = Some i"
  shows "conn_at rg i \<noteq> None"
proof -
  have "i < length (slots rg) \<and> slots rg ! i" using mux_run_ok [OF assms(1)] assms(2) by (auto simp: mux_ok_def)
  then show ?thesis by (auto simp: conn_at_def slots_def)
qed

text \<open>
  The number of agents that keeps the thread of the registry alive is the number of slots in use, in every run, and no operation is lost in the recursion of the map.
\<close>

theorem mux_agents_counted:
  assumes "mux_run rg"
  shows "mr_agents_count rg = int (length (filter (\<lambda>c. c \<noteq> None) (mr_agents rg))) \<and> mr_fault rg = None"
proof -
  have "filter id (map f xs) = map f (filter f xs)" for f :: "mux_conn option \<Rightarrow> bool" and xs by (induction xs) auto
  then show ?thesis using mux_run_ok [OF assms] by (simp add: mux_ok_def slots_def)
qed

text \<open>C4: 
  A Binding request with integrity from a new address, whose user name starts with the fragment of an agent that is ready, is given to
  that agent, and the map is updated at exactly this address: the lookup returns, however full the map is.
\<close>

theorem mux_binding_refines_update:
  assumes "mux_run rg" "known_peer src" "mapped_agent (mr_map rg) src = None"
    and "is_stun_datagram buf" "stun_read buf = Inr (n, msg)" "sm_class msg = STUN_CLASS_REQUEST" "sm_method msg = STUN_METHOD_BINDING"
      "sm_has_integrity msg" "of_char CHR '':'' \<in> set (cr_username (sm_credentials msg))"
    and "find_ready (\<lambda>ag. takeWhile (\<lambda>b. b \<noteq> of_char CHR '':'') (cr_username (sm_credentials msg)) = id_ice_ufrag (ag_local ag)) rg = Some i"
  shows "\<exists>m. lookup_agent rg buf src = (Some i, rg\<lparr>mr_map := m\<rparr>)
    \<and> (\<forall>r. mapped_agent m r = (if same_peer src r then Some i else mapped_agent (mr_map rg) r))"
proof -
  obtain m where m: "lookup_binding rg msg src = (Some i, rg\<lparr>mr_map := m\<rparr>)" "inserted (mr_map rg) src i m"
    using mux_run_ok [OF assms(1)] assms(2,3,9,10) by (rule lookup_binding_insert)
  then have "lookup_agent rg buf src = (Some i, rg\<lparr>mr_map := m\<rparr>)" using assms by (simp add: lookup_agent_def)
  with m(2) show ?thesis by (auto simp: inserted_def)
qed

text \<open>Removing an agent removes the addresses that the map had for it, and no others.\<close>

theorem mux_destroy_forgets:
  assumes "mux_run rg"
  shows "mapped_agent (mr_map (conn_destroy rg i)) r = (if mapped_agent (mr_map rg) r = Some i then None else mapped_agent (mr_map rg) r)"
proof -
  have "map_inv (mr_map rg)" using mux_run_ok [OF assms] by (simp add: mux_ok_def)
  moreover have "mr_map (conn_destroy rg i) = remove_map_entries (mr_map rg) i"
    by (simp add: conn_destroy_def conn_mux_cleanup_def Let_def split_def upd_conn_def mux_clock_def)
  ultimately show ?thesis by (simp add: remove_map_entries_inv)
qed

section \<open>A run\<close>

text \<open>One agent, and a Binding request for it from a new address.\<close>

definition shared_agent :: agent where
  "shared_agent = gathered_agent\<lparr>ag_local := (ag_local gathered_agent)\<lparr>id_ice_ufrag := [0x61]\<rparr>\<rparr>"

definition shared_registry :: mux_registry where
  "shared_registry = snd (conn_create (conn_mux_registry_init 5000 int (\<lambda>_ _. None)) shared_agent)"

definition binding_request :: bytes where
  "binding_request = put16 1 @ put16 32 @ put32 STUN_MAGIC @ replicate 12 5 @ [0, 6, 0, 3, 0x61, 0x3A, 0x62, 0] @ [0, 8, 0, 20] @ replicate 20 0"

definition request_source :: addr_record where
  "request_source = \<lparr>ar_addr = Sin 7 [10, 0, 0, 1], ar_len = 16\<rparr>"

lemma binding_request_read:
  obtains msg where "stun_read binding_request = Inr (52, msg)" "sm_class msg = STUN_CLASS_REQUEST" "sm_method msg = STUN_METHOD_BINDING"
    "sm_has_integrity msg" "cr_username (sm_credentials msg) = [0x61, 0x3A, 0x62]"
proof -
  let ?m = "message_zero\<lparr>sm_class := 0, sm_method := 1, sm_transaction_id := replicate 12 5\<rparr>"
  let ?u = "upd_cred (\<lambda>c. c\<lparr>cr_username := [0x61, 0x3A, 0x62]\<rparr>) ?m"
  let ?i = "?u\<lparr>sm_has_integrity := True\<rparr>"
  have bytes: "binding_request = [0, 1, 0, 32, 0x21, 0x12, 0xA4, 0x42] @ replicate 12 5 @ [0, 6, 0, 3, 0x61, 0x3A, 0x62, 0] @ [0, 8, 0, 20] @ replicate 20 0"
    by (simp add: binding_request_def put16_def put32_def STUN_MAGIC_def)
  have len: "length binding_request = 52" by (simp add: bytes)
  have attr1: "stun_read_attr binding_request 20 32 ?m 0 = Inr (8, ?u, 0)"
    by (simp add: stun_read_attr_def getr_ok len) (simp add: bytes get16_def stun_read_value_def read_username_def cstr_def message_zero_def getr_ok align32_eq)
  have attr2: "stun_read_attr binding_request 28 24 ?u 0 = Inr (24, ?i, 0)"
    by (simp add: stun_read_attr_def getr_ok len) (simp add: bytes get16_def stun_read_value_def read_integrity_def message_zero_def getr_ok align32_eq)
  have "stun_read binding_request = Inr (52, stun_read_finish ?i 0)"
    by (simp add: stun_read_def getr_ok len) (simp add: bytes get16_def stun_read_loop.simps attr1 [unfolded bytes, simplified] attr2 [unfolded bytes, simplified])
  then show thesis by (rule that) (simp_all add: stun_read_finish_def Let_def message_zero_def credentials_zero_def)
qed

lemma binding_request_stun: "is_stun_datagram binding_request"
  by (simp add: binding_request_def is_stun_datagram_def put16_def get16_def Let_def)

lemma shared_registry_run: "mux_run shared_registry" "mapped_agent (mr_map shared_registry) r = None"
  "find_ready (\<lambda>ag. [0x61] = id_ice_ufrag (ag_local ag)) shared_registry = Some 0"
proof -
  show "mux_run shared_registry" unfolding shared_registry_def by (rule mux_run.step [OF mux_run.init mux_step.create])
  show "mapped_agent (mr_map shared_registry) r = None"
    using empty_map(2) [of 16 r] by (simp add: shared_registry_def conn_create_def conn_mux_registry_init_def Let_def split_def upd_conn_def mux_clock_def)
  show "find_ready (\<lambda>ag. [0x61] = id_ice_ufrag (ag_local ag)) shared_registry = Some 0"
    by (simp add: shared_registry_def conn_create_def conn_mux_registry_init_def Let_def split_def upd_conn_def mux_clock_def find_ready_def
        first_index_def is_ready_def shared_agent_def eval_nat_numeral)
qed

theorem mux_binding_refines_update_witness:
  "\<exists>m. lookup_agent shared_registry binding_request request_source = (Some 0, shared_registry\<lparr>mr_map := m\<rparr>)
     \<and> mapped_agent m request_source = Some 0"
proof -
  obtain msg where msg: "stun_read binding_request = Inr (52, msg)" "sm_class msg = STUN_CLASS_REQUEST" "sm_method msg = STUN_METHOD_BINDING"
      "sm_has_integrity msg" "cr_username (sm_credentials msg) = [0x61, 0x3A, 0x62]" by (rule binding_request_read)
  have known: "known_peer request_source" by (simp add: request_source_def)
  have "same_peer request_source request_source" using known by (rule peer_key.eq_refl)
  then show ?thesis
    using mux_binding_refines_update [OF shared_registry_run(1) known shared_registry_run(2) binding_request_stun msg(1-4), of 0]
      shared_registry_run(3) by (auto simp: msg(5))
qed

text \<open>The thread receives the request and then an error on the socket.\<close>

definition bound_registry :: mux_registry where
  "bound_registry = snd (conn_mux_process shared_registry (MuxPollEvents [(binding_request, request_source)] True))"

lemma bound_registry_run: "mux_run bound_registry" "mapped_agent (mr_map bound_registry) request_source = Some 0"
proof -
  have known: "known_peer request_source" by (simp add: request_source_def)
  show "mux_run bound_registry"
    unfolding bound_registry_def by (rule mux_run.step [OF shared_registry_run(1) mux_step.process]) (use known in simp)
  obtain msg where msg: "stun_read binding_request = Inr (52, msg)" "sm_class msg = STUN_CLASS_REQUEST" "sm_method msg = STUN_METHOD_BINDING"
      "sm_has_integrity msg" "cr_username (sm_credentials msg) = [0x61, 0x3A, 0x62]" by (rule binding_request_read)
  obtain m where m: "lookup_binding shared_registry msg request_source = (Some 0, shared_registry\<lparr>mr_map := m\<rparr>)"
      "inserted (mr_map shared_registry) request_source 0 m"
    by (rule lookup_binding_insert [OF mux_run_ok [OF shared_registry_run(1)] known shared_registry_run(2), of msg 0])
      (use shared_registry_run(3) in \<open>simp_all add: msg(5)\<close>)
  have "lookup_agent shared_registry binding_request request_source = (Some 0, shared_registry\<lparr>mr_map := m\<rparr>)"
    using msg m(1) binding_request_stun shared_registry_run(2) by (simp add: lookup_agent_def)
  then have "mux_same (shared_registry\<lparr>mr_map := m\<rparr>) bound_registry"
    by (simp add: bound_registry_def conn_mux_process_def Let_def conn_mux_datagram_def split_def mux_keeps)
  then show "mapped_agent (mr_map bound_registry) request_source = Some 0"
    using m(2) peer_key.eq_refl [OF known] by (simp add: mux_same_def inserted_def)
qed

theorem mux_map_no_dangling_witness: "conn_at bound_registry 0 \<noteq> None"
  using bound_registry_run by (rule mux_map_no_dangling)

theorem mux_destroy_forgets_witness:
  "mapped_agent (mr_map (conn_destroy bound_registry 0)) request_source = None"
  using mux_destroy_forgets [OF bound_registry_run(1), of 0 request_source] by (simp add: bound_registry_run(2))

theorem mux_agents_counted_witness: "mr_agents_count shared_registry = int (length (filter (\<lambda>c. c \<noteq> None) (mr_agents shared_registry)))"
  using mux_agents_counted [OF shared_registry_run(1)] by simp

end
