(* ===== verification/Srtp_Bits.thy ===== *)
theory Srtp_Bits
  imports Prelude
begin

text \<open>
  Bit vectors of the SRTP library (\<open>crypto/math/datatypes.c\<close>, \<open>crypto/include/datatypes.h\<close>): the 128-bit mask and the mask of variable length,
  both arrays of 32-bit words with bit 0 in the low-order bit of the first word, in the variants without vector
  instructions, and the comparison of octet strings. An access outside the array of words is an error value. The lemmas in the second part describe
  shifts and updates by the bits of an array.
\<close>

text \<open>The status values of the library (\<open>include/srtp.h\<close>).\<close>

datatype srtp_err_status = srtp_err_status_ok | srtp_err_status_fail | srtp_err_status_bad_param | srtp_err_status_alloc_fail
  | srtp_err_status_dealloc_fail | srtp_err_status_init_fail | srtp_err_status_terminus | srtp_err_status_auth_fail | srtp_err_status_cipher_fail
  | srtp_err_status_replay_fail | srtp_err_status_replay_old | srtp_err_status_algo_fail | srtp_err_status_no_such_op | srtp_err_status_no_ctx
  | srtp_err_status_cant_check | srtp_err_status_key_expired | srtp_err_status_socket_err | srtp_err_status_signal_err | srtp_err_status_nonce_bad
  | srtp_err_status_read_fail | srtp_err_status_write_fail | srtp_err_status_parse_err | srtp_err_status_encode_err | srtp_err_status_semaphore_err
  | srtp_err_status_pfkey_err | srtp_err_status_bad_mki | srtp_err_status_pkt_idx_old | srtp_err_status_pkt_idx_adv

section \<open>Words and bits\<close>

definition word_at :: "u32 list \<Rightarrow> int \<Rightarrow> u32 res" where
  "word_at ws i = (if 0 \<le> i \<and> nat i < length ws then Inr (ws ! nat i) else Inl OutOfBounds)"

definition set_word :: "u32 list \<Rightarrow> int \<Rightarrow> u32 \<Rightarrow> u32 list res" where
  "set_word ws i v = (if 0 \<le> i \<and> nat i < length ws then Inr (ws[nat i := v]) else Inl OutOfBounds)"

definition words_get_bit :: "u32 list \<Rightarrow> int \<Rightarrow> u32 res" where
  "words_get_bit ws b = bindr (word_at ws (b div 32)) (\<lambda>w. Inr (drop_bit (nat (b mod 32)) w AND 1))"

definition words_set_bit :: "u32 list \<Rightarrow> int \<Rightarrow> u32 list res" where
  "words_set_bit ws b = bindr (word_at ws (b div 32)) (\<lambda>w. set_word ws (b div 32) (w OR push_bit (nat (b mod 32)) 1))"

text \<open>A loop that stores a value, computed from the array as it is then, at each of the indices.\<close>

fun store_loop :: "(int \<Rightarrow> u32 list \<Rightarrow> u32 res) \<Rightarrow> int list \<Rightarrow> u32 list \<Rightarrow> u32 list res" where
  "store_loop f [] ws = Inr ws"
| "store_loop f (i # is) ws = bindr (f i ws) (\<lambda>v. bindr (set_word ws i v) (store_loop f is))"

text \<open>The shift in place, which the code contains once for each kind of vector. \<open>n\<close> is the number of words.\<close>

definition shift_words :: "int \<Rightarrow> int \<Rightarrow> u32 list \<Rightarrow> u32 list res" where
  "shift_words n shift ws =
     (let base_index = shift div 32; bit_index = nat (shift mod 32)
      in bindr
           (if bit_index = 0
            then store_loop (\<lambda>i ws. word_at ws (i + base_index)) [0..n - base_index - 1] ws
            else bindr (store_loop (\<lambda>i ws. bindr (word_at ws (i + base_index)) (\<lambda>v.
                                         bindr (word_at ws (i + base_index + 1)) (\<lambda>w.
                                         Inr (drop_bit bit_index v XOR push_bit (32 - bit_index) w))))
                          [0..n - base_index - 2] ws) (\<lambda>ws.
                 bindr (word_at ws (n - 1)) (\<lambda>v. set_word ws (n - base_index - 1) (drop_bit bit_index v))))
           (store_loop (\<lambda>_ _. Inr 0) [n - base_index..n - 1]))"

section \<open>Masks of 128 bits\<close>

type_synonym v128 = "u32 list"

definition v128_set_to_zero :: v128 where
  "v128_set_to_zero = replicate 4 0"

definition v128_get_bit :: "v128 \<Rightarrow> int \<Rightarrow> u32 res" where
  "v128_get_bit x b = words_get_bit x b"

definition v128_set_bit :: "v128 \<Rightarrow> int \<Rightarrow> v128 res" where
  "v128_set_bit x b = words_set_bit x b"

definition v128_left_shift :: "v128 \<Rightarrow> int \<Rightarrow> v128 res" where
  "v128_left_shift x shift = (if 127 < shift then Inr v128_set_to_zero else shift_words 4 shift x)"

section \<open>Masks of variable length\<close>

record bitvector =
  bv_length :: u32
  bv_word :: "u32 list"

text \<open>The length is a multiple of 32, so that whole words are cleared.\<close>

definition bitvector_set_to_zero :: "bitvector \<Rightarrow> bitvector" where
  "bitvector_set_to_zero x =
     (let n = unat (bv_length x) div 8 div 4 in x\<lparr>bv_word := replicate n 0 @ drop n (bv_word x)\<rparr>)"

text \<open>\<open>None\<close> is the result -1. The allocator (\<open>crypto/kernel/alloc.c\<close>) calls \<open>calloc\<close>, which succeeds here.\<close>

definition bitvector_alloc :: "u32 \<Rightarrow> bitvector option" where
  "bitvector_alloc len =
     (let len = (len + 32 - 1) AND NOT (32 - 1);
          l = len div 32 * 4;
          l = (l + 15) AND NOT 15
      in if l = 0 then None
         else Some (bitvector_set_to_zero \<lparr>bv_length = len, bv_word = replicate (unat l div 4) 0\<rparr>))"

definition bitvector_get_bit :: "bitvector \<Rightarrow> int \<Rightarrow> u32 res" where
  "bitvector_get_bit v b = words_get_bit (bv_word v) b"

definition bitvector_set_bit :: "bitvector \<Rightarrow> int \<Rightarrow> bitvector res" where
  "bitvector_set_bit v b = bindr (words_set_bit (bv_word v) b) (\<lambda>ws. Inr (v\<lparr>bv_word := ws\<rparr>))"

definition bitvector_left_shift :: "bitvector \<Rightarrow> int \<Rightarrow> bitvector res" where
  "bitvector_left_shift x shift =
     (if sint (bv_length x) \<le> shift then Inr (bitvector_set_to_zero x)
      else bindr (shift_words (int (unat (bv_length x) div 32)) shift (bv_word x)) (\<lambda>ws. Inr (x\<lparr>bv_word := ws\<rparr>)))"

section \<open>Comparison\<close>

text \<open>
  The strings are read as four-byte words, eight bytes at a time into two accumulators, then four bytes, then byte by byte. The result is 1 if they differ.
\<close>

fun is_eq_words :: "bytes \<Rightarrow> bytes \<Rightarrow> nat \<Rightarrow> u32 \<Rightarrow> u32 \<Rightarrow> (bytes \<times> bytes \<times> u32) res" where
  "is_eq_words a b 0 accumulator accumulator2 = Inr (a, b, accumulator OR accumulator2)"
| "is_eq_words a b (Suc n) accumulator accumulator2 =
     bindr (getr a 0 8) (\<lambda>x. bindr (getr b 0 8) (\<lambda>y.
       is_eq_words (drop 8 a) (drop 8 b) n (accumulator OR (get32le x XOR get32le y))
         (accumulator2 OR (get32le (drop 4 x) XOR get32le (drop 4 y)))))"

fun is_eq_bytes :: "bytes \<Rightarrow> bytes \<Rightarrow> nat \<Rightarrow> u32 \<Rightarrow> u32 res" where
  "is_eq_bytes a b 0 accumulator = Inr accumulator"
| "is_eq_bytes a b (Suc n) accumulator =
     bindr (getr a 0 1) (\<lambda>x. bindr (getr b 0 1) (\<lambda>y.
       is_eq_bytes (drop 1 a) (drop 1 b) n (accumulator OR (ucast (x ! 0) XOR ucast (y ! 0)))))"

definition srtp_octet_string_is_eq :: "bytes \<Rightarrow> bytes \<Rightarrow> nat \<Rightarrow> int res" where
  "srtp_octet_string_is_eq a b len =
     bindr (is_eq_words a b (len div 8) 0 0) (\<lambda>(a, b, accumulator).
     bindr (if 4 \<le> len mod 8
            then bindr (getr a 0 4) (\<lambda>x. bindr (getr b 0 4) (\<lambda>y.
                   Inr (drop 4 a, drop 4 b, accumulator OR (get32le x XOR get32le y), len mod 8 - 4)))
            else Inr (a, b, accumulator, len mod 8)) (\<lambda>(a, b, accumulator, left).
     bindr (is_eq_bytes a b left accumulator) (\<lambda>accumulator. Inr (if accumulator \<noteq> 0 then 1 else 0))))"

section \<open>Bits of an array of words\<close>

definition bits :: "u32 list \<Rightarrow> nat \<Rightarrow> bool" where
  "bits ws k = bit (ws ! (k div 32)) (k mod 32)"

lemma word_at_ok: "i < length ws \<Longrightarrow> word_at ws (int i) = Inr (ws ! i)"
  by (simp add: word_at_def)

lemma set_word_ok: "i < length ws \<Longrightarrow> set_word ws (int i) v = Inr (ws[i := v])"
  by (simp add: set_word_def)

lemma words_get_bit_ok:
  assumes "b < 32 * length ws"
  shows "words_get_bit ws (int b) = Inr (of_bool (bits ws b))"
proof -
  have "b div 32 < length ws" using assms by (simp add: less_mult_imp_div_less mult.commute)
  moreover have "int b div 32 = int (b div 32)" "nat (int b mod 32) = b mod 32" by (simp_all add: zdiv_int nat_mod_distrib)
  moreover have "drop_bit n w AND 1 = of_bool (bit w n)" for w :: u32 and n
    by (rule bit_word_eqI) (auto simp: bit_simps)
  ultimately show ?thesis by (simp add: words_get_bit_def word_at_ok bits_def)
qed

lemma words_set_bit_ok:
  assumes "b < 32 * length ws"
  obtains ws' where "words_set_bit ws (int b) = Inr ws'" "length ws' = length ws"
    "\<And>k. k < 32 * length ws \<Longrightarrow> bits ws' k \<longleftrightarrow> k = b \<or> bits ws k"
proof -
  let ?ws = "ws[b div 32 := ws ! (b div 32) OR push_bit (b mod 32) 1]"
  have i: "b div 32 < length ws" using assms by (simp add: less_mult_imp_div_less mult.commute)
  have "int b div 32 = int (b div 32)" "nat (int b mod 32) = b mod 32" by (simp_all add: zdiv_int nat_mod_distrib)
  then have "words_set_bit ws (int b) = Inr ?ws" using i by (simp add: words_set_bit_def word_at_ok set_word_ok)
  moreover have "bits ?ws k \<longleftrightarrow> k = b \<or> bits ws k" if "k < 32 * length ws" for k
  proof -
    have "k div 32 < length ws" using that by (simp add: less_mult_imp_div_less mult.commute)
    moreover have "k = b \<longleftrightarrow> k div 32 = b div 32 \<and> k mod 32 = b mod 32" by (metis div_mod_decomp)
    ultimately show ?thesis by (cases "k div 32 = b div 32") (auto simp: bits_def bit_simps)
  qed
  ultimately show thesis by (intro that [of ?ws]) simp_all
qed

text \<open>A loop that reads no index it has already written stores the values of the original array.\<close>

lemma store_loop_ahead:
  assumes "0 \<le> a" "b \<le> int (length ws)"
    and "\<And>i ws'. a \<le> i \<Longrightarrow> i < b \<Longrightarrow> length ws' = length ws \<Longrightarrow> (\<And>j. i \<le> int j \<Longrightarrow> j < length ws \<Longrightarrow> ws' ! j = ws ! j) \<Longrightarrow> f i ws' = Inr (g i)"
  obtains ws' where "store_loop f [a..b - 1] ws = Inr ws'" "length ws' = length ws"
    "\<And>j. j < length ws \<Longrightarrow> ws' ! j = (if a \<le> int j \<and> int j < b then g (int j) else ws ! j)"
  using assms
proof (induction "nat (b - a)" arbitrary: a ws thesis)
  case 0
  then have "b \<le> a" by simp
  then show ?case by (intro "0.prems"(1)) auto
next
  case (Suc n)
  then have "a < b" by simp
  then have upto: "[a..b - 1] = a # [a + 1..b - 1]" by (subst upto_rec1) auto
  have a: "nat a < length ws" using Suc.prems(2,3) \<open>a < b\<close> by simp
  have fa: "f a ws = Inr (g a)" using Suc.prems(4) [of a ws] \<open>a < b\<close> by simp
  have set_a: "set_word ws a (g a) = Inr (ws[nat a := g a])" using Suc.prems(2) a by (simp add: set_word_def)
  obtain ws' where ws': "store_loop f [a + 1..b - 1] (ws[nat a := g a]) = Inr ws'" "length ws' = length (ws[nat a := g a])"
      "\<And>j. j < length (ws[nat a := g a]) \<Longrightarrow> ws' ! j = (if a + 1 \<le> int j \<and> int j < b then g (int j) else ws[nat a := g a] ! j)"
  proof (rule Suc.hyps(1) [of "a + 1" "ws[nat a := g a]"])
    show "n = nat (b - (a + 1))" using Suc.hyps(2) by simp
    show "f i xs = Inr (g i)" if "a + 1 \<le> i" "i < b" "length xs = length (ws[nat a := g a])"
      "\<And>j. i \<le> int j \<Longrightarrow> j < length (ws[nat a := g a]) \<Longrightarrow> xs ! j = ws[nat a := g a] ! j" for i xs
      using that Suc.prems(2) by (intro Suc.prems(4)) (auto simp: nth_list_update)
  qed (use Suc.prems in auto)
  show ?case
  proof (rule Suc.prems(1) [of ws'])
    fix j assume j: "j < length ws"
    show "ws' ! j = (if a \<le> int j \<and> int j < b then g (int j) else ws ! j)"
    proof (cases "int j = a")
      case True
      then have "nat a = j" by simp
      then show ?thesis using ws'(3) [of j] True j \<open>a < b\<close> by simp
    next
      case False
      then have "nat a \<noteq> j" using Suc.prems(2) by auto
      then show ?thesis using ws'(3) [of j] False j by simp
    qed
  qed (use ws' in \<open>simp_all add: upto fa set_a\<close>)
qed

text \<open>A word of the shifted array; for a shift by whole words the second part is empty.\<close>

definition shifted_word :: "nat \<Rightarrow> nat \<Rightarrow> u32 list \<Rightarrow> nat \<Rightarrow> u32" where
  "shifted_word n s ws j =
     (let b = s div 32; t = s mod 32
      in if j + b + 1 < n then drop_bit t (ws ! (j + b)) XOR push_bit (32 - t) (ws ! (j + b + 1))
         else if j + b + 1 = n then drop_bit t (ws ! (n - 1)) else 0)"

lemma split_32: "r < 32 \<Longrightarrow> (32 * q + r) div 32 = q \<and> (32 * q + r) mod 32 = r" for q r :: nat
  by simp

lemma bit_shifted_word:
  assumes "k < 32 * n"
  shows "bit (shifted_word n s ws (k div 32)) (k mod 32) \<longleftrightarrow> k + s < 32 * n \<and> bits ws (k + s)"
proof -
  define q r b t where d: "q = k div 32" "r = k mod 32" "b = s div 32" "t = s mod 32"
  have k: "k + s = 32 * (q + b) + (r + t)" "r < 32" "t < 32" by (simp_all add: d)
  show ?thesis
  proof (cases "r + t < 32")
    case True
    then have "(k + s) div 32 = q + b" "(k + s) mod 32 = r + t" "k + s < 32 * n \<longleftrightarrow> q + b < n"
      using split_32 [OF True, of "q + b"] by (auto simp: k(1))
    moreover have "j + 1 = n \<Longrightarrow> n - 1 = j" for j by simp
    ultimately show ?thesis
      using True k(2,3) unfolding bits_def shifted_word_def Let_def d [symmetric] by (simp add: bit_simps add.commute)
  next
    case False
    have "k + s = 32 * (q + b + 1) + (r + t - 32)" using k(1) False by simp
    then have "(k + s) div 32 = q + b + 1" "(k + s) mod 32 = r + t - 32" "k + s < 32 * n \<longleftrightarrow> q + b + 1 < n"
      using k(2,3) split_32 [of "r + t - 32" "q + b + 1"] by auto
    moreover have "32 - t \<le> r" using False by simp
    ultimately show ?thesis
      using False k(2,3) unfolding bits_def shifted_word_def Let_def d [symmetric] by (simp add: bit_simps)
  qed
qed

lemma shift_words_ok:
  assumes s: "s < 32 * n" and n: "n \<le> length ws"
  obtains ws' where "shift_words (int n) (int s) ws = Inr ws'" "length ws' = length ws"
    "\<And>k. k < 32 * n \<Longrightarrow> bits ws' k \<longleftrightarrow> k + s < 32 * n \<and> bits ws (k + s)"
    "\<And>j. n \<le> j \<Longrightarrow> j < length ws \<Longrightarrow> ws' ! j = ws ! j"
proof -
  define b t where b: "b = s div 32" and t: "t = s mod 32"
  have bn: "b < n" using s by (simp add: b less_mult_imp_div_less mult.commute)
  have int: "int s div 32 = int b" "nat (int s mod 32) = t" by (simp_all add: b t zdiv_int nat_mod_distrib)
  have first: "\<exists>ws1. (if t = 0 then store_loop (\<lambda>i ws. word_at ws (i + int b)) [0..int n - int b - 1] ws
      else bindr (store_loop (\<lambda>i ws. bindr (word_at ws (i + int b)) (\<lambda>v. bindr (word_at ws (i + int b + 1)) (\<lambda>w.
              Inr (drop_bit t v XOR push_bit (32 - t) w)))) [0..int n - int b - 2] ws) (\<lambda>ws.
           bindr (word_at ws (int n - 1)) (\<lambda>v. set_word ws (int n - int b - 1) (drop_bit t v)))) = Inr ws1
      \<and> length ws1 = length ws \<and> (\<forall>j < length ws. ws1 ! j = (if j + b < n then shifted_word n s ws j else ws ! j))"
  proof (cases "t = 0")
    case True
    let ?f = "\<lambda>i ws. word_at ws (i + int b)"
    have at: "?f i ws' = Inr (ws ! (nat i + b))" if "0 \<le> i" "i < int n - int b" "length ws' = length ws"
      "\<And>j. i \<le> int j \<Longrightarrow> j < length ws \<Longrightarrow> ws' ! j = ws ! j" for i ws'
      using that n by (simp add: word_at_def nat_add_distrib)
    obtain ws1 where "store_loop ?f [0..(int n - int b) - 1] ws = Inr ws1" "length ws1 = length ws"
      "\<And>j. j < length ws \<Longrightarrow> ws1 ! j = (if 0 \<le> int j \<and> int j < int n - int b then ws ! (nat (int j) + b) else ws ! j)"
      by (rule store_loop_ahead [of 0 "int n - int b" ws ?f "\<lambda>i. ws ! (nat i + b)"]) (use n at in auto)
    moreover have "shifted_word n s ws j = ws ! (j + b)" if "j + b < n" for j
    proof -
      have "push_bit 32 w = 0" for w :: u32 by (rule bit_word_eqI) (simp add: bit_simps)
      moreover have "j + b + 1 = n \<Longrightarrow> n - 1 = j + b" by simp
      ultimately show ?thesis using that True by (auto simp: shifted_word_def b [symmetric] t [symmetric])
    qed
    ultimately show ?thesis using True by (auto simp: algebra_simps)
  next
    case False
    let ?f = "\<lambda>i ws. bindr (word_at ws (i + int b)) (\<lambda>v. bindr (word_at ws (i + int b + 1)) (\<lambda>w. Inr (drop_bit t v XOR push_bit (32 - t) w)))"
    have at: "?f i ws' = Inr (shifted_word n s ws (nat i))" if "0 \<le> i" "i < int n - int b - 1" "length ws' = length ws"
      "\<And>j. i \<le> int j \<Longrightarrow> j < length ws \<Longrightarrow> ws' ! j = ws ! j" for i ws'
    proof -
      have "Suc (nat i + b) < n" using that(1,2) by linarith
      then show ?thesis using that n by (simp add: word_at_def nat_add_distrib shifted_word_def b [symmetric] t [symmetric])
    qed
    obtain ws1 where ws1: "store_loop ?f [0..(int n - int b - 1) - 1] ws = Inr ws1" "length ws1 = length ws"
      "\<And>j. j < length ws \<Longrightarrow> ws1 ! j = (if 0 \<le> int j \<and> int j < int n - int b - 1 then shifted_word n s ws (nat (int j)) else ws ! j)"
      by (rule store_loop_ahead [of 0 "int n - int b - 1" ws ?f "\<lambda>i. shifted_word n s ws (nat i)"])
        (use n at in auto)
    have "bindr (word_at ws1 (int n - 1)) (\<lambda>v. set_word ws1 (int n - int b - 1) (drop_bit t v)) = Inr (ws1[n - b - 1 := drop_bit t (ws1 ! (n - 1))])"
    proof -
      have "n - Suc 0 < length ws" "n - Suc b < length ws" using n bn by linarith+
      then show ?thesis using ws1(2) n bn by (simp add: word_at_def set_word_def nat_diff_distrib)
    qed
    moreover have "ws1[n - b - 1 := drop_bit t (ws1 ! (n - 1))] ! j = (if j + b < n then shifted_word n s ws j else ws ! j)"
      if "j < length ws" for j
    proof (cases "j + b + 1 = n")
      case True
      moreover have "ws1 ! (n - 1) = ws ! (n - 1)" using ws1(3) [of "n - 1"] n bn by auto
      moreover have "n - b - 1 = j" using True by simp
      ultimately show ?thesis using that ws1(2) by (simp add: shifted_word_def b [symmetric] t [symmetric])
    next
      case False
      then have "n - b - 1 \<noteq> j" "int j < int n - int b - 1 \<longleftrightarrow> j + b < n" using bn by linarith+
      then show ?thesis using that ws1(3) by simp
    qed
    ultimately show ?thesis using False ws1(1,2) by (simp add: algebra_simps)
  qed
  then obtain ws1 where ws1: "shift_words (int n) (int s) ws = store_loop (\<lambda>_ _. Inr 0) [int n - int b..int n - 1] ws1"
      "length ws1 = length ws" "\<And>j. j < length ws \<Longrightarrow> ws1 ! j = (if j + b < n then shifted_word n s ws j else ws ! j)"
    unfolding shift_words_def Let_def int by force
  obtain ws' where ws': "store_loop (\<lambda>_ _. Inr 0) [int n - int b..int n - 1] ws1 = Inr ws'" "length ws' = length ws1"
      "\<And>j. j < length ws1 \<Longrightarrow> ws' ! j = (if int n - int b \<le> int j \<and> int j < int n then 0 else ws1 ! j)"
    by (rule store_loop_ahead [of "int n - int b" "int n" ws1 "\<lambda>_ _. Inr 0" "\<lambda>_. 0"]) (use n bn ws1(2) in auto)
  have word: "ws' ! j = shifted_word n s ws j" if "j < n" for j
    using that ws'(3) [of j] ws1(2,3) n bn by (auto simp: shifted_word_def b [symmetric] t [symmetric] split: if_splits)
  show thesis
  proof (rule that [of ws'])
    fix k assume k: "k < 32 * n"
    then have "k div 32 < n" by (simp add: less_mult_imp_div_less mult.commute)
    then show "bits ws' k \<longleftrightarrow> k + s < 32 * n \<and> bits ws (k + s)"
      using bit_shifted_word [OF k] word by (simp add: bits_def)
  next
    fix j assume "n \<le> j" "j < length ws"
    then show "ws' ! j = ws ! j" using ws'(3) ws1(2,3) by simp
  qed (use ws1 ws' in simp_all)
qed

section \<open>The comparison is correct\<close>

lemma get32le_inject:
  assumes "4 \<le> length xs" "4 \<le> length ys"
  shows "get32le xs = get32le ys \<longleftrightarrow> take 4 xs = take 4 ys"
proof -
  have inv: "put32le (get32le bs) = bs" if "length bs = 4" for bs
    using that by (elim length_4E) (auto simp: put32le_def get32le_def bit_simps intro!: u8_bit_eqI)
  have cut: "get32le bs = get32le (take 4 bs)" if "4 \<le> length bs" for bs using that by (simp add: get32le_def)
  show ?thesis
  proof
    assume "get32le xs = get32le ys"
    then have "put32le (get32le (take 4 xs)) = put32le (get32le (take 4 ys))" using cut assms by metis
    then show "take 4 xs = take 4 ys" using inv assms by simp
  next
    assume "take 4 xs = take 4 ys"
    then show "get32le xs = get32le ys" using cut assms by metis
  qed
qed

lemma take_split_eq: "take (m + n) a = take (m + n) b \<longleftrightarrow> take m a = take m b \<and> take n (drop m a) = take n (drop m b)"
  if "m \<le> length a" "m \<le> length b"
  using that by (simp add: take_add)

lemma word_or_eq_0: "(x :: u32) OR y = 0 \<longleftrightarrow> x = 0 \<and> y = 0"
  by (auto simp: bit_eq_iff bit_simps)

lemma is_eq_words_ok:
  assumes "8 * n \<le> length a" "8 * n \<le> length b"
  obtains c where "is_eq_words a b n acc acc2 = Inr (drop (8 * n) a, drop (8 * n) b, c)"
    "c = 0 \<longleftrightarrow> acc = 0 \<and> acc2 = 0 \<and> take (8 * n) a = take (8 * n) b"
  using assms
proof (induction n arbitrary: a b acc acc2 thesis)
  case 0
  show ?case by (rule "0.prems"(1) [of "acc OR acc2"]) (simp_all add: word_or_eq_0)
next
  case (Suc n)
  let ?acc = "acc OR (get32le (take 8 a) XOR get32le (take 8 b))"
  let ?acc2 = "acc2 OR (get32le (drop 4 (take 8 a)) XOR get32le (drop 4 (take 8 b)))"
  obtain c where c: "is_eq_words (drop 8 a) (drop 8 b) n ?acc ?acc2 = Inr (drop (8 * n) (drop 8 a), drop (8 * n) (drop 8 b), c)"
      "c = 0 \<longleftrightarrow> ?acc = 0 \<and> ?acc2 = 0 \<and> take (8 * n) (drop 8 a) = take (8 * n) (drop 8 b)"
    by (rule Suc.IH [of "drop 8 a" "drop 8 b" ?acc ?acc2]) (use Suc.prems in auto)
  have "take 8 a = take 8 b \<longleftrightarrow> take 4 (take 8 a) = take 4 (take 8 b) \<and> take 4 (drop 4 (take 8 a)) = take 4 (drop 4 (take 8 b))"
    using take_split_eq [of 4 a b 4] Suc.prems by (simp add: drop_take)
  then have "?acc = 0 \<and> ?acc2 = 0 \<longleftrightarrow> acc = 0 \<and> acc2 = 0 \<and> take 8 a = take 8 b"
    using Suc.prems by (auto simp: word_or_eq_0 get32le_inject)
  moreover have "take (8 * Suc n) a = take (8 * Suc n) b \<longleftrightarrow> take 8 a = take 8 b \<and> take (8 * n) (drop 8 a) = take (8 * n) (drop 8 b)"
    using take_split_eq [of 8 a b "8 * n"] Suc.prems by simp
  ultimately have "c = 0 \<longleftrightarrow> acc = 0 \<and> acc2 = 0 \<and> take (8 * Suc n) a = take (8 * Suc n) b" using c(2) by blast
  then show ?case by (intro Suc.prems(1) [of c]) (use c(1) Suc.prems in \<open>simp_all add: getr_ok add.commute\<close>)
qed

lemma is_eq_bytes_ok:
  assumes "n \<le> length a" "n \<le> length b"
  obtains c where "is_eq_bytes a b n acc = Inr c" "c = 0 \<longleftrightarrow> acc = 0 \<and> take n a = take n b"
  using assms
proof (induction n arbitrary: a b acc thesis)
  case 0
  show ?case by (rule "0.prems"(1) [of acc]) simp_all
next
  case (Suc n)
  obtain x a' y b' where ab: "a = x # a'" "b = y # b'" using Suc.prems by (cases a; cases b) auto
  obtain c where "is_eq_bytes a' b' n (acc OR (ucast x XOR ucast y)) = Inr c"
      "c = 0 \<longleftrightarrow> acc OR (ucast x XOR ucast y) = 0 \<and> take n a' = take n b'"
    by (rule Suc.IH [of a' b']) (use Suc.prems ab in auto)
  then show ?case by (intro Suc.prems(1) [of c]) (simp_all add: ab getr_ok word_or_eq_0)
qed

lemma srtp_octet_string_is_eq_ok:
  assumes "len \<le> length a" "len \<le> length b"
  shows "srtp_octet_string_is_eq a b len = Inr (if take len a = take len b then 0 else 1)"
proof -
  define n m where nm: "n = len div 8" "m = len mod 8"
  have len: "len = 8 * n + m" "m < 8" by (simp_all add: nm)
  obtain c where c: "is_eq_words a b n 0 0 = Inr (drop (8 * n) a, drop (8 * n) b, c)" "c = 0 \<longleftrightarrow> take (8 * n) a = take (8 * n) b"
    by (rule is_eq_words_ok [of n a b 0 0]) (use assms len in auto)
  have eq: "take len a = take len b \<longleftrightarrow> take (8 * n) a = take (8 * n) b \<and> take m (drop (8 * n) a) = take m (drop (8 * n) b)"
    unfolding len(1) using take_split_eq [of "8 * n" a b m] assms len by simp
  let ?a = "drop (8 * n) a" and ?b = "drop (8 * n) b"
  have ab: "m \<le> length ?a" "m \<le> length ?b" using assms len by auto
  show ?thesis
  proof (cases "4 \<le> m")
    case True
    let ?c = "c OR (get32le (take 4 ?a) XOR get32le (take 4 ?b))"
    obtain d where d: "is_eq_bytes (drop 4 ?a) (drop 4 ?b) (m - 4) ?c = Inr d"
        "d = 0 \<longleftrightarrow> ?c = 0 \<and> take (m - 4) (drop 4 ?a) = take (m - 4) (drop 4 ?b)"
      by (rule is_eq_bytes_ok [of "m - 4" "drop 4 ?a" "drop 4 ?b" ?c]) (use ab in auto)
    have "take m ?a = take m ?b \<longleftrightarrow> take 4 ?a = take 4 ?b \<and> take (m - 4) (drop 4 ?a) = take (m - 4) (drop 4 ?b)"
      using take_split_eq [of 4 ?a ?b "m - 4"] ab True by simp
    moreover have "?c = 0 \<longleftrightarrow> c = 0 \<and> take 4 ?a = take 4 ?b" using ab True by (simp add: word_or_eq_0 get32le_inject)
    ultimately have "d = 0 \<longleftrightarrow> take len a = take len b" using d(2) c(2) eq by blast
    then show ?thesis using True ab c(1) d(1) by (simp add: srtp_octet_string_is_eq_def nm [symmetric] getr_ok)
  next
    case False
    obtain d where d: "is_eq_bytes ?a ?b m c = Inr d" "d = 0 \<longleftrightarrow> c = 0 \<and> take m ?a = take m ?b"
      using ab by (rule is_eq_bytes_ok [of m ?a ?b c])
    then have "d = 0 \<longleftrightarrow> take len a = take len b" using c(2) eq by blast
    then show ?thesis using False c(1) d(1) by (simp add: srtp_octet_string_is_eq_def nm [symmetric])
  qed
qed

text \<open>
  The comparison of authentication tags returns 0 exactly when the two strings are equal, reads only the bytes it is asked to compare, and
  reads all of them.
\<close>

theorem srtp_octet_string_is_eq_correct:
  assumes "len \<le> length a" "len \<le> length b"
  shows "srtp_octet_string_is_eq a b len = Inr (if take len a = take len b then 0 else 1)"
  using assms by (rule srtp_octet_string_is_eq_ok)

theorem srtp_octet_string_is_eq_correct_witness:
  "srtp_octet_string_is_eq [1, 2, 3, 4, 5, 6, 7, 8, 9, 10] [1, 2, 3, 4, 5, 6, 7, 8, 9, 11] 10 = Inr 1"
  by (subst srtp_octet_string_is_eq_correct) simp_all

end
