(* ===== verification/Srtp_Replay.thy ===== *)
theory Srtp_Replay
  imports Srtp_Bits
begin

text \<open>
  Replay protection of the SRTP library: the database of 32-bit indices for SRTCP (\<open>crypto/replay/rdb.c\<close>), the database of extended sequence numbers
  for SRTP (\<open>crypto/replay/rdbx.c\<close>), which also estimates the index of a packet from its 16-bit sequence number, and the limit on the use of a key
  (\<open>crypto/kernel/key.c\<close>). The variants with 64-bit arithmetic are modelled, as the build selects them. \<open>size_t\<close> and \<open>unsigned long\<close> have 32 bits.
\<close>

section \<open>The database of SRTCP\<close>

record srtp_rdb =
  rdb_window_start :: u32
  rdb_bitmask :: v128

definition srtp_rdb_init :: srtp_rdb where
  "srtp_rdb_init = \<lparr>rdb_window_start = 0, rdb_bitmask = v128_set_to_zero\<rparr>"

definition srtp_rdb_check :: "srtp_rdb \<Rightarrow> u32 \<Rightarrow> srtp_err_status res" where
  "srtp_rdb_check rdb p_index =
     (if rdb_window_start rdb + 128 \<le> p_index then Inr srtp_err_status_ok
      else if p_index < rdb_window_start rdb then Inr srtp_err_status_replay_old
      else bindr (v128_get_bit (rdb_bitmask rdb) (uint (p_index - rdb_window_start rdb))) (\<lambda>b.
           Inr (if b = 1 then srtp_err_status_replay_fail else srtp_err_status_ok)))"

definition srtp_rdb_add_index :: "srtp_rdb \<Rightarrow> u32 \<Rightarrow> (srtp_err_status \<times> srtp_rdb) res" where
  "srtp_rdb_add_index rdb p_index =
     (if p_index < rdb_window_start rdb then Inr (srtp_err_status_replay_fail, rdb)
      else let delta = p_index - rdb_window_start rdb
           in if delta < 128
              then bindr (v128_set_bit (rdb_bitmask rdb) (uint delta)) (\<lambda>m. Inr (srtp_err_status_ok, rdb\<lparr>rdb_bitmask := m\<rparr>))
              else let delta = delta - (128 - 1)
                   in bindr (v128_left_shift (rdb_bitmask rdb) (sint delta)) (\<lambda>m.
                      bindr (v128_set_bit m (128 - 1)) (\<lambda>m.
                      Inr (srtp_err_status_ok, rdb\<lparr>rdb_bitmask := m, rdb_window_start := rdb_window_start rdb + delta\<rparr>))))"

definition srtp_rdb_increment :: "srtp_rdb \<Rightarrow> srtp_err_status \<times> srtp_rdb" where
  "srtp_rdb_increment rdb =
     (if 0x7fffffff \<le> rdb_window_start rdb then (srtp_err_status_key_expired, rdb)
      else (srtp_err_status_ok, rdb\<lparr>rdb_window_start := rdb_window_start rdb + 1\<rparr>))"

definition srtp_rdb_get_value :: "srtp_rdb \<Rightarrow> u32" where
  "srtp_rdb_get_value rdb = rdb_window_start rdb"

section \<open>Extended sequence numbers\<close>

definition srtp_index_init :: u64 where
  "srtp_index_init = 0"

definition srtp_index_advance :: "u64 \<Rightarrow> u16 \<Rightarrow> u64" where
  "srtp_index_advance pi s = pi + ucast s"

abbreviation (input) seq_num_median :: int where "seq_num_median \<equiv> 0x8000"
abbreviation (input) seq_num_max :: int where "seq_num_max \<equiv> 0x10000"

text \<open>The difference and the guess. The operands of type \<open>uint16_t\<close> are promoted to \<open>int\<close>.\<close>

definition srtp_index_guess :: "u64 \<Rightarrow> u16 \<Rightarrow> int \<times> u64" where
  "srtp_index_guess local s =
     (let local_roc = ucast (drop_bit 16 local) :: u32;
          local_seq = uint (ucast local :: u16);
          (guess_roc, difference) =
            (if local_seq < seq_num_median
             then if uint s - local_seq > seq_num_median then (local_roc - 1, uint s - local_seq - seq_num_max)
                  else (local_roc, uint s - local_seq)
             else if local_seq - seq_num_median > uint s then (local_roc + 1, uint s - local_seq + seq_num_max)
                  else (local_roc, uint s - local_seq))
      in (difference, push_bit 16 (ucast guess_roc) OR ucast s))"

section \<open>The database of SRTP\<close>

record srtp_rdbx =
  rx_index :: u64
  rx_bitmask :: bitvector

definition srtp_rdbx_init :: "u32 \<Rightarrow> srtp_err_status + srtp_rdbx" where
  "srtp_rdbx_init ws =
     (if ws = 0 then Inl srtp_err_status_bad_param
      else case bitvector_alloc ws of
             None \<Rightarrow> Inl srtp_err_status_alloc_fail
           | Some m \<Rightarrow> Inr \<lparr>rx_index = srtp_index_init, rx_bitmask = m\<rparr>)"

definition srtp_rdbx_set_roc :: "srtp_rdbx \<Rightarrow> u32 \<Rightarrow> srtp_err_status \<times> srtp_rdbx" where
  "srtp_rdbx_set_roc rdbx roc =
     (let rdbx = rdbx\<lparr>rx_bitmask := bitvector_set_to_zero (rx_bitmask rdbx)\<rparr>
      in if ucast roc < drop_bit 16 (rx_index rdbx) then (srtp_err_status_replay_old, rdbx)
         else (srtp_err_status_ok, rdbx\<lparr>rx_index := (rx_index rdbx AND 0xffff) OR push_bit 16 (ucast roc)\<rparr>))"

definition srtp_rdbx_get_packet_index :: "srtp_rdbx \<Rightarrow> u64" where
  "srtp_rdbx_get_packet_index rdbx = rx_index rdbx"

definition srtp_rdbx_get_window_size :: "srtp_rdbx \<Rightarrow> u32" where
  "srtp_rdbx_get_window_size rdbx = bv_length (rx_bitmask rdbx)"

definition srtp_rdbx_check :: "srtp_rdbx \<Rightarrow> int \<Rightarrow> srtp_err_status res" where
  "srtp_rdbx_check rdbx delta =
     (let pos = sint (bv_length (rx_bitmask rdbx) - 1) + delta
      in if 0 < delta then Inr srtp_err_status_ok
         else if pos < 0 then Inr srtp_err_status_replay_old
         else bindr (bitvector_get_bit (rx_bitmask rdbx) pos) (\<lambda>b.
              Inr (if b = 1 then srtp_err_status_replay_fail else srtp_err_status_ok)))"

definition srtp_rdbx_add_index :: "srtp_rdbx \<Rightarrow> int \<Rightarrow> (srtp_err_status \<times> srtp_rdbx) res" where
  "srtp_rdbx_add_index rdbx delta =
     (if 0 < delta
      then bindr (bitvector_left_shift (rx_bitmask rdbx) delta) (\<lambda>m.
           bindr (bitvector_set_bit m (uint (bv_length m - 1))) (\<lambda>m.
           Inr (srtp_err_status_ok, \<lparr>rx_index = srtp_index_advance (rx_index rdbx) (of_int delta), rx_bitmask = m\<rparr>)))
      else bindr (bitvector_set_bit (rx_bitmask rdbx) (uint (bv_length (rx_bitmask rdbx) - 1 + of_int delta))) (\<lambda>m.
           Inr (srtp_err_status_ok, rdbx\<lparr>rx_bitmask := m\<rparr>)))"

definition srtp_rdbx_estimate_index :: "srtp_rdbx \<Rightarrow> u16 \<Rightarrow> int \<times> u64" where
  "srtp_rdbx_estimate_index rdbx s =
     (if 0x8000 < rx_index rdbx then srtp_index_guess (rx_index rdbx) s
      else (uint s - uint (ucast (rx_index rdbx) :: u16), ucast s))"

definition srtp_rdbx_get_roc :: "srtp_rdbx \<Rightarrow> u32" where
  "srtp_rdbx_get_roc rdbx = ucast (drop_bit 16 (rx_index rdbx))"

definition srtp_rdbx_set_roc_seq :: "srtp_rdbx \<Rightarrow> u32 \<Rightarrow> u16 \<Rightarrow> srtp_err_status \<times> srtp_rdbx" where
  "srtp_rdbx_set_roc_seq rdbx roc seq =
     (if ucast roc < drop_bit 16 (rx_index rdbx) then (srtp_err_status_replay_old, rdbx)
      else (srtp_err_status_ok,
            rdbx\<lparr>rx_index := ucast seq OR push_bit 16 (ucast roc), rx_bitmask := bitvector_set_to_zero (rx_bitmask rdbx)\<rparr>))"

section \<open>The limit of a key\<close>

datatype srtp_key_event = srtp_key_event_normal | srtp_key_event_soft_limit | srtp_key_event_hard_limit
datatype srtp_key_state = srtp_key_state_normal | srtp_key_state_past_soft_limit | srtp_key_state_expired

record srtp_key_limit =
  kl_num_left :: u64
  kl_state :: srtp_key_state

abbreviation (input) soft_limit :: u64 where "soft_limit \<equiv> 0x10000"

definition srtp_key_limit_set :: "srtp_key_limit \<Rightarrow> u64 \<Rightarrow> srtp_err_status \<times> srtp_key_limit" where
  "srtp_key_limit_set key s =
     (if s < soft_limit then (srtp_err_status_bad_param, key)
      else (srtp_err_status_ok, \<lparr>kl_num_left = s, kl_state = srtp_key_state_normal\<rparr>))"

definition srtp_key_limit_update :: "srtp_key_limit \<Rightarrow> srtp_key_event \<times> srtp_key_limit" where
  "srtp_key_limit_update key =
     (let key = key\<lparr>kl_num_left := kl_num_left key - 1\<rparr>
      in if soft_limit \<le> kl_num_left key then (srtp_key_event_normal, key)
         else let key = (if kl_state key = srtp_key_state_normal then key\<lparr>kl_state := srtp_key_state_past_soft_limit\<rparr> else key)
              in if kl_num_left key < 1 then (srtp_key_event_hard_limit, key\<lparr>kl_state := srtp_key_state_expired\<rparr>)
                 else (srtp_key_event_soft_limit, key))"

section \<open>Runs of the SRTCP receiver\<close>

text \<open>
  A receiver checks the index of a packet, verifies the packet and then adds the index; packets that are refused change nothing. The list has the indices
  that were accepted. The index of SRTCP has 31 bits (RFC 3711).
\<close>

inductive rdb_run :: "srtp_rdb \<Rightarrow> u32 list \<Rightarrow> bool" where
  init: "rdb_run srtp_rdb_init []"
| accept: "rdb_run r xs \<Longrightarrow> p < 2 ^ 31 \<Longrightarrow> srtp_rdb_check r p = Inr srtp_err_status_ok \<Longrightarrow>
    srtp_rdb_add_index r p = Inr (st, r') \<Longrightarrow> rdb_run r' (p # xs)"

definition rdb_inv :: "srtp_rdb \<Rightarrow> u32 list \<Rightarrow> bool" where
  "rdb_inv r xs \<longleftrightarrow> length (rdb_bitmask r) = 4 \<and> unat (rdb_window_start r) < 2 ^ 31 \<and> distinct xs
     \<and> (\<forall>x \<in> set xs. unat x < unat (rdb_window_start r) + 128)
     \<and> (rdb_window_start r = 0 \<or> (\<exists>x \<in> set xs. unat x = unat (rdb_window_start r) + 127))
     \<and> (\<forall>k < 128. bits (rdb_bitmask r) k \<longleftrightarrow> (\<exists>x \<in> set xs. unat x = unat (rdb_window_start r) + k))"

text \<open>What the receiver should answer: an index at least 128 below an accepted one is too old.\<close>

definition rdb_verdict :: "u32 list \<Rightarrow> u32 \<Rightarrow> srtp_err_status" where
  "rdb_verdict xs p =
     (if \<exists>x \<in> set xs. unat p + 128 \<le> unat x then srtp_err_status_replay_old
      else if p \<in> set xs then srtp_err_status_replay_fail else srtp_err_status_ok)"

lemma bits_zero: "k div 32 < n \<Longrightarrow> \<not> bits (replicate n 0 @ ws) k"
  by (simp add: bits_def nth_append)

lemma rdb_inv_init: "rdb_inv srtp_rdb_init []"
proof -
  have "k < 128 \<Longrightarrow> \<not> bits (replicate 4 0) k" for k using bits_zero [of k 4 "[]"] by (simp add: less_mult_imp_div_less)
  then show ?thesis by (simp add: rdb_inv_def srtp_rdb_init_def v128_set_to_zero_def)
qed

lemma sint_small:
  assumes "unat (w :: u32) < 2 ^ 31"
  shows "sint w = int (unat w)"
proof -
  have "sint w = signed_take_bit 31 (uint w)" by (simp add: sint_uint)
  also have "\<dots> = uint w"
  proof (rule signed_take_bit_int_eq_self)
    show "- (2 ^ 31) \<le> uint w" by (rule order_trans [of _ 0]) simp_all
    show "uint w < 2 ^ 31" using assms by (simp add: nat_less_iff flip: nat_uint_eq)
  qed
  finally show ?thesis by simp
qed

lemma unat_window_end: "unat (w :: u32) < 2 ^ 31 \<Longrightarrow> unat (w + 128) = unat w + 128"
  by (simp add: unat_word_ariths)

lemma srtp_rdb_check_verdict:
  assumes "rdb_inv r xs" "p < 2 ^ 31"
  shows "srtp_rdb_check r p = Inr (rdb_verdict xs p)"
proof -
  let ?w = "unat (rdb_window_start r)"
  have inv: "length (rdb_bitmask r) = 4" "?w < 2 ^ 31" "\<And>x. x \<in> set xs \<Longrightarrow> unat x < ?w + 128"
      "rdb_window_start r = 0 \<or> (\<exists>x \<in> set xs. unat x = ?w + 127)"
      "\<And>k. k < 128 \<Longrightarrow> bits (rdb_bitmask r) k \<longleftrightarrow> (\<exists>x \<in> set xs. unat x = ?w + k)"
    using assms(1) by (auto simp: rdb_inv_def)
  have le: "rdb_window_start r + 128 \<le> p \<longleftrightarrow> ?w + 128 \<le> unat p" "p < rdb_window_start r \<longleftrightarrow> unat p < ?w"
    using inv(2) by (simp_all add: word_le_nat_alt word_less_nat_alt unat_window_end)
  consider (after) "?w + 128 \<le> unat p" | (before) "unat p < ?w" | (inside) "?w \<le> unat p" "unat p < ?w + 128" by linarith
  then show ?thesis
  proof cases
    case after
    then have "p \<notin> set xs" "\<not> (\<exists>x \<in> set xs. unat p + 128 \<le> unat x)" using inv(3) by fastforce+
    then show ?thesis using after le by (simp add: srtp_rdb_check_def rdb_verdict_def)
  next
    case before
    then obtain x where "x \<in> set xs" "unat x = ?w + 127" using inv(4) by auto
    then have "\<exists>x \<in> set xs. unat p + 128 \<le> unat x" using before by (intro bexI [of _ x]) simp_all
    then show ?thesis using before le by (simp add: srtp_rdb_check_def rdb_verdict_def)
  next
    case inside
    define k where "k = unat p - ?w"
    have k: "k < 128" "unat p = ?w + k" using inside by (simp_all add: k_def)
    have "uint (p - rdb_window_start r) = int k"
      using inside by (simp add: k_def uint_nat unat_sub word_le_nat_alt flip: of_nat_diff)
    then have get: "v128_get_bit (rdb_bitmask r) (uint (p - rdb_window_start r)) = Inr (of_bool (bits (rdb_bitmask r) k))"
      using words_get_bit_ok [of k "rdb_bitmask r"] k inv(1) by (simp add: v128_get_bit_def)
    have "(\<exists>x \<in> set xs. unat x = unat p) \<longleftrightarrow> p \<in> set xs" by (auto dest: word_unat_eq_iff [THEN iffD2])
    then have "bits (rdb_bitmask r) k \<longleftrightarrow> p \<in> set xs" using inv(5) [OF k(1)] k(2) by simp
    moreover have "\<not> (\<exists>x \<in> set xs. unat p + 128 \<le> unat x)" using inv(3) inside by fastforce
    ultimately show ?thesis using inside le by (simp add: srtp_rdb_check_def rdb_verdict_def get)
  qed
qed

text \<open>Adding an index to the window, and past its end, where the window moves so that the index becomes its last one.\<close>

lemma rdb_add_inside:
  assumes inv: "rdb_inv r xs" and p: "p \<notin> set xs" "rdb_window_start r \<le> p" "unat p < unat (rdb_window_start r) + 128"
  obtains r' where "srtp_rdb_add_index r p = Inr (srtp_err_status_ok, r')" "rdb_inv r' (p # xs)"
proof -
  define k where "k = unat (p - rdb_window_start r)"
  have k: "k < 128" "unat p = unat (rdb_window_start r) + k" using p(2,3) by (simp_all add: k_def unat_sub word_le_nat_alt)
  have less: "\<not> p < rdb_window_start r" "p - rdb_window_start r < 128"
    using p(2) k(1) by (simp_all add: k_def word_less_nat_alt word_le_nat_alt)
  obtain m where m: "words_set_bit (rdb_bitmask r) (int k) = Inr m" "length m = 4"
      "\<And>j. j < 128 \<Longrightarrow> bits m j \<longleftrightarrow> j = k \<or> bits (rdb_bitmask r) j"
    using words_set_bit_ok [of k "rdb_bitmask r"] k(1) inv by (auto simp: rdb_inv_def)
  have "srtp_rdb_add_index r p = Inr (srtp_err_status_ok, r\<lparr>rdb_bitmask := m\<rparr>)"
    using less m(1) by (simp add: srtp_rdb_add_index_def v128_set_bit_def k_def)
  moreover have "bits m j \<longleftrightarrow> (\<exists>x \<in> set (p # xs). unat x = unat (rdb_window_start r) + j)" if "j < 128" for j
  proof -
    have "bits (rdb_bitmask r) j \<longleftrightarrow> (\<exists>x \<in> set xs. unat x = unat (rdb_window_start r) + j)" using inv that by (simp add: rdb_inv_def)
    moreover have "(\<exists>x \<in> set (p # xs). unat x = unat (rdb_window_start r) + j)
        \<longleftrightarrow> unat p = unat (rdb_window_start r) + j \<or> (\<exists>x \<in> set xs. unat x = unat (rdb_window_start r) + j)" by (simp only: set_simps bex_simps)
    moreover have "unat p = unat (rdb_window_start r) + j \<longleftrightarrow> j = k" unfolding k(2) by arith
    ultimately show ?thesis using m(3) [OF that] by blast
  qed
  then have "rdb_inv (r\<lparr>rdb_bitmask := m\<rparr>) (p # xs)"
    using inv m(2) p(1,3) by (simp add: rdb_inv_def) blast
  ultimately show thesis by (rule that)
qed

lemma v128_left_shift_ok:
  assumes "length m = 4" "0 < d"
  obtains m' where "v128_left_shift m (int d) = Inr m'" "length m' = 4" "\<And>k. k < 128 \<Longrightarrow> bits m' k \<longleftrightarrow> k + d < 128 \<and> bits m (k + d)"
proof (cases "127 < d")
  case True
  have "k < 128 \<Longrightarrow> \<not> bits (replicate 4 0) k" for k using bits_zero [of k 4 "[]"] by (simp add: less_mult_imp_div_less)
  then show thesis using True by (intro that [of v128_set_to_zero]) (simp_all add: v128_left_shift_def v128_set_to_zero_def)
next
  case False
  then obtain m' where "shift_words (int 4) (int d) m = Inr m'" "length m' = length m"
      "\<And>k. k < 32 * 4 \<Longrightarrow> bits m' k \<longleftrightarrow> k + d < 32 * 4 \<and> bits m (k + d)"
    using shift_words_ok [of d 4 m] assms(1) by auto
  then show thesis using False assms(1) by (intro that [of m']) (simp_all add: v128_left_shift_def)
qed

lemma rdb_add_after:
  assumes inv: "rdb_inv r xs" and p: "p < 2 ^ 31" "unat (rdb_window_start r) + 128 \<le> unat p"
  obtains r' where "srtp_rdb_add_index r p = Inr (srtp_err_status_ok, r')" "rdb_inv r' (p # xs)"
proof -
  let ?w = "unat (rdb_window_start r)"
  define d where "d = unat p - ?w - 127"
  have d: "0 < d" "unat p = ?w + d + 127" "d < 2 ^ 31" using p by (auto simp: d_def word_less_nat_alt)
  have le: "rdb_window_start r \<le> p" using p(2) by (simp add: word_le_nat_alt)
  have delta: "unat (p - rdb_window_start r) = d + 127" using d(2) le by (simp add: unat_sub)
  have ud: "unat (p - rdb_window_start r - 127) = d"
    using delta by (subst unat_sub) (simp_all add: word_le_nat_alt)
  then have sd: "sint (p - rdb_window_start r - 127) = int d" using d(3) sint_small [of "p - rdb_window_start r - 127"] by (simp only:)
  have mask: "length (rdb_bitmask r) = 4" using inv by (simp add: rdb_inv_def)
  obtain m where m: "v128_left_shift (rdb_bitmask r) (int d) = Inr m" "length m = 4"
      "\<And>k. k < 128 \<Longrightarrow> bits m k \<longleftrightarrow> k + d < 128 \<and> bits (rdb_bitmask r) (k + d)"
    using v128_left_shift_ok [OF mask d(1)] by blast
  obtain m' where m': "words_set_bit m (int 127) = Inr m'" "length m' = 4" "\<And>k. k < 128 \<Longrightarrow> bits m' k \<longleftrightarrow> k = 127 \<or> bits m k"
    using words_set_bit_ok [of 127 m] m(2) by auto
  let ?r = "r\<lparr>rdb_bitmask := m', rdb_window_start := rdb_window_start r + (p - rdb_window_start r - 127)\<rparr>"
  have "srtp_rdb_add_index r p = Inr (srtp_err_status_ok, ?r)"
    using le delta d(1) m(1) m'(1) sd by (simp add: srtp_rdb_add_index_def Let_def word_less_nat_alt word_le_nat_alt v128_set_bit_def)
  moreover have w: "unat (rdb_window_start ?r) = ?w + d"
  proof -
    have "unat (p - 127) = ?w + d" using d(2) by (subst unat_sub) (simp_all add: word_le_nat_alt)
    then show ?thesis by simp
  qed
  have upper: "unat x < ?w + 128" if "x \<in> set xs" for x using inv that by (simp add: rdb_inv_def)
  have old: "bits (rdb_bitmask r) k \<longleftrightarrow> (\<exists>x \<in> set xs. unat x = ?w + k)" if "k < 128" for k using inv that by (simp add: rdb_inv_def)
  have "bits m' k \<longleftrightarrow> (\<exists>x \<in> set (p # xs). unat x = ?w + d + k)" if "k < 128" for k
  proof (cases "k + d < 128")
    case True
    then show ?thesis using that m(3) m'(3) old [of "k + d"] d(1,2) by (auto simp: ac_simps)
  next
    case False
    then have "\<not> (\<exists>x \<in> set xs. unat x = ?w + d + k)" using upper by fastforce
    then show ?thesis using False that m(3) m'(3) d(2) by auto
  qed
  moreover have "p \<notin> set xs" using upper [of p] p(2) by auto
  ultimately have "rdb_inv ?r (p # xs)"
    using inv w m'(2) d(2) p(1) upper unfolding rdb_inv_def by (fastforce simp: word_less_nat_alt)
  with \<open>srtp_rdb_add_index r p = Inr (srtp_err_status_ok, ?r)\<close> show thesis by (rule that)
qed

lemma rdb_accepts:
  assumes inv: "rdb_inv r xs" and p: "p < 2 ^ 31" "srtp_rdb_check r p = Inr srtp_err_status_ok"
  obtains r' where "srtp_rdb_add_index r p = Inr (srtp_err_status_ok, r')" "rdb_inv r' (p # xs)"
proof -
  have fresh: "p \<notin> set xs" using p(2) srtp_rdb_check_verdict [OF inv p(1)] by (auto simp: rdb_verdict_def split: if_splits)
  show thesis
  proof (cases "unat (rdb_window_start r) + 128 \<le> unat p")
    case True
    show thesis using rdb_add_after [OF inv p(1) True] that by blast
  next
    case False
    have "unat (rdb_window_start r) < 2 ^ 31" using inv by (simp add: rdb_inv_def)
    then have "\<not> rdb_window_start r + 128 \<le> p" using False by (simp add: word_le_nat_alt unat_window_end)
    then have "rdb_window_start r \<le> p" using p(2) by (auto simp: srtp_rdb_check_def split: if_splits)
    then show thesis using rdb_add_inside [OF inv fresh] False that by fastforce
  qed
qed

lemma rdb_run_inv: "rdb_run r xs \<Longrightarrow> rdb_inv r xs"
proof (induction rule: rdb_run.induct)
  case (accept r xs p st r')
  then show ?case using rdb_accepts [of r xs p] by fastforce
qed (rule rdb_inv_init)

text \<open>
  SRTCP packets are not accepted twice. In every run of the receiver the accepted indices are distinct, and the answer to the next index is as it should
  be: too old if it lies at least 128 before an accepted one, a replay if it was accepted before, and otherwise it is accepted.
\<close>

theorem srtp_rdb_no_replay:
  assumes "rdb_run r xs" "p < 2 ^ 31"
  shows "distinct xs \<and> srtp_rdb_check r p = Inr (rdb_verdict xs p)"
  using rdb_run_inv [OF assms(1)] srtp_rdb_check_verdict [OF _ assms(2)] by (simp add: rdb_inv_def)

text \<open>A receiver that got 5, 7 and then 500.\<close>

lemma rdb_run_example: "\<exists>r. rdb_run r [500, 7, 5]"
proof -
  have step: "\<exists>r'. rdb_run r' (p # xs)" if "rdb_run r xs" "p < 2 ^ 31" "rdb_verdict xs p = srtp_err_status_ok" for r xs p
  proof -
    have check: "srtp_rdb_check r p = Inr srtp_err_status_ok" using srtp_rdb_check_verdict [OF rdb_run_inv [OF that(1)] that(2)] that(3) by simp
    obtain r' where "srtp_rdb_add_index r p = Inr (srtp_err_status_ok, r')"
      using rdb_run_inv [OF \<open>rdb_run r xs\<close>] \<open>p < 2 ^ 31\<close> check by (rule rdb_accepts)
    with that(1,2) check show ?thesis by (blast intro: rdb_run.accept)
  qed
  obtain r1 where r1: "rdb_run r1 [5]" using step [OF rdb_run.init, of 5] by (auto simp: rdb_verdict_def)
  obtain r2 where r2: "rdb_run r2 [7, 5]" using step [OF r1, of 7] by (auto simp: rdb_verdict_def)
  show ?thesis using step [OF r2, of 500] by (simp add: rdb_verdict_def)
qed

theorem srtp_rdb_no_replay_witness:
  "\<exists>r. rdb_run r [500, 7, 5] \<and> srtp_rdb_check r 500 = Inr srtp_err_status_replay_fail \<and> srtp_rdb_check r 8 = Inr srtp_err_status_replay_old
     \<and> srtp_rdb_check r 499 = Inr srtp_err_status_ok"
proof -
  obtain r where r: "rdb_run r [500, 7, 5]" using rdb_run_example by blast
  show ?thesis
    using srtp_rdb_no_replay [OF r, of 500] srtp_rdb_no_replay [OF r, of 8] srtp_rdb_no_replay [OF r, of 499] r
    by (intro exI [of _ r]) (simp add: rdb_verdict_def)
qed

end
