(* ===== verification/Srtp.thy ===== *)
theory Srtp
  imports Srtp_Replay
begin

text \<open>
  Protection of RTP and RTCP packets (\<open>srtp/srtp.c\<close>, with the cipher and authentication modules of \<open>crypto\<close> that the build selects: AES in counter mode and
  HMAC over mbedTLS, and the null modules). AES-GCM is not built.

  A packet is a buffer with the length of the packet in it; the code writes the trailer into the bytes after the packet. A pointer to a stream is a position in
  the list of the session or the template. Ciphers, authentication functions and key limits are shared between a stream and its template; the state of a
  cipher is set for each packet before it is used, so only the limits are kept in a store. mbedTLS is a parameter: \<open>cr_aes_ctr key counter n data\<close> is
  the result of \<open>mbedtls_aes_crypt_ctr\<close> on data that follows \<open>n\<close> bytes processed since the counter was set, \<open>cr_hmac key data\<close> the HMAC-SHA1; \<open>None\<close> is an error code.
  Memory allocation succeeds. An SSRC is the value of its four bytes in network order.
\<close>

section \<open>Ciphers and authentication\<close>

record srtp_crypto =
  cr_aes_ctr :: "bytes \<Rightarrow> bytes \<Rightarrow> nat \<Rightarrow> bytes \<Rightarrow> bytes option"
  cr_hmac :: "bytes \<Rightarrow> bytes \<Rightarrow> bytes option"

datatype srtp_cipher_type_id = SRTP_NULL_CIPHER | SRTP_AES_ICM_128 | SRTP_AES_ICM_192 | SRTP_AES_ICM_256
datatype srtp_auth_type_id = SRTP_NULL_AUTH | SRTP_HMAC_SHA1

record srtp_cipher =
  ci_id :: srtp_cipher_type_id
  ci_key :: bytes
  ci_offset :: bytes

record srtp_auth =
  au_id :: srtp_auth_type_id
  au_key :: bytes
  au_out_len :: nat
  au_prefix_len :: nat

definition v128_xor :: "bytes \<Rightarrow> bytes \<Rightarrow> bytes" where
  "v128_xor x y = map2 (XOR) x y"

text \<open>Counter mode and the null cipher: encryption, which is also decryption, after \<open>pos\<close> bytes under the vector \<open>iv\<close>.\<close>

definition srtp_cipher_encrypt :: "srtp_crypto \<Rightarrow> srtp_cipher \<Rightarrow> bytes \<Rightarrow> nat \<Rightarrow> bytes \<Rightarrow> bytes option" where
  "srtp_cipher_encrypt cr c iv pos data =
     (if ci_id c = SRTP_NULL_CIPHER then Some data else cr_aes_ctr cr (ci_key c) (v128_xor (ci_offset c) iv) pos data)"

definition srtp_cipher_output :: "srtp_crypto \<Rightarrow> srtp_cipher \<Rightarrow> bytes \<Rightarrow> nat \<Rightarrow> nat \<Rightarrow> bytes option" where
  "srtp_cipher_output cr c iv pos n = srtp_cipher_encrypt cr c iv pos (replicate n 0)"

text \<open>The tag of a message; the null function leaves the bytes at the place of the tag as they are.\<close>

definition srtp_auth_compute :: "srtp_crypto \<Rightarrow> srtp_auth \<Rightarrow> bytes \<Rightarrow> bytes \<Rightarrow> bytes option" where
  "srtp_auth_compute cr a msg old =
     (case au_id a of
        SRTP_NULL_AUTH \<Rightarrow> Some old
      | SRTP_HMAC_SHA1 \<Rightarrow> if 20 < au_out_len a then None else map_option (take (au_out_len a)) (cr_hmac cr (au_key a) msg))"

section \<open>Streams and sessions\<close>

record srtp_session_keys =
  sk_rtp_cipher :: srtp_cipher
  sk_rtp_xtn_hdr_cipher :: "srtp_cipher option"
  sk_rtp_auth :: srtp_auth
  sk_rtcp_cipher :: srtp_cipher
  sk_rtcp_auth :: srtp_auth
  sk_mki_id :: bytes
  sk_limit :: nat

datatype srtp_sec_serv = sec_serv_none | sec_serv_conf | sec_serv_auth | sec_serv_conf_and_auth
datatype direction = dir_unknown | dir_srtp_sender | dir_srtp_receiver

text \<open>The two bits of a set of services.\<close>

definition has_conf :: "srtp_sec_serv \<Rightarrow> bool" where
  "has_conf s \<longleftrightarrow> s = sec_serv_conf \<or> s = sec_serv_conf_and_auth"

definition has_auth :: "srtp_sec_serv \<Rightarrow> bool" where
  "has_auth s \<longleftrightarrow> s = sec_serv_auth \<or> s = sec_serv_conf_and_auth"

record srtp_stream =
  st_ssrc :: u32
  st_session_keys :: "srtp_session_keys list"
  st_rtp_rdbx :: srtp_rdbx
  st_rtp_services :: srtp_sec_serv
  st_rtcp_rdb :: srtp_rdb
  st_rtcp_services :: srtp_sec_serv
  st_direction :: direction
  st_allow_repeat_tx :: bool
  st_enc_xtn_hdr :: "nat list"
  st_pending_roc :: u32

datatype srtp_event = event_ssrc_collision | event_key_soft_limit | event_key_hard_limit | event_packet_index_limit

record srtp_ctx =
  cx_stream_list :: "srtp_stream list"
  cx_stream_template :: "srtp_stream option"
  cx_limits :: "srtp_key_limit list"
  cx_events :: "(u32 \<times> srtp_event) list"

datatype stream_ref = Template | Listed nat

definition stream_at :: "srtp_ctx \<Rightarrow> stream_ref \<Rightarrow> srtp_stream" where
  "stream_at ctx r = (case r of Template \<Rightarrow> the (cx_stream_template ctx) | Listed i \<Rightarrow> cx_stream_list ctx ! i)"

definition upd_stream :: "stream_ref \<Rightarrow> (srtp_stream \<Rightarrow> srtp_stream) \<Rightarrow> srtp_ctx \<Rightarrow> srtp_ctx" where
  "upd_stream r f ctx =
     (case r of
        Template \<Rightarrow> ctx\<lparr>cx_stream_template := map_option f (cx_stream_template ctx)\<rparr>
      | Listed i \<Rightarrow> ctx\<lparr>cx_stream_list := (cx_stream_list ctx)[i := f (cx_stream_list ctx ! i)]\<rparr>)"

definition srtp_handle_event :: "stream_ref \<Rightarrow> srtp_event \<Rightarrow> srtp_ctx \<Rightarrow> srtp_ctx" where
  "srtp_handle_event r ev ctx = ctx\<lparr>cx_events := cx_events ctx @ [(st_ssrc (stream_at ctx r), ev)]\<rparr>"

text \<open>The list of streams.\<close>

definition srtp_stream_list_insert :: "srtp_stream \<Rightarrow> srtp_ctx \<Rightarrow> srtp_ctx" where
  "srtp_stream_list_insert s ctx = ctx\<lparr>cx_stream_list := s # cx_stream_list ctx\<rparr>"

fun srtp_stream_list_get :: "srtp_stream list \<Rightarrow> u32 \<Rightarrow> nat \<Rightarrow> nat option" where
  "srtp_stream_list_get [] ssrc i = None"
| "srtp_stream_list_get (s # ss) ssrc i = (if st_ssrc s = ssrc then Some i else srtp_stream_list_get ss ssrc (i + 1))"

definition srtp_get_stream :: "srtp_ctx \<Rightarrow> u32 \<Rightarrow> nat option" where
  "srtp_get_stream ctx ssrc = srtp_stream_list_get (cx_stream_list ctx) ssrc 0"

definition srtp_stream_clone :: "srtp_stream \<Rightarrow> u32 \<Rightarrow> srtp_err_status + srtp_stream" where
  "srtp_stream_clone template ssrc =
     (case srtp_rdbx_init (srtp_rdbx_get_window_size (st_rtp_rdbx template)) of
        Inl status \<Rightarrow> Inl status
      | Inr rdbx \<Rightarrow> Inr (template\<lparr>st_ssrc := ssrc, st_rtp_rdbx := rdbx, st_rtcp_rdb := srtp_rdb_init, st_pending_roc := 0\<rparr>))"

definition srtp_set_stream_roc :: "srtp_ctx \<Rightarrow> u32 \<Rightarrow> u32 \<Rightarrow> srtp_err_status \<times> srtp_ctx" where
  "srtp_set_stream_roc ctx ssrc roc =
     (case srtp_get_stream ctx ssrc of
        None \<Rightarrow> (srtp_err_status_bad_param, ctx)
      | Some i \<Rightarrow> (srtp_err_status_ok, upd_stream (Listed i) (\<lambda>s. s\<lparr>st_pending_roc := roc\<rparr>) ctx))"

definition srtp_get_stream_roc :: "srtp_ctx \<Rightarrow> u32 \<Rightarrow> srtp_err_status + u32" where
  "srtp_get_stream_roc ctx ssrc =
     (case srtp_get_stream ctx ssrc of
        None \<Rightarrow> Inl srtp_err_status_bad_param
      | Some i \<Rightarrow> Inr (srtp_rdbx_get_roc (st_rtp_rdbx (stream_at ctx (Listed i)))))"

text \<open>A stream that is used in one direction only; a second direction is reported.\<close>

definition check_direction :: "direction \<Rightarrow> stream_ref \<Rightarrow> srtp_ctx \<Rightarrow> srtp_ctx" where
  "check_direction dir r ctx =
     (if st_direction (stream_at ctx r) \<noteq> dir
      then if st_direction (stream_at ctx r) = dir_unknown then upd_stream r (\<lambda>s. s\<lparr>st_direction := dir\<rparr>) ctx
           else srtp_handle_event r event_ssrc_collision ctx
      else ctx)"

text \<open>Counting the use of a key; \<open>True\<close> when the key has expired.\<close>

definition use_key :: "stream_ref \<Rightarrow> nat \<Rightarrow> srtp_ctx \<Rightarrow> bool \<times> srtp_ctx" where
  "use_key r k ctx =
     (let (ev, l) = srtp_key_limit_update (cx_limits ctx ! k);
          ctx = ctx\<lparr>cx_limits := (cx_limits ctx)[k := l]\<rparr>
      in case ev of
           srtp_key_event_normal \<Rightarrow> (False, ctx)
         | srtp_key_event_soft_limit \<Rightarrow> (False, srtp_handle_event r event_key_soft_limit ctx)
         | srtp_key_event_hard_limit \<Rightarrow> (True, srtp_handle_event r event_key_hard_limit ctx))"

definition srtp_get_session_keys_with_mki_index :: "srtp_stream \<Rightarrow> bool \<Rightarrow> nat \<Rightarrow> srtp_session_keys option" where
  "srtp_get_session_keys_with_mki_index stream use_mki mki_index =
     (if use_mki then if length (st_session_keys stream) \<le> mki_index then None else Some (st_session_keys stream ! mki_index)
      else Some (st_session_keys stream ! 0))"

text \<open>Finding the keys by the identifier in front of the tag.\<close>

fun find_mki :: "srtp_session_keys list \<Rightarrow> bytes \<Rightarrow> nat \<Rightarrow> (srtp_session_keys option \<times> nat) res" where
  "find_mki [] hdr base = Inr (None, 0)"
| "find_mki (k # ks) hdr base =
     (let mki_size = length (sk_mki_id k)
      in if mki_size \<noteq> 0 \<and> mki_size \<le> base
         then bindr (getr hdr (base - mki_size) mki_size) (\<lambda>id. if id = sk_mki_id k then Inr (Some k, mki_size) else find_mki ks hdr base)
         else find_mki ks hdr base)"

definition srtp_get_session_keys :: "srtp_stream \<Rightarrow> bytes \<Rightarrow> nat \<Rightarrow> nat \<Rightarrow> (srtp_session_keys option \<times> nat) res" where
  "srtp_get_session_keys stream hdr pkt_octet_len tag_len =
     (if pkt_octet_len < tag_len then Inr (None, 0) else find_mki (st_session_keys stream) hdr (pkt_octet_len - tag_len))"

definition srtp_get_session_keys_rtp :: "srtp_stream \<Rightarrow> bytes \<Rightarrow> nat \<Rightarrow> (srtp_session_keys option \<times> nat) res" where
  "srtp_get_session_keys_rtp stream hdr len = srtp_get_session_keys stream hdr len (au_out_len (sk_rtp_auth (st_session_keys stream ! 0)))"

definition srtp_get_session_keys_rtcp :: "srtp_stream \<Rightarrow> bytes \<Rightarrow> nat \<Rightarrow> (srtp_session_keys option \<times> nat) res" where
  "srtp_get_session_keys_rtcp stream hdr len = srtp_get_session_keys stream hdr len (au_out_len (sk_rtcp_auth (st_session_keys stream ! 0)))"

definition srtp_inject_mki :: "bytes \<Rightarrow> nat \<Rightarrow> srtp_session_keys \<Rightarrow> bool \<Rightarrow> (nat \<times> bytes) res" where
  "srtp_inject_mki buf off keys use_mki =
     (if use_mki \<and> sk_mki_id keys \<noteq> []
      then case wr buf off (sk_mki_id keys) of None \<Rightarrow> Inl OutOfBounds | Some buf \<Rightarrow> Inr (length (sk_mki_id keys), buf)
      else Inr (0, buf))"

section \<open>RTP headers\<close>

text \<open>The fields of the first byte, and the lengths of header and extension.\<close>

definition hdr_x :: "bytes \<Rightarrow> bool" where
  "hdr_x h = bit (h ! 0) 4"

definition hdr_seq :: "bytes \<Rightarrow> u16" where
  "hdr_seq h = get16 (drop 2 h)"

definition hdr_ssrc :: "bytes \<Rightarrow> u32" where
  "hdr_ssrc h = get32 (drop 8 h)"

definition srtp_get_rtp_hdr_len :: "bytes \<Rightarrow> nat" where
  "srtp_get_rtp_hdr_len h = 12 + 4 * unat (h ! 0 AND 0x0F)"

definition srtp_get_rtp_xtn_hdr_len :: "bytes \<Rightarrow> nat \<Rightarrow> nat res" where
  "srtp_get_rtp_xtn_hdr_len buf off = bindr (getr buf off 4) (\<lambda>x. Inr ((unat (get16 (drop 2 x)) + 1) * 4))"

definition srtp_validate_rtp_header :: "bytes \<Rightarrow> nat \<Rightarrow> srtp_err_status res" where
  "srtp_validate_rtp_header buf len =
     (if len < 12 then Inr srtp_err_status_bad_param
      else bindr (getr buf 0 12) (\<lambda>h.
        let hl = srtp_get_rtp_hdr_len h
        in if len < hl then Inr srtp_err_status_bad_param
           else if hdr_x h
           then if len < hl + 4 then Inr srtp_err_status_bad_param
                else bindr (srtp_get_rtp_xtn_hdr_len buf hl) (\<lambda>xl.
                     Inr (if len < hl + xl then srtp_err_status_bad_param else srtp_err_status_ok))
           else Inr srtp_err_status_ok))"

text \<open>Where the encrypted part of a packet starts.\<close>

definition enc_start :: "bytes \<Rightarrow> bytes \<Rightarrow> nat res" where
  "enc_start h buf =
     (let hl = srtp_get_rtp_hdr_len h
      in if hdr_x h then bindr (srtp_get_rtp_xtn_hdr_len buf hl) (\<lambda>xl. Inr (hl + xl)) else Inr hl)"

text \<open>There is no such part in a stream without confidentiality.\<close>

definition crypt_start :: "srtp_stream \<Rightarrow> bytes \<Rightarrow> bytes \<Rightarrow> nat option res" where
  "crypt_start stream h buf = (if has_conf (st_rtp_services stream) then bindr (enc_start h buf) (\<lambda>st. Inr (Some st)) else Inr None)"

text \<open>A change of a part of the buffer, whose new contents have its length.\<close>

definition put :: "bytes \<Rightarrow> nat \<Rightarrow> bytes \<Rightarrow> bytes res" where
  "put buf off xs = (case wr buf off xs of None \<Rightarrow> Inl OutOfBounds | Some buf \<Rightarrow> Inr buf)"

definition srtp_protect_extension_header :: "srtp_stream \<Rightarrow> nat \<Rightarrow> bool" where
  "srtp_protect_extension_header stream xid = (xid \<in> set (st_enc_xtn_hdr stream))"

definition skip_padding :: "bytes \<Rightarrow> nat \<Rightarrow> nat \<Rightarrow> nat res" where
  "skip_padding buf en pos = bindr (getr buf pos (en - pos)) (\<lambda>xs. Inr (pos + length (takeWhile (\<lambda>b. b = 0) xs)))"

text \<open>
  The elements of a header extension, with a header of one byte (\<open>two\<close> false) or two. \<open>kpos\<close> is the position in the key stream of the extension.
\<close>

definition xtn_element :: "bool \<Rightarrow> bytes \<Rightarrow> nat \<times> nat \<times> nat" where
  "xtn_element two b =
     (if two then (unat (b ! 0), unat (b ! 1), 2) else (unat (drop_bit 4 (b ! 0 AND 0xF0)), unat (b ! 0 AND 0x0F) + 1, 1))"

definition xtn_step :: "srtp_crypto \<Rightarrow> srtp_cipher \<Rightarrow> bytes \<Rightarrow> srtp_stream \<Rightarrow> bool \<Rightarrow> nat \<Rightarrow> nat \<Rightarrow> nat \<Rightarrow> bytes
    \<Rightarrow> (srtp_err_status option \<times> nat \<times> nat \<times> bytes) res" where
  "xtn_step cr c iv stream two en kpos pos buf =
     bindr (getr buf pos (if two then 2 else 1)) (\<lambda>b.
       let (xid, xlen, n) = xtn_element two b; pos = pos + n
       in if en < pos + xlen then Inr (Some srtp_err_status_parse_err, kpos, pos, buf)
          else if \<not> two \<and> xid = 15 then Inr (Some srtp_err_status_ok, kpos, pos, buf)
          else case srtp_cipher_output cr c iv kpos (n + xlen) of
                 None \<Rightarrow> Inr (Some srtp_err_status_cipher_fail, kpos, pos, buf)
               | Some keystream \<Rightarrow>
                   bindr (if 0 < xlen \<and> srtp_protect_extension_header stream xid
                          then bindr (getr buf pos xlen) (\<lambda>xs. put buf pos (map2 (XOR) xs (drop n keystream)))
                          else Inr buf) (\<lambda>buf.
                   bindr (skip_padding buf en (pos + xlen)) (\<lambda>pos.
                   Inr (None, kpos + n + xlen, pos, buf))))"

lemma skip_padding_grows: "skip_padding buf en pos = Inr p \<Longrightarrow> pos \<le> p"
  by (auto simp: skip_padding_def bindr_eq_Inr)

lemma xtn_step_grows: "xtn_step cr c iv stream two en kpos pos buf = Inr (None, k, p, buf') \<Longrightarrow> pos < p"
  by (auto simp: xtn_step_def bindr_eq_Inr xtn_element_def Let_def split: if_splits option.splits dest!: skip_padding_grows)

function xtn_loop :: "srtp_crypto \<Rightarrow> srtp_cipher \<Rightarrow> bytes \<Rightarrow> srtp_stream \<Rightarrow> bool \<Rightarrow> nat \<Rightarrow> nat \<Rightarrow> nat \<Rightarrow> bytes
    \<Rightarrow> (srtp_err_status \<times> bytes) res" where
  "xtn_loop cr c iv stream two en kpos pos buf =
     (if (if two then pos + 1 < en else pos < en)
      then case xtn_step cr c iv stream two en kpos pos buf of
             Inl e \<Rightarrow> Inl e
           | Inr (Some status, _, _, buf) \<Rightarrow> Inr (status, buf)
           | Inr (None, kpos, pos, buf) \<Rightarrow> xtn_loop cr c iv stream two en kpos pos buf
      else Inr (srtp_err_status_ok, buf))"
  by pat_completeness auto
termination
proof (relation "measure (\<lambda>(cr, c, iv, stream, two, en, kpos, pos, buf). en - pos)", goal_cases)
  case (2 cr c iv stream two en kpos pos buf _ _ _ k p buf')
  then show ?case by (auto dest!: xtn_step_grows split: if_splits)
qed simp

declare xtn_loop.simps [simp del]

definition srtp_process_header_encryption :: "srtp_crypto \<Rightarrow> srtp_cipher \<Rightarrow> bytes \<Rightarrow> srtp_stream \<Rightarrow> nat \<Rightarrow> bytes
    \<Rightarrow> (srtp_err_status \<times> bytes) res" where
  "srtp_process_header_encryption cr c iv stream xtn buf =
     bindr (getr buf xtn 4) (\<lambda>x.
       let en = xtn + 4 + unat (get16 (drop 2 x)) * 4
       in if get16 x = 0xBEDE then xtn_loop cr c iv stream False en 0 (xtn + 4) buf
          else if get16 x AND 0xFFF0 = 0x1000 then xtn_loop cr c iv stream True en 0 (xtn + 4) buf
          else Inr (srtp_err_status_parse_err, buf))"

section \<open>Packet indices\<close>

definition srtp_estimate_index :: "srtp_rdbx \<Rightarrow> u32 \<Rightarrow> u16 \<Rightarrow> srtp_err_status \<times> u64 \<times> int" where
  "srtp_estimate_index rdbx roc seq =
     (let est = push_bit 16 (ucast roc) OR ucast seq;
          delta = sint (ucast (est - rx_index rdbx) :: u32)
      in if rx_index rdbx < est
         then if 0x8000 < est - rx_index rdbx then (srtp_err_status_pkt_idx_adv, est, 0) else (srtp_err_status_ok, est, delta)
         else if est < rx_index rdbx
         then if 0x8000 < rx_index rdbx - est then (srtp_err_status_pkt_idx_old, est, 0) else (srtp_err_status_ok, est, delta)
         else (srtp_err_status_ok, est, delta))"

definition srtp_get_est_pkt_index :: "u16 \<Rightarrow> srtp_stream \<Rightarrow> srtp_err_status \<times> u64 \<times> int" where
  "srtp_get_est_pkt_index seq stream =
     (if st_pending_roc stream \<noteq> 0 then srtp_estimate_index (st_rtp_rdbx stream) (st_pending_roc stream) seq
      else let (delta, est) = srtp_rdbx_estimate_index (st_rtp_rdbx stream) seq in (srtp_err_status_ok, est, delta))"

text \<open>The vector of a packet: with counter mode it has the SSRC and the index, otherwise only the index.\<close>

definition rtp_iv :: "srtp_cipher \<Rightarrow> u32 \<Rightarrow> u64 \<Rightarrow> bytes" where
  "rtp_iv c ssrc est =
     (if ci_id c \<noteq> SRTP_NULL_CIPHER then replicate 4 0 @ put32 ssrc @ put64 (push_bit 16 est) else replicate 8 0 @ put64 est)"

text \<open>The index recorded in the replay database, after an advance of the rollover counter or by a difference.\<close>

definition record_index :: "stream_ref \<Rightarrow> bool \<Rightarrow> u64 \<Rightarrow> int \<Rightarrow> srtp_ctx \<Rightarrow> srtp_ctx res" where
  "record_index r advance est delta ctx =
     (let rdbx = st_rtp_rdbx (stream_at ctx r);
          rdbx = (if advance then snd (srtp_rdbx_set_roc_seq rdbx (ucast (drop_bit 16 est)) (ucast est)) else rdbx)
      in bindr (srtp_rdbx_add_index rdbx (if advance then 0 else delta)) (\<lambda>(_, rdbx).
         Inr (upd_stream r (\<lambda>s. s\<lparr>st_rtp_rdbx := rdbx, st_pending_roc := (if advance then 0 else st_pending_roc s)\<rparr>) ctx)))"

section \<open>Protecting RTP\<close>

text \<open>The stream a packet is sent on, which is made from the template for a new SSRC.\<close>

definition sending_stream :: "(srtp_stream \<Rightarrow> srtp_stream) \<Rightarrow> srtp_ctx \<Rightarrow> u32 \<Rightarrow> srtp_err_status + (nat \<times> srtp_ctx)" where
  "sending_stream f ctx ssrc =
     (case srtp_get_stream ctx ssrc of
        Some i \<Rightarrow> Inr (i, ctx)
      | None \<Rightarrow>
          (case cx_stream_template ctx of
             None \<Rightarrow> Inl srtp_err_status_no_ctx
           | Some template \<Rightarrow>
               (case srtp_stream_clone template ssrc of
                  Inl status \<Rightarrow> Inl status
                | Inr s \<Rightarrow> Inr (0, srtp_stream_list_insert (f s) ctx))))"

text \<open>The part of a packet that is encrypted, after the elements of the header extension that are.\<close>

definition rtp_crypt :: "srtp_crypto \<Rightarrow> srtp_stream \<Rightarrow> srtp_session_keys \<Rightarrow> bytes \<Rightarrow> nat \<Rightarrow> bytes \<Rightarrow> nat option \<Rightarrow> nat \<Rightarrow> bytes
    \<Rightarrow> (srtp_err_status \<times> bytes) res" where
  "rtp_crypt cr stream keys iv pos h start en buf =
     (case start of
        None \<Rightarrow> Inr (srtp_err_status_ok, buf)
      | Some st \<Rightarrow>
          bindr (case sk_rtp_xtn_hdr_cipher keys of
                   Some c \<Rightarrow> if hdr_x h then srtp_process_header_encryption cr c iv stream (srtp_get_rtp_hdr_len h) buf
                             else Inr (srtp_err_status_ok, buf)
                 | None \<Rightarrow> Inr (srtp_err_status_ok, buf)) (\<lambda>(status, buf).
          if status \<noteq> srtp_err_status_ok then Inr (status, buf)
          else bindr (getr buf st (en - st)) (\<lambda>data.
               case srtp_cipher_encrypt cr (sk_rtp_cipher keys) iv pos data of
                 None \<Rightarrow> Inr (srtp_err_status_cipher_fail, buf)
               | Some data \<Rightarrow> bindr (put buf st data) (\<lambda>buf. Inr (srtp_err_status_ok, buf)))))"

text \<open>What is authenticated after the packet: the rollover counter.\<close>

definition roc_bytes :: "u64 \<Rightarrow> bytes" where
  "roc_bytes est = take 4 (put64 (push_bit 16 est))"

definition protect_packet :: "srtp_crypto \<Rightarrow> srtp_stream \<Rightarrow> srtp_session_keys \<Rightarrow> bytes \<Rightarrow> u64 \<Rightarrow> nat option \<Rightarrow> nat \<Rightarrow> nat \<Rightarrow> bytes
    \<Rightarrow> (srtp_err_status \<times> bytes) res" where
  "protect_packet cr stream keys h est start len tag buf =
     (let a = sk_rtp_auth keys; auth = has_auth (st_rtp_services stream);
          iv = rtp_iv (sk_rtp_cipher keys) (hdr_ssrc h) est
      in bindr (if auth \<and> au_prefix_len a \<noteq> 0
                then case srtp_cipher_output cr (sk_rtp_cipher keys) iv 0 (au_prefix_len a) of
                       None \<Rightarrow> Inr (srtp_err_status_cipher_fail, buf)
                     | Some ks \<Rightarrow> bindr (put buf tag ks) (\<lambda>buf. Inr (srtp_err_status_ok, buf))
                else Inr (srtp_err_status_ok, buf)) (\<lambda>(status, buf).
         if status \<noteq> srtp_err_status_ok then Inr (status, buf)
         else bindr (rtp_crypt cr stream keys iv (if auth then au_prefix_len a else 0) h start len buf) (\<lambda>(status, buf).
         if status \<noteq> srtp_err_status_ok \<or> \<not> auth then Inr (status, buf)
         else bindr (getr buf 0 len) (\<lambda>msg.
              bindr (getr buf tag (au_out_len a)) (\<lambda>old.
              case srtp_auth_compute cr a (msg @ roc_bytes est) old of
                None \<Rightarrow> Inr (srtp_err_status_auth_fail, buf)
              | Some t \<Rightarrow> bindr (put buf tag t) (\<lambda>buf. Inr (srtp_err_status_ok, buf)))))))"

definition srtp_protect_mki :: "srtp_crypto \<Rightarrow> srtp_ctx \<Rightarrow> bytes \<Rightarrow> nat \<Rightarrow> bool \<Rightarrow> nat
    \<Rightarrow> (srtp_err_status \<times> srtp_ctx \<times> bytes \<times> nat) res" where
  "srtp_protect_mki cr ctx buf len use_mki mki_index =
     bindr (srtp_validate_rtp_header buf len) (\<lambda>status.
     if status \<noteq> srtp_err_status_ok then Inr (status, ctx, buf, len)
     else bindr (getr buf 0 12) (\<lambda>h.
     case sending_stream (\<lambda>s. s\<lparr>st_direction := dir_srtp_sender\<rparr>) ctx (hdr_ssrc h) of
       Inl status \<Rightarrow> Inr (status, ctx, buf, len)
     | Inr (i, ctx) \<Rightarrow>
         let ctx = check_direction dir_srtp_sender (Listed i) ctx; stream = stream_at ctx (Listed i)
         in case srtp_get_session_keys_with_mki_index stream use_mki mki_index of
              None \<Rightarrow> Inr (srtp_err_status_bad_mki, ctx, buf, len)
            | Some keys \<Rightarrow>
                let (expired, ctx) = use_key (Listed i) (sk_limit keys) ctx
                in if expired then Inr (srtp_err_status_key_expired, ctx, buf, len)
                   else bindr (crypt_start stream h buf) (\<lambda>start.
                   if (case start of None \<Rightarrow> False | Some st \<Rightarrow> len < st) then Inr (srtp_err_status_parse_err, ctx, buf, len)
                   else bindr (srtp_inject_mki buf len keys use_mki) (\<lambda>(mki_size, buf).
                   let (status, est, delta) = srtp_get_est_pkt_index (hdr_seq h) stream;
                       advance = (status = srtp_err_status_pkt_idx_adv)
                   in if status \<noteq> srtp_err_status_ok \<and> \<not> advance then Inr (status, ctx, buf, len)
                      else bindr (if advance then Inr srtp_err_status_ok else srtp_rdbx_check (st_rtp_rdbx stream) delta) (\<lambda>status.
                      if status \<noteq> srtp_err_status_ok \<and> (status \<noteq> srtp_err_status_replay_fail \<or> \<not> st_allow_repeat_tx stream)
                      then Inr (status, ctx, buf, len)
                      else bindr (record_index (Listed i) advance est delta ctx) (\<lambda>ctx.
                      bindr (protect_packet cr stream keys h est start len (len + mki_size) buf) (\<lambda>(status, buf).
                      if status \<noteq> srtp_err_status_ok then Inr (status, ctx, buf, len)
                      else Inr (srtp_err_status_ok, ctx, buf,
                                len + (if has_auth (st_rtp_services stream) then au_out_len (sk_rtp_auth keys) else 0) + mki_size))))))))"

definition srtp_protect :: "srtp_crypto \<Rightarrow> srtp_ctx \<Rightarrow> bytes \<Rightarrow> nat \<Rightarrow> (srtp_err_status \<times> srtp_ctx \<times> bytes \<times> nat) res" where
  "srtp_protect cr ctx buf len = srtp_protect_mki cr ctx buf len False 0"

section \<open>Unprotecting RTP\<close>

text \<open>
  The stream of a received packet with its index: the template stands in for a stream that is not known yet. A packet that was received before is refused.
\<close>

definition receiving_stream :: "srtp_ctx \<Rightarrow> u32 \<Rightarrow> u16 \<Rightarrow> (srtp_err_status + (stream_ref \<times> bool \<times> u64 \<times> int)) res" where
  "receiving_stream ctx ssrc seq =
     (case srtp_get_stream ctx ssrc of
        None \<Rightarrow>
          (case cx_stream_template ctx of
             None \<Rightarrow> Inr (Inl srtp_err_status_no_ctx)
           | Some _ \<Rightarrow> Inr (Inr (Template, False, ucast seq, uint seq)))
      | Some i \<Rightarrow>
          let stream = stream_at ctx (Listed i); (status, est, delta) = srtp_get_est_pkt_index seq stream
          in if status = srtp_err_status_pkt_idx_adv then Inr (Inr (Listed i, True, est, delta))
             else if status \<noteq> srtp_err_status_ok then Inr (Inl status)
             else bindr (srtp_rdbx_check (st_rtp_rdbx stream) delta) (\<lambda>status.
                  Inr (if status \<noteq> srtp_err_status_ok then Inl status else Inr (Listed i, False, est, delta))))"

text \<open>
  The tag is computed in a local array of 16 bytes. The null function leaves the key stream there; reading bytes of the array that were never written is an error.
\<close>

definition SRTP_MAX_TAG_LEN :: nat where
  "SRTP_MAX_TAG_LEN = 16"

definition check_tag :: "srtp_crypto \<Rightarrow> srtp_auth \<Rightarrow> bytes \<Rightarrow> bytes \<Rightarrow> bytes \<Rightarrow> srtp_err_status res" where
  "check_tag cr a msg prefix tag =
     (if SRTP_MAX_TAG_LEN < length prefix \<or> au_id a = SRTP_NULL_AUTH \<and> length prefix < au_out_len a then Inl OutOfBounds
      else case srtp_auth_compute cr a msg (take (au_out_len a) prefix) of
             None \<Rightarrow> Inr srtp_err_status_auth_fail
           | Some tmp_tag \<Rightarrow>
               if SRTP_MAX_TAG_LEN < au_out_len a then Inl OutOfBounds
               else bindr (srtp_octet_string_is_eq tmp_tag tag (au_out_len a)) (\<lambda>r.
                    Inr (if r \<noteq> 0 then srtp_err_status_auth_fail else srtp_err_status_ok)))"

definition unprotect_auth :: "srtp_crypto \<Rightarrow> srtp_stream \<Rightarrow> srtp_session_keys \<Rightarrow> bytes \<Rightarrow> u64 \<Rightarrow> nat \<Rightarrow> nat \<Rightarrow> bytes \<Rightarrow> srtp_err_status res" where
  "unprotect_auth cr stream keys iv est len mki_size buf =
     (let a = sk_rtp_auth keys; tag_len = au_out_len a
      in if \<not> has_auth (st_rtp_services stream) then Inr srtp_err_status_ok
         else if len < tag_len + mki_size then Inl OutOfBounds
         else case (if au_prefix_len a \<noteq> 0 then srtp_cipher_output cr (sk_rtp_cipher keys) iv 0 (au_prefix_len a) else Some []) of
                None \<Rightarrow> Inr srtp_err_status_cipher_fail
              | Some prefix \<Rightarrow>
                  bindr (getr buf 0 (len - tag_len - mki_size)) (\<lambda>msg.
                  bindr (getr buf (len - tag_len) tag_len) (\<lambda>tag. check_tag cr a (msg @ roc_bytes est) prefix tag)))"

text \<open>After the packet is accepted: a new stream in place of the template, and the index in the replay database.\<close>

definition accept_packet :: "stream_ref \<Rightarrow> u32 \<Rightarrow> bool \<Rightarrow> u64 \<Rightarrow> int \<Rightarrow> srtp_ctx \<Rightarrow> (srtp_err_status \<times> srtp_ctx) res" where
  "accept_packet r ssrc advance est delta ctx =
     (let ctx = check_direction dir_srtp_receiver r ctx
      in case r of
           Listed i \<Rightarrow> bindr (record_index (Listed i) advance est delta ctx) (\<lambda>ctx. Inr (srtp_err_status_ok, ctx))
         | Template \<Rightarrow>
             (case srtp_stream_clone (stream_at ctx Template) ssrc of
                Inl status \<Rightarrow> Inr (status, ctx)
              | Inr s \<Rightarrow> bindr (record_index (Listed 0) advance est delta (srtp_stream_list_insert s ctx)) (\<lambda>ctx.
                   Inr (srtp_err_status_ok, ctx))))"

text \<open>
  The checks of a received packet, which change nothing, give an error or what is needed to accept the packet; then the key is counted, the packet is decrypted
  and its index recorded.
\<close>

definition unprotect_check :: "srtp_crypto \<Rightarrow> srtp_ctx \<Rightarrow> bytes \<Rightarrow> nat \<Rightarrow> bool
    \<Rightarrow> (srtp_err_status + ((stream_ref \<times> bool \<times> u64 \<times> int) \<times> srtp_session_keys \<times> nat \<times> nat option)) res" where
  "unprotect_check cr ctx buf len use_mki =
     bindr (srtp_validate_rtp_header buf len) (\<lambda>status.
     if status \<noteq> srtp_err_status_ok then Inr (Inl status)
     else bindr (getr buf 0 12) (\<lambda>h.
     bindr (receiving_stream ctx (hdr_ssrc h) (hdr_seq h)) (\<lambda>found.
     case found of
       Inl status \<Rightarrow> Inr (Inl status)
     | Inr (r, advance, est, delta) \<Rightarrow>
         let stream = stream_at ctx r
         in bindr (if use_mki then srtp_get_session_keys_rtp stream buf len
                   else Inr (Some (st_session_keys stream ! 0), 0)) (\<lambda>(keys, mki_size).
            case keys of
              None \<Rightarrow> Inr (Inl srtp_err_status_bad_mki)
            | Some keys \<Rightarrow>
                bindr (crypt_start stream h buf) (\<lambda>start.
                if (case start of None \<Rightarrow> False | Some st \<Rightarrow> len < st + au_out_len (sk_rtp_auth keys) + mki_size)
                then Inr (Inl srtp_err_status_parse_err)
                else bindr (unprotect_auth cr stream keys (rtp_iv (sk_rtp_cipher keys) (hdr_ssrc h) est) est len mki_size buf) (\<lambda>status.
                     Inr (if status \<noteq> srtp_err_status_ok then Inl status
                          else Inr ((r, advance, est, delta), keys, mki_size, start))))))))"

definition unprotect_apply :: "srtp_crypto \<Rightarrow> srtp_ctx \<Rightarrow> bytes \<Rightarrow> nat \<Rightarrow> (stream_ref \<times> bool \<times> u64 \<times> int) \<times> srtp_session_keys \<times> nat \<times> nat option
    \<Rightarrow> (srtp_err_status \<times> srtp_ctx \<times> bytes \<times> int) res" where
  "unprotect_apply cr ctx buf len = (\<lambda>((r, advance, est, delta), keys, mki_size, start).
     bindr (getr buf 0 12) (\<lambda>h.
     let tag_len = au_out_len (sk_rtp_auth keys); stream = stream_at ctx r; (expired, ctx) = use_key r (sk_limit keys) ctx
     in if expired then Inr (srtp_err_status_key_expired, ctx, buf, int len)
        else bindr (rtp_crypt cr stream keys (rtp_iv (sk_rtp_cipher keys) (hdr_ssrc h) est)
                      (if has_auth (st_rtp_services stream) then au_prefix_len (sk_rtp_auth keys) else 0) h start (len - tag_len - mki_size) buf)
               (\<lambda>(status, buf).
        if status \<noteq> srtp_err_status_ok then Inr (status, ctx, buf, int len)
        else bindr (accept_packet r (hdr_ssrc h) advance est delta ctx) (\<lambda>(status, ctx).
             Inr (status, ctx, buf, if status \<noteq> srtp_err_status_ok then int len else int len - int tag_len - int mki_size)))))"

definition srtp_unprotect_mki :: "srtp_crypto \<Rightarrow> srtp_ctx \<Rightarrow> bytes \<Rightarrow> nat \<Rightarrow> bool \<Rightarrow> (srtp_err_status \<times> srtp_ctx \<times> bytes \<times> int) res" where
  "srtp_unprotect_mki cr ctx buf len use_mki =
     bindr (unprotect_check cr ctx buf len use_mki) (\<lambda>checked.
     case checked of
       Inl status \<Rightarrow> Inr (status, ctx, buf, int len)
     | Inr packet \<Rightarrow> unprotect_apply cr ctx buf len packet)"

definition srtp_unprotect :: "srtp_crypto \<Rightarrow> srtp_ctx \<Rightarrow> bytes \<Rightarrow> nat \<Rightarrow> (srtp_err_status \<times> srtp_ctx \<times> bytes \<times> int) res" where
  "srtp_unprotect cr ctx buf len = srtp_unprotect_mki cr ctx buf len False"

section \<open>Protecting RTCP\<close>

text \<open>The vector of an RTCP packet, and the word after it: the bit that says it is encrypted, and its index.\<close>

definition rtcp_iv :: "srtp_cipher \<Rightarrow> u32 \<Rightarrow> u32 \<Rightarrow> bytes" where
  "rtcp_iv c ssrc seq_num =
     (if ci_id c \<noteq> SRTP_NULL_CIPHER then replicate 4 0 @ put32 ssrc @ put32 (drop_bit 16 seq_num) @ put32 (push_bit 16 seq_num)
      else replicate 12 0 @ put32 seq_num)"

definition rtcp_ssrc :: "bytes \<Rightarrow> u32" where
  "rtcp_ssrc h = get32 (drop 4 h)"

definition SRTCP_E_BIT :: u32 where
  "SRTCP_E_BIT = 0x80000000"

definition SRTCP_INDEX_MASK :: u32 where
  "SRTCP_INDEX_MASK = 0x7FFFFFFF"

text \<open>The key stream prefix over the tag, which a receiver asks for only where there is one, and then the packet.\<close>

definition rtcp_crypt :: "bool \<Rightarrow> srtp_crypto \<Rightarrow> srtp_session_keys \<Rightarrow> bytes \<Rightarrow> nat \<Rightarrow> bool \<Rightarrow> nat \<Rightarrow> bytes \<Rightarrow> (srtp_err_status \<times> bytes) res" where
  "rtcp_crypt sending cr keys iv tag conf n buf =
     (let c = sk_rtcp_cipher keys; prefix_len = au_prefix_len (sk_rtcp_auth keys)
      in case (if sending \<or> prefix_len \<noteq> 0 then srtp_cipher_output cr c iv 0 prefix_len else Some []) of
           None \<Rightarrow> Inr (srtp_err_status_cipher_fail, buf)
         | Some ks \<Rightarrow> bindr (put buf tag ks) (\<lambda>buf.
             if \<not> conf then Inr (srtp_err_status_ok, buf)
             else bindr (getr buf 8 n) (\<lambda>data.
                  case srtp_cipher_encrypt cr c iv prefix_len data of
                    None \<Rightarrow> Inr (srtp_err_status_cipher_fail, buf)
                  | Some data \<Rightarrow> bindr (put buf 8 data) (\<lambda>buf. Inr (srtp_err_status_ok, buf)))))"

definition protect_rtcp_packet :: "srtp_crypto \<Rightarrow> srtp_stream \<Rightarrow> srtp_session_keys \<Rightarrow> u32 \<Rightarrow> u32 \<Rightarrow> nat \<Rightarrow> nat \<Rightarrow> bytes
    \<Rightarrow> (srtp_err_status \<times> bytes) res" where
  "protect_rtcp_packet cr stream keys ssrc seq_num len tag buf =
     (let conf = has_conf (st_rtcp_services stream); a = sk_rtcp_auth keys
      in bindr (put buf len (put32 ((if conf then SRTCP_E_BIT else 0) OR seq_num))) (\<lambda>buf.
         bindr (rtcp_crypt True cr keys (rtcp_iv (sk_rtcp_cipher keys) ssrc seq_num) tag conf (len - 8) buf) (\<lambda>(status, buf).
         if status \<noteq> srtp_err_status_ok then Inr (status, buf)
         else bindr (getr buf 0 (len + 4)) (\<lambda>msg.
              bindr (getr buf tag (au_out_len a)) (\<lambda>old.
              case srtp_auth_compute cr a msg old of
                None \<Rightarrow> Inr (srtp_err_status_auth_fail, buf)
              | Some t \<Rightarrow> bindr (put buf tag t) (\<lambda>buf. Inr (srtp_err_status_ok, buf)))))))"

definition srtp_protect_rtcp_mki :: "srtp_crypto \<Rightarrow> srtp_ctx \<Rightarrow> bytes \<Rightarrow> nat \<Rightarrow> bool \<Rightarrow> nat
    \<Rightarrow> (srtp_err_status \<times> srtp_ctx \<times> bytes \<times> nat) res" where
  "srtp_protect_rtcp_mki cr ctx buf len use_mki mki_index =
     (if len < 8 then Inr (srtp_err_status_bad_param, ctx, buf, len)
      else bindr (getr buf 0 8) (\<lambda>h.
      let ssrc = rtcp_ssrc h
      in case sending_stream (\<lambda>s. s) ctx ssrc of
           Inl status \<Rightarrow> Inr (status, ctx, buf, len)
         | Inr (i, ctx) \<Rightarrow>
             let ctx = check_direction dir_srtp_sender (Listed i) ctx; stream = stream_at ctx (Listed i)
             in case srtp_get_session_keys_with_mki_index stream use_mki mki_index of
                  None \<Rightarrow> Inr (srtp_err_status_bad_mki, ctx, buf, len)
                | Some keys \<Rightarrow>
                    bindr (srtp_inject_mki buf (len + 4) keys use_mki) (\<lambda>(mki_size, buf).
                    let (status, rdb) = srtp_rdb_increment (st_rtcp_rdb stream);
                        ctx = upd_stream (Listed i) (\<lambda>s. s\<lparr>st_rtcp_rdb := rdb\<rparr>) ctx
                    in if status \<noteq> srtp_err_status_ok then Inr (status, ctx, buf, len)
                       else bindr (protect_rtcp_packet cr stream keys ssrc (srtp_rdb_get_value rdb) len (len + 4 + mki_size) buf) (\<lambda>(status, buf).
                       Inr (status, ctx, buf,
                            if status \<noteq> srtp_err_status_ok then len else len + au_out_len (sk_rtcp_auth keys) + 4 + mki_size)))))"

definition srtp_protect_rtcp :: "srtp_crypto \<Rightarrow> srtp_ctx \<Rightarrow> bytes \<Rightarrow> nat \<Rightarrow> (srtp_err_status \<times> srtp_ctx \<times> bytes \<times> nat) res" where
  "srtp_protect_rtcp cr ctx buf len = srtp_protect_rtcp_mki cr ctx buf len False 0"

section \<open>Unprotecting RTCP\<close>

definition find_receiver :: "srtp_ctx \<Rightarrow> u32 \<Rightarrow> stream_ref option" where
  "find_receiver ctx ssrc =
     (case srtp_get_stream ctx ssrc of
        Some i \<Rightarrow> Some (Listed i)
      | None \<Rightarrow> if cx_stream_template ctx = None then None else Some Template)"

definition record_rtcp_index :: "stream_ref \<Rightarrow> u32 \<Rightarrow> srtp_ctx \<Rightarrow> srtp_ctx res" where
  "record_rtcp_index r seq_num ctx =
     bindr (srtp_rdb_add_index (st_rtcp_rdb (stream_at ctx r)) seq_num) (\<lambda>(_, rdb).
       Inr (upd_stream r (\<lambda>s. s\<lparr>st_rtcp_rdb := rdb\<rparr>) ctx))"

definition accept_rtcp_packet :: "stream_ref \<Rightarrow> u32 \<Rightarrow> u32 \<Rightarrow> srtp_ctx \<Rightarrow> (srtp_err_status \<times> srtp_ctx) res" where
  "accept_rtcp_packet r ssrc seq_num ctx =
     (let ctx = check_direction dir_srtp_receiver r ctx
      in case r of
           Listed i \<Rightarrow> bindr (record_rtcp_index (Listed i) seq_num ctx) (\<lambda>ctx. Inr (srtp_err_status_ok, ctx))
         | Template \<Rightarrow>
             (case srtp_stream_clone (stream_at ctx Template) ssrc of
                Inl status \<Rightarrow> Inr (status, ctx)
              | Inr s \<Rightarrow> bindr (record_rtcp_index (Listed 0) seq_num (srtp_stream_list_insert s ctx)) (\<lambda>ctx.
                   Inr (srtp_err_status_ok, ctx))))"

text \<open>As for RTP, the checks change nothing. A packet is always authenticated.\<close>

definition unprotect_rtcp_check :: "srtp_crypto \<Rightarrow> srtp_ctx \<Rightarrow> bytes \<Rightarrow> nat \<Rightarrow> bool
    \<Rightarrow> (srtp_err_status + (stream_ref \<times> srtp_session_keys \<times> nat \<times> u32)) res" where
  "unprotect_rtcp_check cr ctx buf len use_mki =
     (if len < 8 + 4 then Inr (Inl srtp_err_status_bad_param)
      else bindr (getr buf 0 8) (\<lambda>h.
      case find_receiver ctx (rtcp_ssrc h) of
        None \<Rightarrow> Inr (Inl srtp_err_status_no_ctx)
      | Some r \<Rightarrow>
          let stream = stream_at ctx r
          in bindr (if use_mki then srtp_get_session_keys_rtcp stream buf len
                    else Inr (Some (st_session_keys stream ! 0), 0)) (\<lambda>(keys, mki_size).
             case keys of
               None \<Rightarrow> Inr (Inl srtp_err_status_bad_mki)
             | Some keys \<Rightarrow>
                 let a = sk_rtcp_auth keys; tag_len = au_out_len a; plain = len - tag_len - mki_size - 4
                 in if len < 8 + tag_len + mki_size + 4 then Inr (Inl srtp_err_status_bad_param)
                    else bindr (getr buf plain 4) (\<lambda>trailer.
                    if bit (trailer ! 0) 7 \<noteq> has_conf (st_rtcp_services stream) then Inr (Inl srtp_err_status_cant_check)
                    else let seq_num = get32 trailer AND SRTCP_INDEX_MASK
                         in bindr (srtp_rdb_check (st_rtcp_rdb stream) seq_num) (\<lambda>status.
                            if status \<noteq> srtp_err_status_ok then Inr (Inl status)
                            else bindr (getr buf 0 (plain + 4)) (\<lambda>msg.
                                 bindr (getr buf (len - tag_len) tag_len) (\<lambda>tag.
                                 bindr (check_tag cr a msg [] tag) (\<lambda>status.
                                 Inr (if status \<noteq> srtp_err_status_ok then Inl status else Inr (r, keys, plain, seq_num))))))))))"

definition unprotect_rtcp_apply :: "srtp_crypto \<Rightarrow> srtp_ctx \<Rightarrow> bytes \<Rightarrow> nat \<Rightarrow> stream_ref \<times> srtp_session_keys \<times> nat \<times> u32
    \<Rightarrow> (srtp_err_status \<times> srtp_ctx \<times> bytes \<times> nat) res" where
  "unprotect_rtcp_apply cr ctx buf len = (\<lambda>(r, keys, plain, seq_num).
     bindr (getr buf 0 8) (\<lambda>h.
     let conf = has_conf (st_rtcp_services (stream_at ctx r)); tag = len - au_out_len (sk_rtcp_auth keys)
     in bindr (rtcp_crypt False cr keys (rtcp_iv (sk_rtcp_cipher keys) (rtcp_ssrc h) seq_num) tag conf (plain - 8) buf) (\<lambda>(status, buf).
        if status \<noteq> srtp_err_status_ok then Inr (status, ctx, buf, len)
        else bindr (accept_rtcp_packet r (rtcp_ssrc h) seq_num ctx) (\<lambda>(status, ctx).
             Inr (status, ctx, buf, plain)))))"

definition srtp_unprotect_rtcp_mki :: "srtp_crypto \<Rightarrow> srtp_ctx \<Rightarrow> bytes \<Rightarrow> nat \<Rightarrow> bool
    \<Rightarrow> (srtp_err_status \<times> srtp_ctx \<times> bytes \<times> nat) res" where
  "srtp_unprotect_rtcp_mki cr ctx buf len use_mki =
     bindr (unprotect_rtcp_check cr ctx buf len use_mki) (\<lambda>checked.
     case checked of
       Inl status \<Rightarrow> Inr (status, ctx, buf, len)
     | Inr packet \<Rightarrow> unprotect_rtcp_apply cr ctx buf len packet)"

definition srtp_unprotect_rtcp :: "srtp_crypto \<Rightarrow> srtp_ctx \<Rightarrow> bytes \<Rightarrow> nat \<Rightarrow> (srtp_err_status \<times> srtp_ctx \<times> bytes \<times> nat) res" where
  "srtp_unprotect_rtcp cr ctx buf len = srtp_unprotect_rtcp_mki cr ctx buf len False"

end
