(* ===== verification/Srtp_Window.thy ===== *)
theory Srtp_Window
  imports Srtp_Replay
begin

text \<open>
  Properties of the SRTP replay database and of key limits: the estimate of a packet index is the closest one with the
  sequence number of the packet (RFC 3711), the receiver accepts no index twice, and what the two functions that set the rollover counter do to the window.
\<close>

section \<open>The estimate\<close>

lemma unat_join: "unat (push_bit 16 (ucast (a :: u32)) OR ucast (s :: u16) :: u64) = unat a * 65536 + unat s"
proof -
  have a: "unat a < 2 ^ 32" using unsigned_less [of a] by simp
  have wide: "unat (ucast a :: u64) = unat a" "unat (ucast s :: u64) = unat s"
    using a less_trans [OF unat_u16_less [of s], of "2 ^ 64"] by (simp_all add: unsigned_ucast_eq take_bit_eq_mod)
  have "unat (push_bit 16 (ucast a) :: u64) = take_bit 64 (unat a * 65536)"
    by (simp only: unsigned_push_bit_eq wide) (simp add: push_bit_eq_mult)
  also have "\<dots> = unat a * 65536" using a by (simp add: take_bit_eq_mod)
  finally have push: "unat (push_bit 16 (ucast a) :: u64) = unat a * 65536" .
  have "push_bit 16 (ucast a) OR ucast s = (push_bit 16 (ucast a) + ucast s :: u64)"
    by (subst disjunctive_add) (auto simp: bit_simps)
  moreover have "unat (push_bit 16 (ucast a) + ucast s :: u64) = unat a * 65536 + unat s"
  proof -
    have "unat a < 4294967296" using a by simp
    then have "unat a * 65536 + unat s < 18446744073709551616" using unat_u16_less [of s] by linarith
    then show ?thesis by (simp add: unat_word_ariths push wide)
  qed
  ultimately show ?thesis by simp
qed

lemma index_parts:
  assumes "unat (n :: u64) < 2 ^ 48"
  shows "unat (ucast (drop_bit 16 n) :: u32) = unat n div 65536" "unat (ucast n :: u16) = unat n mod 65536"
proof -
  have "unat (drop_bit 16 n) = unat n div 65536" by (simp only: unat_drop_bit_eq) (simp add: drop_bit_eq_div)
  then show "unat (ucast (drop_bit 16 n) :: u32) = unat n div 65536"
    using assms by (simp add: unsigned_ucast_eq take_bit_eq_mod less_mult_imp_div_less)
  show "unat (ucast n :: u16) = unat n mod 65536" by (simp add: unsigned_ucast_eq take_bit_eq_mod)
qed

text \<open>How far a packet can be from the highest index; the second bound holds once the index is past the first half of the sequence numbers.\<close>

definition estimates :: "u64 \<Rightarrow> u16 \<Rightarrow> int \<times> u64 \<Rightarrow> bool" where
  "estimates n s e \<longleftrightarrow> int (unat (snd e)) = int (unat n) + fst e \<and> unat (snd e) mod 65536 = unat s
     \<and> \<bar>fst e\<bar> < 65536 \<and> (0x8000 < n \<longrightarrow> \<bar>fst e\<bar> \<le> 32768)"

lemma srtp_index_guess_ok:
  assumes n: "unat n < 2 ^ 48 - 2 ^ 16" and big: "0x8000 < n"
  shows "estimates n s (srtp_index_guess n s)"
proof -
  define R Q where RQ: "R = unat n div 65536" "Q = unat n mod 65536"
  have rq: "unat n = R * 65536 + Q" "Q < 65536" "R < 2 ^ 32 - 1" using n by (auto simp: RQ)
  have s: "unat s < 65536" by simp
  have roc: "unat (ucast (drop_bit 16 n) :: u32) = R" and seq: "uint (ucast n :: u16) = int Q"
    using index_parts [of n] n by (simp_all add: RQ uint_nat)
  let ?roc = "ucast (drop_bit 16 n) :: u32"
  have up: "unat (?roc + 1) = R + 1" using roc rq(3) by (simp add: unat_word_ariths)
  have "n \<noteq> 0" "32768 < unat n" using big by (auto simp: word_less_nat_alt)
  then have down: "unat (?roc - 1) = R - 1" "0 < R" if "Q < 32768"
  proof -
    show "0 < R" using that \<open>32768 < unat n\<close> rq(1) by (cases R) auto
    then have "1 \<le> ?roc" using roc by (simp add: word_le_nat_alt)
    then show "unat (?roc - 1) = R - 1" using roc by (simp add: unat_sub)
  qed
  have fin: "estimates n s (d, push_bit 16 (ucast a) OR ucast s)"
    if "int (unat a) * 65536 + int (unat s) = int R * 65536 + int Q + d" "\<bar>d\<bar> \<le> 32768" for d and a :: u32
    unfolding estimates_def using that s by (simp add: unat_join rq(1) del: of_nat_unat)
  have us: "uint s = int (unat s)" by simp
  consider (behind) "Q < 32768" "int (unat s) - int Q > 32768" | (ahead) "32768 \<le> Q" "int Q - 32768 > int (unat s)"
    | (same) "\<bar>int (unat s) - int Q\<bar> \<le> 32768" "\<not> (Q < 32768 \<and> int (unat s) - int Q > 32768)" "\<not> (32768 \<le> Q \<and> int Q - 32768 > int (unat s))"
    using rq(2) s by linarith
  then show ?thesis
  proof cases
    case behind
    have guess: "srtp_index_guess n s = (uint s - int Q - 65536, push_bit 16 (ucast (?roc - 1)) OR ucast s)"
      using behind by (simp add: srtp_index_guess_def Let_def seq)
    have "int (unat (?roc - 1)) = int R - 1" using down [OF behind(1)] by linarith
    then show ?thesis unfolding guess us by (intro fin) (use behind s in linarith)+
  next
    case ahead
    have guess: "srtp_index_guess n s = (uint s - int Q + 65536, push_bit 16 (ucast (?roc + 1)) OR ucast s)"
      using ahead(2) by (simp add: srtp_index_guess_def Let_def seq) (use ahead(1) in linarith)
    have "int (unat (?roc + 1)) = int R + 1" using up by linarith
    then show ?thesis unfolding guess us by (intro fin) (use ahead rq(2) in linarith)+
  next
    case same
    then have guess: "srtp_index_guess n s = (uint s - int Q, push_bit 16 (ucast ?roc) OR ucast s)"
      by (auto simp: srtp_index_guess_def Let_def seq)
    have "int (unat ?roc) = int R" using roc by linarith
    then show ?thesis unfolding guess us by (intro fin) (use same in linarith)+
  qed
qed

lemma srtp_rdbx_estimate_ok:
  assumes "unat (rx_index r) < 2 ^ 48 - 2 ^ 16"
  shows "estimates (rx_index r) s (srtp_rdbx_estimate_index r s)"
proof (cases "0x8000 < rx_index r")
  case True
  with srtp_index_guess_ok [OF assms True] show ?thesis by (simp add: srtp_rdbx_estimate_index_def)
next
  case False
  then have n: "unat (rx_index r) \<le> 32768" by (simp add: word_less_nat_alt)
  then have "unat (ucast (rx_index r) :: u16) = unat (rx_index r)" using index_parts(2) [of "rx_index r"] by simp
  moreover have "unat (ucast s :: u64) = unat s" using unat_join [of 0 s] by simp
  moreover have "srtp_rdbx_estimate_index r s = (int (unat s) - int (unat (ucast (rx_index r) :: u16)), ucast s)"
    using False by (simp add: srtp_rdbx_estimate_index_def)
  moreover have "\<bar>int (unat s) - int (unat (rx_index r))\<bar> < 65536" using n unat_u16_less [of s] by linarith
  ultimately show ?thesis using False by (simp add: estimates_def)
qed



section \<open>Runs of the SRTP receiver\<close>

inductive rdbx_run :: "srtp_rdbx \<Rightarrow> u64 list \<Rightarrow> bool" where
  init: "ws \<le> 0x7FFFFFE0 \<Longrightarrow> srtp_rdbx_init ws = Inr r \<Longrightarrow> rdbx_run r []"
| accept: "rdbx_run r xs \<Longrightarrow> unat (rx_index r) < 2 ^ 48 - 2 ^ 16 \<Longrightarrow> srtp_rdbx_estimate_index r s = (delta, est) \<Longrightarrow>
    srtp_rdbx_check r delta = Inr srtp_err_status_ok \<Longrightarrow> srtp_rdbx_add_index r delta = Inr (st, r') \<Longrightarrow> rdbx_run r' (est # xs)"

abbreviation window :: "srtp_rdbx \<Rightarrow> nat" where "window r \<equiv> unat (srtp_rdbx_get_window_size r)"

definition window_ok :: "bitvector \<Rightarrow> bool" where
  "window_ok v \<longleftrightarrow> (\<exists>n. unat (bv_length v) = 32 * n \<and> 0 < n \<and> n \<le> length (bv_word v)) \<and> unat (bv_length v) < 2 ^ 31"

definition rdbx_inv :: "srtp_rdbx \<Rightarrow> u64 list \<Rightarrow> bool" where
  "rdbx_inv r xs \<longleftrightarrow> window_ok (rx_bitmask r) \<and> distinct xs
     \<and> (\<forall>x \<in> set xs. unat x \<le> unat (rx_index r)) \<and> (xs \<noteq> [] \<longrightarrow> rx_index r \<in> set xs) \<and> (xs = [] \<longrightarrow> rx_index r = 0)
     \<and> (\<forall>k < window r. bits (bv_word (rx_bitmask r)) (window r - 1 - k) \<longleftrightarrow> (\<exists>x \<in> set xs. unat x + k = unat (rx_index r)))"

text \<open>What the receiver should answer: an index below the window of the highest accepted one is too old.\<close>

definition rdbx_verdict :: "nat \<Rightarrow> u64 list \<Rightarrow> u64 \<Rightarrow> srtp_err_status" where
  "rdbx_verdict w xs p =
     (if \<exists>x \<in> set xs. unat p + w \<le> unat x then srtp_err_status_replay_old
      else if p \<in> set xs then srtp_err_status_replay_fail else srtp_err_status_ok)"

lemma unat_and_not:
  "unat ((w :: u32) AND NOT (2 ^ k - 1)) = unat w div 2 ^ k * 2 ^ k"
proof -
  have "w AND NOT (2 ^ k - 1) = push_bit k (drop_bit k w)"
    unfolding mask_eq_exp_minus_1 [symmetric] by (rule bit_word_eqI) (auto simp: bit_simps)
  moreover have "unat w div 2 ^ k * 2 ^ k < 2 ^ 32"
  proof -
    have "unat w div 2 ^ k * 2 ^ k \<le> unat w" by (rule div_times_less_eq_dividend)
    also have "\<dots> < 2 ^ 32" using unsigned_less [of w] by simp
    finally show ?thesis .
  qed
  ultimately show ?thesis
    by (simp only: unsigned_push_bit_eq unat_drop_bit_eq) (simp add: push_bit_eq_mult drop_bit_eq_div take_bit_eq_mod)
qed

lemma rdbx_inv_init:
  assumes "ws \<le> 0x7FFFFFE0" "srtp_rdbx_init ws = Inr r"
  shows "rdbx_inv r []"
proof -
  let ?len = "(ws + 32 - 1) AND NOT (32 - 1) :: u32"
  let ?l = "(?len div 32 * 4 + 15) AND NOT 15 :: u32"
  define n where "n = (unat ws + 31) div 32"
  have ws: "0 < unat ws" "unat ws \<le> 0x7FFFFFE0"
    using assms by (auto simp: srtp_rdbx_init_def word_le_nat_alt unat_gt_0 split: if_splits)
  then have n: "0 < n" "32 * n \<le> 0x7FFFFFFF" by (auto simp: n_def)
  have "unat (ws + 31) = unat ws + 31" using ws by (simp add: unat_word_ariths)
  then have len: "unat ?len = 32 * n" using unat_and_not [of "ws + 31" 5] by (simp add: n_def add.commute)
  then have "unat (?len div 32 * 4 + 15) = n * 4 + 15" using n by (simp add: unat_word_ariths unat_div)
  then have l: "unat ?l = (n * 4 + 15) div 16 * 16" using unat_and_not [of "?len div 32 * 4 + 15" 4] by simp
  have words: "n \<le> unat ?l div 4" unfolding l by linarith
  then have "?l \<noteq> 0" using n(1) by (metis div_0 le_0_eq not_gr_zero unat_0)
  then have r: "r = \<lparr>rx_index = 0, rx_bitmask = bitvector_set_to_zero \<lparr>bv_length = ?len, bv_word = replicate (unat ?l div 4) 0\<rparr>\<rparr>"
    using assms(2) by (simp add: srtp_rdbx_init_def bitvector_alloc_def Let_def srtp_index_init_def split: if_splits)
  have zero: "bv_word (rx_bitmask r) = replicate n 0 @ replicate (unat ?l div 4 - n) 0" "bv_length (rx_bitmask r) = ?len"
    unfolding r bitvector_set_to_zero_def Let_def using len by simp_all
  have "\<not> bits (bv_word (rx_bitmask r)) k" if "k < 32 * n" for k
    unfolding zero using that by (intro bits_zero) (simp add: less_mult_imp_div_less mult.commute)
  then show ?thesis
    using len n words by (simp add: rdbx_inv_def window_ok_def srtp_rdbx_get_window_size_def zero) (simp add: r)
qed

lemma srtp_rdbx_check_verdict:
  assumes inv: "rdbx_inv r xs" and n: "unat (rx_index r) < 2 ^ 48 - 2 ^ 16" and est: "srtp_rdbx_estimate_index r s = (delta, est)"
  shows "srtp_rdbx_check r delta = Inr (rdbx_verdict (window r) xs est)"
proof -
  let ?N = "unat (rx_index r)" and ?L = "window r" and ?ws = "bv_word (rx_bitmask r)"
  have e: "int (unat est) = int ?N + delta" using srtp_rdbx_estimate_ok [OF n, of s] est by (simp add: estimates_def)
  have L: "0 < ?L" "?L < 2 ^ 31" "?L \<le> 32 * length ?ws"
    using inv by (auto simp: rdbx_inv_def window_ok_def srtp_rdbx_get_window_size_def)
  have upper: "unat x \<le> ?N" if "x \<in> set xs" for x using inv that by (simp add: rdbx_inv_def)
  have last: "rx_index r \<in> set xs" if "0 < ?N" using inv that by (auto simp: rdbx_inv_def)
  have "unat (bv_length (rx_bitmask r) - 1) = ?L - 1" using L(1) by (simp add: srtp_rdbx_get_window_size_def unat_sub word_le_nat_alt)
  then have pos: "sint (bv_length (rx_bitmask r) - 1) = int (?L - 1)" using L(2) by (subst sint_small) auto
  consider (new) "0 < delta" | (old) "delta \<le> 0" "int ?L \<le> - delta" | (inside) "delta \<le> 0" "- delta < int ?L" by linarith
  then show ?thesis
  proof cases
    case new
    then have "?N < unat est" using e by linarith
    then have "est \<notin> set xs" "\<not> (\<exists>x \<in> set xs. unat est + ?L \<le> unat x)" using upper by fastforce+
    then show ?thesis using new by (simp add: srtp_rdbx_check_def rdbx_verdict_def)
  next
    case old
    then have "unat est + ?L \<le> ?N" using e by linarith
    then have "\<exists>x \<in> set xs. unat est + ?L \<le> unat x" using L(1) last by (intro bexI [of _ "rx_index r"]) auto
    moreover have "int (?L - 1) + delta < 0" using old L(1) by linarith
    ultimately show ?thesis using old(1) unfolding srtp_rdbx_check_def rdbx_verdict_def pos Let_def by simp
  next
    case inside
    define k where "k = nat (- delta)"
    have k: "k < ?L" "unat est + k = ?N" "delta = - int k" unfolding k_def using inside e by linarith+
    have p: "int (?L - 1) + delta = int (?L - 1 - k)" using k(1) by (simp add: k(3))
    have "?L - 1 - k < 32 * length ?ws" using L(1,3) by linarith
    then have get: "bitvector_get_bit (rx_bitmask r) (int (?L - 1) + delta) = Inr (of_bool (bits ?ws (?L - 1 - k)))"
      unfolding p bitvector_get_bit_def by (rule words_get_bit_ok)
    have "(\<exists>x \<in> set xs. unat x + k = ?N) \<longleftrightarrow> est \<in> set xs"
      using k(2) by (metis add_right_cancel word_unat_eq_iff)
    then have "bits ?ws (?L - 1 - k) \<longleftrightarrow> est \<in> set xs" using inv k(1) by (simp add: rdbx_inv_def)
    moreover have "\<not> (\<exists>x \<in> set xs. unat est + ?L \<le> unat x)" using upper k by fastforce
    moreover have "\<not> int (?L - 1) + delta < 0" using p by simp
    moreover have "\<not> 0 < delta" using inside(1) by simp
    ultimately show ?thesis unfolding srtp_rdbx_check_def rdbx_verdict_def pos Let_def get by simp
  qed
qed

lemma set_bit_window:
  assumes "window_ok v" "b < unat (bv_length v)"
  obtains v' where "bitvector_set_bit v (int b) = Inr v'" "window_ok v'" "bv_length v' = bv_length v"
    "\<And>k. k < unat (bv_length v) \<Longrightarrow> bits (bv_word v') k \<longleftrightarrow> k = b \<or> bits (bv_word v) k"
proof -
  have len: "unat (bv_length v) \<le> 32 * length (bv_word v)" using assms(1) by (auto simp: window_ok_def)
  then have "b < 32 * length (bv_word v)" using assms(2) by linarith
  then obtain ws where ws: "words_set_bit (bv_word v) (int b) = Inr ws" "length ws = length (bv_word v)"
      "\<And>k. k < 32 * length (bv_word v) \<Longrightarrow> bits ws k \<longleftrightarrow> k = b \<or> bits (bv_word v) k"
    using words_set_bit_ok by blast
  show thesis
  proof (rule that [of "v\<lparr>bv_word := ws\<rparr>"])
    fix k assume "k < unat (bv_length v)"
    then have "k < 32 * length (bv_word v)" using len by linarith
    then show "bits (bv_word (v\<lparr>bv_word := ws\<rparr>)) k \<longleftrightarrow> k = b \<or> bits (bv_word v) k" using ws(3) by simp
  qed (use ws assms(1) in \<open>simp_all add: bitvector_set_bit_def window_ok_def\<close>)
qed

lemma left_shift_window:
  assumes "window_ok v"
  obtains v' where "bitvector_left_shift v (int d) = Inr v'" "window_ok v'" "bv_length v' = bv_length v"
    "\<And>k. k < unat (bv_length v) \<Longrightarrow> bits (bv_word v') k \<longleftrightarrow> k + d < unat (bv_length v) \<and> bits (bv_word v) (k + d)"
proof -
  obtain n where n: "unat (bv_length v) = 32 * n" "0 < n" "n \<le> length (bv_word v)" "unat (bv_length v) < 2 ^ 31"
    using assms by (auto simp: window_ok_def)
  have sint: "sint (bv_length v) = int (32 * n)" using n(1,4) by (simp add: sint_small)
  show thesis
  proof (cases "32 * n \<le> d")
    case True
    let ?v = "bitvector_set_to_zero v"
    have v: "bv_word ?v = replicate n 0 @ drop n (bv_word v)" "bv_length ?v = bv_length v"
      using n(1) by (simp_all add: bitvector_set_to_zero_def)
    show thesis
    proof (rule that [of ?v])
      show "bits (bv_word ?v) k \<longleftrightarrow> k + d < unat (bv_length v) \<and> bits (bv_word v) (k + d)" if "k < unat (bv_length v)" for k
        unfolding v n(1) using True that n(1) bits_zero [of k n] by (simp add: less_mult_imp_div_less mult.commute)
    qed (use True v n assms sint in \<open>auto simp: bitvector_left_shift_def window_ok_def\<close>)
  next
    case False
    then obtain ws where ws: "shift_words (int n) (int d) (bv_word v) = Inr ws" "length ws = length (bv_word v)"
        "\<And>k. k < 32 * n \<Longrightarrow> bits ws k \<longleftrightarrow> k + d < 32 * n \<and> bits (bv_word v) (k + d)"
      using shift_words_ok [of d n "bv_word v"] n(3) by (metis not_le)
    show thesis
      by (rule that [of "v\<lparr>bv_word := ws\<rparr>"]) (use False ws n sint assms in \<open>simp_all add: bitvector_left_shift_def window_ok_def\<close>)
  qed
qed

lemma unat_advance:
  assumes "unat n < 2 ^ 48" "0 < d" "d < 65536"
  shows "unat (srtp_index_advance n (of_int (int d))) = unat n + d"
proof -
  have "unat (of_int (int d) :: u16) = d" using assms(3) by (simp add: unat_of_nat)
  then have "unat (ucast (of_int (int d) :: u16) :: u64) = d" using assms(3) by (simp add: unsigned_ucast_eq take_bit_eq_mod)
  then show ?thesis using assms by (simp add: srtp_index_advance_def unat_word_ariths)
qed

lemma uint_of_unat: "unat (w :: u32) = n \<Longrightarrow> uint w = int n"
  by auto

lemma rdbx_add_new:
  assumes inv: "rdbx_inv r xs" and n: "unat (rx_index r) < 2 ^ 48 - 2 ^ 16" and d: "0 < d" "d < 65536" "unat est = unat (rx_index r) + d"
  obtains r' where "srtp_rdbx_add_index r (int d) = Inr (srtp_err_status_ok, r')" "rdbx_inv r' (est # xs)" "window r' = window r"
proof -
  let ?N = "unat (rx_index r)" and ?L = "window r"
  have ok: "window_ok (rx_bitmask r)" using inv by (simp add: rdbx_inv_def)
  obtain v where v: "bitvector_left_shift (rx_bitmask r) (int d) = Inr v" "window_ok v" "bv_length v = bv_length (rx_bitmask r)"
      "\<And>k. k < unat (bv_length (rx_bitmask r)) \<Longrightarrow> bits (bv_word v) k \<longleftrightarrow> k + d < unat (bv_length (rx_bitmask r)) \<and> bits (bv_word (rx_bitmask r)) (k + d)"
    using left_shift_window [OF ok] by blast
  have L: "unat (bv_length v) = ?L" "unat (bv_length (rx_bitmask r)) = ?L" by (simp_all add: v(3) srtp_rdbx_get_window_size_def)
  have L0: "0 < ?L" using ok by (auto simp: window_ok_def L)
  then have last: "uint (bv_length v - 1) = int (?L - 1)"
  proof -
    have "unat (bv_length v - 1) = ?L - 1" using L L0 by (simp add: unat_sub word_le_nat_alt)
    then show ?thesis by (rule uint_of_unat)
  qed
  have "?L - 1 < unat (bv_length v)" using L L0 by linarith
  then obtain v' where v': "bitvector_set_bit v (int (?L - 1)) = Inr v'" "window_ok v'" "bv_length v' = bv_length v"
      "\<And>k. k < unat (bv_length v) \<Longrightarrow> bits (bv_word v') k \<longleftrightarrow> k = ?L - 1 \<or> bits (bv_word v) k"
    using set_bit_window [OF v(2)] by blast
  let ?r = "\<lparr>rx_index = srtp_index_advance (rx_index r) (of_int (int d)), rx_bitmask = v'\<rparr>"
  have "unat (rx_index r) < 2 ^ 48" using n by simp
  then have "unat (srtp_index_advance (rx_index r) (of_int (int d))) = unat est" using unat_advance d by metis
  then have "srtp_index_advance (rx_index r) (of_int (int d)) = est" by (rule word_unat_eq_iff [THEN iffD2])
  then have index: "rx_index ?r = est" by simp
  have w: "window ?r = ?L" by (simp add: v'(3) v(3) srtp_rdbx_get_window_size_def)
  have add: "srtp_rdbx_add_index r (int d) = Inr (srtp_err_status_ok, ?r)"
    unfolding srtp_rdbx_add_index_def using d(1) v(1) v'(1) last by simp
  have upper: "unat x \<le> ?N" if "x \<in> set xs" for x using inv that by (simp add: rdbx_inv_def)
  have "bits (bv_word v') (?L - 1 - k) \<longleftrightarrow> (\<exists>x \<in> set (est # xs). unat x + k = unat est)" if "k < ?L" for k
  proof -
    have "bits (bv_word v') (?L - 1 - k) \<longleftrightarrow> k = 0 \<or> d \<le> k \<and> bits (bv_word (rx_bitmask r)) (?L - 1 - (k - d))"
    proof -
      have pos: "?L - 1 - k < ?L" using L0 by linarith
      have "?L - 1 - k = ?L - 1 \<longleftrightarrow> k = 0" "?L - 1 - k + d < ?L \<longleftrightarrow> d \<le> k" using that by linarith+
      moreover have "d \<le> k \<Longrightarrow> ?L - 1 - k + d = ?L - 1 - (k - d)" using that by linarith
      ultimately show ?thesis using v(4) [of "?L - 1 - k"] v'(4) [of "?L - 1 - k"] pos unfolding L by metis
    qed
    also have "\<dots> \<longleftrightarrow> k = 0 \<or> d \<le> k \<and> (\<exists>x \<in> set xs. unat x + (k - d) = ?N)"
      using inv that by (simp add: rdbx_inv_def)
    also have "\<dots> \<longleftrightarrow> k = 0 \<or> (\<exists>x \<in> set xs. unat x + k = unat est)"
    proof -
      have "d \<le> k \<and> unat x + (k - d) = ?N \<longleftrightarrow> unat x + k = unat est" if "x \<in> set xs" for x
        using upper [OF that] d(3) by linarith
      then show ?thesis by blast
    qed
    finally show ?thesis by simp
  qed
  moreover have "unat x \<le> unat est" if "x \<in> set xs" for x using upper [OF that] d(3) by linarith
  moreover have "est \<notin> set xs" using upper [of est] d by auto
  ultimately have "rdbx_inv ?r (est # xs)" using inv v'(2) unfolding rdbx_inv_def w index by simp
  with add w show thesis by (intro that)
qed

lemma rdbx_add_inside:
  assumes inv: "rdbx_inv r xs" and k: "k < window r" "unat est + k = unat (rx_index r)" and new: "est \<notin> set xs"
  obtains r' where "srtp_rdbx_add_index r (- int k) = Inr (srtp_err_status_ok, r')" "rdbx_inv r' (est # xs)" "window r' = window r"
proof -
  let ?N = "unat (rx_index r)" and ?L = "window r"
  have ok: "window_ok (rx_bitmask r)" using inv by (simp add: rdbx_inv_def)
  have L: "unat (bv_length (rx_bitmask r)) = ?L" by (simp add: srtp_rdbx_get_window_size_def)
  have pos: "uint (bv_length (rx_bitmask r) - 1 + of_int (- int k)) = int (?L - 1 - k)"
  proof -
    have "bv_length (rx_bitmask r) - 1 + of_int (- int k) = bv_length (rx_bitmask r) - of_nat (k + 1)" by simp
    moreover have "unat (bv_length (rx_bitmask r) - of_nat (k + 1)) = ?L - (k + 1)"
    proof -
      have "k + 1 < 2 ^ 32" using k(1) ok L by (simp add: window_ok_def)
      then have "unat (of_nat (k + 1) :: u32) = k + 1" by (simp add: unat_of_nat del: of_nat_Suc)
      then show ?thesis using k(1) L by (subst unat_sub) (simp_all add: word_le_nat_alt)
    qed
    ultimately have "unat (bv_length (rx_bitmask r) - 1 + of_int (- int k)) = ?L - 1 - k" by (simp add: diff_diff_eq)
    then show ?thesis by (rule uint_of_unat)
  qed
  have "?L - 1 - k < unat (bv_length (rx_bitmask r))" using L k(1) by linarith
  then obtain v where v: "bitvector_set_bit (rx_bitmask r) (int (?L - 1 - k)) = Inr v" "window_ok v" "bv_length v = bv_length (rx_bitmask r)"
      "\<And>j. j < unat (bv_length (rx_bitmask r)) \<Longrightarrow> bits (bv_word v) j \<longleftrightarrow> j = ?L - 1 - k \<or> bits (bv_word (rx_bitmask r)) j"
    using set_bit_window [OF ok] by blast
  let ?r = "r\<lparr>rx_bitmask := v\<rparr>"
  have w: "window ?r = ?L" using v(3) by (simp add: srtp_rdbx_get_window_size_def)
  have add: "srtp_rdbx_add_index r (- int k) = Inr (srtp_err_status_ok, ?r)"
    unfolding srtp_rdbx_add_index_def pos using v(1) by simp
  have "bits (bv_word v) (?L - 1 - j) \<longleftrightarrow> (\<exists>x \<in> set (est # xs). unat x + j = ?N)" if "j < ?L" for j
  proof -
    have "?L - 1 - j = ?L - 1 - k \<longleftrightarrow> unat est + j = ?N" "?L - 1 - j < ?L" using that k by linarith+
    then have "bits (bv_word v) (?L - 1 - j) \<longleftrightarrow> unat est + j = ?N \<or> bits (bv_word (rx_bitmask r)) (?L - 1 - j)" using v(4) L by metis
    also have "bits (bv_word (rx_bitmask r)) (?L - 1 - j) \<longleftrightarrow> (\<exists>x \<in> set xs. unat x + j = ?N)" using inv that by (simp add: rdbx_inv_def)
    finally show ?thesis by simp
  qed
  moreover have "xs = [] \<Longrightarrow> rx_index r = est" using inv k(2) by (simp add: rdbx_inv_def word_unat_eq_iff)
  ultimately have "rdbx_inv ?r (est # xs)" using inv v(2) new k(2) unfolding rdbx_inv_def w by auto
  with add w show thesis by (intro that)
qed

lemma rdbx_accepts:
  assumes inv: "rdbx_inv r xs" and n: "unat (rx_index r) < 2 ^ 48 - 2 ^ 16" and est: "srtp_rdbx_estimate_index r s = (delta, est)"
    and ok: "srtp_rdbx_check r delta = Inr srtp_err_status_ok"
  obtains r' where "srtp_rdbx_add_index r delta = Inr (srtp_err_status_ok, r')" "rdbx_inv r' (est # xs)" "window r' = window r"
proof -
  have e: "int (unat est) = int (unat (rx_index r)) + delta" "\<bar>delta\<bar> < 65536"
    using srtp_rdbx_estimate_ok [OF n, of s] est by (simp_all add: estimates_def)
  have v: "est \<notin> set xs" "\<not> (\<exists>x \<in> set xs. unat est + window r \<le> unat x)"
    using srtp_rdbx_check_verdict [OF inv n est] ok by (auto simp: rdbx_verdict_def split: if_splits)
  show thesis
  proof (cases "0 < delta")
    case True
    then have "delta = int (nat delta)" "0 < nat delta" "nat delta < 65536" "unat est = unat (rx_index r) + nat delta" using e by linarith+
    with rdbx_add_new [OF inv n] that show thesis by metis
  next
    case False
    then have k: "delta = - int (nat (- delta))" "unat est + nat (- delta) = unat (rx_index r)" using e by linarith+
    have "nat (- delta) < window r"
    proof (cases "xs = []")
      case True
      then have "unat (rx_index r) = 0" using inv by (simp add: rdbx_inv_def)
      moreover have "0 < window r" using inv by (auto simp: rdbx_inv_def window_ok_def srtp_rdbx_get_window_size_def)
      ultimately show ?thesis using k(2) by linarith
    next
      case False
      then have "rx_index r \<in> set xs" using inv by (simp add: rdbx_inv_def)
      then show ?thesis using v(2) k(2) by force
    qed
    with rdbx_add_inside [OF inv _ k(2) v(1)] k(1) that show thesis by metis
  qed
qed

lemma rdbx_run_inv: "rdbx_run r xs \<Longrightarrow> rdbx_inv r xs"
proof (induction rule: rdbx_run.induct)
  case (accept r xs s delta est st r')
  from accept.IH accept.hyps(2-4) obtain r'' where "srtp_rdbx_add_index r delta = Inr (srtp_err_status_ok, r'')" "rdbx_inv r'' (est # xs)"
    by (rule rdbx_accepts)
  then show ?case using accept.hyps(5) by simp
qed (rule rdbx_inv_init)

text \<open>
  SRTP packets are not accepted twice. In every run of the receiver the packet indices that were accepted are distinct, and the answer to a packet with the
  next sequence number is as it should be for the estimated index: too old if it lies below the window of an accepted one, a replay if it
  was accepted before, and otherwise it is accepted. The index has 48 bits; the statement stops one turn of the sequence numbers before its end.
\<close>

theorem srtp_rdbx_no_replay:
  assumes "rdbx_run r xs" "unat (rx_index r) < 2 ^ 48 - 2 ^ 16"
  shows "distinct xs \<and> srtp_rdbx_check r (fst (srtp_rdbx_estimate_index r s))
    = Inr (rdbx_verdict (window r) xs (snd (srtp_rdbx_estimate_index r s)))"
  using rdbx_run_inv [OF assms(1)] srtp_rdbx_check_verdict [OF _ assms(2) prod.collapse [symmetric]] by (simp add: rdbx_inv_def)

text \<open>A receiver with a window of 64 indices that got the sequence numbers 5 and 100.\<close>

lemma rdbx_run_example: "\<exists>r. rdbx_run r [100, 5] \<and> rx_index r = 100 \<and> window r = 64"
proof -
  let ?v = "\<lparr>bv_length = 64, bv_word = replicate 2 0 @ replicate 2 0\<rparr>"
  let ?r = "\<lparr>rx_index = 0, rx_bitmask = ?v\<rparr>"
  have init: "srtp_rdbx_init 64 = Inr ?r"
    by (simp add: srtp_rdbx_init_def bitvector_alloc_def bitvector_set_to_zero_def srtp_index_init_def Let_def)
  have run: "rdbx_run ?r []" by (rule rdbx_run.init [OF _ init]) simp
  have step: "\<exists>r'. rdbx_run r' (est # xs) \<and> rx_index r' = est \<and> window r' = window r"
    if r: "rdbx_run r xs" "unat (rx_index r) \<le> 32768" and s: "rx_index r < ucast s" "est = ucast s" for r xs est and s :: u16
  proof -
    have n: "unat (rx_index r) < 2 ^ 48 - 2 ^ 16" using r(2) by simp
    obtain delta where e: "srtp_rdbx_estimate_index r s = (delta, est)"
      using r(2) s(2) by (auto simp: srtp_rdbx_estimate_index_def word_less_nat_alt)
    then have d: "0 < delta" using srtp_rdbx_estimate_ok [OF n, of s] s by (auto simp: estimates_def word_less_def)
    then have check: "srtp_rdbx_check r delta = Inr srtp_err_status_ok" by (simp add: srtp_rdbx_check_def)
    obtain r' where r': "srtp_rdbx_add_index r delta = Inr (srtp_err_status_ok, r')" "rdbx_inv r' (est # xs)" "window r' = window r"
      using rdbx_run_inv [OF r(1)] n e check by (rule rdbx_accepts)
    have "unat x < unat est" if "x \<in> set xs" for x
      using rdbx_run_inv [OF r(1)] that s by (auto simp: rdbx_inv_def word_less_nat_alt)
    then have "rx_index r' = est" using r'(2) by (force simp: rdbx_inv_def)
    with r' rdbx_run.accept [OF r(1) n e check r'(1)] show ?thesis by blast
  qed
  obtain r1 where r1: "rdbx_run r1 [5]" "rx_index r1 = 5" "window r1 = 64"
  proof -
    have "\<exists>r'. rdbx_run r' [5] \<and> rx_index r' = 5 \<and> window r' = window ?r" by (rule step [OF run, of 5]) simp_all
    moreover have "window ?r = 64" by (simp add: srtp_rdbx_get_window_size_def)
    ultimately show thesis using that by (elim exE conjE) simp
  qed
  have "\<exists>r'. rdbx_run r' [100, 5] \<and> rx_index r' = 100 \<and> window r' = window r1" by (rule step [OF r1(1), of 100]) (simp_all add: r1(2))
  then show ?thesis by (simp only: r1(3))
qed

theorem srtp_rdbx_no_replay_witness:
  "\<exists>r. rdbx_run r [100, 5] \<and> srtp_rdbx_check r (fst (srtp_rdbx_estimate_index r 100)) = Inr srtp_err_status_replay_fail
     \<and> srtp_rdbx_check r (fst (srtp_rdbx_estimate_index r 5)) = Inr srtp_err_status_replay_old
     \<and> srtp_rdbx_check r (fst (srtp_rdbx_estimate_index r 99)) = Inr srtp_err_status_ok"
proof -
  obtain r where r: "rdbx_run r [100, 5]" "rx_index r = 100" "window r = 64" using rdbx_run_example by blast
  have est: "snd (srtp_rdbx_estimate_index r s) = ucast s" for s using r(2) by (simp add: srtp_rdbx_estimate_index_def)
  show ?thesis
    using srtp_rdbx_no_replay [OF r(1), of 100] srtp_rdbx_no_replay [OF r(1), of 5] srtp_rdbx_no_replay [OF r(1), of 99] r
    by (intro exI [of _ r]) (simp add: rdbx_verdict_def est)
qed

section \<open>Setting the rollover counter\<close>

text \<open>C40: 
  Going back is refused, but \<open>srtp_rdbx_set_roc\<close> has cleared the window by then: after the error every index of the window counts as new and is accepted
  again. \<open>srtp_rdbx_set_roc_seq\<close> compares first and leaves the database as it is.
\<close>

theorem srtp_rdbx_set_roc_forgets:
  assumes "window_ok (rx_bitmask r)" "ucast roc < drop_bit 16 (rx_index r)" "- int (window r) < delta"
  shows "fst (srtp_rdbx_set_roc r roc) = srtp_err_status_replay_old
    \<and> srtp_rdbx_check (snd (srtp_rdbx_set_roc r roc)) delta = Inr srtp_err_status_ok
    \<and> srtp_rdbx_set_roc_seq r roc seq = (srtp_err_status_replay_old, r)"
proof -
  let ?v = "bitvector_set_to_zero (rx_bitmask r)"
  obtain n where n: "window r = 32 * n" "0 < n" "n \<le> length (bv_word (rx_bitmask r))" "window r < 2 ^ 31"
    using assms(1) by (auto simp: window_ok_def srtp_rdbx_get_window_size_def)
  have v: "bv_word ?v = replicate n 0 @ drop n (bv_word (rx_bitmask r))" "bv_length ?v = srtp_rdbx_get_window_size r"
    using n(1) by (simp_all add: bitvector_set_to_zero_def srtp_rdbx_get_window_size_def)
  have roc: "srtp_rdbx_set_roc r roc = (srtp_err_status_replay_old, r\<lparr>rx_bitmask := ?v\<rparr>)"
    using assms(2) by (simp add: srtp_rdbx_set_roc_def)
  have "unat (srtp_rdbx_get_window_size r - 1) = window r - 1" using n(1,2) by (simp add: unat_sub word_le_nat_alt)
  then have pos: "sint (srtp_rdbx_get_window_size r - 1) = int (window r - 1)" using n(4) by (subst sint_small) auto
  have "srtp_rdbx_check (r\<lparr>rx_bitmask := ?v\<rparr>) delta = Inr srtp_err_status_ok" if "\<not> 0 < delta"
  proof -
    define b where "b = nat (int (window r - 1) + delta)"
    have b: "int (window r - 1) + delta = int b" "b < 32 * n" unfolding b_def using assms(3) n(1,2) that by linarith+
    have "b < 32 * length (bv_word ?v)" "\<not> bits (bv_word ?v) b"
      unfolding v using b(2) n(3) bits_zero [of b n] by (simp_all add: less_mult_imp_div_less mult.commute)
    then have "bitvector_get_bit ?v (int b) = Inr 0" using words_get_bit_ok [of b "bv_word ?v"] by (simp add: bitvector_get_bit_def)
    moreover have "sint (bv_length (rx_bitmask (r\<lparr>rx_bitmask := ?v\<rparr>)) - 1) + delta = int b" using pos b(1) by (simp add: v(2))
    ultimately show ?thesis using that unfolding srtp_rdbx_check_def Let_def by simp
  qed
  moreover have "srtp_rdbx_check (r\<lparr>rx_bitmask := ?v\<rparr>) delta = Inr srtp_err_status_ok" if "0 < delta"
    using that by (simp add: srtp_rdbx_check_def)
  ultimately show ?thesis using assms(2) unfolding roc by (auto simp: srtp_rdbx_set_roc_seq_def)
qed

theorem srtp_rdbx_set_roc_forgets_witness:
  "srtp_rdbx_check \<lparr>rx_index = 0x20005, rx_bitmask = \<lparr>bv_length = 32, bv_word = [0x80000000]\<rparr>\<rparr> 0 = Inr srtp_err_status_replay_fail
   \<and> srtp_rdbx_check (snd (srtp_rdbx_set_roc \<lparr>rx_index = 0x20005, rx_bitmask = \<lparr>bv_length = 32, bv_word = [0x80000000]\<rparr>\<rparr> 1)) 0 = Inr srtp_err_status_ok"
proof -
  let ?r = "\<lparr>rx_index = 0x20005, rx_bitmask = \<lparr>bv_length = 32, bv_word = [0x80000000]\<rparr>\<rparr>"
  have "window_ok (rx_bitmask ?r)" by (simp add: window_ok_def)
  moreover have "srtp_rdbx_check ?r 0 = Inr srtp_err_status_replay_fail"
    by (simp add: srtp_rdbx_check_def bitvector_get_bit_def words_get_bit_def word_at_def Let_def sint_small)
  ultimately show ?thesis
    using srtp_rdbx_set_roc_forgets [of ?r 1 0] by (simp add: srtp_rdbx_get_window_size_def)
qed

section \<open>Key limits\<close>

text \<open>The key after a number of packets.\<close>

primrec key_used :: "nat \<Rightarrow> srtp_key_limit \<Rightarrow> srtp_key_limit" where
  "key_used 0 key = key"
| "key_used (Suc n) key = snd (srtp_key_limit_update (key_used n key))"

lemma key_used_left:
  "kl_num_left (key_used n key) = kl_num_left key - of_nat n"
proof (induction n)
  case (Suc n)
  have "kl_num_left (snd (srtp_key_limit_update k)) = kl_num_left k - 1" for k by (auto simp: srtp_key_limit_update_def Let_def)
  with Suc show ?case by (simp add: diff_diff_eq add.commute)
qed simp

text \<open>
  A key with a limit of \<open>s\<close> packets reports the soft limit for its last 65535 packets and the hard limit with packet \<open>s\<close>. The count then wraps around: the
  next packet is reported as normal.
\<close>

theorem srtp_key_limit_events:
  assumes "srtp_key_limit_set key s = (srtp_err_status_ok, key')" "n < unat s"
  shows "fst (srtp_key_limit_update (key_used n key'))
      = (if unat s - n > 0x10000 then srtp_key_event_normal else if unat s - n > 1 then srtp_key_event_soft_limit else srtp_key_event_hard_limit)
    \<and> fst (srtp_key_limit_update (key_used (unat s) key')) = srtp_key_event_normal"
proof -
  have key: "kl_num_left key' = s" using assms(1) by (auto simp: srtp_key_limit_set_def split: if_splits)
  have limit: "unat s < 2 ^ 64" using unsigned_less [of s] by simp
  have "unat (s - of_nat n) = unat s - n"
  proof -
    have "unat (of_nat n :: u64) = n" using less_trans [OF assms(2) limit] by (simp add: unat_of_nat)
    then show ?thesis using assms(2) by (simp add: unat_sub word_le_nat_alt)
  qed
  moreover have "s - of_nat n \<noteq> 0" using calculation assms(2) by auto
  ultimately have left: "unat (kl_num_left (key_used n key') - 1) = unat s - n - 1" unfolding key_used_left key by (metis unat_minus_one)
  have "kl_num_left (key_used (unat s) key') - 1 = -1" unfolding key_used_left key by simp
  then have "fst (srtp_key_limit_update (key_used (unat s) key')) = srtp_key_event_normal" by (simp add: srtp_key_limit_update_def)
  then show ?thesis
    using left assms(2) by (auto simp: srtp_key_limit_update_def Let_def word_le_nat_alt word_less_nat_alt)
qed

theorem srtp_key_limit_events_witness:
  "fst (srtp_key_limit_update (key_used 0x10000 (snd (srtp_key_limit_set \<lparr>kl_num_left = 0, kl_state = srtp_key_state_normal\<rparr> 0x10001)))) = srtp_key_event_hard_limit"
  using srtp_key_limit_events [where key = "\<lparr>kl_num_left = 0, kl_state = srtp_key_state_normal\<rparr>" and s = "0x10001"
      and key' = "\<lparr>kl_num_left = 0x10001, kl_state = srtp_key_state_normal\<rparr>" and n = "0x10000"]
  by (simp add: srtp_key_limit_set_def)

end
