(* ===== verification/Srtp_Session.thy ===== *)
theory Srtp_Session
  imports Srtp Srtp_Window
begin

text \<open>
  Properties of received packets: an accepted packet carries the authentication tag of its contents and its rollover counter, a packet
  with another tag changes nothing, and in every session the packet indices accepted from a source are distinct.
\<close>

lemma bindrE:
  assumes "bindr r f = Inr y"
  obtains x where "r = Inr x" "f x = Inr y"
  using assms by (auto simp: bindr_eq_Inr)

section \<open>Streams of a session\<close>

lemma srtp_stream_list_get_Some:
  "srtp_stream_list_get ss ssrc k = Some i \<Longrightarrow> k \<le> i \<and> i - k < length ss \<and> st_ssrc (ss ! (i - k)) = ssrc"
  by (induction ss ssrc k rule: srtp_stream_list_get.induct) (auto simp: nth_Cons' split: if_splits)

lemma srtp_stream_list_get_None: "srtp_stream_list_get ss ssrc k = None \<longleftrightarrow> ssrc \<notin> st_ssrc ` set ss"
  by (induction ss ssrc k rule: srtp_stream_list_get.induct) auto

lemma srtp_stream_list_get_cong:
  "map st_ssrc ss = map st_ssrc ss' \<Longrightarrow> srtp_stream_list_get ss ssrc k = srtp_stream_list_get ss' ssrc k"
proof (induction ss arbitrary: ss' k)
  case (Cons s ss)
  then show ?case by (cases ss') auto
qed simp

lemma srtp_get_stream_Some:
  "srtp_get_stream ctx ssrc = Some i \<Longrightarrow> i < length (cx_stream_list ctx) \<and> st_ssrc (cx_stream_list ctx ! i) = ssrc"
  using srtp_stream_list_get_Some [of "cx_stream_list ctx" ssrc 0 i] by (simp add: srtp_get_stream_def)

lemma srtp_get_stream_None: "srtp_get_stream ctx ssrc = None \<longleftrightarrow> ssrc \<notin> st_ssrc ` set (cx_stream_list ctx)"
  by (simp add: srtp_get_stream_def srtp_stream_list_get_None)

lemmas stream_simps = stream_at_def upd_stream_def srtp_handle_event_def

lemma use_key_streams [simp]:
  "cx_stream_list (snd (use_key r k ctx)) = cx_stream_list ctx" "cx_stream_template (snd (use_key r k ctx)) = cx_stream_template ctx"
  by (simp_all add: use_key_def Let_def split_def srtp_handle_event_def split: srtp_key_event.split)

lemma receiving_stream_found:
  assumes "receiving_stream ctx ssrc seq = Inr (Inr (r, advance, est, delta))"
  shows "(r = Template \<and> srtp_get_stream ctx ssrc = None \<and> cx_stream_template ctx \<noteq> None \<and> \<not> advance \<and> est = ucast seq \<and> delta = uint seq)
    \<or> (\<exists>i. r = Listed i \<and> srtp_get_stream ctx ssrc = Some i
         \<and> (st_pending_roc (cx_stream_list ctx ! i) = 0 \<longrightarrow>
              \<not> advance \<and> srtp_rdbx_estimate_index (st_rtp_rdbx (cx_stream_list ctx ! i)) seq = (delta, est)
              \<and> srtp_rdbx_check (st_rtp_rdbx (cx_stream_list ctx ! i)) delta = Inr srtp_err_status_ok))"
  using assms
  by (auto simp: receiving_stream_def stream_at_def srtp_get_est_pkt_index_def Let_def split_def bindr_eq_Inr split: option.splits if_splits)

section \<open>Accepting a packet\<close>

text \<open>What is recorded of a packet, when the rollover counter is not set by the application.\<close>

lemma record_index_Inr:
  assumes "record_index (Listed i) False est delta ctx = Inr ctx'"
  obtains status r where "srtp_rdbx_add_index (st_rtp_rdbx (cx_stream_list ctx ! i)) delta = Inr (status, r)"
    "ctx' = ctx\<lparr>cx_stream_list := (cx_stream_list ctx)[i := (cx_stream_list ctx ! i)\<lparr>st_rtp_rdbx := r\<rparr>]\<rparr>"
  using assms by (auto simp: record_index_def stream_simps bindr_eq_Inr)

text \<open>
  The streams after a packet was accepted: those of the session, or with a new one from the template, with the index added to the database of the stream of
  the packet. Nothing else of a stream matters for replays.
\<close>

definition receiver_of :: "srtp_ctx \<Rightarrow> u32 \<Rightarrow> srtp_rdbx \<Rightarrow> bool" where
  "receiver_of ctx ssrc r \<longleftrightarrow>
     (case srtp_get_stream ctx ssrc of
        Some i \<Rightarrow> r = st_rtp_rdbx (cx_stream_list ctx ! i)
      | None \<Rightarrow> \<exists>t. cx_stream_template ctx = Some t \<and> srtp_rdbx_init (srtp_rdbx_get_window_size (st_rtp_rdbx t)) = Inr r)"

abbreviation replay_states :: "srtp_ctx \<Rightarrow> (u32 \<times> srtp_rdbx \<times> u32) list" where
  "replay_states ctx \<equiv> map (\<lambda>s. (st_ssrc s, st_rtp_rdbx s, st_pending_roc s)) (cx_stream_list ctx)"

abbreviation template_window :: "srtp_ctx \<Rightarrow> u32 option" where
  "template_window ctx \<equiv> map_option (\<lambda>t. srtp_rdbx_get_window_size (st_rtp_rdbx t)) (cx_stream_template ctx)"

lemma check_direction_states [simp]:
  "replay_states (check_direction d r ctx) = replay_states ctx" "template_window (check_direction d r ctx) = template_window ctx"
  by (auto simp: check_direction_def stream_simps map_update option.map_comp comp_def list_update_same_conv
        split: stream_ref.split intro!: nth_equalityI) (metis (no_types, lifting) list_update_id map_update nth_map list_update_beyond not_le)+

lemma check_direction_nth:
  assumes "i < length (cx_stream_list ctx)"
  shows "i < length (cx_stream_list (check_direction d r ctx))"
    "st_ssrc (cx_stream_list (check_direction d r ctx) ! i) = st_ssrc (cx_stream_list ctx ! i)"
    "st_rtp_rdbx (cx_stream_list (check_direction d r ctx) ! i) = st_rtp_rdbx (cx_stream_list ctx ! i)"
    "st_pending_roc (cx_stream_list (check_direction d r ctx) ! i) = st_pending_roc (cx_stream_list ctx ! i)"
proof -
  have len: "length (cx_stream_list (check_direction d r ctx)) = length (cx_stream_list ctx)"
    using map_eq_imp_length_eq [OF check_direction_states(1) [of d r ctx]] .
  then show "i < length (cx_stream_list (check_direction d r ctx))" using assms by simp
  show "st_ssrc (cx_stream_list (check_direction d r ctx) ! i) = st_ssrc (cx_stream_list ctx ! i)"
    "st_rtp_rdbx (cx_stream_list (check_direction d r ctx) ! i) = st_rtp_rdbx (cx_stream_list ctx ! i)"
    "st_pending_roc (cx_stream_list (check_direction d r ctx) ! i) = st_pending_roc (cx_stream_list ctx ! i)"
    using arg_cong [OF check_direction_states(1), of "\<lambda>xs. xs ! i" d r ctx] assms len
    by (simp_all del: check_direction_states)
qed

definition add_state :: "srtp_ctx \<Rightarrow> u32 \<Rightarrow> srtp_rdbx \<Rightarrow> (u32 \<times> srtp_rdbx \<times> u32) list" where
  "add_state ctx ssrc r =
     (case srtp_get_stream ctx ssrc of
        Some i \<Rightarrow> (replay_states ctx)[i := (ssrc, r, st_pending_roc (cx_stream_list ctx ! i))]
      | None \<Rightarrow> (ssrc, r, 0) # replay_states ctx)"

lemma accept_listed:
  assumes get: "srtp_get_stream ctx ssrc = Some i" and acc: "accept_packet (Listed i) ssrc False est delta ctx = Inr (status, ctx')"
  obtains st r' where "status = srtp_err_status_ok" "srtp_rdbx_add_index (st_rtp_rdbx (cx_stream_list ctx ! i)) delta = Inr (st, r')"
    "replay_states ctx' = add_state ctx ssrc r'" "template_window ctx' = template_window ctx"
proof -
  let ?c = "check_direction dir_srtp_receiver (Listed i) ctx"
  have i: "i < length (cx_stream_list ctx)" "st_ssrc (cx_stream_list ctx ! i) = ssrc" using srtp_get_stream_Some [OF get] by simp_all
  note nth = check_direction_nth [OF i(1), of dir_srtp_receiver "Listed i"]
  from acc obtain c where "status = srtp_err_status_ok" "ctx' = c" "record_index (Listed i) False est delta ?c = Inr c"
    by (auto simp: accept_packet_def Let_def bindr_eq_Inr)
  moreover from this(3) obtain st r' where r': "srtp_rdbx_add_index (st_rtp_rdbx (cx_stream_list ?c ! i)) delta = Inr (st, r')"
    "c = ?c\<lparr>cx_stream_list := (cx_stream_list ?c)[i := (cx_stream_list ?c ! i)\<lparr>st_rtp_rdbx := r'\<rparr>]\<rparr>"
    by (rule record_index_Inr)
  moreover have "replay_states c = (replay_states ?c)[i := (ssrc, r', st_pending_roc (cx_stream_list ctx ! i))]"
    unfolding r'(2) by (simp add: map_update nth i del: check_direction_states)
  ultimately show thesis using that nth by (simp add: add_state_def get)
qed

lemma accept_template:
  assumes get: "srtp_get_stream ctx ssrc = None" and t: "cx_stream_template ctx \<noteq> None"
    and acc: "accept_packet Template ssrc False est delta ctx = Inr (status, ctx')"
  shows "(status \<noteq> srtp_err_status_ok \<and> replay_states ctx' = replay_states ctx \<and> template_window ctx' = template_window ctx)
    \<or> (\<exists>r st r'. status = srtp_err_status_ok \<and> receiver_of ctx ssrc r \<and> srtp_rdbx_add_index r delta = Inr (st, r')
         \<and> replay_states ctx' = add_state ctx ssrc r' \<and> template_window ctx' = template_window ctx)"
proof -
  let ?c = "check_direction dir_srtp_receiver Template ctx"
  obtain t0 where t0: "cx_stream_template ctx = Some t0" using t by blast
  have w: "template_window ?c = Some (srtp_rdbx_get_window_size (st_rtp_rdbx t0))" by (simp add: t0)
  then obtain t1 where t1: "cx_stream_template ?c = Some t1" "srtp_rdbx_get_window_size (st_rtp_rdbx t1) = srtp_rdbx_get_window_size (st_rtp_rdbx t0)"
    by (auto simp del: check_direction_states)
  have at: "stream_at ?c Template = t1" by (simp add: stream_at_def t1)
  show ?thesis
  proof (cases "srtp_rdbx_init (srtp_rdbx_get_window_size (st_rtp_rdbx t0))")
    case (Inl e)
    then have "status = e" "ctx' = ?c" using acc by (auto simp: accept_packet_def Let_def at srtp_stream_clone_def t1(2))
    moreover have "e \<noteq> srtp_err_status_ok" using Inl by (auto simp: srtp_rdbx_init_def bitvector_alloc_def Let_def split: if_splits option.splits)
    ultimately show ?thesis by simp
  next
    case (Inr r)
    let ?s = "t1\<lparr>st_ssrc := ssrc, st_rtp_rdbx := r, st_rtcp_rdb := srtp_rdb_init, st_pending_roc := 0\<rparr>"
    from acc Inr obtain c where c: "status = srtp_err_status_ok" "ctx' = c"
      "record_index (Listed 0) False est delta (srtp_stream_list_insert ?s ?c) = Inr c"
      by (auto simp: accept_packet_def Let_def at srtp_stream_clone_def t1(2) bindr_eq_Inr)
    from c(3) obtain st r' where r': "srtp_rdbx_add_index r delta = Inr (st, r')"
      "c = (srtp_stream_list_insert ?s ?c)\<lparr>cx_stream_list := ?s\<lparr>st_rtp_rdbx := r'\<rparr> # cx_stream_list ?c\<rparr>"
      by (rule record_index_Inr) (simp add: srtp_stream_list_insert_def)
    have "receiver_of ctx ssrc r" by (simp add: receiver_of_def get t0 Inr)
    moreover have "replay_states c = (ssrc, r', 0) # replay_states ctx" unfolding r'(2) by simp
    moreover have "template_window c = template_window ctx" unfolding r'(2) by (simp add: srtp_stream_list_insert_def)
    ultimately show ?thesis using c r'(1) by (auto simp: add_state_def get)
  qed
qed

section \<open>Sessions\<close>

text \<open>The state of replay protection in a session that has accepted the packets \<open>xs\<close>, pairs of source and index.\<close>

definition indices :: "(u32 \<times> u64) list \<Rightarrow> u32 \<Rightarrow> u64 list" where
  "indices xs ssrc = map snd (filter (\<lambda>x. fst x = ssrc) xs)"

lemma set_indices [simp]: "p \<in> set (indices xs ssrc) \<longleftrightarrow> (ssrc, p) \<in> set xs"
  by (force simp: indices_def)

lemma indices_Cons: "indices ((s, p) # xs) ssrc = (if s = ssrc then p # indices xs ssrc else indices xs ssrc)"
  by (simp add: indices_def)

definition session_inv :: "srtp_ctx \<Rightarrow> (u32 \<times> u64) list \<Rightarrow> bool" where
  "session_inv ctx xs \<longleftrightarrow> distinct xs \<and> distinct (map fst (replay_states ctx)) \<and> fst ` set xs \<subseteq> fst ` set (replay_states ctx)
     \<and> (\<forall>(ssrc, r, roc) \<in> set (replay_states ctx). roc = 0 \<and> rdbx_inv r (indices xs ssrc))
     \<and> (\<forall>w. template_window ctx = Some w \<longrightarrow> w \<le> 0x7FFFFFE0)"

lemma session_inv_cong:
  "replay_states ctx' = replay_states ctx \<Longrightarrow> template_window ctx' = template_window ctx \<Longrightarrow> session_inv ctx xs \<Longrightarrow> session_inv ctx' xs"
  by (simp only: session_inv_def) blast

lemma session_receiver:
  assumes inv: "session_inv ctx xs" and r: "receiver_of ctx ssrc r"
  shows "rdbx_inv r (indices xs ssrc)"
proof (cases "srtp_get_stream ctx ssrc")
  case None
  then have "ssrc \<notin> fst ` set xs" using inv by (force simp: session_inv_def srtp_get_stream_None)
  then have "indices xs ssrc = []" by (force simp: indices_def filter_empty_conv)
  moreover obtain w where "template_window ctx = Some w" "srtp_rdbx_init w = Inr r" using r None by (auto simp: receiver_of_def)
  ultimately show ?thesis using inv rdbx_inv_init [of w r] by (simp add: session_inv_def)
next
  case (Some i)
  then have i: "i < length (cx_stream_list ctx)" "st_ssrc (cx_stream_list ctx ! i) = ssrc" "r = st_rtp_rdbx (cx_stream_list ctx ! i)"
    using srtp_get_stream_Some [OF Some] r by (simp_all add: receiver_of_def)
  then have "(ssrc, r, st_pending_roc (cx_stream_list ctx ! i)) \<in> set (replay_states ctx)"
    by (auto intro!: image_eqI [of _ _ "cx_stream_list ctx ! i"])
  then show ?thesis using inv by (auto simp: session_inv_def)
qed

lemma add_state_fst:
  "set (map fst (add_state ctx ssrc r)) = insert ssrc (set (map fst (replay_states ctx)))"
  "distinct (map fst (replay_states ctx)) \<Longrightarrow> distinct (map fst (add_state ctx ssrc r))"
proof -
  have same: "map fst (add_state ctx ssrc r) = map fst (replay_states ctx)" "ssrc \<in> set (map fst (replay_states ctx))"
    if "srtp_get_stream ctx ssrc = Some i" for i
    using srtp_get_stream_Some [OF that] that by (auto simp: add_state_def map_update comp_def list_update_same_conv)
  show "set (map fst (add_state ctx ssrc r)) = insert ssrc (set (map fst (replay_states ctx)))"
    using same by (cases "srtp_get_stream ctx ssrc") (auto simp: add_state_def insert_absorb)
  assume "distinct (map fst (replay_states ctx))"
  moreover have "ssrc \<notin> set (map fst (replay_states ctx))" "add_state ctx ssrc r = (ssrc, r, 0) # replay_states ctx"
    if "srtp_get_stream ctx ssrc = None"
    using that by (simp_all only: add_state_def option.case) (auto simp: srtp_get_stream_None)
  ultimately show "distinct (map fst (add_state ctx ssrc r))" using same by (cases "srtp_get_stream ctx ssrc") auto
qed

lemma session_add:
  assumes inv: "session_inv ctx xs" and new: "(ssrc, est) \<notin> set xs" and r': "rdbx_inv r' (est # indices xs ssrc)"
    and ctx': "replay_states ctx' = add_state ctx ssrc r'" "template_window ctx' = template_window ctx"
  shows "session_inv ctx' ((ssrc, est) # xs)"
proof -
  have "roc = 0 \<and> rdbx_inv r (indices ((ssrc, est) # xs) s)" if s: "(s, r, roc) \<in> set (add_state ctx ssrc r')" for s r roc
  proof (cases "srtp_get_stream ctx ssrc")
    case None
    show ?thesis
    proof (cases "s = ssrc \<and> r = r' \<and> roc = 0")
      case False
      with s None have "(s, r, roc) \<in> set (replay_states ctx)" unfolding add_state_def None by simp
      moreover from this have "s \<noteq> ssrc" using None by (auto simp: srtp_get_stream_None)
      ultimately show ?thesis using inv by (auto simp: session_inv_def indices_Cons)
    qed (use r' in \<open>simp add: indices_Cons\<close>)
  next
    case (Some i)
    note i = srtp_get_stream_Some [OF Some]
    let ?p = "st_pending_roc (cx_stream_list ctx ! i)"
    have old: "(ssrc, st_rtp_rdbx (cx_stream_list ctx ! i), ?p) \<in> set (replay_states ctx)"
      using i by (auto intro!: image_eqI [of _ _ "cx_stream_list ctx ! i"])
    from s obtain j where j: "j < length (replay_states ctx)" "(s, r, roc) = (replay_states ctx)[i := (ssrc, r', ?p)] ! j"
      unfolding add_state_def Some by (auto simp: in_set_conv_nth)
    show ?thesis
    proof (cases "j = i")
      case True
      then have "s = ssrc" "r = r'" "roc = ?p" using j i by simp_all
      moreover have "?p = 0" using inv old by (auto simp: session_inv_def)
      ultimately show ?thesis using r' by (simp add: indices_Cons)
    next
      case False
      then have e: "(s, r, roc) = replay_states ctx ! j" using j by simp
      then have "(s, r, roc) \<in> set (replay_states ctx)" using j(1) nth_mem [OF j(1)] by argo
      moreover have "s \<noteq> ssrc"
        using inv False i j(1) e by (auto simp: session_inv_def distinct_conv_nth)
      ultimately show ?thesis using inv by (auto simp: session_inv_def indices_Cons)
    qed
  qed
  then have "\<forall>(s, r, roc) \<in> set (replay_states ctx'). roc = 0 \<and> rdbx_inv r (indices ((ssrc, est) # xs) s)"
    unfolding ctx'(1) by blast
  moreover have "distinct (map fst (replay_states ctx'))" unfolding ctx'(1) using inv by (intro add_state_fst) (simp add: session_inv_def)
  moreover have "fst ` set ((ssrc, est) # xs) \<subseteq> fst ` set (replay_states ctx')"
  proof -
    have "fst ` set (replay_states ctx') = insert ssrc (fst ` set (replay_states ctx))"
      unfolding ctx'(1) using add_state_fst(1) [of ctx ssrc r'] by (simp only: set_map)
    moreover have "fst ` set xs \<subseteq> fst ` set (replay_states ctx)" using inv unfolding session_inv_def by (elim conjE)
    ultimately show ?thesis by (simp only: list.set image_insert fst_conv insert_mono)
  qed
  moreover have "distinct ((ssrc, est) # xs)" using inv new by (simp add: session_inv_def)
  moreover have "\<forall>w. template_window ctx' = Some w \<longrightarrow> w \<le> 0x7FFFFFE0"
    unfolding ctx'(2) using inv unfolding session_inv_def by (elim conjE)
  ultimately show ?thesis unfolding session_inv_def by (intro conjI)
qed

text \<open>The header of a packet.\<close>

abbreviation pkt_ssrc :: "bytes \<Rightarrow> u32" where "pkt_ssrc buf \<equiv> hdr_ssrc (take 12 buf)"
abbreviation pkt_seq :: "bytes \<Rightarrow> u16" where "pkt_seq buf \<equiv> hdr_seq (take 12 buf)"

lemma receiving_stream_error: "receiving_stream ctx ssrc seq \<noteq> Inr (Inl srtp_err_status_ok)"
proof
  assume "receiving_stream ctx ssrc seq = Inr (Inl srtp_err_status_ok)"
  then show False unfolding receiving_stream_def Let_def
    by (auto elim!: bindrE split: if_split_asm option.split_asm prod.split_asm)
qed

lemma unprotect_check_error: "unprotect_check cr ctx buf len m = Inr (Inl e) \<Longrightarrow> e \<noteq> srtp_err_status_ok"
  unfolding unprotect_check_def Let_def
  by (auto simp: receiving_stream_error elim!: bindrE split: if_split_asm sum.split_asm option.split_asm prod.split_asm)

lemma unprotect_check_found:
  assumes "unprotect_check cr ctx buf len m = Inr (Inr ((r, advance, est, delta), keys, mki_size, start))"
  shows "receiving_stream ctx (pkt_ssrc buf) (pkt_seq buf) = Inr (Inr (r, advance, est, delta))"
    and "srtp_validate_rtp_header buf len = Inr srtp_err_status_ok"
    and "unprotect_auth cr (stream_at ctx r) keys (rtp_iv (sk_rtp_cipher keys) (pkt_ssrc buf) est) est len mki_size buf = Inr srtp_err_status_ok"
    and "\<not> m \<Longrightarrow> keys = st_session_keys (stream_at ctx r) ! 0 \<and> mki_size = 0"
  using assms unfolding unprotect_check_def Let_def
  by (auto simp: getr_eq_Inr elim!: bindrE split: if_split_asm sum.split_asm option.split_asm prod.split_asm)

text \<open>The database of the source of a packet, with the estimate of its index.\<close>

lemma receiver_estimate:
  assumes inv: "session_inv ctx xs" and found: "receiving_stream ctx ssrc seq = Inr (Inr (r, advance, est, delta))" and r0: "receiver_of ctx ssrc r0"
  shows "\<not> advance" "srtp_rdbx_estimate_index r0 seq = (delta, est)" "srtp_rdbx_check r0 delta = Inr srtp_err_status_ok"
proof -
  note inv0 = session_receiver [OF inv r0]
  have "\<not> advance \<and> srtp_rdbx_estimate_index r0 seq = (delta, est) \<and> srtp_rdbx_check r0 delta = Inr srtp_err_status_ok"
  proof (cases "srtp_get_stream ctx ssrc")
    case None
    then have f: "\<not> advance" "est = ucast seq" "delta = uint seq" using receiving_stream_found [OF found] by auto
    have ix: "indices xs ssrc = []" using inv None by (force simp: session_inv_def srtp_get_stream_None indices_def filter_empty_conv)
    then have "rx_index r0 = 0" using inv0 by (simp add: rdbx_inv_def)
    then have "srtp_rdbx_estimate_index r0 seq = (delta, est)" by (simp add: srtp_rdbx_estimate_index_def f)
    with f srtp_rdbx_check_verdict [OF inv0 _ this] \<open>rx_index r0 = 0\<close> ix show ?thesis by (simp add: rdbx_verdict_def)
  next
    case (Some i)
    then have "(ssrc, r0, st_pending_roc (cx_stream_list ctx ! i)) \<in> set (replay_states ctx)"
      using srtp_get_stream_Some [OF Some] r0 by (auto simp: receiver_of_def intro!: image_eqI [of _ _ "cx_stream_list ctx ! i"])
    then have "st_pending_roc (cx_stream_list ctx ! i) = 0" using inv by (auto simp: session_inv_def)
    with receiving_stream_found [OF found] Some r0 show ?thesis by (auto simp: receiver_of_def)
  qed
  then show "\<not> advance" "srtp_rdbx_estimate_index r0 seq = (delta, est)" "srtp_rdbx_check r0 delta = Inr srtp_err_status_ok" by simp_all
qed

definition indices_left :: "srtp_ctx \<Rightarrow> nat \<Rightarrow> bool" where
  "indices_left ctx n \<longleftrightarrow> (\<forall>s \<in> set (cx_stream_list ctx). unat (rx_index (st_rtp_rdbx s)) + n * 65536 < 2 ^ 48)"

lemma receiver_index:
  assumes "session_inv ctx xs" "indices_left ctx n" "n < 2 ^ 32" "receiver_of ctx ssrc r0"
  shows "unat (rx_index r0) + n * 65536 < 2 ^ 48"
proof (cases "srtp_get_stream ctx ssrc")
  case None
  have "indices xs ssrc = []" using assms(1) None by (force simp: session_inv_def srtp_get_stream_None indices_def filter_empty_conv)
  then have "rx_index r0 = 0" using session_receiver [OF assms(1,4)] by (simp add: rdbx_inv_def)
  then show ?thesis using assms(3) by simp
next
  case (Some i)
  then show ?thesis using assms(2,4) srtp_get_stream_Some [OF Some] by (simp add: receiver_of_def indices_left_def)
qed

text \<open>The estimate of the sequence number of the highest index is that index, so a packet that comes again has the same estimate.\<close>

lemma same_turn:
  assumes "(a :: nat) mod 65536 = b mod 65536" "\<bar>int a - int b\<bar> \<le> 32768"
  shows "a = b"
proof -
  define p q m where pqm: "p = a div 65536" "q = b div 65536" "m = b mod 65536"
  have "a = p * 65536 + m" "b = q * 65536 + m" using assms(1) div_mult_mod_eq [of a 65536] by (simp_all add: pqm)
  moreover from this have "\<bar>int p * 65536 - int q * 65536\<bar> \<le> 32768" using assms(2) by simp
  then have "p = q" by linarith
  ultimately show ?thesis by simp
qed

lemma estimate_self:
  assumes n: "unat (rx_index r) < 2 ^ 48 - 2 ^ 16" and s: "unat (rx_index r) mod 65536 = unat s"
  shows "snd (srtp_rdbx_estimate_index r s) = rx_index r"
proof (cases "0x8000 < rx_index r")
  case True
  let ?e = "srtp_rdbx_estimate_index r s"
  have e: "int (unat (snd ?e)) = int (unat (rx_index r)) + fst ?e" "unat (snd ?e) mod 65536 = unat (rx_index r) mod 65536" "\<bar>fst ?e\<bar> \<le> 32768"
    using srtp_rdbx_estimate_ok [OF n, of s] True s by (simp_all add: estimates_def)
  have "unat (snd ?e) = unat (rx_index r)" using e(1,3) by (intro same_turn [OF e(2)]) linarith
  then show ?thesis by (simp only: word_unat_eq_iff)
next
  case False
  then have "unat (rx_index r) \<le> 32768" by (simp add: word_less_nat_alt)
  then have "unat s = unat (rx_index r)" using s by simp
  moreover have "unat (ucast s :: u64) = unat s" using unat_join [of 0 s] by simp
  ultimately have "ucast s = rx_index r" by (simp only: word_unat_eq_iff)
  then show ?thesis using False by (simp add: srtp_rdbx_estimate_index_def)
qed

lemma estimate_again:
  assumes inv: "rdbx_inv r xs" and inv': "rdbx_inv r' (est # xs)" and n: "unat (rx_index r) < 2 ^ 48 - 2 ^ 16" "unat (rx_index r') < 2 ^ 48 - 2 ^ 16"
    and est: "srtp_rdbx_estimate_index r s = (delta, est)"
  shows "snd (srtp_rdbx_estimate_index r' s) = est"
proof (cases "rx_index r' = est")
  case True
  moreover have "unat est mod 65536 = unat s" using srtp_rdbx_estimate_ok [OF n(1), of s] est by (simp add: estimates_def)
  ultimately show ?thesis using estimate_self [OF n(2)] by simp
next
  case False
  then have "rx_index r' \<in> set xs" using inv' by (simp add: rdbx_inv_def)
  then have "unat (rx_index r') \<le> unat (rx_index r)" "unat (rx_index r) \<le> unat (rx_index r')" using inv inv' by (auto simp: rdbx_inv_def)
  then have "rx_index r' = rx_index r" by (simp add: word_unat_eq_iff)
  then have "srtp_rdbx_estimate_index r' s = srtp_rdbx_estimate_index r s" by (simp add: srtp_rdbx_estimate_index_def)
  then show ?thesis using est by simp
qed

lemma receiver_after:
  assumes inv: "session_inv ctx xs" and mem: "(ssrc, r, roc) \<in> set (replay_states ctx)"
  obtains i where "srtp_get_stream ctx ssrc = Some i" "st_rtp_rdbx (cx_stream_list ctx ! i) = r" "st_pending_roc (cx_stream_list ctx ! i) = 0"
proof -
  from mem obtain j where j: "j < length (cx_stream_list ctx)" "st_ssrc (cx_stream_list ctx ! j) = ssrc"
      "st_rtp_rdbx (cx_stream_list ctx ! j) = r" "st_pending_roc (cx_stream_list ctx ! j) = roc"
    by (auto simp: in_set_conv_nth)
  then have "srtp_get_stream ctx ssrc \<noteq> None" by (auto simp: srtp_get_stream_None)
  then obtain i where i: "srtp_get_stream ctx ssrc = Some i" by blast
  then have "i = j" using inv j(1,2) srtp_get_stream_Some [OF i] by (auto simp: session_inv_def distinct_conv_nth)
  moreover have "roc = 0" using inv mem by (auto simp: session_inv_def)
  ultimately show thesis using that [OF i] j by simp
qed

lemma add_state_mem: "receiver_of ctx ssrc r0 \<Longrightarrow> \<exists>roc. (ssrc, r', roc) \<in> set (add_state ctx ssrc r')"
  using srtp_get_stream_Some [of ctx ssrc]
  by (cases "srtp_get_stream ctx ssrc") (auto simp: add_state_def intro!: exI set_update_memI)

lemma accept_found:
  assumes inv: "session_inv ctx xs" and found: "receiving_stream ctx ssrc seq = Inr (Inr (r, advance, est, delta))"
    and acc: "accept_packet r ssrc advance est delta ctx = Inr (status, ctx')"
  shows "(status \<noteq> srtp_err_status_ok \<and> replay_states ctx' = replay_states ctx \<and> template_window ctx' = template_window ctx)
    \<or> (\<exists>r st r'. status = srtp_err_status_ok \<and> receiver_of ctx ssrc r \<and> srtp_rdbx_add_index r delta = Inr (st, r')
         \<and> replay_states ctx' = add_state ctx ssrc r' \<and> template_window ctx' = template_window ctx)"
proof (cases "srtp_get_stream ctx ssrc")
  case None
  with receiving_stream_found [OF found] have "r = Template" "\<not> advance" "cx_stream_template ctx \<noteq> None" by auto
  with accept_template [OF None] acc show ?thesis by simp
next
  case (Some i)
  have r: "r = Listed i" using receiving_stream_found [OF found] Some by auto
  have r0: "receiver_of ctx ssrc (st_rtp_rdbx (cx_stream_list ctx ! i))" by (simp add: receiver_of_def Some)
  have "\<not> advance" using receiver_estimate(1) [OF inv found r0] .
  then have "accept_packet (Listed i) ssrc False est delta ctx = Inr (status, ctx')" using acc r by simp
  with Some obtain st r' where "status = srtp_err_status_ok" "srtp_rdbx_add_index (st_rtp_rdbx (cx_stream_list ctx ! i)) delta = Inr (st, r')"
    "replay_states ctx' = add_state ctx ssrc r'" "template_window ctx' = template_window ctx"
    by (rule accept_listed)
  with r0 show ?thesis by blast
qed

lemma session_accept:
  assumes inv: "session_inv ctx xs" and room: "indices_left ctx 2"
    and found: "receiving_stream ctx ssrc seq = Inr (Inr (r, advance, est, delta))"
    and acc: "accept_packet r ssrc advance est delta ctx = Inr (status, ctx')"
  shows "(status \<noteq> srtp_err_status_ok \<and> session_inv ctx' xs)
    \<or> (status = srtp_err_status_ok \<and> session_inv ctx' ((ssrc, est) # xs) \<and> receiving_stream ctx' ssrc seq = Inr (Inl srtp_err_status_replay_fail))"
proof (cases "status = srtp_err_status_ok")
  case False
  have "replay_states ctx' = replay_states ctx" "template_window ctx' = template_window ctx"
    using accept_found [OF inv found acc] False by auto
  then show ?thesis using False inv session_inv_cong by blast
next
  case True
  obtain r0 st r1 where r0: "receiver_of ctx ssrc r0" and add: "srtp_rdbx_add_index r0 delta = Inr (st, r1)"
    and ctx': "replay_states ctx' = add_state ctx ssrc r1" "template_window ctx' = template_window ctx"
    using accept_found [OF inv found acc] True by blast
  note e = receiver_estimate [OF inv found r0]
  have n: "unat (rx_index r0) < 2 ^ 48 - 2 ^ 17" using receiver_index [OF inv room _ r0] by simp
  then have n0: "unat (rx_index r0) < 2 ^ 48 - 2 ^ 16" by simp
  note inv0 = session_receiver [OF inv r0]
  obtain r' where r': "srtp_rdbx_add_index r0 delta = Inr (srtp_err_status_ok, r')" "rdbx_inv r' (est # indices xs ssrc)" "window r' = window r0"
    using inv0 n0 e(2,3) by (rule rdbx_accepts)
  then have [simp]: "r1 = r'" using add by simp
  have v: "rdbx_verdict (window r0) (indices xs ssrc) est = srtp_err_status_ok"
    using srtp_rdbx_check_verdict [OF inv0 n0 e(2)] e(3) by simp
  then have new: "(ssrc, est) \<notin> set xs" by (auto simp: rdbx_verdict_def split: if_splits)
  have inv': "session_inv ctx' ((ssrc, est) # xs)" using session_add [OF inv new r'(2)] ctx' by simp
  have "int (unat est) = int (unat (rx_index r0)) + delta" "\<bar>delta\<bar> < 65536"
    using srtp_rdbx_estimate_ok [OF n0, of seq] e(2) by (simp_all add: estimates_def)
  moreover have "unat (rx_index r0) < 281474976579584" using n by simp
  ultimately have "unat est < 281474976645120" by linarith
  then have "unat est < 2 ^ 48 - 2 ^ 16" by simp
  moreover have "unat x < 2 ^ 48 - 2 ^ 16" if "x \<in> set (indices xs ssrc)" for x
    using inv0 n0 le_less_trans that unfolding rdbx_inv_def by blast
  ultimately have n': "unat (rx_index r') < 2 ^ 48 - 2 ^ 16" using r'(2) by (auto simp: rdbx_inv_def)
  obtain delta' where e': "srtp_rdbx_estimate_index r' seq = (delta', est)"
    using estimate_again [OF inv0 r'(2) n0 n' e(2)] by (metis prod.collapse)
  have "0 < window r0" using inv0 by (auto simp: rdbx_inv_def window_ok_def srtp_rdbx_get_window_size_def)
  then have "rdbx_verdict (window r') (est # indices xs ssrc) est = srtp_err_status_replay_fail"
    using v by (auto simp: rdbx_verdict_def r'(3) split: if_splits)
  then have chk: "srtp_rdbx_check r' delta' = Inr srtp_err_status_replay_fail" using srtp_rdbx_check_verdict [OF r'(2) n' e'] by simp
  obtain roc where "(ssrc, r', roc) \<in> set (replay_states ctx')" using add_state_mem [OF r0, of r'] ctx'(1) by auto
  with inv' obtain i where "srtp_get_stream ctx' ssrc = Some i" "st_rtp_rdbx (cx_stream_list ctx' ! i) = r'" "st_pending_roc (cx_stream_list ctx' ! i) = 0"
    by (rule receiver_after)
  then have "receiving_stream ctx' ssrc seq = Inr (Inl srtp_err_status_replay_fail)"
    using e' chk by (simp add: receiving_stream_def stream_at_def srtp_get_est_pkt_index_def)
  then show ?thesis using True inv' by simp
qed

section \<open>Received packets\<close>

lemma receiving_stream_cong:
  "cx_stream_list ctx' = cx_stream_list ctx \<Longrightarrow> cx_stream_template ctx' = cx_stream_template ctx \<Longrightarrow>
     receiving_stream ctx' ssrc seq = receiving_stream ctx ssrc seq"
  by (simp add: receiving_stream_def srtp_get_stream_def stream_at_def split: option.split)

lemma unprotect_apply_cases:
  assumes "unprotect_apply cr ctx buf len ((r, advance, est, delta), keys, mki_size, start) = Inr (status, ctx', buf', n)"
  shows "(status \<noteq> srtp_err_status_ok \<and> ctx' = snd (use_key r (sk_limit keys) ctx))
    \<or> accept_packet r (pkt_ssrc buf) advance est delta (snd (use_key r (sk_limit keys) ctx)) = Inr (status, ctx')"
  using assms unfolding unprotect_apply_def Let_def
  by (auto simp: getr_eq_Inr elim!: bindrE split: if_split_asm prod.split_asm)

lemma session_unprotect:
  assumes inv: "session_inv ctx xs" and room: "indices_left ctx 2"
    and unp: "srtp_unprotect_mki cr ctx buf len m = Inr (status, ctx', buf', n)"
  shows "(status \<noteq> srtp_err_status_ok \<and> session_inv ctx' xs)
    \<or> (\<exists>est. status = srtp_err_status_ok \<and> (\<exists>r advance delta. receiving_stream ctx (pkt_ssrc buf) (pkt_seq buf) = Inr (Inr (r, advance, est, delta)))
         \<and> session_inv ctx' ((pkt_ssrc buf, est) # xs)
         \<and> receiving_stream ctx' (pkt_ssrc buf) (pkt_seq buf) = Inr (Inl srtp_err_status_replay_fail))"
proof -
  from unp obtain checked where chk: "unprotect_check cr ctx buf len m = Inr checked"
    "(case checked of Inl status \<Rightarrow> Inr (status, ctx, buf, int len) | Inr packet \<Rightarrow> unprotect_apply cr ctx buf len packet) = Inr (status, ctx', buf', n)"
    unfolding srtp_unprotect_mki_def by (rule bindrE)
  show ?thesis
  proof (cases checked)
    case (Inl e)
    have "e \<noteq> srtp_err_status_ok" using chk(1) unfolding Inl by (rule unprotect_check_error)
    then show ?thesis using chk(2) inv by (simp add: Inl)
  next
    case (Inr p)
    obtain r advance est delta keys mki_size start where p: "p = ((r, advance, est, delta), keys, mki_size, start)" by (metis prod.exhaust)
    let ?c = "snd (use_key r (sk_limit keys) ctx)"
    have found: "receiving_stream ctx (pkt_ssrc buf) (pkt_seq buf) = Inr (Inr (r, advance, est, delta))"
      using chk(1) unfolding Inr p by (rule unprotect_check_found)
    have inv': "session_inv ?c xs" by (rule session_inv_cong [OF _ _ inv]) simp_all
    have room': "indices_left ?c 2" using room by (simp add: indices_left_def)
    have found': "receiving_stream ?c (pkt_ssrc buf) (pkt_seq buf) = Inr (Inr (r, advance, est, delta))"
      using found receiving_stream_cong [of ?c ctx] by simp
    from chk(2) consider "status \<noteq> srtp_err_status_ok" "ctx' = ?c" | "accept_packet r (pkt_ssrc buf) advance est delta ?c = Inr (status, ctx')"
      using unprotect_apply_cases [of cr ctx buf len r advance est delta keys mki_size start status ctx' buf' n] by (auto simp: Inr p)
    then show ?thesis
    proof cases
      case 1
      then show ?thesis using inv' by simp
    next
      case 2
      from session_accept [OF inv' room' found' 2] found show ?thesis by blast
    qed
  qed
qed


section \<open>Replays\<close>

text \<open>
  A session that receives: it starts with a template for new sources, and its packets are accepted or refused in any order, whatever they contain and whatever
  the cryptographic functions return. The list has the source and the index of each accepted packet. The application does not set the rollover counter.
\<close>

inductive srtp_session :: "srtp_crypto \<Rightarrow> srtp_ctx \<Rightarrow> (u32 \<times> u64) list \<Rightarrow> bool" for cr where
  start: "cx_stream_list ctx = [] \<Longrightarrow> cx_stream_template ctx = Some t \<Longrightarrow> srtp_rdbx_get_window_size (st_rtp_rdbx t) \<le> 0x7FFFFFE0 \<Longrightarrow>
    srtp_session cr ctx []"
| accept: "srtp_session cr ctx xs \<Longrightarrow> indices_left ctx 2 \<Longrightarrow> receiving_stream ctx (pkt_ssrc buf) (pkt_seq buf) = Inr (Inr (r, advance, est, delta)) \<Longrightarrow>
    srtp_unprotect_mki cr ctx buf len m = Inr (srtp_err_status_ok, ctx', buf', n) \<Longrightarrow> srtp_session cr ctx' ((pkt_ssrc buf, est) # xs)"
| refuse: "srtp_session cr ctx xs \<Longrightarrow> indices_left ctx 2 \<Longrightarrow> srtp_unprotect_mki cr ctx buf len m = Inr (status, ctx', buf', n) \<Longrightarrow>
    status \<noteq> srtp_err_status_ok \<Longrightarrow> srtp_session cr ctx' xs"

lemma srtp_session_inv: "srtp_session cr ctx xs \<Longrightarrow> session_inv ctx xs"
proof (induction rule: srtp_session.induct)
  case (start ctx t)
  then show ?case by (simp add: session_inv_def)
next
  case (accept ctx xs buf r advance est delta len m ctx' buf' n)
  from session_unprotect [OF accept.IH accept.hyps(2,4)] accept.hyps(3) show ?case by auto
next
  case (refuse ctx xs buf len m status ctx' buf' n)
  from session_unprotect [OF refuse.IH refuse.hyps(2,3)] refuse.hyps(4) show ?case by auto
qed

text \<open>C2: 
  No packet of a session is accepted twice: the accepted packets differ in their source or their index, and after a packet was accepted every packet with its
  source and sequence number is refused as a replay, whatever the rest of it is, before it is looked at and without any change of the session.
\<close>

theorem srtp_session_no_replay:
  assumes "srtp_session cr ctx xs" "indices_left ctx 2" "srtp_unprotect_mki cr ctx buf len m = Inr (srtp_err_status_ok, ctx', buf', n)"
    and "srtp_validate_rtp_header buf2 len2 = Inr srtp_err_status_ok" "pkt_ssrc buf2 = pkt_ssrc buf" "pkt_seq buf2 = pkt_seq buf"
  shows "distinct xs \<and> srtp_unprotect_mki cr ctx' buf2 len2 m2 = Inr (srtp_err_status_replay_fail, ctx', buf2, int len2)"
proof -
  have "session_inv ctx xs" using assms(1) by (rule srtp_session_inv)
  moreover from this have "receiving_stream ctx' (pkt_ssrc buf2) (pkt_seq buf2) = Inr (Inl srtp_err_status_replay_fail)"
    using session_unprotect [OF _ assms(2,3)] unfolding assms(5,6) by blast
  moreover have "12 \<le> length buf2"
    using assms(4) by (auto simp: srtp_validate_rtp_header_def getr_eq_Inr elim!: bindrE split: if_split_asm)
  ultimately show ?thesis using assms(4) by (simp add: srtp_unprotect_mki_def unprotect_check_def getr_ok session_inv_def)
qed

section \<open>Authentication\<close>

text \<open>HMAC-SHA1 has 20 bytes, and counter mode encrypts by adding a key stream (the documented behaviour of mbedTLS).\<close>

definition hmac_law :: "srtp_crypto \<Rightarrow> bool" where
  "hmac_law cr \<longleftrightarrow> (\<forall>key msg mac. cr_hmac cr key msg = Some mac \<longrightarrow> length mac = 20)"

definition ctr_law :: "srtp_crypto \<Rightarrow> bool" where
  "ctr_law cr \<longleftrightarrow> (\<forall>key iv n data out. cr_aes_ctr cr key iv n data = Some out \<longrightarrow> length out = length data \<and> cr_aes_ctr cr key iv n out = Some data)"

text \<open>An authentication function as \<open>srtp_hmac_alloc\<close> makes it, with a tag that fits the array of the receiver.\<close>

definition hmac_auth :: "srtp_auth \<Rightarrow> bool" where
  "hmac_auth a \<longleftrightarrow> au_id a = SRTP_HMAC_SHA1 \<and> au_prefix_len a = 0 \<and> au_out_len a \<le> 16"

lemma check_tag_hmac:
  assumes law: "hmac_law cr" and a: "hmac_auth a" and tag: "length tag = au_out_len a"
  shows "check_tag cr a msg [] tag
    = Inr (if map_option (take (au_out_len a)) (cr_hmac cr (au_key a) msg) = Some tag then srtp_err_status_ok else srtp_err_status_auth_fail)"
proof (cases "cr_hmac cr (au_key a) msg")
  case (Some mac)
  then have "length mac = 20" using law by (auto simp: hmac_law_def)
  then show ?thesis using a tag Some
    by (auto simp: check_tag_def srtp_auth_compute_def hmac_auth_def SRTP_MAX_TAG_LEN_def srtp_octet_string_is_eq_ok min_def)
qed (use a in \<open>auto simp: check_tag_def srtp_auth_compute_def hmac_auth_def SRTP_MAX_TAG_LEN_def\<close>)

text \<open>The tag of a packet with the index \<open>est\<close>: a prefix of the HMAC of all that precedes the tag, followed by the rollover counter.\<close>

definition rtp_tag :: "srtp_crypto \<Rightarrow> srtp_auth \<Rightarrow> bytes \<Rightarrow> u64 \<Rightarrow> bytes option" where
  "rtp_tag cr a packet est = map_option (take (au_out_len a)) (cr_hmac cr (au_key a) (packet @ roc_bytes est))"

lemma unprotect_auth_hmac:
  assumes law: "hmac_law cr" and a: "hmac_auth (sk_rtp_auth keys)" and auth: "has_auth (st_rtp_services stream)"
    and len: "au_out_len (sk_rtp_auth keys) + mki_size \<le> len" "len \<le> length buf"
  shows "unprotect_auth cr stream keys iv est len mki_size buf
    = Inr (if rtp_tag cr (sk_rtp_auth keys) (take (len - au_out_len (sk_rtp_auth keys) - mki_size) buf) est
              = Some (take (au_out_len (sk_rtp_auth keys)) (drop (len - au_out_len (sk_rtp_auth keys)) buf))
           then srtp_err_status_ok else srtp_err_status_auth_fail)"
proof -
  let ?n = "au_out_len (sk_rtp_auth keys)"
  have "au_prefix_len (sk_rtp_auth keys) = 0" using a by (simp add: hmac_auth_def)
  moreover have "length (take ?n (drop (len - ?n) buf)) = ?n" using len by simp
  ultimately show ?thesis using check_tag_hmac [OF law a, of "take ?n (drop (len - ?n) buf)"] auth len
    by (simp add: unprotect_auth_def Let_def getr_ok rtp_tag_def)
qed

text \<open>C3: 
  A packet that is accepted on a stream with authentication carries the tag of its contents and of the rollover counter of its estimated index; what is returned
  is the packet without the tag.
\<close>

theorem srtp_unprotect_authentic:
  assumes "hmac_law cr" "srtp_unprotect cr ctx buf len = Inr (srtp_err_status_ok, ctx', buf', n)" "len \<le> length buf"
    and "receiving_stream ctx (pkt_ssrc buf) (pkt_seq buf) = Inr (Inr (r, advance, est, delta))"
    and "has_auth (st_rtp_services (stream_at ctx r))" "a = sk_rtp_auth (st_session_keys (stream_at ctx r) ! 0)" "hmac_auth a"
  shows "rtp_tag cr a (take (len - au_out_len a) buf) est = Some (take (au_out_len a) (drop (len - au_out_len a) buf))
    \<and> n = int len - int (au_out_len a)"
proof -
  from assms(2) obtain checked where chk: "unprotect_check cr ctx buf len False = Inr checked"
    "(case checked of Inl status \<Rightarrow> Inr (status, ctx, buf, int len) | Inr packet \<Rightarrow> unprotect_apply cr ctx buf len packet)
      = Inr (srtp_err_status_ok, ctx', buf', n)"
    unfolding srtp_unprotect_def srtp_unprotect_mki_def by (rule bindrE)
  obtain p where p: "checked = Inr p" using chk unprotect_check_error by (cases checked) auto
  obtain r1 advance1 est1 delta1 keys mki_size start where p1: "p = ((r1, advance1, est1, delta1), keys, mki_size, start)" by (metis prod.exhaust)
  note found = unprotect_check_found [OF chk(1) [unfolded p p1]]
  then have eq: "r1 = r" "est1 = est" "keys = st_session_keys (stream_at ctx r) ! 0" "mki_size = 0" using assms(4) by simp_all
  have auth: "unprotect_auth cr (stream_at ctx r) keys (rtp_iv (sk_rtp_cipher keys) (pkt_ssrc buf) est) est len 0 buf = Inr srtp_err_status_ok"
    using found(3) by (simp add: eq)
  moreover have "au_out_len a \<le> len"
    using auth assms(5,6) eq(3) by (auto simp: unprotect_auth_def Let_def split: if_split_asm)
  ultimately have "rtp_tag cr a (take (len - au_out_len a) buf) est = Some (take (au_out_len a) (drop (len - au_out_len a) buf))"
    using unprotect_auth_hmac [OF assms(1) _ assms(5), of keys 0 len buf] assms(3,6,7) eq(3) by (auto split: if_splits)
  moreover have "n = int len - int (au_out_len a)"
    using chk(2) assms(6) unfolding p p1 eq unprotect_apply_def Let_def
    by (auto elim!: bindrE split: if_split_asm prod.split_asm)
  ultimately show ?thesis by simp
qed

text \<open>C18: 
  A packet whose tag is not the one of its contents is refused, and neither the session nor the packet changes: no stream is made for it, the key is not
  counted and the replay database stays.
\<close>

theorem srtp_unprotect_forged:
  assumes "hmac_law cr" "srtp_validate_rtp_header buf len = Inr srtp_err_status_ok" "len \<le> length buf"
    and "receiving_stream ctx (pkt_ssrc buf) (pkt_seq buf) = Inr (Inr (r, advance, est, delta))"
    and "has_auth (st_rtp_services (stream_at ctx r))" "a = sk_rtp_auth (st_session_keys (stream_at ctx r) ! 0)" "hmac_auth a"
    and "enc_start (take 12 buf) buf = Inr st" "st + au_out_len a \<le> len"
    and "rtp_tag cr a (take (len - au_out_len a) buf) est \<noteq> Some (take (au_out_len a) (drop (len - au_out_len a) buf))"
  shows "srtp_unprotect cr ctx buf len = Inr (srtp_err_status_auth_fail, ctx, buf, int len)"
proof -
  have "12 \<le> len" using assms(2) by (auto simp: srtp_validate_rtp_header_def split: if_split_asm)
  moreover have "unprotect_auth cr (stream_at ctx r) (st_session_keys (stream_at ctx r) ! 0) iv est len 0 buf = Inr srtp_err_status_auth_fail" for iv
    using unprotect_auth_hmac [OF assms(1) _ assms(5), of "st_session_keys (stream_at ctx r) ! 0" 0 len buf] assms(3,6,7,9,10) by simp
  ultimately have "unprotect_check cr ctx buf len False = Inr (Inl srtp_err_status_auth_fail)"
    using assms(2-4,6,8,9) by (simp add: unprotect_check_def getr_ok crypt_start_def Let_def)
  then show ?thesis by (simp add: srtp_unprotect_def srtp_unprotect_mki_def)
qed

section \<open>An example\<close>

text \<open>
  A session with one key, counter mode and tags of 10 bytes. The cryptographic functions of the example are simple ones with the laws: a constant key
  stream, and a checksum in place of the HMAC.
\<close>

definition example_crypto :: srtp_crypto where
  "example_crypto = \<lparr>cr_aes_ctr = \<lambda>key iv n data. Some (map (\<lambda>b. b XOR 0x5A) data), cr_hmac = \<lambda>key msg. Some (replicate 20 (sum_list msg))\<rparr>"

definition example_keys :: srtp_session_keys where
  "example_keys =
     (let c = \<lparr>ci_id = SRTP_AES_ICM_128, ci_key = replicate 16 1, ci_offset = replicate 16 2\<rparr>;
          a = \<lparr>au_id = SRTP_HMAC_SHA1, au_key = replicate 20 3, au_out_len = 10, au_prefix_len = 0\<rparr>
      in \<lparr>sk_rtp_cipher = c, sk_rtp_xtn_hdr_cipher = None, sk_rtp_auth = a, sk_rtcp_cipher = c, sk_rtcp_auth = a, sk_mki_id = [], sk_limit = 0\<rparr>)"

definition example_stream :: srtp_stream where
  "example_stream =
     \<lparr>st_ssrc = 0, st_session_keys = [example_keys],
      st_rtp_rdbx = \<lparr>rx_index = 0, rx_bitmask = \<lparr>bv_length = 32, bv_word = [0, 0, 0, 0]\<rparr>\<rparr>, st_rtp_services = sec_serv_conf_and_auth,
      st_rtcp_rdb = srtp_rdb_init, st_rtcp_services = sec_serv_conf_and_auth, st_direction = dir_unknown, st_allow_repeat_tx = False,
      st_enc_xtn_hdr = [], st_pending_roc = 0\<rparr>"

definition example_session :: srtp_ctx where
  "example_session =
     \<lparr>cx_stream_list = [], cx_stream_template = Some example_stream,
      cx_limits = [\<lparr>kl_num_left = 0x100000, kl_state = srtp_key_state_normal\<rparr>], cx_events = []\<rparr>"

text \<open>A protected packet with the sequence number 7 from the source 9.\<close>

definition example_packet :: bytes where
  "example_packet = [0x80, 0, 0, 7, 0, 0, 0, 0, 0, 0, 0, 9, 0x5B] @ replicate 10 0xEB"

lemma example_laws: "hmac_law example_crypto" "ctr_law example_crypto"
proof -
  show "hmac_law example_crypto" by (auto simp: hmac_law_def example_crypto_def)
  have "map (\<lambda>b. b XOR 0x5A) (map (\<lambda>b. b XOR 0x5A) data) = (data :: bytes)" for data
    by (induction data) (auto simp: xor.assoc)
  then show "ctr_law example_crypto" by (auto simp: ctr_law_def example_crypto_def)
qed

lemma example_accepted:
  obtains ctx' buf' where "srtp_unprotect_mki example_crypto example_session example_packet 23 False = Inr (srtp_err_status_ok, ctx', buf', 13)"
proof -
  have "case srtp_unprotect_mki example_crypto example_session example_packet 23 False of
      Inr (s, _, _, n) \<Rightarrow> s = srtp_err_status_ok \<and> n = 13 | Inl _ \<Rightarrow> False" by code_simp
  then show thesis by (auto split: sum.splits prod.splits intro: that)
qed

lemma example_valid: "srtp_validate_rtp_header example_packet 23 = Inr srtp_err_status_ok"
  by code_simp

lemma example_found:
  "receiving_stream example_session (pkt_ssrc example_packet) (pkt_seq example_packet) = Inr (Inr (Template, False, 7, 7))"
  by code_simp

theorem srtp_session_no_replay_witness:
  "\<exists>ctx' buf'. srtp_unprotect_mki example_crypto example_session example_packet 23 False = Inr (srtp_err_status_ok, ctx', buf', 13)
     \<and> srtp_unprotect_mki example_crypto ctx' example_packet 23 False = Inr (srtp_err_status_replay_fail, ctx', example_packet, 23)"
proof -
  obtain ctx' buf' where acc: "srtp_unprotect_mki example_crypto example_session example_packet 23 False = Inr (srtp_err_status_ok, ctx', buf', 13)"
    by (rule example_accepted)
  have run: "srtp_session example_crypto example_session []"
    by (rule srtp_session.start [of _ example_stream]) (simp_all add: example_session_def example_stream_def srtp_rdbx_get_window_size_def)
  have left: "indices_left example_session 2" by (simp add: indices_left_def example_session_def)
  from srtp_session_no_replay [OF run left acc example_valid refl refl, of False]
  have "srtp_unprotect_mki example_crypto ctx' example_packet 23 False = Inr (srtp_err_status_replay_fail, ctx', example_packet, 23)" by simp
  with acc show ?thesis by (intro exI conjI)
qed

abbreviation (input) example_auth :: srtp_auth where
  "example_auth \<equiv> sk_rtp_auth (st_session_keys (stream_at example_session Template) ! 0)"

lemma example_auth:
  "has_auth (st_rtp_services (stream_at example_session Template))" "hmac_auth example_auth" "au_out_len example_auth = 10"
  by (simp_all add: example_session_def example_stream_def example_keys_def stream_at_def has_auth_def hmac_auth_def Let_def)

theorem srtp_unprotect_authentic_witness:
  "rtp_tag example_crypto example_auth (take 13 example_packet) 7 = Some (replicate 10 0xEB)"
proof -
  obtain ctx' buf' where "srtp_unprotect example_crypto example_session example_packet 23 = Inr (srtp_err_status_ok, ctx', buf', 13)"
    using example_accepted by (auto simp: srtp_unprotect_def)
  from srtp_unprotect_authentic [OF example_laws(1) this _ example_found example_auth(1) refl example_auth(2)] example_auth(3)
  show ?thesis by (simp add: example_packet_def)
qed

theorem srtp_unprotect_forged_witness:
  "srtp_unprotect example_crypto example_session (example_packet[22 := 0]) 23 = Inr (srtp_err_status_auth_fail, example_session, example_packet[22 := 0], 23)"
proof -
  let ?p = "example_packet[22 := 0]"
  have "srtp_validate_rtp_header ?p 23 = Inr srtp_err_status_ok" by code_simp
  moreover have "receiving_stream example_session (pkt_ssrc ?p) (pkt_seq ?p) = Inr (Inr (Template, False, 7, 7))" by code_simp
  moreover have "enc_start (take 12 ?p) ?p = Inr 12" by code_simp
  moreover have "rtp_tag example_crypto example_auth (take 13 ?p) 7 \<noteq> Some (take 10 (drop 13 ?p))" by code_simp
  ultimately show ?thesis
    using srtp_unprotect_forged [OF example_laws(1), of ?p 23 example_session Template False 7 7 example_auth 12] example_auth
    by (simp add: example_packet_def)
qed

end
