(* ===== verification/Srtp_Roundtrip.thy ===== *)
theory Srtp_Roundtrip
  imports Srtp_Session
begin

text \<open>
  A protected packet is accepted by a receiver with the same keys, which gets the packet that was sent back: the round trip of RTP and of RTCP packets.
\<close>

section \<open>Headers\<close>

lemma take_eq_take: "take n xs = take n ys \<Longrightarrow> k \<le> n \<Longrightarrow> take k xs = take k ys"
  by (metis min.absorb1 take_take)

lemma getr_prefix:
  assumes "take n xs = take n ys" "off + k \<le> n" "n \<le> length xs" "n \<le> length ys"
  shows "getr xs off k = getr ys off k"
proof -
  have "take k (drop off xs) = take k (drop off ys)"
    using take_eq_take [OF assms(1,2)] by (metis add.commute take_drop)
  then show ?thesis using assms(2-4) by (simp add: getr_ok)
qed

lemma enc_start_min: "enc_start h buf = Inr st \<Longrightarrow> 12 \<le> st"
  by (auto simp: enc_start_def srtp_get_rtp_hdr_len_def Let_def elim!: bindrE split: if_split_asm)

lemma enc_start_prefix:
  assumes "enc_start h buf = Inr st" "take st buf2 = take st buf" "st \<le> length buf" "st \<le> length buf2"
  shows "enc_start h buf2 = Inr st"
proof (cases "hdr_x h")
  case True
  let ?hl = "srtp_get_rtp_hdr_len h"
  from assms(1) True have "?hl + 4 \<le> st"
    by (auto simp: enc_start_def srtp_get_rtp_xtn_hdr_len_def Let_def elim!: bindrE)
  then have "getr buf2 ?hl 4 = getr buf ?hl 4" using assms(2-4) by (intro getr_prefix)
  with assms(1) True show ?thesis by (simp add: enc_start_def srtp_get_rtp_xtn_hdr_len_def Let_def)
qed (use assms(1) in \<open>simp add: enc_start_def Let_def\<close>)

text \<open>A header is valid when the part it describes lies in the packet.\<close>

lemma validate_enc_start:
  assumes "12 \<le> len" "len \<le> length buf" "enc_start (take 12 buf) buf = Inr st" "st \<le> len"
  shows "srtp_validate_rtp_header buf len = Inr srtp_err_status_ok"
  using assms
  by (auto simp: srtp_validate_rtp_header_def enc_start_def srtp_get_rtp_xtn_hdr_len_def Let_def getr_ok elim!: bindrE split: if_split_asm)

section \<open>Encryption\<close>

lemma srtp_cipher_encrypt_inverse:
  assumes "ctr_law cr" "srtp_cipher_encrypt cr c iv pos data = Some out"
  shows "length out = length data" "srtp_cipher_encrypt cr c iv pos out = Some data"
proof -
  have "length out = length data \<and> srtp_cipher_encrypt cr c iv pos out = Some data"
  proof (cases "ci_id c = SRTP_NULL_CIPHER")
    case False
    then have "cr_aes_ctr cr (ci_key c) (v128_xor (ci_offset c) iv) pos data = Some out" using assms(2) by (simp add: srtp_cipher_encrypt_def)
    then have "length out = length data \<and> cr_aes_ctr cr (ci_key c) (v128_xor (ci_offset c) iv) pos out = Some data"
      using assms(1) unfolding ctr_law_def by blast
    then show ?thesis using False by (simp add: srtp_cipher_encrypt_def)
  qed (use assms(2) in \<open>simp add: srtp_cipher_encrypt_def\<close>)
  then show "length out = length data" "srtp_cipher_encrypt cr c iv pos out = Some data" by simp_all
qed

lemma put_ok: "off + length xs \<le> length buf \<Longrightarrow> put buf off xs = Inr (take off buf @ xs @ drop (off + length xs) buf)"
  by (simp add: put_def wr_ok)

text \<open>The protected packet: the header, the payload encrypted, and the tag.\<close>

lemma protect_packet_ok:
  assumes law: "ctr_law cr" "hmac_law cr" and keys: "sk_rtp_xtn_hdr_cipher keys = None" "hmac_auth (sk_rtp_auth keys)"
    and sv: "st_rtp_services stream = sec_serv_conf_and_auth" and len: "st \<le> len" "len \<le> length buf"
    and ok: "protect_packet cr stream keys h est (Some st) len len buf = Inr (srtp_err_status_ok, buf')"
  obtains enc tag where
    "srtp_cipher_encrypt cr (sk_rtp_cipher keys) (rtp_iv (sk_rtp_cipher keys) (hdr_ssrc h) est) 0 (take (len - st) (drop st buf)) = Some enc"
    "rtp_tag cr (sk_rtp_auth keys) (take st buf @ enc) est = Some tag" "length tag = au_out_len (sk_rtp_auth keys)" "length enc = len - st"
    "buf' = take st buf @ enc @ tag @ drop (len + length tag) buf" "len + length tag \<le> length buf"
proof -
  let ?a = "sk_rtp_auth keys" and ?data = "take (len - st) (drop st buf)"
  have a: "au_prefix_len ?a = 0" "au_id ?a = SRTP_HMAC_SHA1" "au_out_len ?a \<le> 16" using keys(2) by (simp_all add: hmac_auth_def)
  have serv: "has_auth sec_serv_conf_and_auth" by (simp add: has_auth_def)
  from ok obtain enc where e: "srtp_cipher_encrypt cr (sk_rtp_cipher keys) (rtp_iv (sk_rtp_cipher keys) (hdr_ssrc h) est) 0 ?data = Some enc"
    using len by (auto simp: protect_packet_def rtp_crypt_def Let_def a keys(1) sv serv getr_ok split: option.split_asm)
  have el: "length enc = len - st" using srtp_cipher_encrypt_inverse(1) [OF law(1) e] len by simp
  let ?b = "take st buf @ enc @ drop len buf"
  have crypt: "rtp_crypt cr stream keys (rtp_iv (sk_rtp_cipher keys) (hdr_ssrc h) est) 0 h (Some st) len buf = Inr (srtp_err_status_ok, ?b)"
    using len by (simp add: rtp_crypt_def keys(1) getr_ok e put_ok el)
  have msg: "getr ?b 0 len = Inr (take st buf @ enc)" using len el by (simp add: getr_ok)
  from ok obtain old t where t: "getr ?b len (au_out_len ?a) = Inr old"
      "srtp_auth_compute cr ?a ((take st buf @ enc) @ roc_bytes est) old = Some t" "put ?b len t = Inr buf'"
    by (auto simp: protect_packet_def Let_def a sv serv crypt msg elim!: bindrE split: option.split_asm)
  from t(2) have tag: "rtp_tag cr ?a (take st buf @ enc) est = Some t" using a by (simp add: srtp_auth_compute_def rtp_tag_def)
  then have tl: "length t = au_out_len ?a" using law(2) a(3) by (auto simp: rtp_tag_def hmac_law_def)
  have room: "len + length t \<le> length buf" using t(1) len el by (simp add: getr_eq_Inr tl)
  have "buf' = take st buf @ enc @ t @ drop (len + length t) buf" using t(3) room len el by (simp add: put_ok add.commute)
  with e tag tl el room show thesis by (intro that)
qed


section \<open>Sending\<close>

text \<open>The keys and services that apply to a source, and the index of a packet from it, at either end.\<close>

definition source_stream :: "srtp_ctx \<Rightarrow> u32 \<Rightarrow> srtp_stream option" where
  "source_stream ctx ssrc = (case srtp_get_stream ctx ssrc of Some i \<Rightarrow> Some (cx_stream_list ctx ! i) | None \<Rightarrow> cx_stream_template ctx)"

definition packet_index :: "srtp_ctx \<Rightarrow> bytes \<Rightarrow> u64" where
  "packet_index ctx buf =
     (case srtp_get_stream ctx (pkt_ssrc buf) of
        Some i \<Rightarrow> fst (snd (srtp_get_est_pkt_index (pkt_seq buf) (cx_stream_list ctx ! i)))
      | None \<Rightarrow> ucast (pkt_seq buf))"

lemma srtp_rdbx_init_index: "srtp_rdbx_init w = Inr r \<Longrightarrow> rx_index r = 0"
  by (auto simp: srtp_rdbx_init_def srtp_index_init_def Let_def split: if_split_asm option.split_asm)

text \<open>What sending needs of a stream is not changed when its direction is recorded.\<close>

lemma check_direction_stream:
  assumes "i < length (cx_stream_list ctx)"
  obtains d' where "stream_at (check_direction d (Listed i) ctx) (Listed i) = (cx_stream_list ctx ! i)\<lparr>st_direction := d'\<rparr>"
proof (cases "st_direction (cx_stream_list ctx ! i) = dir_unknown \<and> d \<noteq> dir_unknown")
  case True
  then show thesis using assms by (intro that [of d]) (simp add: check_direction_def stream_simps)
next
  case False
  then show thesis by (intro that [of "st_direction (cx_stream_list ctx ! i)"]) (auto simp: check_direction_def stream_simps)
qed

lemma sending_stream_error: "sending_stream f ctx ssrc \<noteq> Inl srtp_err_status_ok"
  by (auto simp: sending_stream_def srtp_stream_clone_def srtp_rdbx_init_def bitvector_alloc_def Let_def split: option.splits sum.splits if_splits)

lemma sender_stream:
  assumes "sending_stream (\<lambda>s. s\<lparr>st_direction := dir_srtp_sender\<rparr>) ctx (pkt_ssrc buf) = Inr (i, ctx1)" "source_stream ctx (pkt_ssrc buf) = Some src"
    and "stream = stream_at (check_direction dir_srtp_sender (Listed i) ctx1) (Listed i)"
  shows "st_session_keys stream = st_session_keys src" "st_rtp_services stream = st_rtp_services src"
    "fst (snd (srtp_get_est_pkt_index (pkt_seq buf) stream)) = packet_index ctx buf"
proof -
  have "st_session_keys stream = st_session_keys src \<and> st_rtp_services stream = st_rtp_services src
    \<and> fst (snd (srtp_get_est_pkt_index (pkt_seq buf) stream)) = packet_index ctx buf"
  proof (cases "srtp_get_stream ctx (pkt_ssrc buf)")
    case (Some j)
    then have "i = j" "ctx1 = ctx" "src = cx_stream_list ctx ! j" using assms(1,2) by (simp_all add: sending_stream_def source_stream_def)
    moreover obtain d' where "stream_at (check_direction dir_srtp_sender (Listed j) ctx) (Listed j) = (cx_stream_list ctx ! j)\<lparr>st_direction := d'\<rparr>"
      using check_direction_stream srtp_get_stream_Some [OF Some] by blast
    ultimately show ?thesis using assms(3) by (simp add: packet_index_def Some srtp_get_est_pkt_index_def)
  next
    case None
    then have t: "cx_stream_template ctx = Some src" using assms(2) by (simp add: source_stream_def)
    then obtain r where r: "srtp_rdbx_init (srtp_rdbx_get_window_size (st_rtp_rdbx src)) = Inr r"
      using assms(1) by (auto simp: sending_stream_def None srtp_stream_clone_def split: sum.splits)
    then have "i = 0" "cx_stream_list ctx1 = src\<lparr>st_ssrc := pkt_ssrc buf, st_rtp_rdbx := r, st_rtcp_rdb := srtp_rdb_init, st_pending_roc := 0,
        st_direction := dir_srtp_sender\<rparr> # cx_stream_list ctx"
      using assms(1) t by (auto simp: sending_stream_def None srtp_stream_clone_def srtp_stream_list_insert_def)
    moreover from this obtain d' where "stream = (cx_stream_list ctx1 ! 0)\<lparr>st_direction := d'\<rparr>"
      using check_direction_stream [of 0 ctx1 dir_srtp_sender] assms(3) by auto
    ultimately show ?thesis using srtp_rdbx_init_index [OF r]
      by (simp add: packet_index_def None srtp_get_est_pkt_index_def srtp_rdbx_estimate_index_def)
  qed
  then show "st_session_keys stream = st_session_keys src" "st_rtp_services stream = st_rtp_services src"
    "fst (snd (srtp_get_est_pkt_index (pkt_seq buf) stream)) = packet_index ctx buf" by simp_all
qed

lemma srtp_protect_ok:
  assumes ok: "srtp_protect cr ctx buf len = Inr (srtp_err_status_ok, ctx', buf', n)" and src: "source_stream ctx (pkt_ssrc buf) = Some src"
    and sv: "st_rtp_services src = sec_serv_conf_and_auth"
  obtains stream st where "12 \<le> len" "enc_start (take 12 buf) buf = Inr st" "st \<le> len" "st_rtp_services stream = sec_serv_conf_and_auth"
    "protect_packet cr stream (st_session_keys src ! 0) (take 12 buf) (packet_index ctx buf) (Some st) len len buf = Inr (srtp_err_status_ok, buf')"
    "n = len + au_out_len (sk_rtp_auth (st_session_keys src ! 0))"
proof -
  from ok obtain i ctx1 where valid: "srtp_validate_rtp_header buf len = Inr srtp_err_status_ok" "12 \<le> length buf"
      and send: "sending_stream (\<lambda>s. s\<lparr>st_direction := dir_srtp_sender\<rparr>) ctx (pkt_ssrc buf) = Inr (i, ctx1)"
    unfolding srtp_protect_def srtp_protect_mki_def Let_def
    by (auto simp: getr_eq_Inr sending_stream_error elim!: bindrE split: if_split_asm sum.split_asm)
  define stream where "stream = stream_at (check_direction dir_srtp_sender (Listed i) ctx1) (Listed i)"
  note s = sender_stream [OF send src stream_def]
  have conf: "has_conf sec_serv_conf_and_auth" "has_auth sec_serv_conf_and_auth" by (simp_all add: has_conf_def has_auth_def)
  have "12 \<le> len" using valid by (auto simp: srtp_validate_rtp_header_def split: if_split_asm)
  moreover from ok valid send obtain st where "enc_start (take 12 buf) buf = Inr st" "st \<le> len"
    "protect_packet cr stream (st_session_keys src ! 0) (take 12 buf) (packet_index ctx buf) (Some st) len len buf = Inr (srtp_err_status_ok, buf')"
    "n = len + au_out_len (sk_rtp_auth (st_session_keys src ! 0))"
    unfolding srtp_protect_def srtp_protect_mki_def Let_def s(3) [symmetric]
    by (auto simp: getr_ok stream_def [symmetric] s(1,2) sv conf crypt_start_def srtp_get_session_keys_with_mki_index_def srtp_inject_mki_def
        elim!: bindrE split: if_split_asm prod.split_asm)
  ultimately show thesis using that [of st stream] s(2) sv by simp
qed

section \<open>Receiving\<close>

text \<open>A receiver that has not seen the index of a packet can accept it.\<close>

lemma record_index_ok:
  assumes "i < length (cx_stream_list ctx)" "srtp_rdbx_add_index (st_rtp_rdbx (cx_stream_list ctx ! i)) delta = Inr (st, r')"
  shows "\<exists>ctx'. record_index (Listed i) False est delta ctx = Inr ctx'"
  using assms by (simp add: record_index_def stream_at_def)

lemma accept_possible:
  assumes inv: "session_inv ctx xs" and room: "indices_left ctx 2" and r0: "receiver_of ctx ssrc r0"
    and found: "receiving_stream ctx ssrc seq = Inr (Inr (r, advance, est, delta))"
  obtains ctx' where "accept_packet r ssrc advance est delta ctx = Inr (srtp_err_status_ok, ctx')"
proof -
  note e = receiver_estimate [OF inv found r0]
  have n: "unat (rx_index r0) < 2 ^ 48 - 2 ^ 16" using receiver_index [OF inv room _ r0] by simp
  obtain r' where r': "srtp_rdbx_add_index r0 delta = Inr (srtp_err_status_ok, r')"
    using session_receiver [OF inv r0] n e(2,3) by (rule rdbx_accepts)
  show thesis
  proof (cases "srtp_get_stream ctx ssrc")
    case (Some i)
    note i = srtp_get_stream_Some [OF Some]
    let ?c = "check_direction dir_srtp_receiver (Listed i) ctx"
    have "st_rtp_rdbx (cx_stream_list ?c ! i) = r0" using check_direction_nth(3) [of i ctx] i r0 Some by (simp add: receiver_of_def)
    then obtain ctx' where "record_index (Listed i) False est delta ?c = Inr ctx'"
      using record_index_ok [of i ?c delta _ _ est] check_direction_nth(1) [of i ctx] i r' by auto
    moreover have "r = Listed i" using receiving_stream_found [OF found] Some by auto
    ultimately show thesis using e(1) by (intro that [of ctx']) (simp add: accept_packet_def)
  next
    case None
    let ?c = "check_direction dir_srtp_receiver Template ctx"
    from r0 None obtain t where t: "cx_stream_template ctx = Some t" "srtp_rdbx_init (srtp_rdbx_get_window_size (st_rtp_rdbx t)) = Inr r0"
      by (auto simp: receiver_of_def)
    then have "template_window ?c = Some (srtp_rdbx_get_window_size (st_rtp_rdbx t))" by simp
    then have w: "srtp_rdbx_get_window_size (st_rtp_rdbx (stream_at ?c Template)) = srtp_rdbx_get_window_size (st_rtp_rdbx t)"
      by (auto simp: stream_at_def simp del: check_direction_states)
    define s where "s = (stream_at ?c Template)\<lparr>st_ssrc := ssrc, st_rtp_rdbx := r0, st_rtcp_rdb := srtp_rdb_init, st_pending_roc := 0\<rparr>"
    have clone: "srtp_stream_clone (stream_at ?c Template) ssrc = Inr s" by (simp add: srtp_stream_clone_def w t(2) s_def)
    obtain ctx' where "record_index (Listed 0) False est delta (srtp_stream_list_insert s ?c) = Inr ctx'"
      using record_index_ok [of 0 "srtp_stream_list_insert s ?c" delta _ _ est] r' by (auto simp: srtp_stream_list_insert_def s_def)
    moreover have "r = Template" using receiving_stream_found [OF found] None by auto
    ultimately show thesis using e(1) by (intro that [of ctx']) (simp add: accept_packet_def clone)
  qed
qed

lemma receiver_of_cong:
  "cx_stream_list ctx' = cx_stream_list ctx \<Longrightarrow> cx_stream_template ctx' = cx_stream_template ctx \<Longrightarrow> receiver_of ctx' ssrc r = receiver_of ctx ssrc r"
  by (simp add: receiver_of_def srtp_get_stream_def split: option.split)

lemma unprotect_apply_accepts:
  assumes inv: "session_inv ctx xs" and room: "indices_left ctx 2" and r0: "receiver_of ctx (pkt_ssrc buf) r0"
    and found: "receiving_stream ctx (pkt_ssrc buf) (pkt_seq buf) = Inr (Inr (r, advance, est, delta))"
    and key: "\<not> fst (use_key r (sk_limit keys) ctx)" and len: "12 \<le> length buf"
    and crypt: "rtp_crypt cr (stream_at ctx r) keys (rtp_iv (sk_rtp_cipher keys) (pkt_ssrc buf) est)
        (if has_auth (st_rtp_services (stream_at ctx r)) then au_prefix_len (sk_rtp_auth keys) else 0) (take 12 buf) start
        (n - au_out_len (sk_rtp_auth keys) - mki_size) buf = Inr (srtp_err_status_ok, buf')"
  shows "\<exists>ctx'. unprotect_apply cr ctx buf n ((r, advance, est, delta), keys, mki_size, start)
    = Inr (srtp_err_status_ok, ctx', buf', int n - int (au_out_len (sk_rtp_auth keys)) - int mki_size)"
proof -
  let ?c = "snd (use_key r (sk_limit keys) ctx)"
  have "session_inv ?c xs" by (rule session_inv_cong [OF _ _ inv]) simp_all
  moreover have "indices_left ?c 2" using room by (simp add: indices_left_def)
  moreover have "receiver_of ?c (pkt_ssrc buf) r0" using r0 receiver_of_cong [of ?c ctx] by simp
  moreover have "receiving_stream ?c (pkt_ssrc buf) (pkt_seq buf) = Inr (Inr (r, advance, est, delta))"
    using found receiving_stream_cong [of ?c ctx] by simp
  ultimately obtain ctx' where "accept_packet r (pkt_ssrc buf) advance est delta ?c = Inr (srtp_err_status_ok, ctx')" by (rule accept_possible)
  moreover obtain c where "use_key r (sk_limit keys) ctx = (False, c)" using key by (cases "use_key r (sk_limit keys) ctx") auto
  ultimately show ?thesis using len crypt by (simp add: unprotect_apply_def getr_ok Let_def split del: if_split)
qed

section \<open>The round trip of RTP\<close>

text \<open>C8: 
  A packet that was protected is accepted by a receiver that has the same keys, estimates the same index and has not received the packet yet, as long
  as the key of the receiver is not used up; the receiver gets the packet that was sent. This holds for the first packet of a source as well, for which the
  receiver makes the stream.
\<close>

theorem srtp_protect_roundtrip:
  assumes "ctr_law cr" "hmac_law cr"
    and "srtp_protect cr ctx buf len = Inr (srtp_err_status_ok, ctx', buf', n)" "len \<le> length buf"
    and "source_stream ctx (pkt_ssrc buf) = Some src" "st_rtp_services src = sec_serv_conf_and_auth"
    and "ks = st_session_keys src ! 0" "sk_rtp_xtn_hdr_cipher ks = None" "hmac_auth (sk_rtp_auth ks)"
    and "srtp_session cr rctx xs" "indices_left rctx 2" "receiver_of rctx (pkt_ssrc buf) r0"
    and "receiving_stream rctx (pkt_ssrc buf) (pkt_seq buf) = Inr (Inr (r, advance, packet_index ctx buf, delta))"
    and "st_rtp_services (stream_at rctx r) = sec_serv_conf_and_auth" "kr = st_session_keys (stream_at rctx r) ! 0"
    and "sk_rtp_cipher kr = sk_rtp_cipher ks" "sk_rtp_auth kr = sk_rtp_auth ks" "sk_rtp_xtn_hdr_cipher kr = None"
    and "\<not> fst (use_key r (sk_limit kr) rctx)"
  shows "\<exists>rctx' buf''. srtp_unprotect cr rctx buf' n = Inr (srtp_err_status_ok, rctx', buf'', int len) \<and> take len buf'' = take len buf"
proof -
  let ?est = "packet_index ctx buf" and ?a = "sk_rtp_auth ks"
  obtain stream st where st: "12 \<le> len" "enc_start (take 12 buf) buf = Inr st" "st \<le> len" "st_rtp_services stream = sec_serv_conf_and_auth"
    "protect_packet cr stream ks (take 12 buf) ?est (Some st) len len buf = Inr (srtp_err_status_ok, buf')" "n = len + au_out_len ?a"
    using srtp_protect_ok [OF assms(3,5,6)] assms(7) by blast
  obtain enc tag where enc: "srtp_cipher_encrypt cr (sk_rtp_cipher ks) (rtp_iv (sk_rtp_cipher ks) (pkt_ssrc buf) ?est) 0 (take (len - st) (drop st buf)) = Some enc"
    and tag: "rtp_tag cr ?a (take st buf @ enc) ?est = Some tag" "length tag = au_out_len ?a"
    and buf': "length enc = len - st" "buf' = take st buf @ enc @ tag @ drop (len + length tag) buf" "len + length tag \<le> length buf"
    using protect_packet_ok [OF assms(1,2,8,9) st(4,3) assms(4) st(5)] .
  note dec = srtp_cipher_encrypt_inverse(2) [OF assms(1) enc]
  have st12: "12 \<le> st" using enc_start_min [OF st(2)] .
  have h: "take 12 buf' = take 12 buf" using st12 st(3) assms(4) by (simp add: buf'(2))
  have n: "n \<le> length buf'" "n - au_out_len ?a = len" using st(3) assms(4) buf'(1,3) by (simp_all add: buf'(2) st(6) tag(2))
  have start: "enc_start (take 12 buf') buf' = Inr st" unfolding h
    using st(3) assms(4) by (intro enc_start_prefix [OF st(2)]) (simp_all add: buf'(2))
  have valid: "srtp_validate_rtp_header buf' n = Inr srtp_err_status_ok"
    by (rule validate_enc_start [OF _ n(1) start]) (use st(1,3,6) in linarith)+
  have pre: "take len buf' = take st buf @ enc" "take (au_out_len ?a) (drop len buf') = tag"
    "take (len - st) (drop st buf') = enc" using st(3) assms(4) buf'(1) tag(2) by (simp_all add: buf'(2))
  have serv: "has_conf sec_serv_conf_and_auth" "has_auth sec_serv_conf_and_auth" by (simp_all add: has_conf_def has_auth_def)
  have "unprotect_auth cr (stream_at rctx r) kr iv ?est n 0 buf' = Inr srtp_err_status_ok" for iv
    using unprotect_auth_hmac [OF assms(2), of kr "stream_at rctx r" 0 n buf' iv ?est] n assms(9,14,17) serv pre tag st(6) by simp
  then have chk: "unprotect_check cr rctx buf' n False = Inr (Inr ((r, advance, ?est, delta), kr, 0, Some st))"
    using valid n(1) st(1,3,6) start assms(13-15,17) serv
    by (simp add: unprotect_check_def getr_ok h crypt_start_def Let_def)
  let ?buf = "take st buf @ take (len - st) (drop st buf) @ tag @ drop (len + length tag) buf"
  have a0: "au_prefix_len ?a = 0" using assms(9) by (simp add: hmac_auth_def)
  have crypt: "rtp_crypt cr (stream_at rctx r) kr (rtp_iv (sk_rtp_cipher kr) (pkt_ssrc buf') ?est)
        (if has_auth (st_rtp_services (stream_at rctx r)) then au_prefix_len (sk_rtp_auth kr) else 0) (take 12 buf') (Some st)
        (n - au_out_len (sk_rtp_auth kr) - 0) buf' = Inr (srtp_err_status_ok, ?buf)"
    using st(3) assms(4,14,16-18) n pre(3) dec a0 buf'(1) h by (simp add: rtp_crypt_def serv getr_ok put_ok buf'(2))
  have "\<exists>rctx'. unprotect_apply cr rctx buf' n ((r, advance, ?est, delta), kr, 0, Some st)
      = Inr (srtp_err_status_ok, rctx', ?buf, int n - int (au_out_len (sk_rtp_auth kr)) - int 0)"
    using srtp_session_inv [OF assms(10)] assms(11) _ _ assms(19) _ crypt
    by (rule unprotect_apply_accepts) (use assms(12,13) h st(1) n(1) st(6) in simp_all)
  moreover have "take len ?buf = take len buf" using st(3) assms(4) by (simp add: take_add [symmetric])
  ultimately show ?thesis using chk st(6) assms(17) by (auto simp: srtp_unprotect_def srtp_unprotect_mki_def)
qed

theorem srtp_protect_roundtrip_witness:
  "\<exists>ctx' rctx' buf''. srtp_protect example_crypto example_session (take 12 example_packet @ 1 # replicate 10 0) 13
       = Inr (srtp_err_status_ok, ctx', example_packet, 23)
     \<and> srtp_unprotect example_crypto example_session example_packet 23 = Inr (srtp_err_status_ok, rctx', buf'', 13)
     \<and> take 13 buf'' = take 12 example_packet @ [1]"
proof -
  let ?buf = "take 12 example_packet @ 1 # replicate 10 0"
  have "case srtp_protect example_crypto example_session ?buf 13 of
      Inr (s, _, b, n) \<Rightarrow> s = srtp_err_status_ok \<and> b = example_packet \<and> n = 23 | Inl _ \<Rightarrow> False" by code_simp
  then obtain ctx' where p: "srtp_protect example_crypto example_session ?buf 13 = Inr (srtp_err_status_ok, ctx', example_packet, 23)"
    by (auto split: sum.splits prod.splits)
  have get: "srtp_get_stream example_session ssrc = None" for ssrc by (simp add: srtp_get_stream_def example_session_def)
  have src: "source_stream example_session (pkt_ssrc ?buf) = Some example_stream"
    unfolding source_stream_def get by (simp add: example_session_def)
  have "srtp_rdbx_init 32 = Inr \<lparr>rx_index = 0, rx_bitmask = \<lparr>bv_length = 32, bv_word = [0, 0, 0, 0]\<rparr>\<rparr>" by code_simp
  then have r0: "receiver_of example_session (pkt_ssrc ?buf) \<lparr>rx_index = 0, rx_bitmask = \<lparr>bv_length = 32, bv_word = [0, 0, 0, 0]\<rparr>\<rparr>"
    unfolding receiver_of_def get by (simp add: example_session_def example_stream_def srtp_rdbx_get_window_size_def)
  have run: "srtp_session example_crypto example_session []"
    by (rule srtp_session.start [of _ example_stream]) (simp_all add: example_session_def example_stream_def srtp_rdbx_get_window_size_def)
  have found: "receiving_stream example_session (pkt_ssrc ?buf) (pkt_seq ?buf) = Inr (Inr (Template, False, packet_index example_session ?buf, 7))"
    by code_simp
  have key: "\<not> fst (use_key Template (sk_limit example_keys) example_session)" by code_simp
  have st: "st_session_keys example_stream ! 0 = example_keys" "st_rtp_services example_stream = sec_serv_conf_and_auth"
    "stream_at example_session Template = example_stream" "sk_rtp_xtn_hdr_cipher example_keys = None"
    by (simp_all add: example_stream_def example_session_def stream_at_def example_keys_def Let_def)
  have left: "indices_left example_session 2" by (simp add: indices_left_def example_session_def)
  have "\<exists>rctx' buf''. srtp_unprotect example_crypto example_session example_packet 23 = Inr (srtp_err_status_ok, rctx', buf'', int 13)
      \<and> take 13 buf'' = take 13 ?buf"
    by (rule srtp_protect_roundtrip [OF example_laws(2,1) p _ src _ refl _ _ run left r0 found _ refl])
      (use example_auth key in \<open>simp_all add: st example_packet_def\<close>)
  with p show ?thesis by (auto simp: example_packet_def)
qed
end
