(* ===== verification/Srtcp.thy ===== *)
theory Srtcp
  imports Srtp_Roundtrip
begin

text \<open>
  Properties of RTCP packets: a protected packet is accepted by a receiver with the same keys, which gets it back; a packet with another
  tag changes nothing; and a packet that was accepted is refused when it comes again.
\<close>

section \<open>The word after a packet\<close>

lemma trailer_index:
  assumes "w < 2 ^ 31"
  shows "((if conf then SRTCP_E_BIT else 0) OR w) AND SRTCP_INDEX_MASK = w"
    "bit (put32 ((if conf then SRTCP_E_BIT else 0) OR w) ! 0) 7 = conf"
proof -
  have w: "n < 31" if "bit w n" for n
  proof -
    have "take_bit 31 (unat w) = unat w" using assms by (intro take_bit_nat_eq_self) (simp add: word_less_nat_alt)
    moreover have "bit (unat w) n" using that by (simp add: bit_unsigned_iff)
    ultimately show ?thesis by (metis bit_take_bit_iff)
  qed
  have c: "SRTCP_E_BIT = 2 ^ 31" "SRTCP_INDEX_MASK = mask 31" by (simp_all add: SRTCP_E_BIT_def SRTCP_INDEX_MASK_def mask_eq_exp_minus_1)
  have e: "bit SRTCP_E_BIT n \<longleftrightarrow> n = 31" "bit SRTCP_INDEX_MASK n \<longleftrightarrow> n < 31" for n
    unfolding c bit_exp_iff bit_mask_iff by auto
  show "((if conf then SRTCP_E_BIT else 0) OR w) AND SRTCP_INDEX_MASK = w"
    using w by (intro bit_word_eqI) (auto simp: bit_or_iff bit_and_iff e)
  show "bit (put32 ((if conf then SRTCP_E_BIT else 0) OR w) ! 0) 7 = conf"
    using w [of 31] by (auto simp: put32_def bit_simps e)
qed

abbreviation rtcp_pkt_ssrc :: "bytes \<Rightarrow> u32" where "rtcp_pkt_ssrc buf \<equiv> rtcp_ssrc (take 8 buf)"

definition rtcp_tag :: "srtp_crypto \<Rightarrow> srtp_auth \<Rightarrow> bytes \<Rightarrow> bytes option" where
  "rtcp_tag cr a packet = map_option (take (au_out_len a)) (cr_hmac cr (au_key a) packet)"

section \<open>Sending\<close>

text \<open>The payload encrypted, or as it is where the service is not asked for.\<close>

definition payload :: "srtp_crypto \<Rightarrow> srtp_cipher \<Rightarrow> bytes \<Rightarrow> bool \<Rightarrow> bytes \<Rightarrow> bytes option" where
  "payload cr c iv conf data = (if conf then srtp_cipher_encrypt cr c iv 0 data else Some data)"

lemma payload_inverse:
  assumes "ctr_law cr" "payload cr c iv conf data = Some out"
  shows "length out = length data" "payload cr c iv conf out = Some data"
  using srtp_cipher_encrypt_inverse [OF assms(1), of c iv 0 data out] assms(2) by (auto simp: payload_def split: if_splits)

lemma take_drop_parts: "take a xs @ take n (drop a xs) @ drop (a + n) xs = xs"
  by (metis add.commute append_take_drop_id drop_drop)

lemma rtcp_crypt_ok:
  assumes "au_prefix_len (sk_rtcp_auth keys) = 0" "sending \<longrightarrow> srtp_cipher_encrypt cr (sk_rtcp_cipher keys) iv 0 [] = Some []"
    and "payload cr (sk_rtcp_cipher keys) iv conf (take n (drop 8 buf)) = Some out" "length out = n" "8 + n \<le> length buf" "tag \<le> length buf"
  shows "rtcp_crypt sending cr keys iv tag conf n buf = Inr (srtp_err_status_ok, take 8 buf @ out @ drop (8 + n) buf)"
  using assms take_drop_parts [of 8 buf n]
  by (auto simp: rtcp_crypt_def srtp_cipher_output_def put_ok getr_ok payload_def Let_def split: if_splits option.splits)

lemma protect_rtcp_packet_ok:
  assumes law: "ctr_law cr" "hmac_law cr" and a: "hmac_auth (sk_rtcp_auth keys)" and len: "8 \<le> len" "len \<le> length buf"
    and conf: "conf = has_conf (st_rtcp_services stream)" and iv: "iv = rtcp_iv (sk_rtcp_cipher keys) ssrc seq_num"
    and tr: "trailer = put32 ((if conf then SRTCP_E_BIT else 0) OR seq_num)"
    and ok: "protect_rtcp_packet cr stream keys ssrc seq_num len (len + 4) buf = Inr (srtp_err_status_ok, buf')"
  obtains enc tag where "payload cr (sk_rtcp_cipher keys) iv conf (take (len - 8) (drop 8 buf)) = Some enc" "length enc = len - 8"
    "rtcp_tag cr (sk_rtcp_auth keys) (take 8 buf @ enc @ trailer) = Some tag" "length tag = au_out_len (sk_rtcp_auth keys)"
    "buf' = take 8 buf @ enc @ trailer @ tag @ drop (len + 4 + length tag) buf" "len + 4 + length tag \<le> length buf"
proof -
  let ?a = "sk_rtcp_auth keys" and ?c = "sk_rtcp_cipher keys" and ?data = "take (len - 8) (drop 8 buf)"
  have a0: "au_prefix_len ?a = 0" "au_id ?a = SRTP_HMAC_SHA1" "au_out_len ?a \<le> 16" using a by (simp_all add: hmac_auth_def)
  have t4: "length trailer = 4" by (simp add: tr put32_def)
  obtain b1 where b1: "put buf len trailer = Inr b1"
    using ok unfolding protect_rtcp_packet_def Let_def tr conf by (auto elim!: bindrE)
  then have l4: "len + 4 \<le> length buf" "b1 = take len buf @ trailer @ drop (len + 4) buf"
    by (auto simp: put_def wr_def t4 split: if_splits)
  then obtain b2 where b2: "rtcp_crypt True cr keys iv (len + 4) conf (len - 8) b1 = Inr (srtp_err_status_ok, b2)"
    using ok b1 unfolding protect_rtcp_packet_def Let_def tr conf iv by (auto elim!: bindrE split: if_split_asm)
  have data: "take (len - 8) (drop 8 b1) = ?data" "8 + (len - 8) \<le> length b1" "take 8 b1 = take 8 buf" "drop len b1 = trailer @ drop (len + 4) buf"
    using l4 len by (simp_all add: t4 drop_take)
  from b2 obtain x where x: "srtp_cipher_encrypt cr ?c iv 0 [] = Some x"
    by (auto simp: rtcp_crypt_def a0 Let_def srtp_cipher_output_def split: option.split_asm)
  then have "x = []" using srtp_cipher_encrypt_inverse(1) [OF law(1) x] by simp
  then have none: "srtp_cipher_encrypt cr ?c iv 0 [] = Some []" using x by simp
  have "put b1 (len + 4) [] = Inr b1" using l4 t4 by (simp add: put_ok)
  with b2 none obtain enc where e: "payload cr ?c iv conf ?data = Some enc"
    by (auto simp: rtcp_crypt_def a0 Let_def payload_def data(1,2) getr_ok srtp_cipher_output_def split: option.split_asm if_split_asm)
  have el: "length enc = len - 8" using payload_inverse(1) [OF law(1) e] l4(1) len by simp
  have b2': "b2 = take 8 buf @ enc @ trailer @ drop (len + 4) buf"
    using none rtcp_crypt_ok [OF a0(1), of True cr iv conf "len - 8" b1 enc "len + 4"] e el b2 data l4 len t4 by simp
  have msg: "getr b2 0 (len + 4) = Inr (take 8 buf @ enc @ trailer)" unfolding b2' using l4(1) len el t4 by (simp add: getr_ok)
  from ok b1 b2 obtain old t where t: "getr b2 (len + 4) (au_out_len ?a) = Inr old"
      "srtp_auth_compute cr ?a (take 8 buf @ enc @ trailer) old = Some t" "put b2 (len + 4) t = Inr buf'"
    unfolding protect_rtcp_packet_def Let_def tr conf iv
    by (auto simp: msg [unfolded tr conf] elim!: bindrE split: option.split_asm if_split_asm)
  have tag: "rtcp_tag cr ?a (take 8 buf @ enc @ trailer) = Some t" using t(2) a0 by (simp add: srtp_auth_compute_def rtcp_tag_def)
  then have tl: "length t = au_out_len ?a" using law(2) a0(3) by (auto simp: rtcp_tag_def hmac_law_def)
  have l2: "length b2 = length buf" unfolding b2' using l4(1) len el t4 by simp
  then have room: "len + 4 + length t \<le> length buf" using t(1) by (simp add: getr_eq_Inr tl)
  have "buf' = take (len + 4) b2 @ t @ drop (len + 4 + length t) b2" using t(3) room l2 by (simp add: put_ok)
  also have "\<dots> = take 8 buf @ enc @ trailer @ t @ drop (len + 4 + length t) buf"
    unfolding b2' using l4(1) len el t4 by (simp add: add.commute)
  finally show thesis using e el tag tl room by (intro that)
qed


text \<open>The database of a source, which for a new source is empty.\<close>

definition rtcp_database :: "srtp_ctx \<Rightarrow> u32 \<Rightarrow> srtp_rdb" where
  "rtcp_database ctx ssrc = (case srtp_get_stream ctx ssrc of Some i \<Rightarrow> st_rtcp_rdb (cx_stream_list ctx ! i) | None \<Rightarrow> srtp_rdb_init)"

lemma rtcp_sender_stream:
  assumes "sending_stream (\<lambda>s. s) ctx ssrc = Inr (i, ctx1)" "source_stream ctx ssrc = Some src"
    and "stream = stream_at (check_direction dir_srtp_sender (Listed i) ctx1) (Listed i)"
  shows "st_session_keys stream = st_session_keys src \<and> st_rtcp_services stream = st_rtcp_services src \<and> st_rtcp_rdb stream = rtcp_database ctx ssrc"
proof (cases "srtp_get_stream ctx ssrc")
  case (Some j)
  then have "i = j" "ctx1 = ctx" "src = cx_stream_list ctx ! j" using assms(1,2) by (simp_all add: sending_stream_def source_stream_def)
  moreover obtain d' where "stream_at (check_direction dir_srtp_sender (Listed j) ctx) (Listed j) = (cx_stream_list ctx ! j)\<lparr>st_direction := d'\<rparr>"
    using check_direction_stream srtp_get_stream_Some [OF Some] by blast
  ultimately show ?thesis using assms(3) by (simp add: rtcp_database_def Some)
next
  case None
  then have t: "cx_stream_template ctx = Some src" using assms(2) by (simp add: source_stream_def)
  then obtain r where r: "srtp_rdbx_init (srtp_rdbx_get_window_size (st_rtp_rdbx src)) = Inr r"
    using assms(1) by (auto simp: sending_stream_def None srtp_stream_clone_def split: sum.splits)
  then have "i = 0" "cx_stream_list ctx1
      = src\<lparr>st_ssrc := ssrc, st_rtp_rdbx := r, st_rtcp_rdb := srtp_rdb_init, st_pending_roc := 0\<rparr> # cx_stream_list ctx"
    using assms(1) t by (auto simp: sending_stream_def None srtp_stream_clone_def srtp_stream_list_insert_def)
  moreover from this obtain d' where "stream = (cx_stream_list ctx1 ! 0)\<lparr>st_direction := d'\<rparr>"
    using check_direction_stream [of 0 ctx1 dir_srtp_sender] assms(3) by auto
  ultimately show ?thesis by (simp add: rtcp_database_def None)
qed

lemma srtp_rdb_increment_ok:
  assumes "srtp_rdb_increment rdb = (srtp_err_status_ok, rdb')"
  shows "srtp_rdb_get_value rdb' = rdb_window_start rdb + 1" "rdb_window_start rdb + 1 < 2 ^ 31"
proof -
  have "rdb_window_start rdb < 0x7FFFFFFF" "rdb' = rdb\<lparr>rdb_window_start := rdb_window_start rdb + 1\<rparr>"
    using assms by (auto simp: srtp_rdb_increment_def not_le split: if_splits)
  then show "srtp_rdb_get_value rdb' = rdb_window_start rdb + 1" "rdb_window_start rdb + 1 < 2 ^ 31"
    by (simp_all add: srtp_rdb_get_value_def word_less_nat_alt unat_word_ariths)
qed

lemma srtp_protect_rtcp_ok:
  assumes ok: "srtp_protect_rtcp cr ctx buf len = Inr (srtp_err_status_ok, ctx', buf', n)" and src: "source_stream ctx (rtcp_pkt_ssrc buf) = Some src"
    and p: "p = rdb_window_start (rtcp_database ctx (rtcp_pkt_ssrc buf)) + 1"
  obtains stream where "8 \<le> len" "p < 2 ^ 31" "st_rtcp_services stream = st_rtcp_services src"
    "protect_rtcp_packet cr stream (st_session_keys src ! 0) (rtcp_pkt_ssrc buf) p len (len + 4) buf = Inr (srtp_err_status_ok, buf')"
    "n = len + au_out_len (sk_rtcp_auth (st_session_keys src ! 0)) + 4"
proof -
  have ne: "srtp_rdb_increment r = (st, r') \<Longrightarrow> st = srtp_err_status_ok \<or> st = srtp_err_status_key_expired" for r st r'
    by (auto simp: srtp_rdb_increment_def split: if_splits)
  from ok obtain i ctx1 where len: "8 \<le> len" "8 \<le> length buf" and send: "sending_stream (\<lambda>s. s) ctx (rtcp_pkt_ssrc buf) = Inr (i, ctx1)"
    unfolding srtp_protect_rtcp_def srtp_protect_rtcp_mki_def Let_def
    by (auto simp: getr_eq_Inr sending_stream_error elim!: bindrE split: if_split_asm sum.split_asm)
  define stream where "stream = stream_at (check_direction dir_srtp_sender (Listed i) ctx1) (Listed i)"
  note s = rtcp_sender_stream [OF send src stream_def]
  obtain st rdb where inc: "srtp_rdb_increment (rtcp_database ctx (rtcp_pkt_ssrc buf)) = (st, rdb)" by fastforce
  have "st = srtp_err_status_ok"
    "protect_rtcp_packet cr stream (st_session_keys src ! 0) (rtcp_pkt_ssrc buf) (srtp_rdb_get_value rdb) len (len + 4) buf = Inr (srtp_err_status_ok, buf')"
    "n = len + au_out_len (sk_rtcp_auth (st_session_keys src ! 0)) + 4"
    using ok len send inc s unfolding srtp_protect_rtcp_def srtp_protect_rtcp_mki_def Let_def
    by (auto simp: getr_ok stream_def [symmetric] srtp_get_session_keys_with_mki_index_def srtp_inject_mki_def elim!: bindrE split: if_split_asm)
  then show thesis using that [of stream] len s srtp_rdb_increment_ok [of "rtcp_database ctx (rtcp_pkt_ssrc buf)" rdb] inc p by simp
qed

section \<open>Receiving\<close>

lemma check_direction_rtcp:
  "map (\<lambda>s. (st_ssrc s, st_session_keys s, st_rtcp_services s, st_rtcp_rdb s)) (cx_stream_list (check_direction d r ctx))
   = map (\<lambda>s. (st_ssrc s, st_session_keys s, st_rtcp_services s, st_rtcp_rdb s)) (cx_stream_list ctx)"
  by (auto simp: check_direction_def stream_simps map_update list_update_same_conv split: stream_ref.split intro!: nth_equalityI)
    (metis (no_types, lifting) list_update_id map_update nth_map list_update_beyond not_le)+

text \<open>The stream of the source after a packet was accepted: its keys and services are those of before, and the index is in its database.\<close>

lemma accept_rtcp_packet_ok:
  assumes r: "find_receiver ctx ssrc = Some r" and r0: "receiver_of ctx ssrc r0"
    and add: "srtp_rdb_add_index (rtcp_database ctx ssrc) p = Inr (st, rdb')"
  obtains ctx' i where "accept_rtcp_packet r ssrc p ctx = Inr (srtp_err_status_ok, ctx')" "find_receiver ctx' ssrc = Some (Listed i)"
    "st_session_keys (stream_at ctx' (Listed i)) = st_session_keys (stream_at ctx r)"
    "st_rtcp_services (stream_at ctx' (Listed i)) = st_rtcp_services (stream_at ctx r)" "st_rtcp_rdb (stream_at ctx' (Listed i)) = rdb'"
proof (cases "srtp_get_stream ctx ssrc")
  case (Some i)
  let ?c = "check_direction dir_srtp_receiver (Listed i) ctx"
  have r: "r = Listed i" using r Some by (simp add: find_receiver_def)
  have i: "i < length (cx_stream_list ctx)" using srtp_get_stream_Some [OF Some] by simp
  obtain d' where c: "stream_at ?c (Listed i) = (cx_stream_list ctx ! i)\<lparr>st_direction := d'\<rparr>" using check_direction_stream [OF i] by blast
  have ic: "i < length (cx_stream_list ?c)" using check_direction_nth(1) [OF i] .
  define ctx' where "ctx' = upd_stream (Listed i) (\<lambda>s. s\<lparr>st_rtcp_rdb := rdb'\<rparr>) ?c"
  have "accept_rtcp_packet r ssrc p ctx = Inr (srtp_err_status_ok, ctx')"
    using add by (simp add: accept_rtcp_packet_def record_rtcp_index_def r c rtcp_database_def Some ctx'_def)
  moreover have "map st_ssrc (cx_stream_list ctx') = map st_ssrc (cx_stream_list ctx)"
    using ic arg_cong [OF check_direction_rtcp [of dir_srtp_receiver "Listed i" ctx], of "map fst"]
    by (simp add: ctx'_def upd_stream_def map_update comp_def check_direction_nth(2) [OF i] list_update_same_conv i)
  then have "srtp_get_stream ctx' ssrc = Some i" using Some srtp_stream_list_get_cong by (metis srtp_get_stream_def)
  moreover have "stream_at ctx' (Listed i) = (cx_stream_list ctx ! i)\<lparr>st_direction := d', st_rtcp_rdb := rdb'\<rparr>"
    using c ic by (simp add: ctx'_def upd_stream_def stream_at_def)
  ultimately show thesis using that [of ctx' i] by (simp add: find_receiver_def r stream_at_def)
next
  case None
  let ?c = "check_direction dir_srtp_receiver Template ctx"
  from r0 None obtain t where t: "cx_stream_template ctx = Some t" "srtp_rdbx_init (srtp_rdbx_get_window_size (st_rtp_rdbx t)) = Inr r0"
    by (auto simp: receiver_of_def)
  have r: "r = Template" using r None by (auto simp: find_receiver_def split: if_splits)
  obtain d' where c: "stream_at ?c Template = t\<lparr>st_direction := d'\<rparr>"
  proof (cases "st_direction t = dir_unknown")
    case True
    then show thesis using t by (intro that [of dir_srtp_receiver]) (simp add: check_direction_def stream_simps)
  next
    case False
    then show thesis using t by (intro that [of "st_direction t"]) (simp add: check_direction_def stream_simps)
  qed
  define s where "s = (t\<lparr>st_direction := d'\<rparr>)\<lparr>st_ssrc := ssrc, st_rtp_rdbx := r0, st_rtcp_rdb := srtp_rdb_init, st_pending_roc := 0\<rparr>"
  define ctx' where "ctx' = upd_stream (Listed 0) (\<lambda>s. s\<lparr>st_rtcp_rdb := rdb'\<rparr>) (srtp_stream_list_insert s ?c)"
  have "srtp_stream_clone (stream_at ?c Template) ssrc = Inr s" using t(2) by (simp add: srtp_stream_clone_def c s_def)
  then have "accept_rtcp_packet r ssrc p ctx = Inr (srtp_err_status_ok, ctx')"
    using add by (simp add: accept_rtcp_packet_def record_rtcp_index_def r rtcp_database_def None ctx'_def
        stream_at_def srtp_stream_list_insert_def s_def Let_def)
  moreover have l: "cx_stream_list ctx' ! 0 = s\<lparr>st_rtcp_rdb := rdb'\<rparr>" "srtp_get_stream ctx' ssrc = Some 0"
    by (simp_all add: ctx'_def upd_stream_def srtp_stream_list_insert_def stream_at_def srtp_get_stream_def s_def)
  ultimately show thesis using that [of ctx' 0] t(1) by (simp add: find_receiver_def r stream_at_def s_def)
qed

lemma rtcp_check_tag:
  assumes "hmac_law cr" "hmac_auth a" "length tag = au_out_len a"
  shows "check_tag cr a msg [] tag = Inr (if rtcp_tag cr a msg = Some tag then srtp_err_status_ok else srtp_err_status_auth_fail)"
  using check_tag_hmac [OF assms] by (simp add: rtcp_tag_def)

text \<open>The checks of a packet whose index is new: only the encryption bit and the tag decide.\<close>

lemma unprotect_rtcp_check_hmac:
  assumes law: "hmac_law cr" and r: "find_receiver ctx (rtcp_pkt_ssrc buf) = Some r" and k: "k = st_session_keys (stream_at ctx r) ! 0"
    and a: "hmac_auth (sk_rtcp_auth k)" and len: "12 + au_out_len (sk_rtcp_auth k) \<le> len" "len \<le> length buf"
    and tr: "trailer = take 4 (drop (len - au_out_len (sk_rtcp_auth k) - 4) buf)" "bit (trailer ! 0) 7 = has_conf (st_rtcp_services (stream_at ctx r))"
    and p: "p = get32 trailer AND SRTCP_INDEX_MASK" and st: "srtp_rdb_check (st_rtcp_rdb (stream_at ctx r)) p = Inr status"
  shows "unprotect_rtcp_check cr ctx buf len False =
    Inr (if status \<noteq> srtp_err_status_ok then Inl status
         else if rtcp_tag cr (sk_rtcp_auth k) (take (len - au_out_len (sk_rtcp_auth k)) buf)
                   = Some (take (au_out_len (sk_rtcp_auth k)) (drop (len - au_out_len (sk_rtcp_auth k)) buf))
              then Inr (r, k, len - au_out_len (sk_rtcp_auth k) - 4, p) else Inl srtp_err_status_auth_fail)"
proof -
  let ?n = "au_out_len (sk_rtcp_auth k)"
  have "length (take ?n (drop (len - ?n) buf)) = ?n" using len by simp
  note tag = rtcp_check_tag [OF law a this]
  have e: "len - ?n - 0 - 4 + 4 = len - ?n" "len - ?n - 0 - 4 = len - ?n - 4" using len(1) by simp_all
  show ?thesis using r len tr p st unfolding unprotect_rtcp_check_def Let_def
    by (simp add: getr_ok k [symmetric] e tag)
qed

section \<open>The properties\<close>

text \<open>C16: 
  A packet that was protected is accepted by a receiver with the same keys and services that has not received its index yet, and the receiver gets
  the packet that was sent back.
\<close>

theorem srtp_protect_rtcp_roundtrip:
  assumes "ctr_law cr" "hmac_law cr"
    and "srtp_protect_rtcp cr ctx buf len = Inr (srtp_err_status_ok, ctx', buf', n)" "len \<le> length buf"
    and "source_stream ctx (rtcp_pkt_ssrc buf) = Some src" "ks = st_session_keys src ! 0" "hmac_auth (sk_rtcp_auth ks)"
    and "find_receiver rctx (rtcp_pkt_ssrc buf) = Some r" "receiver_of rctx (rtcp_pkt_ssrc buf) r0"
    and "p = rdb_window_start (rtcp_database ctx (rtcp_pkt_ssrc buf)) + 1"
    and "rdb_run (rtcp_database rctx (rtcp_pkt_ssrc buf)) xs" "srtp_rdb_check (rtcp_database rctx (rtcp_pkt_ssrc buf)) p = Inr srtp_err_status_ok"
    and "srtp_rdb_check (st_rtcp_rdb (stream_at rctx r)) p = Inr srtp_err_status_ok"
    and "kr = st_session_keys (stream_at rctx r) ! 0" "sk_rtcp_cipher kr = sk_rtcp_cipher ks" "sk_rtcp_auth kr = sk_rtcp_auth ks"
    and "st_rtcp_services (stream_at rctx r) = st_rtcp_services src"
  shows "\<exists>rctx' buf''. srtp_unprotect_rtcp cr rctx buf' n = Inr (srtp_err_status_ok, rctx', buf'', len) \<and> take len buf'' = take len buf"
proof -
  let ?a = "sk_rtcp_auth ks" and ?conf = "has_conf (st_rtcp_services src)" and ?iv = "rtcp_iv (sk_rtcp_cipher ks) (rtcp_pkt_ssrc buf) p"
  define trailer where "trailer = put32 ((if ?conf then SRTCP_E_BIT else 0) OR p)"
  have t4: "length trailer = 4" by (simp add: trailer_def put32_def)
  obtain stream where st: "8 \<le> len" "p < 2 ^ 31" "st_rtcp_services stream = st_rtcp_services src"
    "protect_rtcp_packet cr stream ks (rtcp_pkt_ssrc buf) p len (len + 4) buf = Inr (srtp_err_status_ok, buf')" "n = len + au_out_len ?a + 4"
    using srtp_protect_rtcp_ok [OF assms(3,5,10)] assms(6) by blast
  obtain enc tag where enc: "payload cr (sk_rtcp_cipher ks) ?iv ?conf (take (len - 8) (drop 8 buf)) = Some enc" "length enc = len - 8"
    and tag: "rtcp_tag cr ?a (take 8 buf @ enc @ trailer) = Some tag" "length tag = au_out_len ?a"
    and buf': "buf' = take 8 buf @ enc @ trailer @ tag @ drop (len + 4 + length tag) buf" "len + 4 + length tag \<le> length buf"
    using protect_rtcp_packet_ok [OF assms(1,2,7) st(1) assms(4) _ refl _ st(4), of ?conf trailer] st(3) by (auto simp: trailer_def)
  have h: "take 8 buf' = take 8 buf" "n \<le> length buf'" using st(1,5) assms(4) enc(2) tag(2) buf'(2) t4 by (simp_all add: buf'(1))
  have pre: "take (len + 4) buf' = take 8 buf @ enc @ trailer" "take (au_out_len ?a) (drop (len + 4) buf') = tag" "take 4 (drop len buf') = trailer"
    "take (len - 8) (drop 8 buf') = enc" "drop len buf' = trailer @ tag @ drop (len + 4 + length tag) buf"
    using st(1) assms(4) enc(2) t4 tag(2) by (simp_all add: buf'(1))
  have nl: "n - au_out_len ?a = len + 4" "n - au_out_len ?a - 4 = len" using st(5) by simp_all
  have ssrc: "find_receiver rctx (rtcp_pkt_ssrc buf') = Some r" and a: "hmac_auth (sk_rtcp_auth kr)" "12 + au_out_len (sk_rtcp_auth kr) \<le> n"
    using assms(7,8,16) h(1) st(1,5) by simp_all
  have tr: "trailer = take 4 (drop (n - au_out_len (sk_rtcp_auth kr) - 4) buf')" using pre(3) nl(2) by (simp only: assms(16))
  have bit: "bit (trailer ! 0) 7 = has_conf (st_rtcp_services (stream_at rctx r))"
    unfolding trailer_def assms(17) by (rule trailer_index(2) [OF st(2)])
  have p: "p = get32 trailer AND SRTCP_INDEX_MASK" unfolding trailer_def get32_put32 by (rule trailer_index(1) [OF st(2), symmetric])
  have "unprotect_rtcp_check cr rctx buf' n False = Inr (Inr (r, kr, len, p))"
    unfolding unprotect_rtcp_check_hmac [OF assms(2) ssrc assms(14) a h(2) tr bit p assms(13)] assms(16) nl(2) using nl(1) pre(1,2) tag(1) by simp
  moreover have "rtcp_crypt False cr kr (rtcp_iv (sk_rtcp_cipher kr) (rtcp_pkt_ssrc buf') p) (len + 4) ?conf (len - 8) buf'
      = Inr (srtp_err_status_ok, take 8 buf' @ take (len - 8) (drop 8 buf) @ drop (8 + (len - 8)) buf')"
    using payload_inverse(2) [OF assms(1) enc(1)] pre(4) assms(4,7,15,16) st(1,5) h
    by (intro rtcp_crypt_ok) (simp_all add: hmac_auth_def)
  moreover obtain rctx' where "accept_rtcp_packet r (rtcp_pkt_ssrc buf) p rctx = Inr (srtp_err_status_ok, rctx')"
  proof -
    obtain rdb' where "srtp_rdb_add_index (rtcp_database rctx (rtcp_pkt_ssrc buf)) p = Inr (srtp_err_status_ok, rdb')"
      using rdb_run_inv [OF assms(11)] st(2) assms(12) by (rule rdb_accepts)
    with accept_rtcp_packet_ok [OF assms(8,9)] that show thesis by metis
  qed
  ultimately have "srtp_unprotect_rtcp cr rctx buf' n
      = Inr (srtp_err_status_ok, rctx', take 8 buf' @ take (len - 8) (drop 8 buf) @ drop (8 + (len - 8)) buf', len)"
    using h nl assms(16,17) st(1,5) by (simp add: srtp_unprotect_rtcp_def srtp_unprotect_rtcp_mki_def unprotect_rtcp_apply_def getr_ok)
  moreover have "take len (take 8 buf' @ take (len - 8) (drop 8 buf) @ drop (8 + (len - 8)) buf') = take len buf"
    using st(1) assms(4) h(1) take_add [of 8 "len - 8" buf] by simp
  ultimately show ?thesis by blast
qed

lemma index_bound: "w AND SRTCP_INDEX_MASK < 2 ^ 31"
proof -
  have "w AND SRTCP_INDEX_MASK = take_bit 31 w" by (simp add: SRTCP_INDEX_MASK_def take_bit_eq_mask mask_eq_exp_minus_1)
  moreover have "unat (take_bit 31 w) < 2 ^ 31" by (simp only: unsigned_take_bit_eq take_bit_nat_less_exp)
  ultimately show ?thesis by (simp add: word_less_nat_alt)
qed

text \<open>C19: A packet whose tag is not the one of its contents is refused, and neither the session nor the packet changes.\<close>

theorem srtp_unprotect_rtcp_forged:
  assumes "hmac_law cr" "find_receiver ctx (rtcp_pkt_ssrc buf) = Some r" "rdb_run (st_rtcp_rdb (stream_at ctx r)) xs" "len \<le> length buf"
    and "a = sk_rtcp_auth (st_session_keys (stream_at ctx r) ! 0)" "hmac_auth a"
    and "rtcp_tag cr a (take (len - au_out_len a) buf) \<noteq> Some (take (au_out_len a) (drop (len - au_out_len a) buf))"
  shows "\<exists>status. status \<noteq> srtp_err_status_ok \<and> srtp_unprotect_rtcp cr ctx buf len = Inr (status, ctx, buf, len)"
proof -
  define k where "k = st_session_keys (stream_at ctx r) ! 0"
  define trailer where "trailer = take 4 (drop (len - au_out_len (sk_rtcp_auth k) - 4) buf)"
  have a: "a = sk_rtcp_auth k" using assms(5) by (simp add: k_def)
  have "\<exists>status. status \<noteq> srtp_err_status_ok \<and> unprotect_rtcp_check cr ctx buf len False = Inr (Inl status)"
  proof (cases "12 + au_out_len a \<le> len \<and> bit (trailer ! 0) 7 = has_conf (st_rtcp_services (stream_at ctx r))")
    case True
    note st = srtp_rdb_check_verdict [OF rdb_run_inv [OF assms(3)] index_bound [of "get32 trailer"]]
    show ?thesis
      unfolding unprotect_rtcp_check_hmac [OF assms(1,2) k_def assms(6) [unfolded a] _ assms(4) trailer_def True [THEN conjunct2] refl st,
          OF True [THEN conjunct1, unfolded a]]
      using assms(7) by (auto simp: a)
  next
    case False
    then show ?thesis using assms(2,4) by (auto simp: unprotect_rtcp_check_def Let_def getr_ok k_def [symmetric] a trailer_def)
  qed
  then show ?thesis by (auto simp: srtp_unprotect_rtcp_def srtp_unprotect_rtcp_mki_def)
qed

text \<open>What the checks of a packet depend on.\<close>

lemma unprotect_rtcp_check_again:
  assumes "unprotect_rtcp_check cr ctx buf len m = Inr (Inr (r, keys, plain, p))"
    and "find_receiver ctx' (rtcp_pkt_ssrc buf) = Some r'" "st_session_keys (stream_at ctx' r') = st_session_keys (stream_at ctx r)"
    and "st_rtcp_services (stream_at ctx' r') = st_rtcp_services (stream_at ctx r)"
    and "srtp_rdb_check (st_rtcp_rdb (stream_at ctx' r')) p = Inr status" "status \<noteq> srtp_err_status_ok"
  shows "unprotect_rtcp_check cr ctx' buf len m = Inr (Inl status)"
  using assms unfolding unprotect_rtcp_check_def Let_def srtp_get_session_keys_rtcp_def srtp_get_session_keys_def
  by (auto simp: getr_eq_Inr getr_ok elim!: bindrE split: if_split_asm option.split_asm prod.split_asm)

lemma unprotect_rtcp_check_found:
  assumes "unprotect_rtcp_check cr ctx buf len m = Inr (Inr (r, keys, plain, p))"
  shows "find_receiver ctx (rtcp_pkt_ssrc buf) = Some r" "p < 2 ^ 31" "srtp_rdb_check (st_rtcp_rdb (stream_at ctx r)) p = Inr srtp_err_status_ok"
  using assms index_bound unfolding unprotect_rtcp_check_def Let_def
  by (auto simp: getr_eq_Inr elim!: bindrE split: if_split_asm option.split_asm prod.split_asm)

lemma unprotect_rtcp_check_error: "unprotect_rtcp_check cr ctx buf len m \<noteq> Inr (Inl srtp_err_status_ok)"
proof
  assume "unprotect_rtcp_check cr ctx buf len m = Inr (Inl srtp_err_status_ok)"
  then show False unfolding unprotect_rtcp_check_def Let_def
    by (auto elim!: bindrE split: if_split_asm option.split_asm prod.split_asm)
qed

lemma accept_rtcp_receiver:
  assumes "find_receiver ctx ssrc = Some r" "accept_rtcp_packet r ssrc p ctx = Inr (srtp_err_status_ok, ctx')"
  shows "\<exists>r0. receiver_of ctx ssrc r0"
proof (cases "srtp_get_stream ctx ssrc")
  case None
  then obtain t where t: "cx_stream_template ctx = Some t" "r = Template" using assms(1) by (auto simp: find_receiver_def split: if_splits)
  have "template_window (check_direction dir_srtp_receiver Template ctx) = Some (srtp_rdbx_get_window_size (st_rtp_rdbx t))" by (simp add: t)
  then have w: "srtp_rdbx_get_window_size (st_rtp_rdbx (stream_at (check_direction dir_srtp_receiver Template ctx) Template))
      = srtp_rdbx_get_window_size (st_rtp_rdbx t)" by (auto simp: stream_at_def simp del: check_direction_states)
  have "srtp_rdbx_init (srtp_rdbx_get_window_size (st_rtp_rdbx t)) \<noteq> Inl srtp_err_status_ok"
    by (auto simp: srtp_rdbx_init_def bitvector_alloc_def Let_def split: if_splits option.splits)
  then show ?thesis using assms(2) t
    by (cases "srtp_rdbx_init (srtp_rdbx_get_window_size (st_rtp_rdbx t))")
      (auto simp: accept_rtcp_packet_def Let_def srtp_stream_clone_def w receiver_of_def None)
qed (simp add: receiver_of_def)


section \<open>An example\<close>

text \<open>A packet from the source 9 in the session of the example, and what is sent for it.\<close>

definition example_report :: bytes where
  "example_report = [0x80, 200, 0, 2, 0, 0, 0, 9, 1, 2, 3, 4] @ replicate 14 0"

definition example_rtcp :: bytes where
  "example_rtcp = [0x80, 200, 0, 2, 0, 0, 0, 9, 0x5B, 0x58, 0x59, 0x5E, 0x80, 0, 0, 1] @ replicate 10 0x3E"

lemma example_no_stream: "srtp_get_stream example_session ssrc = None"
  by (simp add: srtp_get_stream_def example_session_def)

lemma example_database: "rtcp_database example_session ssrc = srtp_rdb_init"
  by (simp add: rtcp_database_def example_no_stream)

lemma example_receiver: "find_receiver example_session ssrc = Some Template"
  by (simp add: find_receiver_def example_no_stream) (simp add: example_session_def)

lemma example_template: "stream_at example_session Template = example_stream" "st_session_keys example_stream ! 0 = example_keys"
  "st_rtcp_rdb example_stream = srtp_rdb_init" "st_rtcp_services example_stream = sec_serv_conf_and_auth"
  by (simp_all add: stream_at_def example_session_def example_stream_def)

lemma example_rtcp_auth: "hmac_auth (sk_rtcp_auth example_keys)" "au_out_len (sk_rtcp_auth example_keys) = 10"
  by (simp_all add: example_keys_def hmac_auth_def Let_def)

theorem srtp_protect_rtcp_roundtrip_witness:
  "\<exists>ctx' rctx' buf''. srtp_protect_rtcp example_crypto example_session example_report 12 = Inr (srtp_err_status_ok, ctx', example_rtcp, 26)
     \<and> srtp_unprotect_rtcp example_crypto example_session example_rtcp 26 = Inr (srtp_err_status_ok, rctx', buf'', 12)
     \<and> take 12 buf'' = take 12 example_report"
proof -
  have "case srtp_protect_rtcp example_crypto example_session example_report 12 of
      Inr (s, _, b, n) \<Rightarrow> s = srtp_err_status_ok \<and> b = example_rtcp \<and> n = 26 | Inl _ \<Rightarrow> False" by code_simp
  then obtain ctx' where p: "srtp_protect_rtcp example_crypto example_session example_report 12 = Inr (srtp_err_status_ok, ctx', example_rtcp, 26)"
    by (auto split: sum.splits prod.splits)
  have src: "source_stream example_session (rtcp_pkt_ssrc example_report) = Some example_stream"
    unfolding source_stream_def example_no_stream by (simp add: example_session_def)
  have "srtp_rdbx_init 32 = Inr \<lparr>rx_index = 0, rx_bitmask = \<lparr>bv_length = 32, bv_word = [0, 0, 0, 0]\<rparr>\<rparr>" by code_simp
  then have r0: "receiver_of example_session (rtcp_pkt_ssrc example_report) \<lparr>rx_index = 0, rx_bitmask = \<lparr>bv_length = 32, bv_word = [0, 0, 0, 0]\<rparr>\<rparr>"
    unfolding receiver_of_def example_no_stream by (simp add: example_session_def example_stream_def srtp_rdbx_get_window_size_def)
  have new: "srtp_rdb_check srtp_rdb_init (rdb_window_start srtp_rdb_init + 1) = Inr srtp_err_status_ok" by code_simp
  have "\<exists>rctx' buf''. srtp_unprotect_rtcp example_crypto example_session example_rtcp 26 = Inr (srtp_err_status_ok, rctx', buf'', 12)
      \<and> take 12 buf'' = take 12 example_report"
    by (rule srtp_protect_rtcp_roundtrip [OF example_laws(2,1) p _ src refl _ example_receiver r0 refl, of "[]" "st_session_keys (stream_at example_session Template) ! 0"])
      (use rdb_run.init new example_rtcp_auth in \<open>simp_all add: example_template example_database example_report_def\<close>)
  with p show ?thesis by blast
qed

theorem srtp_unprotect_rtcp_forged_witness:
  "\<exists>status. status \<noteq> srtp_err_status_ok
     \<and> srtp_unprotect_rtcp example_crypto example_session (example_rtcp[25 := 0]) 26 = Inr (status, example_session, example_rtcp[25 := 0], 26)"
proof (rule srtp_unprotect_rtcp_forged [OF example_laws(1) example_receiver])
  show "rdb_run (st_rtcp_rdb (stream_at example_session Template)) []" by (simp add: example_template rdb_run.init)
  show "rtcp_tag example_crypto (sk_rtcp_auth example_keys) (take (26 - au_out_len (sk_rtcp_auth example_keys)) (example_rtcp[25 := 0]))
      \<noteq> Some (take (au_out_len (sk_rtcp_auth example_keys)) (drop (26 - au_out_len (sk_rtcp_auth example_keys)) (example_rtcp[25 := 0])))"
    by code_simp
qed (simp_all add: example_template example_rtcp_auth example_rtcp_def)

end
