(* ===== verification/Srtp_Bounds.thy ===== *)
theory Srtp_Bounds
  imports Srtp_Roundtrip
begin

text \<open>
  Memory safety of the receiver: whatever packet arrives, \<open>srtp_unprotect_mki\<close> reads and writes only inside the packet, its local array and the replay window.
\<close>

section \<open>Header extensions\<close>

lemma put_bounds [safe]: "off + length xs \<le> length buf \<Longrightarrow> in_bounds (put buf off xs)"
  by (simp add: put_ok)

lemma put_length: "put buf off xs = Inr buf' \<Longrightarrow> length buf' = length buf"
  by (auto simp: put_def wr_def split: if_splits)

lemma srtp_cipher_output_length: "ctr_law cr \<Longrightarrow> srtp_cipher_output cr c iv pos n = Some ks \<Longrightarrow> length ks = n"
  using srtp_cipher_encrypt_inverse(1) [of cr c iv pos "replicate n 0" ks] by (simp add: srtp_cipher_output_def)

lemma skip_padding_bounds [safe]: "pos \<le> en \<Longrightarrow> en \<le> length buf \<Longrightarrow> in_bounds (skip_padding buf en pos)"
  by (auto simp: skip_padding_def intro!: safe)

definition more :: "bool \<Rightarrow> nat \<Rightarrow> nat \<Rightarrow> bool" where
  "more two pos en \<longleftrightarrow> (if two then pos + 1 < en else pos < en)"

lemma xtn_step_bounds:
  assumes law: "ctr_law cr" and en: "en \<le> length buf" "more two pos en"
  shows "in_bounds (xtn_step cr c iv stream two en kpos pos buf)"
  using en unfolding xtn_step_def Let_def more_def
  by (auto simp: getr_eq_Inr dest!: put_length elim!: bindrE intro!: safe split: option.split prod.split if_split_asm)

lemma xtn_step_length: "xtn_step cr c iv stream two en kpos pos buf = Inr (st, k, p, buf') \<Longrightarrow> length buf' = length buf"
  by (auto simp: xtn_step_def Let_def dest!: put_length elim!: bindrE split: if_split_asm option.split_asm prod.split_asm)

lemma xtn_loop_bounds: "ctr_law cr \<Longrightarrow> en \<le> length buf \<Longrightarrow> in_bounds (xtn_loop cr c iv stream two en kpos pos buf)"
proof (induction cr c iv stream two en kpos pos buf rule: xtn_loop.induct)
  case (1 cr c iv stream two en kpos pos buf)
  show ?case
  proof (cases "more two pos en")
    case True
    have "in_bounds (xtn_step cr c iv stream two en kpos pos buf)" using 1(2,3) True by (rule xtn_step_bounds)
    moreover have "in_bounds (xtn_loop cr c iv stream two en k p b)" if "xtn_step cr c iv stream two en kpos pos buf = Inr (None, k, p, b)" for k p b
      using 1(1) [of "(None, k, p, b)" None "(k, p, b)" k "(p, b)" p b] that 1(2,3) True xtn_step_length [OF that] by (auto simp: more_def)
    ultimately show ?thesis using True
      by (subst xtn_loop.simps) (auto simp: more_def in_bounds_def split: sum.split prod.split option.split)
  next
    case False
    then show ?thesis by (subst xtn_loop.simps) (simp add: more_def)
  qed
qed

lemma xtn_loop_length: "xtn_loop cr c iv stream two en kpos pos buf = Inr (st, buf') \<Longrightarrow> length buf' = length buf"
proof (induction cr c iv stream two en kpos pos buf rule: xtn_loop.induct)
  case (1 cr c iv stream two en kpos pos buf)
  show ?case
  proof (cases "more two pos en")
    case True
    with 1(2) xtn_loop.simps [of cr c iv stream two en kpos pos buf, folded more_def] consider st' k p where "xtn_step cr c iv stream two en kpos pos buf = Inr (Some st', k, p, buf')"
      | k p b where "xtn_step cr c iv stream two en kpos pos buf = Inr (None, k, p, b)" "xtn_loop cr c iv stream two en k p b = Inr (st, buf')"
      by (auto split: sum.split_asm prod.split_asm option.split_asm)
    then show ?thesis
    proof cases
      case 1
      then show ?thesis by (rule xtn_step_length)
    next
      case 2
      then show ?thesis using "1"(1) [of "(None, k, p, b)" None "(k, p, b)" k "(p, b)" p b] True xtn_step_length [OF 2(1)] by (auto simp: more_def)
    qed
  next
    case False
    then show ?thesis using 1(2) by (subst (asm) xtn_loop.simps) (simp add: more_def)
  qed
qed


lemma srtp_process_header_encryption_bounds:
  assumes "ctr_law cr" "bindr (srtp_get_rtp_xtn_hdr_len buf xtn) (\<lambda>xl. Inr (xtn + xl)) = Inr st" "st \<le> length buf"
  shows "in_bounds (srtp_process_header_encryption cr c iv stream xtn buf)"
proof -
  have "xtn + 4 \<le> length buf" "xtn + 4 + unat (get16 (drop 2 (take 4 (drop xtn buf)))) * 4 \<le> length buf"
    using assms(2,3) by (auto simp: srtp_get_rtp_xtn_hdr_len_def getr_eq_Inr elim!: bindrE)
  then show ?thesis using assms(1)
    by (simp add: srtp_process_header_encryption_def getr_ok Let_def xtn_loop_bounds)
qed

lemma srtp_process_header_encryption_length:
  "srtp_process_header_encryption cr c iv stream xtn buf = Inr (st, buf') \<Longrightarrow> length buf' = length buf"
  by (auto simp: srtp_process_header_encryption_def Let_def dest!: xtn_loop_length elim!: bindrE split: if_split_asm)

section \<open>The checks\<close>

lemma srtp_validate_rtp_header_bounds: "len \<le> length buf \<Longrightarrow> in_bounds (srtp_validate_rtp_header buf len)"
  by (auto simp: srtp_validate_rtp_header_def srtp_get_rtp_xtn_hdr_len_def Let_def getr_eq_Inr intro!: safe)

lemma validated_start:
  assumes "srtp_validate_rtp_header buf len = Inr srtp_err_status_ok" "len \<le> length buf"
  shows "12 \<le> len" "\<exists>st \<le> len. enc_start (take 12 buf) buf = Inr st"
  using assms by (auto simp: srtp_validate_rtp_header_def enc_start_def srtp_get_rtp_xtn_hdr_len_def Let_def getr_ok elim!: bindrE split: if_split_asm)

text \<open>Keys as \<open>srtp_stream_alloc\<close> makes them from a policy: the tag is not longer than a header, and the null function asks for a prefix of this length.\<close>

definition auth_ok :: "srtp_auth \<Rightarrow> bool" where
  "auth_ok a \<longleftrightarrow> au_out_len a \<le> 12 \<and> au_prefix_len a = (case au_id a of SRTP_NULL_AUTH \<Rightarrow> au_out_len a | SRTP_HMAC_SHA1 \<Rightarrow> 0)"

definition keys_ok :: "srtp_session_keys list \<Rightarrow> bool" where
  "keys_ok ks \<longleftrightarrow> ks \<noteq> [] \<and> (\<forall>k \<in> set ks. auth_ok (sk_rtp_auth k) \<and> au_out_len (sk_rtp_auth k) = au_out_len (sk_rtp_auth (ks ! 0)))"

lemma keys_okD:
  assumes "keys_ok ks" "k \<in> set ks"
  shows "auth_ok (sk_rtp_auth k)" "au_out_len (sk_rtp_auth k) = au_out_len (sk_rtp_auth (ks ! 0))"
  using assms unfolding keys_ok_def by blast+

lemma keys_ok_first:
  assumes "keys_ok ks"
  shows "auth_ok (sk_rtp_auth (ks ! 0))"
proof -
  have "ks \<noteq> []" using assms unfolding keys_ok_def by (rule conjunct1)
  then have "ks ! 0 \<in> set ks" by simp
  with assms show ?thesis by (rule keys_okD(1))
qed

lemma find_mki_bounds:
  assumes "base \<le> length hdr"
  obtains r where "find_mki ks hdr base = Inr r" "case r of (None, _) \<Rightarrow> True | (Some k, n) \<Rightarrow> k \<in> set ks \<and> n \<le> base"
  using assms
proof (induction ks arbitrary: thesis)
  case (Cons k ks)
  obtain r where r: "find_mki ks hdr base = Inr r" "case r of (None, _) \<Rightarrow> True | (Some k, n) \<Rightarrow> k \<in> set ks \<and> n \<le> base"
    using Cons.IH Cons.prems(2) by blast
  show ?case
  proof (cases "sk_mki_id k \<noteq> [] \<and> length (sk_mki_id k) \<le> base
      \<and> take (length (sk_mki_id k)) (drop (base - length (sk_mki_id k)) hdr) = sk_mki_id k")
    case True
    then show ?thesis using Cons.prems by (intro Cons.prems(1) [of "(Some k, length (sk_mki_id k))"]) (auto simp: getr_ok Let_def)
  next
    case False
    then have "find_mki (k # ks) hdr base = Inr r" using r(1) Cons.prems(2) by (auto simp: getr_ok Let_def)
    then show ?thesis using r(2) by (intro Cons.prems(1)) (auto split: prod.splits option.splits)
  qed
qed simp

lemma check_tag_bounds:
  assumes "hmac_law cr" "auth_ok a" "length prefix = au_prefix_len a" "length tag = au_out_len a"
  shows "in_bounds (check_tag cr a msg prefix tag)"
proof (cases "au_id a")
  case SRTP_NULL_AUTH
  then show ?thesis using assms
    by (auto simp: check_tag_def srtp_auth_compute_def auth_ok_def SRTP_MAX_TAG_LEN_def srtp_octet_string_is_eq_ok)
next
  case SRTP_HMAC_SHA1
  then show ?thesis using assms
    by (auto simp: check_tag_def srtp_auth_compute_def auth_ok_def SRTP_MAX_TAG_LEN_def hmac_law_def srtp_octet_string_is_eq_ok split: option.split)
qed

lemma unprotect_auth_bounds:
  assumes "ctr_law cr" "hmac_law cr" "auth_ok (sk_rtp_auth keys)" "au_out_len (sk_rtp_auth keys) + mki_size \<le> len" "len \<le> length buf"
  shows "in_bounds (unprotect_auth cr stream keys iv est len mki_size buf)"
  using assms
  by (auto simp: unprotect_auth_def Let_def getr_ok dest: srtp_cipher_output_length intro!: check_tag_bounds split: option.split)


lemma receiving_stream_bounds:
  assumes inv: "session_inv ctx xs" and room: "indices_left ctx 2"
  shows "in_bounds (receiving_stream ctx ssrc seq)"
proof (cases "srtp_get_stream ctx ssrc")
  case None
  then show ?thesis by (simp add: receiving_stream_def split: option.split)
next
  case (Some i)
  let ?r = "st_rtp_rdbx (cx_stream_list ctx ! i)"
  note i = srtp_get_stream_Some [OF Some]
  have r0: "receiver_of ctx ssrc ?r" by (simp add: receiver_of_def Some)
  have n: "unat (rx_index ?r) < 2 ^ 48 - 2 ^ 16" using receiver_index [OF inv room _ r0] by simp
  have "(ssrc, ?r, st_pending_roc (cx_stream_list ctx ! i)) \<in> set (replay_states ctx)"
    using i by (auto intro!: image_eqI [of _ _ "cx_stream_list ctx ! i"])
  then have p: "st_pending_roc (cx_stream_list ctx ! i) = 0" using inv by (auto simp: session_inv_def)
  obtain delta est where e: "srtp_rdbx_estimate_index ?r seq = (delta, est)" by fastforce
  then show ?thesis using srtp_rdbx_check_verdict [OF session_receiver [OF inv r0] n e] p
    by (simp add: receiving_stream_def Some stream_at_def srtp_get_est_pkt_index_def Let_def)
qed

definition session_keys_ok :: "srtp_ctx \<Rightarrow> bool" where
  "session_keys_ok ctx \<longleftrightarrow> (\<forall>s \<in> set (cx_stream_list ctx) \<union> set_option (cx_stream_template ctx). keys_ok (st_session_keys s))"

lemma found_keys_ok:
  assumes "session_keys_ok ctx" "receiving_stream ctx ssrc seq = Inr (Inr (r, advance, est, delta))"
  shows "keys_ok (st_session_keys (stream_at ctx r))"
  using receiving_stream_found [OF assms(2)] assms(1) srtp_get_stream_Some [of ctx ssrc]
  by (auto simp: session_keys_ok_def stream_at_def)

lemma select_keys_ok:
  assumes ks: "keys_ok (st_session_keys stream)" and len: "12 \<le> len" "len \<le> length buf"
  obtains keys n where "(if m then srtp_get_session_keys_rtp stream buf len else Inr (Some (st_session_keys stream ! 0), 0)) = Inr (keys, n)"
    "case keys of None \<Rightarrow> True | Some k \<Rightarrow> auth_ok (sk_rtp_auth k) \<and> au_out_len (sk_rtp_auth k) + n \<le> len"
proof (cases m)
  case True
  let ?t = "au_out_len (sk_rtp_auth (st_session_keys stream ! 0))"
  have t: "?t \<le> 12" using keys_ok_first [OF ks] by (simp add: auth_ok_def)
  obtain r where r: "find_mki (st_session_keys stream) buf (len - ?t) = Inr r"
      "case r of (None, _) \<Rightarrow> True | (Some k, n) \<Rightarrow> k \<in> set (st_session_keys stream) \<and> n \<le> len - ?t"
    by (rule find_mki_bounds [of "len - ?t" buf "st_session_keys stream"]) (use len in linarith)
  obtain keys n where kn: "r = (keys, n)" by (rule prod.exhaust)
  have "\<not> len < ?t" using t len by simp
  then have "srtp_get_session_keys_rtp stream buf len = Inr (keys, n)"
    using r(1) by (simp add: srtp_get_session_keys_rtp_def srtp_get_session_keys_def kn)
  moreover have "auth_ok (sk_rtp_auth k) \<and> au_out_len (sk_rtp_auth k) + n \<le> len" if "keys = Some k" for k
  proof -
    have "k \<in> set (st_session_keys stream)" "n \<le> len - ?t" using r(2) that by (simp_all add: kn)
    moreover from this(1) have "auth_ok (sk_rtp_auth k)" "au_out_len (sk_rtp_auth k) = ?t" using keys_okD [OF ks] by blast+
    ultimately show ?thesis using t len by simp
  qed
  ultimately show thesis using True by (cases keys; intro that [of keys n]) simp_all
next
  case False
  moreover have "au_out_len (sk_rtp_auth (st_session_keys stream ! 0)) \<le> 12" using keys_ok_first [OF ks] by (simp add: auth_ok_def)
  ultimately show thesis using keys_ok_first [OF ks] len by (intro that [of "Some (st_session_keys stream ! 0)" 0]) simp_all
qed

lemma unprotect_check_bounds:
  assumes law: "ctr_law cr" "hmac_law cr" and inv: "session_inv ctx xs" "indices_left ctx 2" "session_keys_ok ctx" and len: "len \<le> length buf"
  shows "in_bounds (unprotect_check cr ctx buf len m)"
proof -
  have "in_bounds (bindr (if m then srtp_get_session_keys_rtp (stream_at ctx r) buf len else Inr (Some (st_session_keys (stream_at ctx r) ! 0), 0)) (\<lambda>(keys, mki_size).
        case keys of None \<Rightarrow> Inr (Inl srtp_err_status_bad_mki)
        | Some keys \<Rightarrow> bindr (crypt_start (stream_at ctx r) (take 12 buf) buf) (\<lambda>start.
            if (case start of None \<Rightarrow> False | Some st \<Rightarrow> len < st + au_out_len (sk_rtp_auth keys) + mki_size) then Inr (Inl srtp_err_status_parse_err)
            else bindr (unprotect_auth cr (stream_at ctx r) keys (rtp_iv (sk_rtp_cipher keys) (pkt_ssrc buf) est) est len mki_size buf) (\<lambda>status.
                 Inr (if status \<noteq> srtp_err_status_ok then Inl status else Inr ((r, advance, est, delta), keys, mki_size, start))))))"
    if valid: "srtp_validate_rtp_header buf len = Inr srtp_err_status_ok"
      and found: "receiving_stream ctx (pkt_ssrc buf) (pkt_seq buf) = Inr (Inr (r, advance, est, delta))" for r advance est delta
  proof -
    note v = validated_start [OF valid len]
    obtain start where start: "crypt_start (stream_at ctx r) (take 12 buf) buf = Inr start"
      using v(2) by (cases "has_conf (st_rtp_services (stream_at ctx r))") (auto simp: crypt_start_def)
    obtain keys n where k: "(if m then srtp_get_session_keys_rtp (stream_at ctx r) buf len else Inr (Some (st_session_keys (stream_at ctx r) ! 0), 0)) = Inr (keys, n)"
        "case keys of None \<Rightarrow> True | Some k \<Rightarrow> auth_ok (sk_rtp_auth k) \<and> au_out_len (sk_rtp_auth k) + n \<le> len"
      using select_keys_ok [OF found_keys_ok [OF inv(3) found] v(1) len] by blast
    show ?thesis unfolding k(1) using k(2) law len
      by (auto simp: start intro!: safe unprotect_auth_bounds split: option.split)
  qed
  moreover have "12 \<le> length buf" if "srtp_validate_rtp_header buf len = Inr srtp_err_status_ok"
    using validated_start(1) [OF that len] len by linarith
  ultimately show ?thesis unfolding unprotect_check_def Let_def using len
    by (auto simp: getr_eq_Inr intro!: in_bounds_bindr [OF srtp_validate_rtp_header_bounds] in_bounds_bindr [OF in_bounds_getr]
        in_bounds_bindr [OF receiving_stream_bounds [OF inv(1,2)]] split: sum.split prod.split)
qed

section \<open>Accepting\<close>

lemma rtp_crypt_bounds:
  assumes law: "ctr_law cr" and start: "crypt_start stream h buf = Inr start" "h = take 12 buf" and en: "en \<le> length buf" "case start of None \<Rightarrow> True | Some st \<Rightarrow> st \<le> en"
  shows "in_bounds (rtp_crypt cr stream keys iv pos h start en buf)"
proof (cases start)
  case (Some st)
  have st: "enc_start h buf = Inr st" using start(1) Some by (auto simp: crypt_start_def elim!: bindrE split: if_split_asm)
  have "in_bounds (srtp_process_header_encryption cr c iv stream (srtp_get_rtp_hdr_len h) buf)" if "hdr_x h" for c
    using st that en Some by (intro srtp_process_header_encryption_bounds [OF law, of _ _ st]) (simp_all add: enc_start_def Let_def)
  moreover have "in_bounds (bindr (getr b st (en - st)) (\<lambda>data. case srtp_cipher_encrypt cr (sk_rtp_cipher keys) iv pos data of
        None \<Rightarrow> Inr (srtp_err_status_cipher_fail, b) | Some data \<Rightarrow> bindr (put b st data) (\<lambda>buf. Inr (srtp_err_status_ok, buf))))"
    if "length b = length buf" for b
    using that en Some srtp_cipher_encrypt_inverse(1) [OF law] by (auto simp: getr_eq_Inr intro!: safe split: option.split)
  ultimately show ?thesis unfolding rtp_crypt_def Some
    by (auto intro!: safe dest!: srtp_process_header_encryption_length split: option.split if_split_asm option.split_asm)
qed (simp add: rtp_crypt_def)

lemma accept_packet_bounds:
  assumes inv: "session_inv ctx xs" and room: "indices_left ctx 2" and found: "receiving_stream ctx ssrc seq = Inr (Inr (r, advance, est, delta))"
  shows "in_bounds (accept_packet r ssrc advance est delta ctx)"
proof (cases "\<exists>r0. receiver_of ctx ssrc r0")
  case True
  then show ?thesis using accept_possible [OF inv room _ found] by (metis in_bounds_Inr)
next
  case False
  then have none: "srtp_get_stream ctx ssrc = None" by (cases "srtp_get_stream ctx ssrc") (simp_all add: receiver_of_def)
  then obtain t where t: "r = Template" "cx_stream_template ctx = Some t" using receiving_stream_found [OF found] by auto
  obtain e where e: "srtp_rdbx_init (srtp_rdbx_get_window_size (st_rtp_rdbx t)) = Inl e"
    using False none t by (cases "srtp_rdbx_init (srtp_rdbx_get_window_size (st_rtp_rdbx t))") (auto simp: receiver_of_def)
  have "template_window (check_direction dir_srtp_receiver Template ctx) = Some (srtp_rdbx_get_window_size (st_rtp_rdbx t))" using t by simp
  then have "srtp_rdbx_get_window_size (st_rtp_rdbx (stream_at (check_direction dir_srtp_receiver Template ctx) Template))
      = srtp_rdbx_get_window_size (st_rtp_rdbx t)" by (auto simp: stream_at_def simp del: check_direction_states)
  then show ?thesis using t e by (simp add: accept_packet_def srtp_stream_clone_def Let_def)
qed

lemma unprotect_apply_bounds:
  assumes law: "ctr_law cr" and inv: "session_inv ctx xs" "indices_left ctx 2" and len: "len \<le> length buf"
    and chk: "unprotect_check cr ctx buf len m = Inr (Inr ((r, advance, est, delta), keys, mki_size, start))"
  shows "in_bounds (unprotect_apply cr ctx buf len ((r, advance, est, delta), keys, mki_size, start))"
proof -
  note found = unprotect_check_found [OF chk]
  note v = validated_start [OF found(2) len]
  have start: "crypt_start (stream_at ctx r) (take 12 buf) buf = Inr start"
    "case start of None \<Rightarrow> True | Some st \<Rightarrow> st + au_out_len (sk_rtp_auth keys) + mki_size \<le> len"
    using chk unfolding unprotect_check_def Let_def
    by (auto simp: getr_eq_Inr not_less elim!: bindrE split: if_split_asm sum.split_asm option.split_asm prod.split_asm)
  then have st: "case start of None \<Rightarrow> True | Some st \<Rightarrow> st \<le> len - (au_out_len (sk_rtp_auth keys) + mki_size)" by (cases start) auto
  let ?c = "snd (use_key r (sk_limit keys) ctx)"
  have c: "session_inv ?c xs" "indices_left ?c 2" "receiving_stream ?c (pkt_ssrc buf) (pkt_seq buf) = Inr (Inr (r, advance, est, delta))"
    using session_inv_cong [OF _ _ inv(1), of ?c] inv(2) found(1) receiving_stream_cong [of ?c ctx] by (simp_all add: indices_left_def)
  obtain expired c where u: "use_key r (sk_limit keys) ctx = (expired, c)" by fastforce
  show ?thesis using v(1) len c u start(1) st law unfolding unprotect_apply_def Let_def
    by (auto simp: getr_ok intro!: safe rtp_crypt_bounds accept_packet_bounds [of c xs] split: prod.split)
qed

text \<open>C15: 
  Whatever the bytes of a packet are, a session that only receives handles it inside the memory it is given: the packet, the local array of the tag and the
  replay window. This needs tags that are not longer than a header and the same for all keys of a stream; longer ones are a
  matter of the policy, which the application sets.
\<close>

theorem srtp_unprotect_in_bounds:
  assumes "ctr_law cr" "hmac_law cr" "srtp_session cr ctx xs" "indices_left ctx 2" "session_keys_ok ctx" "len \<le> length buf"
  shows "in_bounds (srtp_unprotect_mki cr ctx buf len m)"
proof -
  note inv = srtp_session_inv [OF assms(3)] assms(4)
  have "in_bounds (unprotect_apply cr ctx buf len p)" if "unprotect_check cr ctx buf len m = Inr (Inr p)" for p
  proof -
    obtain r advance est delta keys mki_size start where "p = ((r, advance, est, delta), keys, mki_size, start)" by (metis prod.exhaust)
    then show ?thesis using unprotect_apply_bounds [OF assms(1) inv assms(6)] that by simp
  qed
  then show ?thesis unfolding srtp_unprotect_mki_def
    using unprotect_check_bounds [OF assms(1,2) inv assms(5,6)] by (auto intro!: safe split: sum.split)
qed

theorem srtp_unprotect_in_bounds_witness:
  "in_bounds (srtp_unprotect_mki example_crypto example_session (0x90 # replicate 15 0xFF) 16 True)"
proof (rule srtp_unprotect_in_bounds [OF example_laws(2,1)])
  show "srtp_session example_crypto example_session []"
    by (rule srtp_session.start [of _ example_stream]) (simp_all add: example_session_def example_stream_def srtp_rdbx_get_window_size_def)
qed (simp_all add: example_session_def indices_left_def session_keys_ok_def keys_ok_def auth_ok_def example_stream_def example_keys_def Let_def)
end
