(* ===== verification/Spec2Isabelle.thy ===== *)
theory Spec2Isabelle
  imports Const_Time Crc32 Base64 Hmac Stun_Integrity Turn_Runs Ice_Roundtrip Agent_Checks Server_Safety Mux_Runs Srtcp Srtp_Bounds
begin

text \<open>
  A verification of the C libraries by which the firmware reaches its peers and protects its media: the connectivity library (\<open>src/components/libjuice\<close>) and the
  secure transport of media (\<open>src/components/libdatachannel/deps/libsrtp\<close>).

  The firmware serves a web page and video over WebRTC. Its application code and \<open>libdatachannel\<close> are C++
  around vendored C libraries; the part written in C that decides how two peers reach each other is
  \<open>libjuice\<close>: it gathers addresses (candidates), exchanges them in SDP, checks pairs of them with STUN Binding
  requests, asks a TURN server to relay where no direct path works, and keeps the chosen pair alive.
  An agent (\<open>agent.c\<close>) owns two descriptions (\<open>ice.c\<close>), a table of candidate pairs and a table of STUN entries; it
  writes and reads packets with the STUN codec (\<open>stun.c\<close>), which authenticates them with the hash routines
  (\<open>hmac.c\<close>, \<open>hash.c\<close>, \<open>picohash.h\<close>, \<open>crc32.c\<close>, \<open>base64.c\<close>, \<open>const_time.c\<close>), and keeps a table of permissions and channels
  for each TURN server (\<open>turn.c\<close>). The library also contains such a server (\<open>server.c\<close>), which keeps one of these tables for each of its clients.
  Over the path that was found the video is sent as RTP packets, with RTCP packets beside them, which \<open>libsrtp\<close> encrypts and authenticates: a session has a stream for
  each source and a template for new ones (\<open>srtp/srtp.c\<close>), each stream has a replay database for RTP and one for RTCP (\<open>crypto/replay\<close>), session keys and
  limits for their use (\<open>crypto/kernel/key.c\<close>).

  \<^bold>\<open>How the theories correspond to the code.\<close>
  \<^item> \<open>Prelude\<close>: machine integers, buffers with out-of-range access as an error value, C strings, byte order.
  \<^item> \<open>Const_Time\<close>, \<open>Crc32\<close>, \<open>Base64\<close>: the files of these names. Shown: the comparisons compare, the table-driven checksum is
    the bit-serial one and detects a changed byte, encoding and decoding is a round trip up to the extra byte
    that the decoder produces.
  \<^item> \<open>Block_Hash\<close>, \<open>Md5\<close>, \<open>Sha1\<close>, \<open>Sha256\<close>, \<open>Hmac\<close>: \<open>picohash.h\<close> with its contexts and function pointers, \<open>hash.c\<close>, \<open>hmac.c\<close>. Shown:
    the streaming routines compute MD5 (RFC 1321), SHA-1 and SHA-256 (FIPS 180-4) and HMAC (RFC 2104). The locale in
    \<open>Block_Hash\<close> is the contract of a streaming hash.
  \<^item> \<open>Addr\<close>: \<open>addr.c\<close>. The locale \<open>hash_key\<close> is the contract of address comparison and hash that the TURN table rests on.
  \<^item> \<open>Stun\<close>, \<open>Stun_Write\<close>, \<open>Stun_Read\<close>, \<open>Stun_Roundtrip\<close>, \<open>Stun_Integrity\<close>: \<open>stun.c\<close>. Shown: the writer produces the wire format, the
    reader reads it back and never leaves the packet, an accepted integrity attribute is the HMAC of the packet
    under the key, and the receiver of a written packet accepts it.
  \<^item> \<open>Turn\<close>, \<open>Turn_Search\<close>, \<open>Turn_Table\<close>, \<open>Turn_Client\<close>, \<open>Turn_Runs\<close>: \<open>turn.c\<close>. The table is an open-addressing hash table with two
    arrays ordered by channel and by transaction id; the locale \<open>ordered_search\<close> is the contract of a binary search and is
    interpreted for both. \<open>Turn_Runs\<close> has the reachable tables of the server and of the agent as inductive predicates.
    Shown: lookups agree with a linear search, channels and peers are in bijection, permissions and bindings
    have their effect, transaction ids can be retrieved, arrays are not overrun.
  \<^item> \<open>Ice\<close>, \<open>Ice_Priority\<close>, \<open>Ice_Sdp\<close>, \<open>Ice_Roundtrip\<close>: \<open>ice.c\<close>. Shown: priorities follow RFC 8445, the sort is a stable sort, printed
    descriptions and candidates are read back.
  \<^item> \<open>Array_Sort\<close>: the insertion sort on arrays that \<open>ice.c\<close> and \<open>agent.c\<close> both contain; a locale with two interpretations.
  \<^item> \<open>Agent\<close>, \<open>Agent_Input\<close>, \<open>Agent_Book\<close>: \<open>agent.c\<close>, one definition per function: tables and timers, messages, bookkeeping and
    interface. Pointers are indices, so that a pointer into a description that is overwritten keeps pointing to the slot. The
    environment (clock, random bytes, results of sending, resolver) is a record of functions of the number of the
    use; what the agent sends and reports is a list in its state.
  \<^item> \<open>Agent_Timers\<close>: the order of pairs, the pacing and the schedule of retransmissions.
  \<^item> \<open>Agent_States\<close>, \<open>Agent_Runs\<close>: the operations that leave the connection state alone, as a relation with a collection of rules, and the runs of
    an agent as an inductive predicate. Shown: the reported states follow the state machine, the pairs are in order, a failed agent does not send.
  \<^item> \<open>Agent_Sends\<close>, \<open>Agent_Checks\<close>: what sending leaves alone, and the properties of connectivity checks. Shown: role conflicts between controlling agents are
    resolved (those between controlled ones are not), requests that are not authentic have no effect, and the agent fails when consent expires.
  \<^item> \<open>Server\<close>: \<open>server.c\<close>, the STUN and TURN server: allocations, credentials, nonces, dispatch, relaying, bookkeeping and the main loop, whose call of \<open>poll\<close> splits it in
    two operations. \<open>Stun_Shape\<close> has the shape of the messages it reads, \<open>Server_Runs\<close> the invariant of the tables and the runs, \<open>Server_Safety\<close> the
    properties: well-formed allocations whose tables are those of \<open>Turn_Runs\<close>, conserved quotas, authentication, relaying with permission only, expiry, and
    three defects (a division by zero, a pointer to freed credentials, allocations hidden by deleted entries).
  \<^item> \<open>Probing\<close>: linear probing, which the tables of the server and of the multiplexer share.
  \<^item> \<open>Mux\<close>, \<open>Mux_Map\<close>, \<open>Mux_Runs\<close>: \<open>conn_mux.c\<close> and the registry of \<open>conn.c\<close>: agents that share one socket, and the growing hash map from addresses to agents that
    says which of them a datagram is for. Shown: insertion, growth and removal refine the update and the restriction of a finite map, insertion ends, the map
    never names an agent that is gone.
  \<^item> \<open>Srtp_Bits\<close>: \<open>crypto/math/datatypes.c\<close> and \<open>crypto/include/datatypes.h\<close> of \<open>libsrtp\<close>: bit vectors as arrays of words, with a read or write outside of them as an error, and
    the comparison of tags. Shown: shifts and bit operations on the words are those on the bits, the comparison is equality.
  \<^item> \<open>Srtp_Replay\<close>, \<open>Srtp_Window\<close>: \<open>crypto/replay/rdb.c\<close>, \<open>crypto/replay/rdbx.c\<close> and \<open>crypto/kernel/key.c\<close>. The runs of a receiver are inductive predicates with the
    accepted indices. Shown: no index is accepted twice and the answers are those of a specification on the set of accepted indices, the estimate of an
    index is the closest one, when a key limit reports, and what setting the rollover counter does to the window.
  \<^item> \<open>Srtp\<close>: \<open>srtp/srtp.c\<close>, with the cipher and authentication modules that the build selects: headers and their encrypted extensions, MKIs, streams, indices, and protecting and
    unprotecting RTP and RTCP packets. A packet is a buffer and a length; a pointer to a stream is the template or a position in the list; key limits
    are in a store, because a stream shares them with its template. AES and HMAC of mbedTLS are a parameter, a record of two functions.
  \<^item> \<open>Srtp_Session\<close>, \<open>Srtp_Roundtrip\<close>, \<open>Srtcp\<close>: the properties of packets. Shown: sessions accept no packet twice, whatever arrives and whatever the parameter does; with the laws
    of the parameter (\<open>hmac_law\<close>, \<open>ctr_law\<close>) accepted packets are authentic, packets with another tag change nothing, and a protected packet is accepted and given back
    by a receiver with the same keys.
  \<^item> \<open>Srtp_Bounds\<close>: memory safety of the receiver. Shown: whatever packet arrives, \<open>srtp_unprotect_mki\<close> stays inside the packet, the local array of the tag and
    the replay window, when the tags of a stream have one length that is at most that of a header.

  \<^bold>\<open>Bounds and loops.\<close> Integers of the packet formats are words; \<open>size_t\<close> has 32 bits where its width matters;
  timestamps (64 bits of milliseconds) are integers. Loops are recursive functions with termination proofs, except
  those whose end depends on the environment: drawing a free channel or transaction id (a list of draws, with the
  theorem that a long enough list ends the loop) and the search for a transmission slot (a partial function, with the
  theorem that it returns).

  \<^bold>\<open>Not modelled.\<close> Failing allocations; locks and threads (an operation of the interface is one step); logging; system
  calls (\<open>udp.c\<close>, \<open>timestamp.c\<close>, the entropy of \<open>random.c\<close>), whose results are arguments. The other back ends of
  \<open>libjuice\<close> (\<open>conn_poll.c\<close>, \<open>conn_thread.c\<close>) and its public wrappers (\<open>juice.c\<close>) are left out. Of \<open>libsrtp\<close>: the derivation of session keys, the creation, update and removal
  of sessions and streams, policies, self tests, and what this build leaves out (AES-GCM, the variants for SSE and without 64-bit arithmetic, OpenSSL and NSS). The vendored SCTP library and the C++
  parts are outside the development.
\<close>

end
